(* ===== verification/XY_Prelude.thy ===== *)
theory XY_Prelude
  imports Main "HOL-Library.Word" "HOL-Library.Monad_Syntax"
begin

text \<open>
  Vocabulary shared by every component of the XY1100 firmware model: the machine integer
  types of the ARM Cortex-M3 target (\<^verbatim>\<open>char\<close> is one byte, \<^verbatim>\<open>int\<close> and \<^verbatim>\<open>long\<close> are 32 bits wide), the
  return codes of \<^verbatim>\<open>xy_utils.h\<close>, and generic lemmas on lists, list updates and division that
  the component theories use. A C function that may stop the chip through \<^verbatim>\<open>xy_assert\<close>
  returns an \<open>option\<close>: \<open>None\<close> is the failed assertion, after which \<^verbatim>\<open>sys_assert_proc\<close> never
  returns to the caller.
\<close>

section \<open>Machine integers\<close>

type_synonym u8 = "8 word"
type_synonym u16 = "16 word"
type_synonym u32 = "32 word"
type_synonym u64 = "64 word"

text \<open>The return codes of \<^verbatim>\<open>xy_ret_Status_t\<close> the modelled code uses.\<close>

datatype xy_ret = XY_OK | XY_ERR | XY_Err_LowVbat

text \<open>\<^verbatim>\<open>xy_assert(a)\<close>: continue when the condition holds, otherwise the chip stops.\<close>

definition xy_assert :: "bool \<Rightarrow> unit option" where
  "xy_assert b = (if b then Some () else None)"

lemma xy_assert_simps [simp]:
  "xy_assert True = Some ()"
  "xy_assert False = None"
  "xy_assert b = Some u \<longleftrightarrow> b"
  "xy_assert b = None \<longleftrightarrow> \<not> b"
  by (auto simp: xy_assert_def)

section \<open>Collections of facts\<close>

text \<open>
  \<open>c_string\<close> collects the laws of the C string operations; \<open>scan_simps\<close> the ones of the
  character scanners built on them.
\<close>

named_theorems c_string
named_theorems scan_simps

section \<open>Lists\<close>

lemma list_update_restore [simp]: "i < length xs \<Longrightarrow> xs[i := y, i := xs ! i] = xs"
  by simp

lemma list_update_same_value: "xs ! i = y \<Longrightarrow> xs[i := y] = xs"
  by (metis list_update_id)

lemma takeWhile_take_upto:
  assumes "i \<le> length (takeWhile P xs)"
  shows "takeWhile P (take i xs) = take i xs"
proof -
  have "take i xs = take i (takeWhile P xs)"
    using assms by (metis take_append takeWhile_dropWhile_id diff_is_0_eq' take0 append_Nil2)
  then show ?thesis
    by (metis set_takeWhileD in_set_takeD takeWhile_eq_all_conv)
qed

lemma takeWhile_update_stop:
  assumes "i \<le> length (takeWhile P xs)" and "i < length xs" and "\<not> P y"
  shows "takeWhile P (xs[i := y]) = take i (takeWhile P xs)"
proof -
  have split: "xs[i := y] = take i xs @ y # drop (Suc i) xs"
    using assms(2) by (rule upd_conv_take_nth_drop)
  have pre: "take i xs = take i (takeWhile P xs)"
    using assms(1) by (metis take_append takeWhile_dropWhile_id diff_is_0_eq' take0 append_Nil2)
  have "\<forall>x \<in> set (take i xs). P x"
    unfolding pre by (meson in_set_takeD set_takeWhileD)
  then show ?thesis
    unfolding split using assms(3) pre by (simp add: takeWhile_append)
qed

lemma takeWhile_drop_inside:
  "i \<le> length (takeWhile P xs) \<Longrightarrow> takeWhile P (drop i xs) = drop i (takeWhile P xs)"
proof (induction xs arbitrary: i)
  case Nil
  then show ?case by simp
next
  case (Cons x xs)
  then show ?case by (cases i) (auto split: if_splits)
qed

lemma nth_drop_of: "i < length xs \<Longrightarrow> xs ! i = hd (drop i xs)"
  by (simp add: hd_drop_conv_nth)

lemma drop_update_below: "i < n \<Longrightarrow> drop n (xs[i := y]) = drop n xs"
  by simp

lemma foldl_decimal_snoc:
  "foldl (\<lambda>a d. 10 * a + d) (x::int) (ds @ [d]) = 10 * foldl (\<lambda>a d. 10 * a + d) x ds + d"
  by simp

section \<open>Division and bounds\<close>

lemma div_mod_bounds:
  fixes n k :: nat
  assumes "0 < k"
  shows "k * (n div k) \<le> n" and "n < k * (n div k) + k"
  using assms by (simp_all add: div_times_less_eq_dividend mult.commute)
    (metis add.commute dividend_less_div_times mult.commute)

text \<open>Words that count things.\<close>

lemma u32_less_of_nat: "a < 4294967296 \<Longrightarrow> b < 4294967296 \<Longrightarrow> (of_nat a :: u32) < of_nat b \<longleftrightarrow> a < b"
  by (simp add: word_less_nat_alt unat_of_nat)

lemma u32_of_nat_eq: "a < 4294967296 \<Longrightarrow> b < 4294967296 \<Longrightarrow> (of_nat a :: u32) = of_nat b \<longleftrightarrow> a = b"
  by (simp add: word_unat_eq_iff unat_of_nat)

lemma unat_u32_of_nat: "a < 4294967296 \<Longrightarrow> unat (of_nat a :: u32) = a"
  by (simp add: unat_of_nat)

end
