(* ===== verification/C_Library.thy ===== *)
theory C_Library
  imports XY_Prelude
begin

text \<open>
  The part of the C standard library (\<^verbatim>\<open>string.h\<close>, \<^verbatim>\<open>ctype.h\<close>, \<^verbatim>\<open>strtol\<close>) that the firmware's
  text code relies on, over an explicit byte buffer. A buffer is a list of characters, a
  \<^verbatim>\<open>char *\<close> into it is an index, and a C string starts at its pointer and ends before the
  first NUL. Reading past the end of the buffer, undefined in C, reads NUL here and writing
  there changes nothing; the theorems that depend on it assume a terminated string.
\<close>

section \<open>Characters\<close>

abbreviation NUL :: char where "NUL \<equiv> CHR 0x00"
abbreviation LF :: char where "LF \<equiv> CHR 0x0A"
abbreviation CR :: char where "CR \<equiv> CHR 0x0D"
abbreviation SPACE :: char where "SPACE \<equiv> CHR 0x20"
abbreviation QUOTE :: char where "QUOTE \<equiv> CHR 0x22"
abbreviation COMMA :: char where "COMMA \<equiv> CHR 0x2C"
abbreviation BACKSLASH :: char where "BACKSLASH \<equiv> CHR 0x5C"

definition code :: "char \<Rightarrow> nat" where
  "code c = of_char c"

lemma code_inj [simp]: "code c = code d \<longleftrightarrow> c = d"
  by (simp add: code_def)

definition isdigit :: "char \<Rightarrow> bool" where
  "isdigit c = (48 \<le> code c \<and> code c \<le> 57)"

definition isupper :: "char \<Rightarrow> bool" where
  "isupper c = (65 \<le> code c \<and> code c \<le> 90)"

definition islower :: "char \<Rightarrow> bool" where
  "islower c = (97 \<le> code c \<and> code c \<le> 122)"

definition isalpha :: "char \<Rightarrow> bool" where
  "isalpha c = (isupper c \<or> islower c)"

definition isspace :: "char \<Rightarrow> bool" where
  "isspace c = (code c = 32 \<or> 9 \<le> code c \<and> code c \<le> 13)"

section \<open>C strings in a buffer\<close>

type_synonym memory = "char list"

definition peek :: "memory \<Rightarrow> nat \<Rightarrow> char" where
  "peek m p = (if p < length m then m ! p else NUL)"

definition cstr :: "memory \<Rightarrow> nat \<Rightarrow> string" where
  "cstr m p = takeWhile (\<lambda>c. c \<noteq> NUL) (drop p m)"

definition strlen :: "memory \<Rightarrow> nat \<Rightarrow> nat" where
  "strlen m p = length (cstr m p)"

text \<open>The string at \<open>p\<close> ends inside the buffer.\<close>

definition terminated :: "memory \<Rightarrow> nat \<Rightarrow> bool" where
  "terminated m p = (NUL \<in> set (drop p m))"

fun index_of :: "char \<Rightarrow> string \<Rightarrow> nat option" where
  "index_of c [] = None"
| "index_of c (x # xs) = (if x = c then Some 0 else map_option Suc (index_of c xs))"

fun last_index_of :: "char \<Rightarrow> string \<Rightarrow> nat option" where
  "last_index_of c [] = None"
| "last_index_of c (x # xs) =
     (case last_index_of c xs of Some i \<Rightarrow> Some (Suc i)
      | None \<Rightarrow> if x = c then Some 0 else None)"

fun find_sub :: "string \<Rightarrow> string \<Rightarrow> nat option" where
  "find_sub pat [] = (if pat = [] then Some 0 else None)"
| "find_sub pat (x # xs) =
     (if take (length pat) (x # xs) = pat then Some 0 else map_option Suc (find_sub pat xs))"

text \<open>\<^verbatim>\<open>strchr\<close> and \<^verbatim>\<open>strrchr\<close> return a pointer into the buffer, \<open>None\<close> for \<^verbatim>\<open>NULL\<close>.\<close>

definition strchr :: "memory \<Rightarrow> nat \<Rightarrow> char \<Rightarrow> nat option" where
  "strchr m p c = map_option ((+) p) (index_of c (cstr m p))"

definition strrchr :: "memory \<Rightarrow> nat \<Rightarrow> char \<Rightarrow> nat option" where
  "strrchr m p c = map_option ((+) p) (last_index_of c (cstr m p))"

definition strstr :: "memory \<Rightarrow> nat \<Rightarrow> string \<Rightarrow> nat option" where
  "strstr m p pat = map_option ((+) p) (find_sub pat (cstr m p))"

text \<open>\<^verbatim>\<open>while (*p == ' ') p++;\<close> on a string value and on a pointer.\<close>

abbreviation skip_spaces :: "string \<Rightarrow> string" where
  "skip_spaces s \<equiv> dropWhile (\<lambda>c. c = SPACE) s"

definition skip_ptr :: "(char \<Rightarrow> bool) \<Rightarrow> memory \<Rightarrow> nat \<Rightarrow> nat" where
  "skip_ptr P m p = p + length (takeWhile P (drop p m))"

section \<open>Decimal numbers\<close>

definition dec_val :: "string \<Rightarrow> int" where
  "dec_val ds = foldl (\<lambda>a c. 10 * a + (int (code c) - 48)) 0 ds"

text \<open>\<^verbatim>\<open>strtol(s, NULL, 10)\<close> with a 32-bit \<^verbatim>\<open>long\<close>: it saturates.\<close>

definition long_max :: int where "long_max = 2147483647"
definition long_min :: int where "long_min = -2147483648"

definition strtol10 :: "string \<Rightarrow> int" where
  "strtol10 s =
     (let t = dropWhile isspace s;
          neg = (t \<noteq> [] \<and> hd t = CHR ''-'');
          u = (if t \<noteq> [] \<and> (hd t = CHR ''-'' \<or> hd t = CHR ''+'') then tl t else t);
          v = dec_val (takeWhile isdigit u);
          w = (if neg then - v else v)
      in max long_min (min long_max w))"

lemma strtol10_range: "long_min \<le> strtol10 s \<and> strtol10 s \<le> long_max"
  by (simp add: strtol10_def long_max_def long_min_def Let_def)

section \<open>Laws of the string operations\<close>

lemma index_of_None [c_string]: "index_of c s = None \<longleftrightarrow> c \<notin> set s"
  by (induction s) auto

lemma index_of_Some:
  "index_of c s = Some i \<longleftrightarrow> i < length s \<and> s ! i = c \<and> c \<notin> set (take i s)"
proof (induction s arbitrary: i)
  case Nil
  then show ?case by simp
next
  case (Cons x xs)
  show ?case
  proof (cases i)
    case 0
    then show ?thesis by auto
  next
    case (Suc j)
    then show ?thesis using Cons.IH [of j] by auto
  qed
qed

lemma index_of_append [c_string]:
  "c \<notin> set xs \<Longrightarrow> index_of c (xs @ c # ys) = Some (length xs)"
  by (simp add: index_of_Some nth_append)

lemma last_index_of_None [c_string]: "last_index_of c s = None \<longleftrightarrow> c \<notin> set s"
  by (induction s) (auto split: option.splits)

lemma last_index_of_Some:
  "last_index_of c s = Some i \<Longrightarrow> i < length s \<and> s ! i = c \<and> c \<notin> set (drop (Suc i) s)"
proof (induction s arbitrary: i)
  case Nil
  then show ?case by simp
next
  case (Cons x xs)
  show ?case
  proof (cases "last_index_of c xs")
    case None
    then have "c \<notin> set xs" by (simp add: last_index_of_None)
    then show ?thesis using None Cons.prems by (auto split: if_splits)
  next
    case (Some j)
    then show ?thesis using Cons.prems Cons.IH [of j] by auto
  qed
qed

lemma cstr_no_NUL: "NUL \<notin> set (cstr m p)"
  by (auto simp: cstr_def dest: set_takeWhileD)

lemma cstr_nth: "i < length (cstr m p) \<Longrightarrow> cstr m p ! i = m ! (p + i) \<and> p + i < length m"
  unfolding cstr_def using length_takeWhile_le [of "\<lambda>c. c \<noteq> NUL" "drop p m"]
  by (auto simp: takeWhile_nth)

lemma cstr_shift: "i \<le> length (cstr m p) \<Longrightarrow> cstr m (p + i) = drop i (cstr m p)"
  unfolding cstr_def by (simp add: takeWhile_drop_inside [symmetric] add.commute)

lemma strlen_le: "strlen m p \<le> length m"
proof -
  have "strlen m p \<le> length (drop p m)"
    unfolding strlen_def cstr_def by (rule length_takeWhile_le)
  then show ?thesis by simp
qed

lemma strchr_Some:
  assumes "strchr m p c = Some q"
  shows "p \<le> q" "q < length m" "m ! q = c" "q - p < length (cstr m p)"
    "c \<notin> set (take (q - p) (cstr m p))"
  using assms cstr_nth [of "q - p" m p]
  by (auto simp: strchr_def index_of_Some)

lemma strrchr_Some:
  assumes "strrchr m p c = Some q"
  shows "p \<le> q" "q < length m" "m ! q = c" "q - p < length (cstr m p)"
  using assms last_index_of_Some [of c "cstr m p" "q - p"] cstr_nth [of "q - p" m p]
  by (auto simp: strrchr_def)

lemma strchr_None [c_string]: "strchr m p c = None \<longleftrightarrow> c \<notin> set (cstr m p)"
  by (simp add: strchr_def index_of_None)

text \<open>Overwriting a found separator with NUL cuts the string there.\<close>

lemma cstr_cut:
  assumes "q - p \<le> length (cstr m p)" and "p \<le> q" and "q < length m"
  shows "cstr (m[q := NUL]) p = take (q - p) (cstr m p)"
proof -
  have "drop p (m[q := NUL]) = (drop p m)[q - p := NUL]"
    using assms(2) by (simp add: drop_update_swap)
  then show ?thesis
    using assms unfolding cstr_def by (subst takeWhile_update_stop [symmetric]) auto
qed

lemma cstr_update_before: "q < p \<Longrightarrow> cstr (m[q := c]) p = cstr m p"
  by (simp add: cstr_def)

lemma cstr_of_append:
  "NUL \<notin> set s \<Longrightarrow> length pre = p \<Longrightarrow> cstr (pre @ s @ NUL # rest) p = s"
  by (auto simp: cstr_def takeWhile_append)

section \<open>Printing a decimal number\<close>

text \<open>\<^verbatim>\<open>%d\<close> of \<^verbatim>\<open>sprintf\<close>.\<close>

definition digit_char :: "nat \<Rightarrow> char" where
  "digit_char d = char_of (48 + d)"

fun dec_digits :: "nat \<Rightarrow> string" where
  "dec_digits n = (if n < 10 then [digit_char n] else dec_digits (n div 10) @ [digit_char (n mod 10)])"

declare dec_digits.simps [simp del]

definition show_dec :: "int \<Rightarrow> string" where
  "show_dec v = (if v < 0 then CHR ''-'' # dec_digits (nat (- v)) else dec_digits (nat v))"

lemma code_char_of: "n < 256 \<Longrightarrow> code (char_of n) = n"
  by (simp add: code_def)

lemma code_digit_char: "d < 10 \<Longrightarrow> code (digit_char d) = 48 + d"
  by (simp add: digit_char_def code_char_of)

lemma dec_digits_isdigit: "c \<in> set (dec_digits n) \<Longrightarrow> isdigit c"
proof (induction n rule: dec_digits.induct)
  case (1 n)
  show ?case
  proof (cases "n < 10")
    case True
    with 1 show ?thesis by (subst (asm) dec_digits.simps) (simp add: isdigit_def code_digit_char)
  next
    case False
    with 1 show ?thesis
      by (subst (asm) dec_digits.simps) (auto simp: isdigit_def code_digit_char)
  qed
qed

lemma dec_digits_nonempty [simp]: "dec_digits n \<noteq> []"
  by (subst dec_digits.simps) simp

lemma dec_val_digits: "dec_val (dec_digits n) = int n"
proof (induction n rule: dec_digits.induct)
  case (1 n)
  show ?case
  proof (cases "n < 10")
    case True
    then show ?thesis by (subst dec_digits.simps) (simp add: dec_val_def code_digit_char)
  next
    case False
    then have "dec_val (dec_digits n) = 10 * dec_val (dec_digits (n div 10)) + int (n mod 10)"
      by (subst dec_digits.simps) (simp add: dec_val_def code_digit_char)
    with 1 False show ?thesis by (simp add: zdiv_int zmod_int)
  qed
qed

lemma isdigit_not [simp]:
  "isdigit c \<Longrightarrow> c \<noteq> SPACE" "isdigit c \<Longrightarrow> c \<noteq> COMMA" "isdigit c \<Longrightarrow> c \<noteq> QUOTE"
  "isdigit c \<Longrightarrow> c \<noteq> CR" "isdigit c \<Longrightarrow> c \<noteq> NUL" "isdigit c \<Longrightarrow> c \<noteq> CHR ''-''"
  "isdigit c \<Longrightarrow> c \<noteq> CHR ''+''" "isdigit c \<Longrightarrow> c \<noteq> CHR '')''" "isdigit c \<Longrightarrow> c \<noteq> CHR ''(''"
  "isdigit c \<Longrightarrow> c \<noteq> CHR ''[''" "isdigit c \<Longrightarrow> c \<noteq> CHR '']''" "isdigit c \<Longrightarrow> c \<noteq> CHR ''%''"
  "isdigit c \<Longrightarrow> \<not> isspace c"
  by (auto simp: isdigit_def isspace_def code_def)

lemma show_dec_chars:
  "c \<in> set (show_dec v) \<Longrightarrow> isdigit c \<or> c = CHR ''-''"
  by (auto simp: show_dec_def dest: dec_digits_isdigit split: if_splits)

lemma show_dec_clean:
  "COMMA \<notin> set (show_dec v)" "QUOTE \<notin> set (show_dec v)" "CR \<notin> set (show_dec v)"
  "NUL \<notin> set (show_dec v)" "SPACE \<notin> set (show_dec v)" "CHR ''('' \<notin> set (show_dec v)"
  "CHR '')'' \<notin> set (show_dec v)" "CHR ''['' \<notin> set (show_dec v)" "CHR '']'' \<notin> set (show_dec v)"
  by (auto dest!: show_dec_chars simp: isdigit_def code_def)

lemma show_dec_nonempty [simp]: "show_dec v \<noteq> []"
  by (simp add: show_dec_def)

lemma takeWhile_digits: "takeWhile isdigit (dec_digits n) = dec_digits n"
  by (simp add: takeWhile_eq_all_conv dec_digits_isdigit)

lemma hd_dec_digits: "isdigit (hd (dec_digits n))"
  using dec_digits_isdigit [OF hd_in_set] by simp

lemma dropWhile_hd: "xs \<noteq> [] \<Longrightarrow> \<not> P (hd xs) \<Longrightarrow> dropWhile P xs = xs"
  by (cases xs) auto

lemma strtol10_digits_prefix:
  assumes "rest = [] \<or> \<not> isdigit (hd rest)"
  shows "strtol10 (dec_digits n @ rest) = min long_max (int n)"
proof -
  have h: "hd (dec_digits n @ rest) = hd (dec_digits n)" by simp
  have tw: "takeWhile isdigit (dec_digits n @ rest) = dec_digits n"
    using assms by (cases rest) (auto simp: takeWhile_append dec_digits_isdigit)
  have "dropWhile isspace (dec_digits n @ rest) = dec_digits n @ rest"
    using hd_dec_digits [of n] by (intro dropWhile_hd) auto
  then show ?thesis
    using hd_dec_digits [of n] tw
    by (auto simp: strtol10_def Let_def h dec_val_digits long_min_def long_max_def)
qed

lemma strtol10_show_dec:
  assumes "long_min \<le> v" "v \<le> long_max"
  shows "strtol10 (show_dec v) = v"
proof (cases "v < 0")
  case True
  then show ?thesis
    using assms
    by (auto simp: strtol10_def show_dec_def Let_def isspace_def code_def takeWhile_digits
        dec_val_digits long_min_def long_max_def)
next
  case False
  then show ?thesis
    using assms strtol10_digits_prefix [of "[]" "nat v"] by (simp add: show_dec_def)
qed

end
