(* ===== verification/At_Utils.thy ===== *)
theory At_Utils
  imports C_Library
begin

text \<open>
  \<^verbatim>\<open>SYSAPP/at_ctrl/src/at_utils.c\<close>: the character and string helpers of the AT command
  subsystem. Functions that only read their string take it as a string value; the ones that
  write into it (\<^verbatim>\<open>format_escape_char\<close>) take the buffer and a pointer.
\<close>

section \<open>Comparison without case\<close>

text \<open>One character as the comparison reads it: \<^verbatim>\<open>'A'..'Z'\<close> moved by \<^verbatim>\<open>DIFF_VALUE\<close>.\<close>

definition lower_code :: "char \<Rightarrow> nat" where
  "lower_code c = (if isupper c then code c + 32 else code c)"

fun head_code :: "string \<Rightarrow> nat" where
  "head_code [] = 0"
| "head_code (c # _) = lower_code c"

function strcase_loop :: "string \<Rightarrow> string \<Rightarrow> int" where
  "strcase_loop s1 s2 =
     (let ch1 = head_code s1; ch2 = head_code s2
      in if ch1 \<noteq> 0 \<and> ch1 = ch2 then strcase_loop (tl s1) (tl s2) else int ch1 - int ch2)"
  by pat_completeness auto
termination
proof (relation "measure (\<lambda>(s1, s2). length s1)", goal_cases)
  case 1
  show ?case by simp
next
  case (2 s1 s2 ch1 ch2)
  then show ?case by (cases s1) auto
qed

definition at_strcasecmp :: "string option \<Rightarrow> string option \<Rightarrow> int" where
  "at_strcasecmp s1 s2 =
     (case (s1, s2) of (Some a, Some b) \<Rightarrow> strcase_loop a b | _ \<Rightarrow> -1)"

fun strncase_loop :: "string \<Rightarrow> string \<Rightarrow> nat \<Rightarrow> int" where
  "strncase_loop s1 s2 0 = 0"
| "strncase_loop s1 s2 (Suc n) =
     (let ch1 = head_code s1; ch2 = head_code s2
      in if n \<noteq> 0 \<and> ch1 \<noteq> 0 \<and> ch1 = ch2 then strncase_loop (tl s1) (tl s2) n
         else int ch1 - int ch2)"

definition at_strncasecmp :: "string option \<Rightarrow> string option \<Rightarrow> int \<Rightarrow> int" where
  "at_strncasecmp s1 s2 n =
     (if s1 = None \<or> s2 = None \<or> n < 0 then -1
      else if n = 0 then 0
      else strncase_loop (the s1) (the s2) (nat n))"

declare strcase_loop.simps [simp del]

section \<open>Searching\<close>

definition at_strstr :: "string \<Rightarrow> string \<Rightarrow> nat option" where
  "at_strstr source substr = find_sub substr source"

text \<open>The character after the match.\<close>

definition at_strstr2 :: "string \<Rightarrow> string \<Rightarrow> nat option" where
  "at_strstr2 source substr = map_option (\<lambda>h. h + length substr) (at_strstr source substr)"

text \<open>\<open>at_strnstr\<close> searches the first \<open>n\<close> bytes only, through a NUL-terminated copy.\<close>

definition at_strnstr :: "memory \<Rightarrow> nat \<Rightarrow> string \<Rightarrow> nat \<Rightarrow> nat option" where
  "at_strnstr m source substr n =
     map_option (\<lambda>r. source + r + length substr)
       (find_sub substr (cstr (take n (drop source m) @ [NUL]) 0))"

text \<open>The \<open>n\<close>-th occurrence of a character; the loop also looks at the terminating NUL.\<close>

fun strnchr_loop :: "string \<Rightarrow> char \<Rightarrow> int \<Rightarrow> int \<Rightarrow> nat option" where
  "strnchr_loop [] c n i = None"
| "strnchr_loop (x # xs) c n i =
     (let i' = (if x = c then i + 1 else i)
      in if x = c \<and> i' = n then Some 0 else map_option Suc (strnchr_loop xs c n i'))"

definition at_strnchr :: "string \<Rightarrow> char \<Rightarrow> int \<Rightarrow> nat option" where
  "at_strnchr s c n = strnchr_loop (s @ [NUL]) c n 0"

section \<open>Numbers in text\<close>

definition is_digit_str :: "string \<Rightarrow> bool" where
  "is_digit_str str =
     (let s1 = skip_spaces str;
          s2 = (if s1 \<noteq> [] \<and> hd s1 = CHR ''-'' then tl s1 else s1);
          digit_len = length (takeWhile isdigit s2);
          s3 = skip_spaces (dropWhile isdigit s2)
      in s3 = [] \<and> digit_len > 0)"

definition isHexChar :: "char \<Rightarrow> bool" where
  "isHexChar ch = (isdigit ch \<or> (97 \<le> code ch \<and> code ch \<le> 102) \<or> (65 \<le> code ch \<and> code ch \<le> 70))"

text \<open>
  \<open>covertHextoNum\<close> (the source's spelling): the value of a hexadecimal digit. The result is a
  \<^verbatim>\<open>char\<close>; letters outside \<^verbatim>\<open>A..F\<close> are not excluded here, the callers test before.
\<close>

definition covertHextoNum :: "char \<Rightarrow> nat" where
  "covertHextoNum ch =
     (if isalpha ch then (if isupper ch then code ch - 55 else code ch - 87)
      else if isdigit ch then code ch - 48 else 0)"

definition isOctChar :: "char \<Rightarrow> bool" where
  "isOctChar ch = (48 \<le> code ch \<and> code ch \<le> 55)"

text \<open>
  \<open>hexstr2int\<close>: \<^verbatim>\<open>"0XA358"\<close> to its value, \<open>None\<close> for \<^verbatim>\<open>XY_ERR\<close> (nothing is stored then).
  At most eight digits are read; the rest is checked but ignored.
\<close>

definition hex_in_range :: "char \<Rightarrow> bool" where
  "hex_in_range c =
     (\<not> (code c < 48 \<or> (57 < code c \<and> code c < 65) \<or> (70 < code c \<and> code c < 97) \<or> 102 < code c))"

definition hex_step :: "u32 \<Rightarrow> char \<Rightarrow> u32" where
  "hex_step val c = val * 16 + of_nat (covertHextoNum c)"

definition hexstr2int :: "string \<Rightarrow> u32 option" where
  "hexstr2int hex =
     (if take 2 hex = ''0x'' \<or> take 2 hex = ''0X'' then
        (let h = drop 2 hex; len = length h; i = length (takeWhile hex_in_range h)
         in if i < len then None else Some (foldl hex_step 0 (take 8 h)))
      else None)"

section \<open>Recognising replies\<close>

definition at_err_heads :: "string list" where
  "at_err_heads = [''+CME ERROR:'', ''+CIS ERROR:'', ''+CMS ERROR:'', ''ERROR'' @ [CR, LF], ''+CTLW ERROR:'']"

definition starts_nocase :: "string \<Rightarrow> string \<Rightarrow> bool" where
  "starts_nocase str pat = (at_strncasecmp (Some str) (Some pat) (int (length pat)) = 0)"

text \<open>
  \<open>at_is_rsp_err\<close> returns whether the string is an error reply and the error number it stores
  through \<^verbatim>\<open>err_no\<close> (\<open>None\<close> when it stores nothing); \<open>want\<close> says that \<^verbatim>\<open>err_no\<close> is not \<^verbatim>\<open>NULL\<close>
  and \<open>cmee_mode\<close> is the NV setting. The NUL it writes over the final CR is undone before
  it returns. A number of the firmware's own is replaced in the string by its public number; \<open>rsp_err_text\<close> is
  what is then in the buffer.
\<close>

definition rsp_err_number :: "string \<Rightarrow> nat \<Rightarrow> int option" where
  "rsp_err_number str temp =
     (if temp < length str \<and> str ! temp \<noteq> CR then
        (let num_first = skip_spaces (drop (temp + 1) str);
             num = takeWhile (\<lambda>c. c \<noteq> CR) num_first
         in if is_digit_str num then Some (strtol10 num) else None)
      else None)"

definition at_is_rsp_err :: "nat \<Rightarrow> bool \<Rightarrow> string \<Rightarrow> bool \<times> int option" where
  "at_is_rsp_err cmee_mode want s =
     (let str = dropWhile (\<lambda>c. c = CR \<or> c = LF) s in
      if \<forall>h \<in> set at_err_heads. \<not> starts_nocase str h then (False, None)
      else case at_strstr str ''ERROR'' of
        None \<Rightarrow> (False, None)
      | Some err_head \<Rightarrow>
          if cmee_mode = 2 then (True, None)
          else (case index_of CR (drop err_head str) of
            None \<Rightarrow> (False, None)
          | Some d \<Rightarrow>
              if d > 40 then (False, None)
              else (let tag0 = (if err_head > 10 then err_head - 10 else 0);
                        head_tag = tag0 + the (index_of CR (drop tag0 str))
                    in if head_tag > err_head \<and> err_head > 7 then (False, None)
                       else (True, if want then rsp_err_number str (err_head + 5) else None))))"

definition at_error_num_table :: "(int \<times> int) list" where
  "at_error_num_table =
     [(8000, 308), (8001, 50), (8002, 3), (8003, 25), (8004, 126), (8005, 301), (8006, 301), (8007, 302), (8008, 303),
      (8009, 30), (8010, 301), (8011, 30), (8012, 301), (8013, 60)]"

definition get_at_err_num :: "int \<Rightarrow> int" where
  "get_at_err_num n = (case map_of at_error_num_table n of None \<Rightarrow> -1 | Some k \<Rightarrow> k)"

definition rsp_err_text :: "nat \<Rightarrow> string \<Rightarrow> string" where
  "rsp_err_text cmee_mode s =
     (case snd (at_is_rsp_err cmee_mode True s) of
        None \<Rightarrow> s
      | Some n \<Rightarrow>
          if n < 8000 \<or> 8013 < n then s
          else
            let str = dropWhile (\<lambda>c. c = CR \<or> c = LF) s;
                num_first = skip_spaces (drop (the (at_strstr str ''ERROR'') + 6) str)
            in take (length s - length num_first) s @ show_dec (get_at_err_num n) @ [CR, LF])"

definition is_ok_at :: "string \<Rightarrow> bool" where
  "is_ok_at str =
     (case at_strstr str (''OK'' @ [CR]) of
        None \<Rightarrow> False
      | Some h \<Rightarrow> h = 0 \<or> (h \<ge> 2 \<and> str ! (h - 1) = LF \<and> str ! (h - 2) = CR))"

text \<open>
  \<^verbatim>\<open>is_user_result_hook\<close> of \<^verbatim>\<open>USERAPP/basic/src/xy_sys_hook.c\<close>; \<open>user_care\<close> is the build switch
  \<^verbatim>\<open>USER_CARE\<close>. The number is the one stored through \<^verbatim>\<open>at_rsp_no\<close>.
\<close>

definition is_user_result_hook :: "bool \<Rightarrow> bool \<Rightarrow> string \<Rightarrow> bool \<times> int option" where
  "is_user_result_hook user_care want str =
     (if user_care \<and> at_strstr str ''+USER:'' \<noteq> None
      then (True, if want \<and> at_strstr str ''OK'' \<noteq> None then Some 0 else None)
      else (False, None))"

definition is_result_at :: "nat \<Rightarrow> bool \<Rightarrow> bool \<Rightarrow> string \<Rightarrow> bool \<times> int option" where
  "is_result_at cmee_mode user_care want str =
     (if is_ok_at str then (True, if want then Some 0 else None)
      else let e = at_is_rsp_err cmee_mode want str in
        if fst e then e else is_user_result_hook user_care want str)"

definition at_ok_build :: string where
  "at_ok_build = [CR, LF] @ ''OK'' @ [CR, LF]"

definition is_at_char :: "char \<Rightarrow> bool" where
  "is_at_char c = ((32 \<le> code c \<and> code c \<le> 126) \<or> c = CR \<or> c = LF)"

text \<open>\<open>vary_to_uppercase\<close> changes the command name, up to the first \<^verbatim>\<open>= ? : CR\<close>.\<close>

definition to_upper :: "char \<Rightarrow> char" where
  "to_upper c = (if islower c then char_of (code c - 32) else c)"

fun upper_loop :: "string \<Rightarrow> string" where
  "upper_loop [] = []"
| "upper_loop (c # cs) =
     (if c = CHR ''='' \<or> c = CHR ''?'' \<or> c = CHR '':'' \<or> c = CR then c # cs
      else to_upper c # upper_loop cs)"

definition vary_to_uppercase :: "string option \<Rightarrow> bool \<times> string option" where
  "vary_to_uppercase at_cmd =
     (case at_cmd of None \<Rightarrow> (False, None) | Some s \<Rightarrow> (True, Some (upper_loop s)))"

section \<open>Escape sequences\<close>

text \<open>The table \<^verbatim>\<open>esc_table\<close>: the character after the backslash and what it stands for.\<close>

definition esc_table :: "(char \<times> char) list" where
  "esc_table =
     [(CHR ''a'', CHR 0x07), (CHR ''b'', CHR 0x08), (CHR ''f'', CHR 0x0C), (CHR ''n'', CHR 0x0A),
      (CHR ''r'', CHR 0x0D), (CHR ''t'', CHR 0x09), (CHR ''v'', CHR 0x0B), (CHR ''?'', CHR ''?''),
      (BACKSLASH, BACKSLASH), (CHR 0x27, CHR 0x27), (QUOTE, QUOTE)]"

text \<open>
  \<open>covertEscToAscII\<close> decodes the sequence whose backslash is at \<open>p\<close>: it stores the decoded
  character over the backslash and returns how many characters after it the sequence takes,
  -1 when there is none. The octal cases truncate to a \<^verbatim>\<open>char\<close>.
\<close>

definition covertEscToAscII :: "memory \<Rightarrow> nat \<Rightarrow> int \<times> memory" where
  "covertEscToAscII m p =
     (let c1 = peek m (p + 1); c2 = peek m (p + 2); c3 = peek m (p + 3) in
      case map_of esc_table c1 of
        Some e \<Rightarrow> (1, m[p := e])
      | None \<Rightarrow>
        if c1 = CHR ''x'' \<and> isHexChar c2 \<and> isHexChar c3 then
          (3, m[p := char_of (covertHextoNum c2 * 16 + covertHextoNum c3)])
        else if c1 = CHR ''x'' \<and> isHexChar c2 then (2, m[p := char_of (covertHextoNum c2)])
        else if isOctChar c1 \<and> isOctChar c2 \<and> isOctChar c3 then
          (3, m[p := char_of ((code c1 - 48) * 64 + (code c2 - 48) * 8 + (code c3 - 48))])
        else if isOctChar c1 \<and> isOctChar c2 then
          (2, m[p := char_of ((code c1 - 48) * 8 + (code c2 - 48))])
        else if isOctChar c1 then (1, m[p := char_of (code c1 - 48)])
        else (-1, m))"

text \<open>
  The loop that moves the rest of the string over the decoded sequence. \<^verbatim>\<open>strlen\<close> is evaluated
  again in every round, on the buffer as it is then.
\<close>

function shift_loop :: "memory \<Rightarrow> nat \<Rightarrow> nat \<Rightarrow> nat \<Rightarrow> memory" where
  "shift_loop m p offset i =
     (if i \<le> strlen m (p + offset + 1)
      then shift_loop (m[p + 1 + i := peek m (p + offset + 1 + i)]) p offset (Suc i)
      else m)"
  by pat_completeness auto
termination
proof (relation "measure (\<lambda>(m, p, offset, i). Suc (length m) - i)", goal_cases)
  case 1
  show ?case by simp
next
  case (2 m p offset i)
  have "strlen m (p + offset + 1) \<le> length m"
    by (rule strlen_le)
  with 2 show ?case by simp
qed

declare shift_loop.simps [simp del]

lemma length_shift_loop [simp]: "length (shift_loop m p offset i) = length m"
proof (induction m p offset i rule: shift_loop.induct)
  case (1 m p offset i)
  then show ?case by (subst shift_loop.simps) auto
qed

lemma length_covertEscToAscII [simp]: "length (snd (covertEscToAscII m p)) = length m"
  by (simp add: covertEscToAscII_def Let_def split: option.splits)

definition clear_bytes :: "memory \<Rightarrow> nat \<Rightarrow> nat \<Rightarrow> memory" where
  "clear_bytes m p n = foldl (\<lambda>m' k. m'[p + k := NUL]) m [0..<n]"

lemma length_clear_bytes [simp]: "length (clear_bytes m p n) = length m"
  by (induction n) (auto simp: clear_bytes_def)

text \<open>One round of \<open>format_escape_char\<close>, for the backslash at \<open>q\<close>.\<close>

definition escape_round :: "memory \<Rightarrow> nat \<Rightarrow> memory" where
  "escape_round m q =
     (let r = covertEscToAscII m q; offset = nat (fst r); m1 = snd r in
      if fst r = -1 then m1
      else (let m2 = (if strlen m1 (q + offset + 1) + 1 < offset
                      then clear_bytes m1 (q + 1) offset else m1)
            in shift_loop m2 q offset 0))"

lemma length_escape_round [simp]: "length (escape_round m q) = length m"
  by (simp add: escape_round_def Let_def)

function format_escape_char :: "memory \<Rightarrow> nat \<Rightarrow> memory" where
  "format_escape_char m p =
     (case strchr m p BACKSLASH of
        None \<Rightarrow> m
      | Some q \<Rightarrow> if peek m (q + 1) = NUL then m
                  else format_escape_char (escape_round m q) (q + 1))"
  by pat_completeness auto
termination
proof (relation "measure (\<lambda>(m, p). Suc (length m) - p)", goal_cases)
  case 1
  show ?case by simp
next
  case (2 m p q)
  then show ?case using strchr_Some [of m p BACKSLASH q] by simp
qed

declare format_escape_char.simps [simp del]

text \<open>
  \<open>find_next_double_quato\<close>: the next quote not preceded by a backslash. It reads the byte in
  front of its argument.
\<close>

fun quote_scan :: "char \<Rightarrow> string \<Rightarrow> nat option" where
  "quote_scan prev [] = None"
| "quote_scan prev (c # cs) =
     (if c = QUOTE \<and> prev \<noteq> BACKSLASH then Some 0 else map_option Suc (quote_scan c cs))"

definition find_next_double_quato :: "memory \<Rightarrow> nat \<Rightarrow> nat option" where
  "find_next_double_quato m data =
     map_option ((+) data)
       (quote_scan (if data = 0 then NUL else peek m (data - 1)) (cstr m data))"

end
