(* ===== verification/At_Values.thy ===== *)
theory At_Values
  imports At_Utils
begin

text \<open>
  The value parsers of \<^verbatim>\<open>SYSAPP/at_ctrl/src/at_com.c\<close>: one parameter of an AT command is read
  under one item of a format string such as \<^verbatim>\<open>%d\<close>, \<^verbatim>\<open>%2d(0-100)\<close>, \<^verbatim>\<open>%10s\<close>. The destination
  pointers a caller passes (through \<^verbatim>\<open>va_list\<close>, or in the array \<^verbatim>\<open>pval\<close>) are not part of the
  model; what is stored through each of them, at which width, is recorded in order as a
  list of slots.
\<close>

section \<open>Result codes and stored values\<close>

text \<open>The enumeration \<^verbatim>\<open>AT_XY_ERR\<close> of \<^verbatim>\<open>xy_at_api.h\<close>.\<close>

datatype at_err =
    AT_OK | AT_JSON | ATERR_XY_ERR | ATERR_PARAM_INVALID | ATERR_NOT_ALLOWED | ATERR_DROP_MORE
  | ATERR_DOING_FOTA | ATERR_MORE_PARAM | ATERR_WAIT_RSP_TIMEOUT | ATERR_CHANNEL_BUSY
  | ATERR_DSP_NOT_RUN | ATERR_NOT_NET_CONNECT | ATERR_NEED_OFFTIME | ATERR_CONN_NOT_CONNECTED
  | ATERR_INVALID_PREFIX | ATERR_LOW_VOL

text \<open>
  What one destination receives: nothing (the parameter was left out or did not parse), a
  4-, 2- or 1-byte integer, a string with its terminating NUL (\<^verbatim>\<open>strcpy\<close>), or bytes without
  one (\<^verbatim>\<open>strncpy\<close> bounded by a length at most the string's).
\<close>

datatype slot =
    Skipped | Long u32 | Short u16 | Byte u8 | Text string | Bytes string

section \<open>The format item\<close>

record val_limit =
  vl_required :: bool
  vl_type :: char
  vl_size :: int
  vl_min :: u32
  vl_max :: u32

text \<open>The number between the percent sign and the type letter.\<close>

definition fmt_size :: "string \<Rightarrow> int" where
  "fmt_size fmt = strtol10 (take (length fmt - 2) (drop 1 fmt))"

definition last_char :: "string \<Rightarrow> char" where
  "last_char s = (if s = [] then NUL else last s)"

text \<open>
  The bracket part of \<open>get_val_limit\<close>: \<open>l\<close> and \<open>r\<close> are the positions of the brackets. The
  source cuts the format at the left bracket, checks the type letter in front of it, then
  reads the two bounds around the minus sign.
\<close>

definition bracket_limit :: "string \<Rightarrow> bool \<Rightarrow> nat \<Rightarrow> nat \<Rightarrow> val_limit option" where
  "bracket_limit fmt required l r =
     (let cut = take l fmt;
          type = last_char cut;
          mid = map_option ((+) (l + 1)) (index_of CHR ''-'' (drop (l + 1) fmt))
      in do {
        _ \<leftarrow> xy_assert ((type = CHR ''d'' \<or> type = CHR ''D'') \<and> \<not> r < l);
        (mn, mx) \<leftarrow> (case mid of
            Some mi \<Rightarrow> do {
              _ \<leftarrow> xy_assert (mi < r);
              Some (word_of_int (strtol10 (take (r - (l + 1)) (drop (l + 1) fmt))),
                    if r - mi > 1 then word_of_int (strtol10 (take (r - (mi + 1)) (drop (mi + 1) fmt)))
                    else 0xFFFFFFFF)
            }
          | None \<Rightarrow> do {
              _ \<leftarrow> xy_assert (l + 1 = r);
              Some (0, 0xFFFFFFFF)
            });
        _ \<leftarrow> xy_assert (\<not> mx < (mn :: u32));
        Some \<lparr>vl_required = required, vl_type = type,
              vl_size = (if length cut > 2 then fmt_size cut else 0), vl_min = mn, vl_max = mx\<rparr>
      })"

definition get_val_limit :: "string \<Rightarrow> val_limit option" where
  "get_val_limit fmt =
     (if length fmt > 2 then
        (case (index_of CHR ''('' fmt, index_of CHR '')'' fmt,
               index_of CHR ''['' fmt, index_of CHR '']'' fmt) of
           (None, None, None, None) \<Rightarrow>
             Some \<lparr>vl_required = False, vl_type = last_char fmt, vl_size = fmt_size fmt,
                   vl_min = 0, vl_max = 0xFFFFFFFF\<rparr>
         | (Some l, Some r, None, None) \<Rightarrow> bracket_limit fmt True l r
         | (None, None, Some l, Some r) \<Rightarrow> bracket_limit fmt False l r
         | _ \<Rightarrow> None)
      else Some \<lparr>vl_required = False, vl_type = last_char fmt, vl_size = 0,
                 vl_min = 0, vl_max = 0xFFFFFFFF\<rparr>)"

section \<open>Reading one value\<close>

text \<open>
  A number: decimal text is stored at the width of the format, hexadecimal text always as a
  4-byte \<^verbatim>\<open>int\<close>. The result is the failure flag, what is stored, and the value the range
  check uses (\<^verbatim>\<open>val_trans\<close>, 0 when nothing was read). The flag says that it was decimal.
\<close>

definition dec_slot :: "int \<Rightarrow> int \<Rightarrow> slot" where
  "dec_slot sz v =
     (if sz = 1 then Byte (word_of_int v)
      else if sz = 2 then Short (word_of_int v)
      else Long (word_of_int v))"

definition read_number :: "string \<Rightarrow> int \<Rightarrow> bool \<times> slot \<times> u32 \<times> bool" where
  "read_number str sz =
     (if \<not> is_digit_str str then
        (case hexstr2int str of
           None \<Rightarrow> (True, Skipped, 0, False)
         | Some v \<Rightarrow> (False, Long v, v, False))
      else (False, dec_slot sz (strtol10 str), word_of_int (strtol10 str), True))"

definition is_num_type :: "char \<Rightarrow> bool" where
  "is_num_type t = (t = CHR ''d'' \<or> t = CHR ''D'')"

definition is_str_type :: "char \<Rightarrow> bool" where
  "is_str_type t = (t = CHR ''s'' \<or> t = CHR ''S'')"

definition num_size_ok :: "int \<Rightarrow> bool" where
  "num_size_ok sz = (sz = 0 \<or> sz = 4 \<or> sz = 1 \<or> sz = 2)"

text \<open>The bounded copy: \<^verbatim>\<open>cpy_len = strlen(str) < size ? strlen(str) : size - 1\<close>.\<close>

definition copy_bounded :: "string \<Rightarrow> int \<Rightarrow> slot" where
  "copy_bounded str sz =
     Bytes (take (if int (length str) < sz then length str else nat (sz - 1)) str)"

text \<open>\<open>parase_type_val_vp\<close>: \<open>ap\<close> holds the slots of the arguments consumed so far.\<close>

definition parase_type_val_vp :: "string \<Rightarrow> string \<Rightarrow> slot list \<Rightarrow> (at_err \<times> slot list) option" where
  "parase_type_val_vp str0 fmt0 ap =
     (let fmt = skip_spaces fmt0; str = skip_spaces str0 in
      if fmt = [] then Some (AT_OK, ap)
      else do {
        lim \<leftarrow> get_val_limit fmt;
        if str = [] then
          Some (if vl_required lim then ATERR_PARAM_INVALID else AT_OK, ap @ [Skipped])
        else if is_num_type (vl_type lim) then do {
          _ \<leftarrow> xy_assert (num_size_ok (vl_size lim));
          let (bad, s, val_trans, dec) = read_number str (vl_size lim);
          Some (if bad \<or> val_trans < vl_min lim \<or> vl_max lim < val_trans
                then ATERR_PARAM_INVALID else AT_OK, ap @ [s])
        }
        else if is_str_type (vl_type lim) then
          (if vl_size lim = 0 then Some (AT_OK, ap @ [Text str])
           else if vl_size lim < int (length str) then Some (ATERR_PARAM_INVALID, ap)
           else Some (AT_OK, ap @ [copy_bounded str (vl_size lim)]))
        else None
      })"

text \<open>
  \<open>parase_type_val_vp_esc\<close>: the same with escape sequences decoded in place in the buffer and
  with the count of values stored (hexadecimal numbers are not counted).
\<close>

type_synonym esc_acc = "slot list \<times> int"

definition parase_type_val_vp_esc ::
  "memory \<Rightarrow> nat \<Rightarrow> string \<Rightarrow> esc_acc \<Rightarrow> (at_err \<times> esc_acc \<times> memory) option" where
  "parase_type_val_vp_esc m p0 fmt0 acc =
     (let fmt = skip_spaces fmt0;
          p = p0 + length (takeWhile (\<lambda>c. c = SPACE) (cstr m p0));
          str = cstr m p;
          ap = fst acc; parse_num = snd acc in
      if fmt = [] then Some (AT_OK, acc, m)
      else do {
        lim \<leftarrow> get_val_limit fmt;
        if str = [] then
          Some (if vl_required lim then ATERR_PARAM_INVALID else AT_OK,
                (ap @ [Skipped], parse_num), m)
        else if is_num_type (vl_type lim) then do {
          _ \<leftarrow> xy_assert (num_size_ok (vl_size lim));
          let (bad, s, val_trans, dec) = read_number str (vl_size lim);
          Some (if bad \<or> val_trans < vl_min lim \<or> vl_max lim < val_trans
                then ATERR_PARAM_INVALID else AT_OK,
                (ap @ [s], if dec then parse_num + 1 else parse_num), m)
        }
        else if is_str_type (vl_type lim) then
          (if vl_size lim = 0 then
             (let m' = format_escape_char m p
              in Some (AT_OK, (ap @ [Text (cstr m' p)], parse_num + 1), m'))
           else if vl_size lim < int (length str) then Some (ATERR_PARAM_INVALID, acc, m)
           else (let m' = format_escape_char m p
                 in Some (AT_OK, (ap @ [copy_bounded (cstr m' p) (vl_size lim)], parse_num + 1), m')))
        else None
      })"

text \<open>
  \<open>parase_type_val\<close>: the older interface with an array of destinations. It drops one leading
  quote, takes its sz directly from the format and returns the writes it makes together
  with the next index.
\<close>

definition parase_type_val ::
  "string \<Rightarrow> string \<Rightarrow> (nat \<times> slot) list \<times> nat \<Rightarrow> (at_err \<times> (nat \<times> slot) list \<times> nat) option" where
  "parase_type_val str0 fmt0 acc =
     (let fmt = skip_spaces fmt0;
          str1 = skip_spaces str0;
          str = (if str1 \<noteq> [] \<and> hd str1 = QUOTE then tl str1 else str1);
          writes = fst acc; idx = snd acc in
      if str = [] \<and> fmt = [] then Some (AT_OK, acc)
      else if str = [] then Some (AT_OK, writes, idx + 1)
      else if fmt = [] then Some (AT_OK, acc)
      else (let type = last fmt; sz = (if length fmt > 2 then fmt_size fmt else 0) in
        if is_num_type type then do {
          _ \<leftarrow> xy_assert (num_size_ok sz);
          let (bad, s, val_trans, dec) = read_number str sz;
          Some (if bad then ATERR_PARAM_INVALID else AT_OK,
                if bad then writes else writes @ [(idx, s)], idx + 1)
        }
        else if is_str_type type then
          (if sz = 0 then Some (AT_OK, writes @ [(idx, Text str)], idx + 1)
           else if sz < int (length str) then Some (ATERR_PARAM_INVALID, writes, idx + 1)
           else Some (AT_OK, writes @ [(idx, copy_bounded str sz)], idx + 1))
        else None))"

end
