(* ===== verification/At_Params.thy ===== *)
theory At_Params
  imports At_Values
begin

text \<open>
  The parameter scanners of \<^verbatim>\<open>at_com.c\<close>: \<^verbatim>\<open>parse_param_vp\<close>, its JSON variant
  \<^verbatim>\<open>parse_param_vp_adapt\<close>, the escaping variant \<^verbatim>\<open>parse_param_vp_3\<close> and the older \<^verbatim>\<open>parse_param\<close>.
  They walk over the command buffer and the format at once. Fields are cut out by writing
  NUL over the comma or the closing quote behind them; the bytes are put back before the
  scanner moves on and at its end. The private copy of the format is only read forwards, so
  it is a string here; the command buffer is the caller's and is threaded explicitly.
\<close>

section \<open>The common loop\<close>

definition put_opt :: "memory \<Rightarrow> nat option \<Rightarrow> char \<Rightarrow> memory" where
  "put_opt m po c = (case po of None \<Rightarrow> m | Some p \<Rightarrow> m[p := c])"

text \<open>The label \<^verbatim>\<open>END\<close>: restore the CR, the comma and the quote, in that order.\<close>

definition scan_end :: "memory \<Rightarrow> nat option \<Rightarrow> nat option \<Rightarrow> nat option \<Rightarrow> memory" where
  "scan_end m param_end param_comma param_quotes_end =
     put_opt (put_opt (put_opt m param_end CR) param_comma COMMA) param_quotes_end QUOTE"

text \<open>The quote opens this parameter: it stands before the next comma.\<close>

definition quote_first :: "nat option \<Rightarrow> nat option \<Rightarrow> bool" where
  "quote_first q c = (case q of None \<Rightarrow> False
     | Some qb \<Rightarrow> (case c of None \<Rightarrow> True | Some cp \<Rightarrow> qb < cp))"

text \<open>
  One round of the loop of the three \<^verbatim>\<open>va_list\<close> scanners. \<open>iq\<close> is the value of \<^verbatim>\<open>param_quotes_end\<close> before the
  quote test, \<open>fq\<close> the search for the closing quote (from the opening quote and the initial
  value) and \<open>pv\<close> the value parser, which sees the buffer as it is at that moment. The round
  either stops (after the clean-up) or goes on with the next field and the next item of the
  format, and with \<^verbatim>\<open>param_comma\<close> and \<^verbatim>\<open>param_quotes_end\<close> as it leaves them.
\<close>

type_synonym 'a value_parser = "memory \<Rightarrow> nat \<Rightarrow> string \<Rightarrow> 'a \<Rightarrow> (at_err \<times> 'a \<times> memory) option"

datatype 'a scan_next =
    Stop at_err 'a memory
  | Next memory nat string "nat option" "nat option" 'a

definition scan_step ::
  "(memory \<Rightarrow> nat \<Rightarrow> nat option) \<Rightarrow> (memory \<Rightarrow> nat \<Rightarrow> nat option \<Rightarrow> nat option) \<Rightarrow>
   'a value_parser \<Rightarrow> bool \<Rightarrow> nat option \<Rightarrow>
   memory \<Rightarrow> nat \<Rightarrow> string \<Rightarrow> 'a \<Rightarrow> 'a scan_next option" where
  "scan_step iq fq pv is_strict param_end m buf fmt a =
     (let pc0 = strchr m buf COMMA;
          fc = index_of COMMA fmt;
          qb = strchr m buf QUOTE;
          qe0 = iq m buf;
          quoted = quote_first qb pc0;
          qe1 = (if quoted then fq m (the qb) qe0 else qe0)
      in if quoted \<and> qe1 = None then Some (Stop ATERR_PARAM_INVALID a (scan_end m param_end pc0 None))
      else
        let pc1 = (if quoted then strchr m (the qe1 + 1) COMMA else pc0);
            buf1 = (if quoted then the qb + 1 else buf);
            m1 = (if quoted then m[the qe1 := NUL] else m)
        in case (pc1, fc) of
          (Some c, Some f) \<Rightarrow> do {
             (r, a', m2) \<leftarrow> pv (m1[c := NUL]) buf1 (take f fmt) a;
             Some (if r \<noteq> AT_OK then Stop r a' (scan_end m2 param_end pc1 qe1)
                   else Next (put_opt (m2[c := COMMA]) qe1 QUOTE) (c + 1) (drop (Suc f) fmt) pc1 qe1 a')
          }
        | (Some c, None) \<Rightarrow> do {
             (r, a', m2) \<leftarrow> pv (m1[c := NUL]) buf1 fmt a;
             Some (Stop (if r = AT_OK \<and> is_strict then ATERR_MORE_PARAM else r) a'
                     (scan_end m2 param_end pc1 qe1))
          }
        | (None, Some f) \<Rightarrow> do {
             (r, a', m2) \<leftarrow> pv m1 buf1 (take f fmt) a;
             Some (if r \<noteq> AT_OK then Stop r a' (scan_end m2 param_end pc1 qe1)
                   else (let m3 = put_opt m2 qe1 QUOTE
                         in Next m3 (buf1 + strlen m3 buf1) (drop (Suc f) fmt) pc1 qe1 a'))
          }
        | (None, None) \<Rightarrow> do {
             (r, a', m2) \<leftarrow> pv m1 buf1 fmt a;
             Some (Stop r a' (scan_end m2 param_end pc1 qe1))
          })"

lemma scan_step_shorter:
  "scan_step iq fq pv st pe m buf fmt a = Some (Next m' buf' fmt' pc' qe' a') \<Longrightarrow>
   length fmt' < length fmt"
  by (cases fmt) (auto simp: scan_step_def Let_def simp del: index_of.simps(2)
      split: option.splits if_splits Option.bind_splits)

function scan_loop ::
  "(memory \<Rightarrow> nat \<Rightarrow> nat option) \<Rightarrow> (memory \<Rightarrow> nat \<Rightarrow> nat option \<Rightarrow> nat option) \<Rightarrow>
   'a value_parser \<Rightarrow> bool \<Rightarrow> nat option \<Rightarrow>
   memory \<Rightarrow> nat \<Rightarrow> string \<Rightarrow> nat option \<Rightarrow> nat option \<Rightarrow> 'a \<Rightarrow> (at_err \<times> 'a \<times> memory) option" where
  "scan_loop iq fq pv is_strict param_end m buf fmt pc qe a =
     (if peek m buf = NUL \<and> fmt = [] then Some (AT_OK, a, scan_end m param_end pc qe)
      else case scan_step iq fq pv is_strict param_end m buf fmt a of
        None \<Rightarrow> None
      | Some (Stop r a' m') \<Rightarrow> Some (r, a', m')
      | Some (Next m' buf' fmt' pc' qe' a') \<Rightarrow>
          scan_loop iq fq pv is_strict param_end m' buf' fmt' pc' qe' a')"
  by pat_completeness auto
termination
  by (relation "measure (\<lambda>(iq, fq, pv, is_strict, param_end, m, buf, fmt, pc, qe, a). length fmt)")
    (auto dest: scan_step_shorter)

declare scan_loop.simps [simp del]

text \<open>
  The frame around the loop: skip blanks, cut at CR, serve the format \<^verbatim>\<open>%a\<close> by copying the
  whole line.
\<close>

definition scan_params ::
  "(memory \<Rightarrow> nat \<Rightarrow> nat option) \<Rightarrow> (memory \<Rightarrow> nat \<Rightarrow> nat option \<Rightarrow> nat option) \<Rightarrow>
   'a value_parser \<Rightarrow> ('a \<Rightarrow> string \<Rightarrow> 'a) \<Rightarrow> bool \<Rightarrow>
   string \<Rightarrow> memory \<Rightarrow> nat \<Rightarrow> 'a \<Rightarrow> (at_err \<times> 'a \<times> memory) option" where
  "scan_params iq fq pv put_all is_strict fmt m buf0 a =
     (let buf = skip_ptr (\<lambda>c. c = SPACE) m buf0;
          param_end = strchr m buf CR;
          m1 = put_opt m param_end NUL
      in if fmt = ''%a'' \<or> fmt = ''%A''
         then Some (AT_OK, put_all a (cstr m1 buf), scan_end m1 param_end None None)
         else scan_loop iq fq pv is_strict param_end m1 buf fmt None None a)"

section \<open>The scanners\<close>

text \<open>\<^verbatim>\<open>parase_type_val_vp\<close> reads the string at its pointer and leaves the buffer alone.\<close>

definition vp_value :: "slot list value_parser" where
  "vp_value m p fmt ap =
     map_option (\<lambda>(r, ap'). (r, ap', m)) (parase_type_val_vp (cstr m p) fmt ap)"

definition parse_param_vp :: "string \<Rightarrow> memory \<Rightarrow> nat \<Rightarrow> bool \<Rightarrow> (at_err \<times> slot list \<times> memory) option" where
  "parse_param_vp fmt_parm m buf is_strict =
     scan_params (\<lambda>m b. None) (\<lambda>m q _. strchr m (q + 1) QUOTE) vp_value (\<lambda>ap s. ap @ [Text s])
       is_strict fmt_parm m buf []"

text \<open>The JSON variant looks for the closing quote from the right end of the line.\<close>

definition parse_param_vp_adapt :: "string \<Rightarrow> memory \<Rightarrow> nat \<Rightarrow> bool \<Rightarrow> (at_err \<times> slot list \<times> memory) option" where
  "parse_param_vp_adapt fmt_parm m buf is_strict =
     scan_params (\<lambda>m b. strrchr m b QUOTE) (\<lambda>m q e. e) vp_value (\<lambda>ap s. ap @ [Text s])
       is_strict fmt_parm m buf []"

text \<open>
  The escaping variant: the closing quote is the next unescaped one, and surplus parameters
  are never an error.
\<close>

definition parse_param_vp_3 :: "string \<Rightarrow> memory \<Rightarrow> nat \<Rightarrow> (at_err \<times> esc_acc \<times> memory) option" where
  "parse_param_vp_3 fmt_parm m buf =
     scan_params (\<lambda>m b. None) (\<lambda>m q _. find_next_double_quato m (q + 1)) parase_type_val_vp_esc
       (\<lambda>acc s. (fst acc @ [Text s], snd acc)) False fmt_parm m buf ([], 0)"

text \<open>The public entry points pass their variable arguments on.\<close>

definition at_parse_param :: "string \<Rightarrow> memory \<Rightarrow> nat \<Rightarrow> (at_err \<times> slot list \<times> memory) option" where
  "at_parse_param fmt m buf = parse_param_vp fmt m buf False"

definition at_parse_param_ext :: "string \<Rightarrow> memory \<Rightarrow> nat \<Rightarrow> bool \<Rightarrow> (at_err \<times> slot list \<times> memory) option" where
  "at_parse_param_ext fmt m buf is_strict = parse_param_vp fmt m buf is_strict"

definition at_parse_param_adapt :: "string \<Rightarrow> memory \<Rightarrow> nat \<Rightarrow> (at_err \<times> slot list \<times> memory) option" where
  "at_parse_param_adapt fmt m buf = parse_param_vp_adapt fmt m buf False"

definition at_parse_param_3 :: "string \<Rightarrow> memory \<Rightarrow> nat \<Rightarrow> (at_err \<times> esc_acc \<times> memory) option" where
  "at_parse_param_3 fmt m buf = parse_param_vp_3 fmt m buf"

text \<open>
  \<open>at_parse_param_in_quotation\<close>: the whole parameter list stands in quotes, which are replaced
  by the end of line before the list is parsed.
\<close>

definition at_parse_param_in_quotation :: "string \<Rightarrow> memory \<Rightarrow> nat \<Rightarrow> (at_err \<times> slot list \<times> memory) option" where
  "at_parse_param_in_quotation fmt m buf0 =
     (let b = skip_ptr (\<lambda>c. c = SPACE) m buf0 in
      if peek m b = QUOTE then
        (case strchr m (b + 1) QUOTE of
           None \<Rightarrow> Some (ATERR_PARAM_INVALID, [], m)
         | Some q \<Rightarrow>
             if peek m (skip_ptr (\<lambda>c. c = SPACE) m (q + 1)) = CR
             then parse_param_vp fmt (m[q := CR, q + 1 := NUL]) (b + 1) False
             else Some (ATERR_PARAM_INVALID, [], m))
      else Some (ATERR_PARAM_INVALID, [], m))"

text \<open>
  The older scanner \<open>parse_param\<close> stops at whichever of the line and the format ends first,
  keeps the opening quote for the value parser to drop, and does not go on when only the
  format has another item.
\<close>

type_synonym array_acc = "(nat \<times> slot) list \<times> nat"

definition param_step ::
  "bool \<Rightarrow> nat option \<Rightarrow> memory \<Rightarrow> nat \<Rightarrow> string \<Rightarrow> array_acc \<Rightarrow> array_acc scan_next option" where
  "param_step is_strict p_end m buf fmt acc =
     (let pc0 = strchr m buf COMMA;
          fc = index_of COMMA fmt;
          qb = strchr m buf QUOTE;
          quoted = quote_first qb pc0;
          qe1 = (if quoted then strchr m (the qb + 1) QUOTE else None)
      in if quoted \<and> qe1 = None then Some (Stop ATERR_PARAM_INVALID acc (scan_end m p_end pc0 None))
      else
        let pc1 = (if quoted then strchr m (the qe1 + 1) COMMA else pc0);
            buf1 = (if quoted then the qb else buf);
            m1 = put_opt m qe1 NUL;
            m2 = put_opt m1 pc1 NUL
        in case (pc1, fc) of
          (Some c, Some f) \<Rightarrow> do {
             (r, acc') \<leftarrow> parase_type_val (cstr m2 buf1) (take f fmt) acc;
             Some (if r \<noteq> AT_OK then Stop r acc' (scan_end m2 p_end pc1 qe1)
                   else Next (put_opt (m2[c := COMMA]) qe1 QUOTE) (c + 1) (drop (Suc f) fmt) pc1 qe1 acc')
          }
        | (Some c, None) \<Rightarrow> do {
             (r, acc') \<leftarrow> parase_type_val (cstr m2 buf1) fmt acc;
             Some (Stop (if r = AT_OK \<and> is_strict then ATERR_MORE_PARAM else r) acc'
                     (scan_end m2 p_end pc1 qe1))
          }
        | (None, Some f) \<Rightarrow> do {
             (r, acc') \<leftarrow> parase_type_val (cstr m2 buf1) (take f fmt) acc;
             Some (Stop r acc' (scan_end m2 p_end pc1 qe1))
          }
        | (None, None) \<Rightarrow> do {
             (r, acc') \<leftarrow> parase_type_val (cstr m2 buf1) fmt acc;
             Some (Stop r acc' (scan_end m2 p_end pc1 qe1))
          })"

lemma param_step_shorter:
  "param_step st pe m buf fmt acc = Some (Next m' buf' fmt' pc' qe' acc') \<Longrightarrow>
   length fmt' < length fmt"
  by (cases fmt) (auto simp: param_step_def Let_def simp del: index_of.simps(2)
      split: option.splits if_splits Option.bind_splits)

function param_loop ::
  "bool \<Rightarrow> nat option \<Rightarrow> memory \<Rightarrow> nat \<Rightarrow> string \<Rightarrow> nat option \<Rightarrow> nat option \<Rightarrow> array_acc \<Rightarrow>
   (at_err \<times> array_acc \<times> memory) option" where
  "param_loop is_strict p_end m buf fmt pc qe acc =
     (if peek m buf = NUL \<or> fmt = [] then Some (AT_OK, acc, scan_end m p_end pc qe)
      else case param_step is_strict p_end m buf fmt acc of
        None \<Rightarrow> None
      | Some (Stop r acc' m') \<Rightarrow> Some (r, acc', m')
      | Some (Next m' buf' fmt' pc' qe' acc') \<Rightarrow>
          param_loop is_strict p_end m' buf' fmt' pc' qe' acc')"
  by pat_completeness auto
termination
  by (relation "measure (\<lambda>(is_strict, p_end, m, buf, fmt, pc, qe, acc). length fmt)")
    (auto dest: param_step_shorter)

declare param_loop.simps [simp del]

definition parse_param :: "string \<Rightarrow> memory \<Rightarrow> nat \<Rightarrow> bool \<Rightarrow> (at_err \<times> array_acc \<times> memory) option" where
  "parse_param fmt m buf0 is_strict =
     (let buf = skip_ptr (\<lambda>c. c = SPACE) m buf0;
          p_end = strchr m buf CR;
          m1 = put_opt m p_end NUL
      in if fmt = ''%a'' \<or> fmt = ''%A''
         then Some (AT_OK, ([(0, Text (cstr m1 buf))], 0), scan_end m1 p_end None None)
         else param_loop is_strict p_end m1 buf fmt None None ([], 0))"

definition at_parse_param_2 :: "string \<Rightarrow> memory \<Rightarrow> nat \<Rightarrow> (at_err \<times> array_acc \<times> memory) option" where
  "at_parse_param_2 fmt m buf = parse_param fmt m buf False"

text \<open>
  What a command handler does with the result: a number read into an \<^verbatim>\<open>int\<close> variable that held \<open>dflt\<close>,
  and its answer (no text, \<^verbatim>\<open>AT_ERR_BUILD\<close>, or a text).
\<close>

definition int_dest :: "slot list \<Rightarrow> nat \<Rightarrow> int \<Rightarrow> int" where
  "int_dest ap i dflt =
     (if i < length ap then (case ap ! i of Long v \<Rightarrow> sint v | _ \<Rightarrow> dflt) else dflt)"

datatype at_rsp = No_rsp | Err_rsp at_err | Rsp string

section \<open>The command buffer is put back\<close>

text \<open>
  What a scanner leaves between two rounds: the CR of the line is cut off, the commas and
  quotes it visited are back in place.
\<close>

definition holds_at :: "memory \<Rightarrow> nat option \<Rightarrow> char \<Rightarrow> bool" where
  "holds_at m po c = (case po of None \<Rightarrow> True | Some p \<Rightarrow> p < length m \<and> m ! p = c)"

lemma holds_at_simps [simp]:
  "holds_at m None c"
  "holds_at m (Some p) c \<longleftrightarrow> p < length m \<and> m ! p = c"
  by (simp_all add: holds_at_def)

lemma put_opt_simps [simp]:
  "put_opt m None c = m"
  "put_opt m (Some p) c = m[p := c]"
  "length (put_opt m po c) = length m"
  by (simp_all add: put_opt_def split: option.split)

lemma put_opt_same: "holds_at m po c \<Longrightarrow> put_opt m po c = m"
  by (cases po) (auto intro: list_update_same_value)

lemma strchr_holds: "holds_at m (strchr m p c) c"
  using strchr_Some [of m p c] by (cases "strchr m p c") auto

text \<open>Cutting a field out and putting its two marks back is no change.\<close>

lemma marks_restored:
  assumes "holds_at m pc COMMA" and "holds_at m qe QUOTE"
  shows "put_opt (put_opt (put_opt (put_opt m qe NUL) pc NUL) pc COMMA) qe QUOTE = m"
    and "put_opt (put_opt m pc NUL) pc COMMA = m"
    and "put_opt (put_opt m qe NUL) qe QUOTE = m"
    and "put_opt (put_opt (put_opt m pc NUL) pc COMMA) qe QUOTE = m"
  using assms by (cases pc; cases qe; auto intro!: nth_equalityI simp: nth_list_update)+

lemma scan_end_restored:
  assumes "holds_at m pc COMMA" and "holds_at m qe QUOTE" and "holds_at m pe NUL"
  shows "scan_end m pe pc qe = put_opt m pe CR"
    and "scan_end (put_opt (put_opt m qe NUL) pc NUL) pe pc qe = put_opt m pe CR"
    and "scan_end (put_opt m pc NUL) pe pc qe = put_opt m pe CR"
    and "scan_end (put_opt m qe NUL) pe pc qe = put_opt m pe CR"
    and "scan_end m pe pc None = put_opt m pe CR"
  using assms unfolding scan_end_def
  by (cases pc; cases qe; cases pe; auto intro!: nth_equalityI simp: nth_list_update)+


lemma quote_first_Some: "quote_first q c \<Longrightarrow> \<exists>b. q = Some b"
  by (cases q) (auto simp: quote_first_def)

text \<open>
  The contract of a scanner's parts: what the two quote searches return is the position of a
  quote, and the value parser does not write. Every scanner that keeps it hands the buffer
  back unchanged, on every path.
\<close>

locale line_scanner =
  fixes iq :: "memory \<Rightarrow> nat \<Rightarrow> nat option"
    and fq :: "memory \<Rightarrow> nat \<Rightarrow> nat option \<Rightarrow> nat option"
    and pv :: "'a value_parser"
  assumes initial_quote: "holds_at m (iq m b) QUOTE"
    and final_quote: "strchr m b QUOTE = Some qb \<Longrightarrow> holds_at m (fq m qb (iq m b)) QUOTE"
    and value_pure: "pv m p f a = Some (r, a', m') \<Longrightarrow> m' = m"
begin

lemma step_marks:
  assumes "qe = (if quoted then fq m (the (strchr m buf QUOTE)) (iq m buf) else iq m buf)"
    and "quoted = quote_first (strchr m buf QUOTE) (strchr m buf COMMA)"
    and "pc = (if quoted then strchr m (the qe + 1) COMMA else strchr m buf COMMA)"
  shows "holds_at m qe QUOTE" and "holds_at m pc COMMA"
  using assms initial_quote final_quote strchr_holds
  by (auto dest!: quote_first_Some)

lemma step_stop:
  assumes "scan_step iq fq pv st pe m buf fmt a = Some (Stop r a' m')" and "holds_at m pe NUL"
  shows "m' = put_opt m pe CR"
proof -
  define quoted where "quoted = quote_first (strchr m buf QUOTE) (strchr m buf COMMA)"
  define qe where "qe = (if quoted then fq m (the (strchr m buf QUOTE)) (iq m buf) else iq m buf)"
  define pc where "pc = (if quoted then strchr m (the qe + 1) COMMA else strchr m buf COMMA)"
  note marks = step_marks [OF qe_def quoted_def pc_def]
  note ends = scan_end_restored [OF marks(2,1) assms(2)]
    scan_end_restored [OF strchr_holds marks(1) assms(2), of buf]
  show ?thesis
    using assms(1) ends
    unfolding scan_step_def Let_def quoted_def [symmetric] qe_def [symmetric] pc_def [symmetric]
    by (cases pc; cases qe; cases quoted; cases "index_of COMMA fmt")
      (auto dest!: value_pure split: if_splits Option.bind_splits)
qed

lemma step_next:
  assumes "scan_step iq fq pv st pe m buf fmt a = Some (Next m' buf' fmt' pc' qe' a')"
  shows "m' = m \<and> holds_at m pc' COMMA \<and> holds_at m qe' QUOTE"
proof -
  define quoted where "quoted = quote_first (strchr m buf QUOTE) (strchr m buf COMMA)"
  define qe where "qe = (if quoted then fq m (the (strchr m buf QUOTE)) (iq m buf) else iq m buf)"
  define pc where "pc = (if quoted then strchr m (the qe + 1) COMMA else strchr m buf COMMA)"
  note marks = step_marks [OF qe_def quoted_def pc_def]
  note putback = marks_restored [OF marks(2,1)] put_opt_same [OF marks(1)]
  show ?thesis
    using assms(1) putback marks
    unfolding scan_step_def Let_def quoted_def [symmetric] qe_def [symmetric] pc_def [symmetric]
    by (cases pc; cases qe; cases quoted; cases "index_of COMMA fmt")
      (auto dest!: value_pure split: if_splits Option.bind_splits)
qed

lemma loop_restores:
  assumes "scan_loop iq fq pv st pe m buf fmt pc qe a = Some (r, a', m')"
    and "holds_at m pe NUL" and "holds_at m pc COMMA" and "holds_at m qe QUOTE"
  shows "m' = put_opt m pe CR"
  using assms
proof (induction fmt arbitrary: m buf pc qe a rule: length_induct)
  case (1 fmt)
  show ?case
  proof (cases "peek m buf = NUL \<and> fmt = []")
    case True
    with "1.prems"(1) have "m' = scan_end m pe pc qe"
      by (simp add: scan_loop.simps [of iq fq pv st pe m buf])
    with "1.prems" show ?thesis by (simp add: scan_end_restored)
  next
    case False
    note unf = "1.prems"(1) [unfolded scan_loop.simps [of iq fq pv st pe m buf fmt]]
    from False unf obtain s where s: "scan_step iq fq pv st pe m buf fmt a = Some s"
      by (auto split: option.splits)
    show ?thesis
    proof (cases s)
      case (Stop r1 a1 m1)
      with False unf s show ?thesis using step_stop [of st pe m buf fmt a] "1.prems"(2) by auto
    next
      case (Next m1 b1 f1 pc1 qe1 a1)
      note n = step_next [OF s [unfolded Next]] scan_step_shorter [OF s [unfolded Next]]
      from False unf s Next n have "scan_loop iq fq pv st pe m b1 f1 pc1 qe1 a1 = Some (r, a', m')"
        by auto
      with "1.IH" n "1.prems"(2) show ?thesis by blast
    qed
  qed
qed

lemma params_restored:
  assumes "scan_params iq fq pv put_all st fmt m buf a = Some (r, a', m')"
  shows "m' = m"
proof -
  define b where "b = skip_ptr (\<lambda>c. c = SPACE) m buf"
  define pe where "pe = strchr m b CR"
  have h: "holds_at m pe CR" unfolding pe_def by (rule strchr_holds)
  then have n: "holds_at (put_opt m pe NUL) pe NUL" by (cases pe) auto
  from h have putback: "put_opt (put_opt m pe NUL) pe CR = m"
    by (cases pe) (auto intro: list_update_same_value)
  show ?thesis
    using assms loop_restores [OF _ n, of st b fmt None None a r a' m'] putback
    unfolding scan_params_def Let_def b_def [symmetric] pe_def [symmetric]
    by (auto simp: scan_end_restored [OF _ _ n] split: if_splits)
qed

end

text \<open>Both scanners over \<^verbatim>\<open>parase_type_val_vp\<close> keep the contract.\<close>

lemma vp_value_pure: "vp_value m p f a = Some (r, a', m') \<Longrightarrow> m' = m"
  by (auto simp: vp_value_def)

interpretation vp: line_scanner "\<lambda>m b. None" "\<lambda>m q _. strchr m (q + 1) QUOTE" vp_value
  by unfold_locales (auto simp: strchr_holds dest: vp_value_pure)

lemma strrchr_holds: "holds_at m (strrchr m p c) c"
  using strrchr_Some [of m p c] by (cases "strrchr m p c") auto

interpretation adapt: line_scanner "\<lambda>m b. strrchr m b QUOTE" "\<lambda>m q e. e" vp_value
  by unfold_locales (auto simp: strrchr_holds dest: vp_value_pure)

text \<open>\<open>parse_param_vp\<close>, the scanner behind \<^verbatim>\<open>at_parse_param\<close>, leaves the command buffer exactly
  as it was, on success and on every error path.\<close>

lemma parse_param_vp_restores:
  assumes "parse_param_vp fmt m buf is_strict = Some (r, ap, m')"
  shows "m' = m"
  using assms unfolding parse_param_vp_def by (rule vp.params_restored)

definition demo_line :: memory where
  "demo_line = ''7,'' @ [QUOTE] @ ''a,b'' @ [QUOTE, CR, NUL]"

end
