(* ===== verification/At_Params_Spec.thy ===== *)
theory At_Params_Spec
  imports At_Params
begin

text \<open>
  What the parameter scanner promises, stated on strings: the line is split into fields (a
  field is a quoted string, or what stands before the next comma), the format into items,
  and each field is read under its item. The scanner on the command buffer refines this
  specification; the behaviour of \<^verbatim>\<open>at_parse_param\<close> on whole classes of lines follows from it.
\<close>

section \<open>The specification\<close>

text \<open>
  The first field of a line and the rest behind its comma (\<open>None\<close> when no comma follows);
  \<open>None\<close> altogether when a quote is not closed.
\<close>

definition next_field :: "string \<Rightarrow> (string \<times> string option) option" where
  "next_field line =
     (let c = index_of COMMA line; q = index_of QUOTE line in
      if quote_first q c then
        (let t = drop (the q + 1) line in
         case index_of QUOTE t of
           None \<Rightarrow> None
         | Some e \<Rightarrow> (let u = drop (e + 1) t
                     in Some (take e t, map_option (\<lambda>i. drop (i + 1) u) (index_of COMMA u))))
      else (case c of
           None \<Rightarrow> Some (line, None)
         | Some i \<Rightarrow> Some (take i line, Some (drop (i + 1) line))))"

function vp_spec :: "bool \<Rightarrow> string \<Rightarrow> string \<Rightarrow> slot list \<Rightarrow> (at_err \<times> slot list) option" where
  "vp_spec strict line fmt a =
     (if line = [] \<and> fmt = [] then Some (AT_OK, a)
      else case next_field line of
        None \<Rightarrow> Some (ATERR_PARAM_INVALID, a)
      | Some (field, rest) \<Rightarrow>
          (case index_of COMMA fmt of
             None \<Rightarrow>
               (case parase_type_val_vp field fmt a of
                  None \<Rightarrow> None
                | Some (r, a') \<Rightarrow>
                    Some (if r = AT_OK \<and> strict \<and> rest \<noteq> None then ATERR_MORE_PARAM else r, a'))
           | Some f \<Rightarrow>
               (case parase_type_val_vp field (take f fmt) a of
                  None \<Rightarrow> None
                | Some (r, a') \<Rightarrow>
                    if r \<noteq> AT_OK then Some (r, a')
                    else vp_spec strict (case rest of None \<Rightarrow> [] | Some l \<Rightarrow> l) (drop (Suc f) fmt) a')))"
  by pat_completeness auto
termination
  by (relation "measure (\<lambda>(strict, line, fmt, a). length fmt)") (auto simp: index_of_Some)

declare vp_spec.simps [simp del]

text \<open>The line of a command: blanks skipped, up to CR or the end of the string.\<close>

definition param_line :: "memory \<Rightarrow> nat \<Rightarrow> string" where
  "param_line m buf =
     takeWhile (\<lambda>c. c \<noteq> CR) (cstr m (skip_ptr (\<lambda>c. c = SPACE) m buf))"

definition at_param_spec :: "string \<Rightarrow> bool \<Rightarrow> string \<Rightarrow> (at_err \<times> slot list) option" where
  "at_param_spec fmt strict line =
     (if fmt = ''%a'' \<or> fmt = ''%A'' then Some (AT_OK, [Text line])
      else vp_spec strict line fmt [])"

section \<open>The scanner refines it\<close>

lemma peek_NUL_iff: "peek m p = NUL \<longleftrightarrow> cstr m p = []"
proof (cases "p < length m")
  case True
  then have "drop p m = m ! p # drop (Suc p) m"
    by (simp add: Cons_nth_drop_Suc)
  with True show ?thesis
    by (simp add: peek_def cstr_def)
next
  case False
  then show ?thesis by (simp add: peek_def cstr_def)
qed

lemma quote_first_shift:
  "quote_first (map_option ((+) (p::nat)) q) (map_option ((+) p) c) = quote_first q c"
  by (auto simp: quote_first_def split: option.splits)

lemma cstr_two_cuts:
  assumes "e < c" and "p \<le> e" and "c < length m"
    and "e - p \<le> length (cstr m p)" and "c - p \<le> length (cstr m p)"
  shows "cstr (m[e := NUL, c := NUL]) p = take (e - p) (cstr m p)"
proof -
  have "m[e := NUL, c := NUL] = (m[c := NUL])[e := NUL]"
    using assms(1) by (simp add: list_update_swap)
  moreover have inner: "cstr (m[c := NUL]) p = take (c - p) (cstr m p)"
    using assms by (intro cstr_cut) auto
  moreover have "cstr ((m[c := NUL])[e := NUL]) p = take (e - p) (cstr (m[c := NUL]) p)"
    using assms inner by (intro cstr_cut) auto
  ultimately show ?thesis
    using assms by (simp add: min_def)
qed

text \<open>One round on the buffer is one round of the specification.\<close>

definition spec_next :: "bool \<Rightarrow> string \<Rightarrow> string \<Rightarrow> slot list \<Rightarrow>
    ((at_err \<times> slot list) + (string \<times> string \<times> slot list)) option" where
  "spec_next strict line fmt a =
     (case next_field line of
        None \<Rightarrow> Some (Inl (ATERR_PARAM_INVALID, a))
      | Some (field, rest) \<Rightarrow>
          (case index_of COMMA fmt of
             None \<Rightarrow> map_option (\<lambda>(r, a'). Inl
                 (if r = AT_OK \<and> strict \<and> rest \<noteq> None then ATERR_MORE_PARAM else r, a'))
               (parase_type_val_vp field fmt a)
           | Some f \<Rightarrow> map_option (\<lambda>(r, a').
                 if r \<noteq> AT_OK then Inl (r, a')
                 else Inr (case rest of None \<Rightarrow> [] | Some l \<Rightarrow> l, drop (Suc f) fmt, a'))
               (parase_type_val_vp field (take f fmt) a)))"

lemma vp_spec_step:
  "vp_spec strict line fmt a =
     (if line = [] \<and> fmt = [] then Some (AT_OK, a)
      else case spec_next strict line fmt a of
        None \<Rightarrow> None
      | Some (Inl x) \<Rightarrow> Some x
      | Some (Inr (line', fmt', a')) \<Rightarrow> vp_spec strict line' fmt' a')"
  by (subst vp_spec.simps) (auto simp: spec_next_def split: option.splits)

fun abs_next :: "slot list scan_next \<Rightarrow> (at_err \<times> slot list) + (string \<times> string \<times> slot list)" where
  "abs_next (Stop r a m) = Inl (r, a)"
| "abs_next (Next m buf fmt pc qe a) = Inr (cstr m buf, fmt, a)"

abbreviation vp_step where
  "vp_step \<equiv> scan_step (\<lambda>m b. None) (\<lambda>m q _. strchr m (q + 1) QUOTE) vp_value"

lemma vp_step_refines:
  "map_option abs_next (vp_step st pe m buf fmt a) = spec_next st (cstr m buf) fmt a"
proof -
  define line where "line = cstr m buf"
  have c0: "strchr m buf COMMA = map_option ((+) buf) (index_of COMMA line)"
    and q0: "strchr m buf QUOTE = map_option ((+) buf) (index_of QUOTE line)"
    by (simp_all add: strchr_def line_def)
  show ?thesis
  proof (cases "quote_first (index_of QUOTE line) (index_of COMMA line)")
    case False
    note nq = False
    show ?thesis
    proof (cases "index_of COMMA line")
      case None
      have "cstr m (buf + strlen m buf) = []"
        using cstr_shift [of "length line" m buf] by (simp add: strlen_def line_def)
      with None show ?thesis
        using nq unfolding scan_step_def spec_next_def next_field_def Let_def c0 q0 quote_first_shift
          line_def [symmetric]
        by (cases "index_of COMMA fmt"; cases "parase_type_val_vp line fmt a";
            cases "parase_type_val_vp line (take (the (index_of COMMA fmt)) fmt) a")
          (auto simp: vp_value_def Let_def line_def [symmetric])
    next
      case (Some i)
      then have i: "buf + i < length m" "m ! (buf + i) = COMMA" "i < length line"
        using strchr_Some [of m buf COMMA "buf + i"] c0 by (auto simp: line_def)
      have cut: "cstr (m[buf + i := NUL]) buf = take i line"
        using i by (simp add: cstr_cut line_def)
      have rest: "cstr m (Suc (buf + i)) = drop (Suc i) line"
        using i cstr_shift [of "Suc i" m buf] by (simp add: line_def)
      have "m[buf + i := COMMA] = m"
        using i by (metis list_update_id)
      then show ?thesis
        using nq Some cut rest unfolding scan_step_def spec_next_def next_field_def Let_def c0 q0
          quote_first_shift line_def [symmetric]
        by (auto simp: vp_value_def Let_def line_def [symmetric]
            split: option.splits Option.bind_splits)
    qed
  next
    case True
    then obtain q where q: "index_of QUOTE line = Some q"
      by (auto dest: quote_first_Some)
    then have ql: "q < length line"
      by (simp add: index_of_Some)
    define t where "t = drop (q + 1) line"
    then have tq: "drop (Suc q) line = t" by simp
    have ct: "cstr m (Suc (buf + q)) = t"
      using ql cstr_shift [of "Suc q" m buf] by (simp add: line_def t_def)
    show ?thesis
    proof (cases "index_of QUOTE t")
      case None
      then show ?thesis
        using True unfolding scan_step_def spec_next_def next_field_def Let_def c0 q0
          quote_first_shift line_def [symmetric]
        by (simp add: q ct None strchr_def tq)
    next
      case (Some e)
      note e = this
      then have el: "e < length t" by (simp add: index_of_Some)
      define pe' where "pe' = Suc (buf + q + e)"
      then have pe_eq: "Suc (buf + q + e) = pe'" by simp
      have me: "pe' < length m" "m ! pe' = QUOTE"
        using strchr_Some [of m "Suc (buf + q)" QUOTE pe'] Some ct
        by (auto simp: strchr_def pe'_def)
      have cu: "cstr m (Suc pe') = drop (Suc e) t"
        using el ct cstr_shift [of "Suc e" m "Suc (buf + q)"] by (simp add: pe'_def)
      have field: "cstr (m[pe' := NUL]) (Suc (buf + q)) = take e t"
        using me el ct cstr_cut [of pe' "Suc (buf + q)" m] by (simp add: pe'_def)
      have putq: "m[pe' := QUOTE] = m" using me by (metis list_update_id)
      show ?thesis
      proof (cases "index_of COMMA (drop (Suc e) t)")
        case None
        have all: "cstr m (Suc (buf + q + strlen m (Suc (buf + q)))) = []"
          using ct cstr_shift [of "length t" m "Suc (buf + q)"] by (simp add: strlen_def)
        show ?thesis
          using True unfolding scan_step_def spec_next_def next_field_def Let_def c0 q0 quote_first_shift
            line_def [symmetric]
          by (cases "index_of COMMA fmt"; cases "parase_type_val_vp (take e t) fmt a";
              cases "parase_type_val_vp (take e t) (take (the (index_of COMMA fmt)) fmt) a")
            (auto simp: q Some None ct cu field putq all pe_eq strchr_def tq vp_value_def)
      next
        case (Some i)
        define c where "c = Suc (pe' + i)"
        then have c_eq: "Suc (pe' + i) = c" by simp
        have il: "i < length (drop (Suc e) t)" using Some by (simp add: index_of_Some)
        have mc: "c < length m" "m ! c = COMMA"
          using strchr_Some [of m "Suc pe'" COMMA c] Some cu
          by (auto simp: strchr_def c_def)
        have field2: "cstr (m[pe' := NUL, c := NUL]) (Suc (buf + q)) = take e t"
          using me mc el ct il cstr_two_cuts [of pe' c "Suc (buf + q)" m]
          by (simp add: pe'_def c_def)
        have rest: "cstr m (Suc c) = drop (Suc i) (drop (Suc e) t)"
          using il cu cstr_shift [of "Suc i" m "Suc pe'"] by (simp add: c_def)
        have putc: "m[pe' := NUL, c := COMMA, pe' := QUOTE] = m"
          using marks_restored(1) [of m "Some c" "Some pe'"] me mc by simp
        show ?thesis
          using True unfolding scan_step_def spec_next_def next_field_def Let_def c0 q0 quote_first_shift
            line_def [symmetric]
          by (cases "index_of COMMA fmt"; cases "parase_type_val_vp (take e t) fmt a";
              cases "parase_type_val_vp (take e t) (take (the (index_of COMMA fmt)) fmt) a")
            (auto simp: q e Some ct cu field2 putc rest pe_eq c_eq strchr_def tq
              vp_value_def)
      qed
    qed
  qed
qed

lemma vp_loop_refines:
  "map_option (\<lambda>(r, a, m'). (r, a))
     (scan_loop (\<lambda>m b. None) (\<lambda>m q _. strchr m (q + 1) QUOTE) vp_value st pe m buf fmt pc qe a) =
   vp_spec st (cstr m buf) fmt a"
proof (induction fmt arbitrary: m buf pc qe a rule: length_induct)
  case (1 fmt)
  note step = vp_step_refines [of st pe m buf fmt a]
  show ?case
  proof (cases "cstr m buf = [] \<and> fmt = []")
    case True
    then show ?thesis
      by (subst scan_loop.simps, subst vp_spec_step) (simp add: peek_NUL_iff)
  next
    case False
    show ?thesis
    proof (cases "vp_step st pe m buf fmt a")
      case None
      with False step show ?thesis
        by (subst scan_loop.simps, subst vp_spec_step) (simp add: peek_NUL_iff)
    next
      case (Some s)
      show ?thesis
      proof (cases s)
        case (Stop r a' m')
        with step Some have "spec_next st (cstr m buf) fmt a = Some (Inl (r, a'))" by simp
        with False Some Stop show ?thesis
          by (subst scan_loop.simps, subst vp_spec_step) (auto simp: peek_NUL_iff)
      next
        case (Next m' buf' fmt' pc' qe' a')
        have "length fmt' < length fmt"
          by (rule scan_step_shorter [OF Some [unfolded Next]])
        moreover from step Some Next
        have "spec_next st (cstr m buf) fmt a = Some (Inr (cstr m' buf', fmt', a'))" by simp
        ultimately show ?thesis using "1.IH" Next False Some
          by (subst scan_loop.simps, subst vp_spec_step) (auto simp: peek_NUL_iff)
      qed
    qed
  qed
qed

section \<open>The whole scanner\<close>

lemma index_of_takeWhile: "index_of c s = Some i \<Longrightarrow> takeWhile (\<lambda>x. x \<noteq> c) s = take i s"
proof (induction s arbitrary: i)
  case Nil
  then show ?case by simp
next
  case (Cons x xs)
  then show ?case by (cases i) (auto split: if_splits)
qed

lemma line_cut: "cstr (put_opt m (strchr m b CR) NUL) b = takeWhile (\<lambda>c. c \<noteq> CR) (cstr m b)"
proof (cases "index_of CR (cstr m b)")
  case None
  then have "CR \<notin> set (cstr m b)" by (simp add: index_of_None)
  then have tw: "takeWhile (\<lambda>c. c \<noteq> CR) (cstr m b) = cstr m b"
    by (intro takeWhile_eq_all_conv [THEN iffD2]) auto
  from None show ?thesis unfolding tw by (simp add: strchr_def)
next
  case (Some i)
  then have "b + i < length m" "i < length (cstr m b)"
    using strchr_Some [of m b CR "b + i"] by (auto simp: strchr_def)
  then show ?thesis
    using Some by (simp add: strchr_def cstr_cut index_of_takeWhile)
qed

lemma parse_param_vp_refines_lemma:
  "map_option (\<lambda>(r, ap, m'). (r, ap)) (parse_param_vp fmt m buf is_strict) =
   at_param_spec fmt is_strict (param_line m buf)"
  using vp_loop_refines
  by (simp add: parse_param_vp_def scan_params_def at_param_spec_def param_line_def Let_def line_cut)

text \<open>C7: the scanner on the command buffer computes exactly what the field-wise specification
  computes on the line: the same result code, the same stored values, and an assertion stop
  in the same cases.\<close>

theorem parse_param_vp_refines:
  "map_option (\<lambda>(r, ap, m'). (r, ap)) (parse_param_vp fmt m buf is_strict) =
   at_param_spec fmt is_strict (param_line m buf)"
  by (rule parse_param_vp_refines_lemma)

section \<open>Lines of numbers\<close>

fun join_comma :: "string list \<Rightarrow> string" where
  "join_comma [] = []"
| "join_comma [x] = x"
| "join_comma (x # y # ys) = x @ COMMA # join_comma (y # ys)"

lemma dropWhile_digits: "dropWhile isdigit (dec_digits n) = []"
  by (simp add: dec_digits_isdigit)

lemma is_digit_str_show_dec: "is_digit_str (show_dec v)"
proof -
  have "skip_spaces (show_dec v) = show_dec v"
    by (rule dropWhile_hd) (simp, metis hd_in_set show_dec_nonempty show_dec_clean(5))
  moreover have "hd (dec_digits n) \<noteq> CHR ''-''" for n
    using hd_dec_digits [of n] by auto
  ultimately show ?thesis
    by (auto simp: is_digit_str_def Let_def show_dec_def takeWhile_digits dropWhile_digits split: if_splits)
qed

lemma skip_spaces_show_dec: "skip_spaces (show_dec v @ rest) = show_dec v @ rest"
proof -
  have "hd (show_dec v) \<noteq> SPACE"
    by (metis hd_in_set show_dec_nonempty show_dec_clean(5))
  then show ?thesis by (intro dropWhile_hd) auto
qed

lemma u32_max: "\<not> 0xFFFFFFFF < (x :: u32)"
  using unsigned_less [of x, where ?'a = nat] by (simp add: word_less_nat_alt)

lemma get_val_limit_d:
  "get_val_limit ''%d'' = Some \<lparr>vl_required = False, vl_type = CHR ''d'', vl_size = 0,
     vl_min = 0, vl_max = 0xFFFFFFFF\<rparr>"
  by (simp add: get_val_limit_def last_char_def)

lemma parase_dec:
  assumes "long_min \<le> v" "v \<le> long_max"
  shows "parase_type_val_vp (show_dec v) ''%d'' a = Some (AT_OK, a @ [Long (word_of_int v)])"
  using assms skip_spaces_show_dec [of v "[]"]
  by (simp add: parase_type_val_vp_def Let_def get_val_limit_d is_num_type_def num_size_ok_def
      read_number_def is_digit_str_show_dec strtol10_show_dec dec_slot_def u32_max)

lemma next_field_plain:
  assumes "COMMA \<notin> set x" and "QUOTE \<notin> set x"
  shows "next_field x = Some (x, None)"
    and "next_field (x @ COMMA # rest) = Some (x, Some rest)"
proof -
  have q: "index_of QUOTE (x @ COMMA # rest) = map_option (\<lambda>i. length x + 1 + i) (index_of QUOTE rest)"
    using assms(2) by (induction x) (cases "index_of QUOTE rest"; auto)+
  have c: "index_of COMMA (x @ COMMA # rest) = Some (length x)"
    using assms(1) by (rule index_of_append)
  show "next_field (x @ COMMA # rest) = Some (x, Some rest)"
    by (auto simp: next_field_def Let_def q c quote_first_def split: option.splits)
  show "next_field x = Some (x, None)"
    using assms by (simp add: next_field_def Let_def index_of_None [THEN iffD2] quote_first_def)
qed

lemma vp_spec_numbers:
  assumes "\<forall>v \<in> set vs. long_min \<le> v \<and> v \<le> long_max" and "vs \<noteq> []"
  shows "vp_spec st (join_comma (map show_dec vs)) (join_comma (map (\<lambda>_. ''%d'') vs)) a =
     Some (AT_OK, a @ map (\<lambda>v. Long (word_of_int v)) vs)"
  using assms
proof (induction vs arbitrary: a)
  case Nil
  then show ?case by simp
next
  case (Cons v vs)
  show ?case
  proof (cases vs)
    case Nil
    with Cons.prems show ?thesis
      by (subst vp_spec.simps) (simp add: next_field_plain(1) show_dec_clean parase_dec)
  next
    case (Cons w ws)
    note IH = Cons.IH [of "a @ [Long (word_of_int v)]"]
    from Cons Cons.prems IH show ?thesis
      by (subst vp_spec.simps) (simp add: next_field_plain(2) show_dec_clean parase_dec)
  qed
qed


text \<open>From the specification back to a command line in its buffer.\<close>

lemma at_parse_param_line:
  assumes "vp_spec False line fmt [] = Some (r, ap)" and "fmt \<noteq> ''%a''" "fmt \<noteq> ''%A''"
    and "CR \<notin> set line" "NUL \<notin> set line" "line = [] \<or> hd line \<noteq> SPACE"
  shows "at_parse_param fmt (line @ [CR, NUL]) 0 = Some (r, ap, line @ [CR, NUL])"
proof -
  let ?m = "line @ [CR, NUL]"
  have "takeWhile (\<lambda>c. c = SPACE) ?m = []"
    using assms(6) by (cases line) auto
  moreover have "cstr ?m 0 = line @ [CR]"
    using assms(5) cstr_of_append [of "line @ [CR]" "[]" 0 "[]"] by simp
  moreover have "takeWhile (\<lambda>c. c \<noteq> CR) (line @ [CR]) = line"
    using assms(4) by (auto simp: takeWhile_append)
  ultimately have "param_line ?m 0 = line"
    by (simp add: param_line_def skip_ptr_def)
  then have "map_option (\<lambda>(r, ap, m'). (r, ap)) (parse_param_vp fmt ?m 0 False) = Some (r, ap)"
    using assms(1-3) vp_loop_refines parse_param_vp_refines_lemma [of fmt ?m 0 False]
    by (simp add: at_param_spec_def)
  then obtain m' where "parse_param_vp fmt ?m 0 False = Some (r, ap, m')"
    by auto
  moreover from this have "m' = ?m"
    unfolding parse_param_vp_def by (rule vp.params_restored)
  ultimately show ?thesis by (simp add: at_parse_param_def)
qed

lemma join_comma_chars:
  "c \<in> set (join_comma xs) \<Longrightarrow> c = COMMA \<or> (\<exists>x \<in> set xs. c \<in> set x)"
  by (induction xs rule: join_comma.induct) auto

lemma hd_join_comma: "x \<noteq> [] \<Longrightarrow> hd (join_comma (x # xs)) = hd x"
  by (cases xs) auto

lemma hd_show_dec: "hd (show_dec v) \<noteq> SPACE"
  by (metis hd_in_set show_dec_nonempty show_dec_clean(5))

text \<open>C15: a line of decimal numbers printed with \<^verbatim>\<open>%d\<close> and separated by commas is read back
  number for number under a format of as many \<^verbatim>\<open>%d\<close>, for every list of 32-bit values.\<close>

theorem at_parse_param_numbers:
  assumes "vs \<noteq> []" and "\<forall>v \<in> set vs. - 2147483648 \<le> v \<and> v \<le> 2147483647"
  shows "at_parse_param (join_comma (map (\<lambda>_. ''%d'') vs))
           (join_comma (map show_dec vs) @ [CR, NUL]) 0 =
         Some (AT_OK, map (\<lambda>v. Long (word_of_int v)) vs, join_comma (map show_dec vs) @ [CR, NUL])"
proof (rule at_parse_param_line)
  show "vp_spec False (join_comma (map show_dec vs)) (join_comma (map (\<lambda>_. ''%d'') vs)) [] =
      Some (AT_OK, map (\<lambda>v. Long (word_of_int v)) vs)"
    using assms by (subst vp_spec_numbers) (auto simp: long_min_def long_max_def)
  obtain w ws where vs: "vs = w # ws" using assms(1) by (cases vs) auto
  show "join_comma (map (\<lambda>_. ''%d'') vs) \<noteq> ''%a''" "join_comma (map (\<lambda>_. ''%d'') vs) \<noteq> ''%A''"
    unfolding vs by (cases ws; simp)+
  show "CR \<notin> set (join_comma (map show_dec vs))" "NUL \<notin> set (join_comma (map show_dec vs))"
    by (auto dest!: join_comma_chars simp: show_dec_clean)
  show "join_comma (map show_dec vs) = [] \<or> hd (join_comma (map show_dec vs)) \<noteq> SPACE"
    unfolding vs by (simp add: hd_join_comma hd_show_dec)
qed

theorem at_parse_param_numbers_witness:
  "at_parse_param (join_comma (map (\<lambda>_. ''%d'') [-5, 70000 :: int]))
     (join_comma (map show_dec [-5, 70000]) @ [CR, NUL]) 0 =
   Some (AT_OK, [Long (word_of_int (-5)), Long 70000], join_comma (map show_dec [-5, 70000]) @ [CR, NUL])"
  using at_parse_param_numbers [of "[-5, 70000]"] by simp

section \<open>Quoted text\<close>

lemma next_field_quoted:
  assumes "QUOTE \<notin> set s"
  shows "next_field (QUOTE # s @ [QUOTE]) = Some (s, None)"
  using assms index_of_append [of QUOTE s "[]"] by (simp add: next_field_def Let_def quote_first_def split: option.splits)

lemma get_val_limit_s:
  "get_val_limit ''%s'' = Some \<lparr>vl_required = False, vl_type = CHR ''s'', vl_size = 0,
     vl_min = 0, vl_max = 0xFFFFFFFF\<rparr>"
  by (simp add: get_val_limit_def last_char_def)

text \<open>a quoted parameter is stored as it stands between its quotes, commas included, and
  does not disturb the number in front of it.\<close>

lemma at_parse_param_quoted:
  assumes "- 2147483648 \<le> v" "v \<le> 2147483647"
    and "s \<noteq> []" "hd s \<noteq> SPACE" "QUOTE \<notin> set s" "CR \<notin> set s" "NUL \<notin> set s"
  shows "at_parse_param ''%d,%s'' (show_dec v @ COMMA # QUOTE # s @ [QUOTE, CR, NUL]) 0 =
         Some (AT_OK, [Long (word_of_int v), Text s], show_dec v @ COMMA # QUOTE # s @ [QUOTE, CR, NUL])"
proof -
  let ?line = "show_dec v @ COMMA # QUOTE # s @ [QUOTE]"
  have sp: "skip_spaces s = s" using assms(3,4) by (intro dropWhile_hd) auto
  have first: "parase_type_val_vp (show_dec v) ''%d'' [] = Some (AT_OK, [Long (word_of_int v)])"
    using assms(1,2) by (subst parase_dec) (auto simp: long_min_def long_max_def)
  have second: "parase_type_val_vp s ''%s'' a = Some (AT_OK, a @ [Text s])" for a
    using assms(3) sp
    by (simp add: parase_type_val_vp_def Let_def get_val_limit_s is_num_type_def is_str_type_def)
  have "vp_spec False (QUOTE # s @ [QUOTE]) ''%s'' a = Some (AT_OK, a @ [Text s])" for a
    using assms(5) second by (subst vp_spec.simps) (simp add: next_field_quoted)
  then have "vp_spec False ?line ''%d,%s'' [] = Some (AT_OK, [Long (word_of_int v), Text s])"
    using first by (subst vp_spec.simps) (simp add: next_field_plain(2) show_dec_clean)
  from at_parse_param_line [OF this] assms(6,7) show ?thesis
    by (simp add: show_dec_clean hd_show_dec)
qed

section \<open>Bounded numbers\<close>

definition bounded_item :: "nat \<Rightarrow> nat \<Rightarrow> string" where
  "bounded_item lo hi = ''%d('' @ dec_digits lo @ ''-'' @ dec_digits hi @ '')''"

lemma bounded_item_shape: "skip_spaces (bounded_item lo hi) = bounded_item lo hi" "bounded_item lo hi \<noteq> []"
  by (simp_all add: bounded_item_def)

lemma index_of_skip: "c \<notin> set xs \<Longrightarrow> index_of c (xs @ ys) = map_option ((+) (length xs)) (index_of c ys)"
proof (induction xs)
  case Nil
  then show ?case by (cases "index_of c ys") auto
next
  case (Cons x xs)
  then show ?case by (cases "index_of c ys") auto
qed

lemma dec_digits_clean:
  "CHR ''-'' \<notin> set (dec_digits n)" "CHR ''('' \<notin> set (dec_digits n)" "CHR '')'' \<notin> set (dec_digits n)"
  "CHR ''['' \<notin> set (dec_digits n)" "CHR '']'' \<notin> set (dec_digits n)" "COMMA \<notin> set (dec_digits n)"
  by (auto dest!: dec_digits_isdigit simp: isdigit_def code_def)

lemma get_val_limit_bounded:
  assumes "lo \<le> hi" "hi < 2147483648"
  shows "get_val_limit (bounded_item lo hi) = Some \<lparr>vl_required = True, vl_type = CHR ''d'',
     vl_size = 0, vl_min = of_nat lo, vl_max = of_nat hi\<rparr>"
proof -
  let ?l = "length (dec_digits lo)" and ?h = "length (dec_digits hi)"
  have pos: "index_of CHR ''('' (bounded_item lo hi) = Some 2"
    "index_of CHR '')'' (bounded_item lo hi) = Some (4 + ?l + ?h)"
    "index_of CHR ''['' (bounded_item lo hi) = None" "index_of CHR '']'' (bounded_item lo hi) = None"
    by (simp_all add: bounded_item_def index_of_skip dec_digits_clean)
  have mid: "index_of CHR ''-'' (drop 3 (bounded_item lo hi)) = Some ?l"
    by (simp add: bounded_item_def index_of_skip dec_digits_clean)
  have lo: "strtol10 (dec_digits lo @ CHR ''-'' # dec_digits hi) = int lo"
    using assms by (subst strtol10_digits_prefix) (auto simp: long_max_def isdigit_def code_def)
  have hi: "strtol10 (dec_digits hi) = int hi"
    using assms strtol10_digits_prefix [of "[]" hi] by (simp add: long_max_def)
  have tk: "take (4 + ?l + ?h - (2 + 1)) (drop (2 + 1) (bounded_item lo hi)) = dec_digits lo @ CHR ''-'' # dec_digits hi"
    "take (4 + ?l + ?h - (3 + ?l + 1)) (drop (3 + ?l + 1) (bounded_item lo hi)) = dec_digits hi"
    "take 2 (bounded_item lo hi) = ''%d''"
    by (simp_all add: bounded_item_def eval_nat_numeral)
  have "0 < ?h" by simp
  moreover have "\<not> (of_nat hi :: u32) < of_nat lo"
    using assms by (simp add: word_less_nat_alt unat_of_nat)
  ultimately have "bracket_limit (bounded_item lo hi) True 2 (4 + ?l + ?h) = Some
     \<lparr>vl_required = True, vl_type = CHR ''d'', vl_size = 0, vl_min = of_nat lo, vl_max = of_nat hi\<rparr>"
    using mid lo hi tk by (simp add: bracket_limit_def Let_def last_char_def)
  moreover have "length (bounded_item lo hi) > 2" by (simp add: bounded_item_def)
  ultimately show ?thesis by (simp add: get_val_limit_def pos)
qed

lemma unat_of_int32: "unat (word_of_int v :: u32) = nat (v mod 4294967296)"
  by (simp add: unsigned_of_int take_bit_eq_mod)

text \<open>a bounded number item \<^verbatim>\<open>%d(lo-hi)\<close> accepts a decimal parameter exactly when it lies
  between its bounds; the value is stored in both cases, and negative values are refused.\<close>

lemma at_parse_param_bounded:
  assumes "lo \<le> hi" "hi < 2147483648" and "- 2147483648 \<le> v" "v \<le> 2147483647"
  shows "at_parse_param (bounded_item lo hi) (show_dec v @ [CR, NUL]) 0 =
         Some (if int lo \<le> v \<and> v \<le> int hi then AT_OK else ATERR_PARAM_INVALID,
               [Long (word_of_int v)], show_dec v @ [CR, NUL])"
proof (rule at_parse_param_line)
  let ?w = "word_of_int v :: u32"
  have lo: "unat (of_nat lo :: u32) = lo" and hi: "unat (of_nat hi :: u32) = hi"
    using assms by (simp_all add: unat_of_nat)
  have range: "(?w < of_nat lo \<or> of_nat hi < ?w) \<longleftrightarrow> \<not> (int lo \<le> v \<and> v \<le> int hi)"
  proof (cases "0 \<le> v")
    case True
    then have "unat ?w = nat v" using assms(4) by (simp add: unat_of_int32)
    then show ?thesis using True lo hi by (auto simp: word_less_nat_alt)
  next
    case False
    then have "v mod 4294967296 = v + 4294967296" using assms(3)
      by (subst mod_add_self2 [symmetric]) (rule mod_pos_pos_trivial; simp)
    then have "unat ?w = nat (v + 4294967296)"
      by (simp add: unat_of_int32)
    then have "of_nat hi < ?w" using assms hi False
      by (simp add: word_less_nat_alt)
    with False show ?thesis by auto
  qed
  have "parase_type_val_vp (show_dec v) (bounded_item lo hi) [] =
      Some (if int lo \<le> v \<and> v \<le> int hi then AT_OK else ATERR_PARAM_INVALID, [Long ?w])"
    using range skip_spaces_show_dec [of v "[]"] assms strtol10_show_dec [of v]
    by (auto simp: parase_type_val_vp_def Let_def get_val_limit_bounded is_num_type_def num_size_ok_def
      read_number_def is_digit_str_show_dec dec_slot_def long_min_def long_max_def bounded_item_shape)
  moreover have "index_of COMMA (bounded_item lo hi) = None"
    by (simp add: bounded_item_def index_of_None dec_digits_clean)
  ultimately show "vp_spec False (show_dec v) (bounded_item lo hi) [] =
      Some (if int lo \<le> v \<and> v \<le> int hi then AT_OK else ATERR_PARAM_INVALID, [Long ?w])"
    by (subst vp_spec.simps) (simp add: next_field_plain(1) show_dec_clean)
qed (simp_all add: bounded_item_def show_dec_clean hd_show_dec)

lemma sint_of_int32: "- 2147483648 \<le> v \<Longrightarrow> v \<le> 2147483647 \<Longrightarrow> sint (word_of_int v :: u32) = v"
  by (simp add: signed_of_int signed_take_bit_int_eq_self)

text \<open>One number for one item.\<close>

lemma at_parse_param_number:
  assumes "- 2147483648 \<le> v" "v \<le> 2147483647"
  shows "at_parse_param ''%d'' (show_dec v @ [CR, NUL]) 0 = Some (AT_OK, [Long (word_of_int v)], show_dec v @ [CR, NUL])"
  by (rule at_parse_param_line)
    (use assms in \<open>simp_all add: vp_spec_numbers [of "[v]" False "[]", simplified] long_min_def long_max_def
      show_dec_clean hd_show_dec\<close>)

end
