(* ===== verification/At_Com.thy ===== *)
theory At_Com
  imports At_Values
begin

text \<open>
  The command recognition of \<^verbatim>\<open>SYSAPP/at_ctrl/src/at_com.c\<close>: is a line an AT command, what is
  its prefix, what kind of request is it and where do its parameters start; which commands
  are critical or belong to the SMS group; and the switch that keeps the chip out of standby
  while AT traffic goes on. The global \<^verbatim>\<open>g_atctl_req_type\<close> is passed in and out.
\<close>

section \<open>Recognising commands\<close>

text \<open>The enumeration \<^verbatim>\<open>AT_REQ_TYPE\<close> and the size of a prefix buffer.\<close>

datatype at_req_type = AT_CMD_REQ | AT_CMD_ACTIVE | AT_CMD_QUERY | AT_CMD_TEST

definition AT_CMD_PREFIX :: nat where "AT_CMD_PREFIX = 30"

definition check_atcmd :: "string option \<Rightarrow> bool" where
  "check_atcmd atcmd =
     (case atcmd of None \<Rightarrow> False
      | Some s \<Rightarrow>
          let c0 = peek s 0; c1 = peek s 1; c2 = peek s 2 in
          if c0 \<noteq> CHR ''A'' \<and> c0 \<noteq> CHR ''a'' then False
          else if c1 \<noteq> CHR ''T'' \<and> c1 \<noteq> CHR ''t'' then False
          else if \<not> isalpha c2 \<and> c2 \<noteq> CR \<and> c2 \<noteq> CHR ''+'' \<and> c2 \<noteq> CHR ''^'' \<and> c2 \<noteq> CHR ''#'' \<and> c2 \<noteq> CHR ''*''
          then False else True)"

text \<open>The first printable character within \<open>len\<close> bytes.\<close>

function first_print :: "memory \<Rightarrow> nat \<Rightarrow> nat \<Rightarrow> nat" where
  "first_print m str lim =
     (if (code (peek m str) < 33 \<or> 125 < code (peek m str)) \<and> str < lim
      then first_print m (Suc str) lim else str)"
  by pat_completeness auto
termination
  by (relation "measure (\<lambda>(m, str, lim). lim - str)") auto

declare first_print.simps [simp del]

definition find_first_print_char :: "memory \<Rightarrow> nat \<Rightarrow> nat \<Rightarrow> nat option" where
  "find_first_print_char m at_str len =
     (let str = first_print m at_str (at_str + len)
      in if str < at_str + len then Some str else None)"

definition at_check_sms_fun :: "string \<Rightarrow> bool" where
  "at_check_sms_fun at_cmd_prefix =
     (\<exists>s \<in> set [''CMGS'', ''CMGC'', ''CNMA'']. at_strstr at_cmd_prefix s \<noteq> None)"

definition at_critical_req :: "string list" where
  "at_critical_req = [''AT+NRB'', ''AT+RB'', ''AT+RESET'', ''AT+SWVER'', ''AT+CGMR'', ''AT+CGMM'',
     ''AT+CGMI'', ''AT+NV=SAVE'', ''AT+NETDOG'']"

definition is_critical_req :: "string \<Rightarrow> bool" where
  "is_critical_req at_str =
     (\<exists>c \<in> set at_critical_req.
        at_strncasecmp (Some at_str) (Some c) (int (length c)) = 0 \<and>
        at_strncasecmp (Some at_str) (Some ''AT+RESETCTL'') (int (length ''AT+RESETCTL'')) \<noteq> 0)"

section \<open>Prefix and parameters\<close>

text \<open>
  \<open>at_get_prefix_4_comb_cmd\<close>: the end of the first command's prefix in a line of several
  commands separated by semicolons.
\<close>

function comb_scan :: "memory \<Rightarrow> nat \<Rightarrow> nat \<Rightarrow> (nat \<times> at_req_type) option" where
  "comb_scan m tmp lim =
     (if tmp < lim then
        (if peek m tmp = CHR ''='' then
           Some (tmp, if peek m (tmp + 1) = CHR ''?'' then AT_CMD_TEST else AT_CMD_REQ)
         else if peek m tmp = CHR ''?'' then Some (tmp, AT_CMD_REQ)
         else comb_scan m (Suc tmp) lim)
      else if peek m tmp = CHR '';'' then Some (tmp, AT_CMD_ACTIVE)
      else None)"
  by pat_completeness auto
termination
  by (relation "measure (\<lambda>(m, tmp, lim). lim - tmp)") auto

declare comb_scan.simps [simp del]

definition at_get_prefix_4_comb_cmd :: "memory \<Rightarrow> nat \<Rightarrow> nat \<Rightarrow> (nat \<times> at_req_type) option option" where
  "at_get_prefix_4_comb_cmd m start lim =
     do { _ \<leftarrow> xy_assert (start < lim); Some (comb_scan m start lim) }"

text \<open>\<open>check_ati_req_custom\<close>: the flag, the parameter pointer and the request type of \<^verbatim>\<open>ATI...\<close>.\<close>

definition check_ati_req_custom :: "memory \<Rightarrow> nat \<Rightarrow> at_req_type \<Rightarrow> bool \<times> nat option \<times> at_req_type" where
  "check_ati_req_custom m p t =
     (if peek m p = CHR ''A'' \<and> peek m (p + 1) = CHR ''T'' \<and> peek m (p + 2) = CHR ''I'' \<and> peek m (p + 3) \<noteq> CR then
        (if peek m (p + 3) = CHR ''='' \<and> peek m (p + 4) = CHR ''?'' \<and> peek m (p + 5) = CR
         then (True, None, AT_CMD_TEST)
         else if peek m (p + 3) = CHR ''?'' \<and> peek m (p + 4) = CR then (True, None, AT_CMD_QUERY)
         else if peek m (p + 3) = CHR ''='' then (True, Some (p + 4), AT_CMD_REQ)
         else (False, None, t))
      else (False, None, t))"

text \<open>
  The tail of an extended command \<^verbatim>\<open>AT+NAME...\<close> from its head (the character after the plus):
  the end of the prefix, the request type and the parameters. The four branches are the
  source's, in its order; \<open>None\<close> is \<^verbatim>\<open>xy_assert(0)\<close>.
\<close>

definition comb_or :: "memory \<Rightarrow> nat \<Rightarrow> nat \<Rightarrow> nat \<Rightarrow> at_req_type \<Rightarrow> nat \<Rightarrow> (nat \<times> at_req_type \<times> nat) option" where
  "comb_or m at_cmd head e t param =
     (case strchr m head CHR '';'' of
        Some tmp \<Rightarrow>
          if tmp < e then do {
            r \<leftarrow> at_get_prefix_4_comb_cmd m at_cmd tmp;
            (e', t') \<leftarrow> r;
            Some (e', t', e' + 1)
          } else Some (e, t, param)
      | None \<Rightarrow> Some (e, t, param))"

definition ext_tail :: "memory \<Rightarrow> nat \<Rightarrow> nat \<Rightarrow> (nat \<times> at_req_type \<times> nat) option" where
  "ext_tail m at_cmd head =
     (let eq = strchr m head CHR ''=''; qu = strchr m head CHR ''?''; cr = strchr m head CR in
      if eq \<noteq> None \<and> peek m (the eq + 1) = CHR ''?'' \<and> peek m (the eq + 2) = CR then
        Some (the eq, AT_CMD_TEST, the eq + 1)
      else if qu \<noteq> None \<and> peek m (the qu + 1) = CR then
        comb_or m at_cmd head (the qu) AT_CMD_QUERY (the qu + 1)
      else if eq \<noteq> None then comb_or m at_cmd head (the eq) AT_CMD_REQ (the eq + 1)
      else if cr \<noteq> None then comb_or m at_cmd head (the cr) AT_CMD_ACTIVE (the cr)
      else None)"

record prefix_info =
  pi_param :: "nat option"
  pi_prefix :: string
  pi_type :: at_req_type

text \<open>
  \<open>strncpy\<close> of a prefix into the 30-byte buffer, or the warning that drops the parameters
  when it does not fit.
\<close>

definition copy_prefix :: "memory \<Rightarrow> nat \<Rightarrow> nat \<Rightarrow> nat option \<Rightarrow> at_req_type \<Rightarrow> prefix_info" where
  "copy_prefix m start len param t =
     (if len < AT_CMD_PREFIX then \<lparr>pi_param = param, pi_prefix = take len (cstr m start), pi_type = t\<rparr>
      else \<lparr>pi_param = None, pi_prefix = [], pi_type = t\<rparr>)"

definition at_get_prefix_and_param ::
  "nat \<Rightarrow> memory \<Rightarrow> nat \<Rightarrow> bool \<Rightarrow> at_req_type \<Rightarrow> prefix_info option" where
  "at_get_prefix_and_param cmee_mode m at_cmd0 is_all t =
     (let p = skip_ptr (\<lambda>c. c = CR \<or> c = LF) m at_cmd0; none = \<lparr>pi_param = None, pi_prefix = [], pi_type = t\<rparr> in
      if fst (at_is_rsp_err cmee_mode False (cstr m p)) \<or>
         at_strcasecmp (Some (cstr m p)) (Some (''OK'' @ [CR, LF])) = 0
      then Some none
      else let (custom, ati_param, t1) = check_ati_req_custom m p t in
      if custom then Some \<lparr>pi_param = ati_param, pi_prefix = ''ATI'', pi_type = t1\<rparr>
      else if peek m p = CHR ''A'' \<and> peek m (p + 1) = CHR ''T'' then
        (let temp = peek m (p + 2) in
         if temp \<in> {CHR ''+'', CHR ''^'', CHR ''&'', CHR ''#'', CHR ''*''} then do {
           (e, ty, param) \<leftarrow> ext_tail m p (p + 3);
           Some (if is_all then copy_prefix m p (e - p) (Some param) ty
                 else copy_prefix m (p + 2) (e - (p + 2)) (Some param) t)
         }
         else if isalpha temp then Some (copy_prefix m p 3 (Some (p + 3)) AT_CMD_ACTIVE)
         else if temp = CR then Some (copy_prefix m p 2 (Some (p + 3)) AT_CMD_ACTIVE)
         else Some none)
      else if peek m p \<in> {CHR ''+'', CHR ''^'', CHR ''&''} then
        (case strchr m p CHR '':'' of
           Some e \<Rightarrow> Some (copy_prefix m p (e - p + 1) (Some (e + 1)) t)
         | None \<Rightarrow>
             (case strchr m p CR of
                Some e \<Rightarrow> Some (copy_prefix m p (e - p) (Some e) t)
              | None \<Rightarrow> None))
      else Some none)"

section \<open>Keeping standby off while AT commands arrive\<close>

text \<open>
  \<^verbatim>\<open>g_at_off_standby\<close> counts the reasons to stay awake. The one-shot timer is \<open>None\<close> when it is
  not created, otherwise it tells whether it runs. The two NV settings are configuration.
\<close>

record standby_cfg =
  at_standby_delay :: nat
  lpm_standby_enable :: nat

record standby_state =
  g_at_off_standby :: int
  g_at_standby_timer :: "bool option"
  uart_processing :: bool
  uart_error_no :: at_err

definition start_at_standby_timer :: "standby_cfg \<Rightarrow> standby_state \<Rightarrow> standby_state" where
  "start_at_standby_timer cfg s =
     (if at_standby_delay cfg = 0 \<or> lpm_standby_enable cfg = 0 then s
      else if uart_error_no s = ATERR_DROP_MORE then
        s\<lparr>uart_error_no := AT_OK, g_at_standby_timer := Some True\<rparr>
      else if g_at_standby_timer s \<noteq> None then s\<lparr>g_at_standby_timer := Some True\<rparr>
      else s)"

definition at_standby_set :: "standby_cfg \<Rightarrow> standby_state \<Rightarrow> standby_state" where
  "at_standby_set cfg s = start_at_standby_timer cfg (s\<lparr>g_at_off_standby := g_at_off_standby s + 1\<rparr>)"

definition at_standby_unset :: "standby_state \<Rightarrow> standby_state" where
  "at_standby_unset s =
     (if g_at_off_standby s \<noteq> 0 then s\<lparr>g_at_off_standby := g_at_off_standby s - 1\<rparr> else s)"

definition at_standby_clear :: "standby_state \<Rightarrow> standby_state" where
  "at_standby_clear s = (if g_at_standby_timer s = Some True then s else s\<lparr>g_at_off_standby := 0\<rparr>)"

definition at_standby_timer_callback :: "standby_state \<Rightarrow> standby_state" where
  "at_standby_timer_callback s =
     (let s1 = (if \<not> uart_processing s then s\<lparr>g_at_off_standby := 0\<rparr> else s)
      in s1\<lparr>g_at_standby_timer := None\<rparr>)"

end
