(* ===== verification/At_Api.thy ===== *)
theory At_Api
  imports At_Params At_Com
begin

text \<open>
  \<^verbatim>\<open>SYSAPP/at_ctrl/src/at_api.c\<close>: waiting for the reply to a command the firmware itself sent
  and reading its parameters, and the copying of raw text parameters out of a command line.
  A message queue is the list of the reply strings it will deliver.
\<close>

section \<open>Collecting a reply\<close>

text \<open>
  \<open>get_handle_rst_vp\<close> takes replies from the queue until one of them settles the result. Each
  reply is in a buffer of its own, parsed from its first byte. \<open>ret\<close> is \<open>None\<close> while it is
  -1 in the source; \<open>all_format\<close> is the text collected for the format \<^verbatim>\<open>%a\<close>.
\<close>

record rst_state =
  rs_ret :: "int option"
  rs_slots :: "slot list"
  rs_all :: "string option"

text \<open>The number an error code has in \<^verbatim>\<open>AT_XY_ERR\<close>.\<close>

fun err_number :: "at_err \<Rightarrow> int" where
  "err_number AT_OK = 0"
| "err_number AT_JSON = 1"
| "err_number ATERR_XY_ERR = 8000"
| "err_number ATERR_PARAM_INVALID = 8001"
| "err_number ATERR_NOT_ALLOWED = 8002"
| "err_number ATERR_DROP_MORE = 8003"
| "err_number ATERR_DOING_FOTA = 8004"
| "err_number ATERR_MORE_PARAM = 8005"
| "err_number ATERR_WAIT_RSP_TIMEOUT = 8006"
| "err_number ATERR_CHANNEL_BUSY = 8007"
| "err_number ATERR_DSP_NOT_RUN = 8008"
| "err_number ATERR_NOT_NET_CONNECT = 8009"
| "err_number ATERR_NEED_OFFTIME = 8010"
| "err_number ATERR_CONN_NOT_CONNECTED = 8011"
| "err_number ATERR_INVALID_PREFIX = 8012"
| "err_number ATERR_LOW_VOL = 8013"

definition is_all_fmt :: "string \<Rightarrow> bool" where
  "is_all_fmt fmt = (fmt = ''%a'' \<or> fmt = ''%A'')"

text \<open>The parameters in one reply, behind the prefix or, without a prefix, from the first text.\<close>

definition rst_params :: "string option \<Rightarrow> string \<Rightarrow> string \<Rightarrow> rst_state \<Rightarrow> rst_state option" where
  "rst_params prefix fmt rsp_at s =
     (case prefix of
        None \<Rightarrow> Some s
      | Some pre \<Rightarrow>
          let m = rsp_at @ [NUL];
              parse = (\<lambda>q cr. do {
                (r, sl, m') \<leftarrow> parse_param_vp fmt (m[cr := NUL]) q False;
                Some (s\<lparr>rs_ret := Some (err_number r), rs_slots := rs_slots s @ sl\<rparr>)
              })
          in case at_strstr2 rsp_at pre of
               Some p \<Rightarrow> do {
                 _ \<leftarrow> xy_assert (peek m p = CHR '':'' \<or> peek m p = CHR ''='' \<or> peek m p = CHR ''^'');
                 cr \<leftarrow> strstr m (p + 1) [CR];
                 parse (p + 1) cr
               }
             | None \<Rightarrow>
                 (case find_first_print_char m 0 (length rsp_at) of
                    None \<Rightarrow> Some s
                  | Some q \<Rightarrow>
                      let colon = strchr m q CHR '':''; comma = strchr m q COMMA in
                      if colon = None \<or> (comma \<noteq> None \<and> the comma < the colon) \<or> (colon \<noteq> None \<and> comma = None)
                      then (case strstr m q [CR] of
                              None \<Rightarrow> None
                            | Some cr \<Rightarrow>
                                if strstr m q (''OK'' @ [CR, LF]) = Some q then Some s else parse q cr)
                      else Some s))"

definition rst_settle :: "nat \<Rightarrow> bool \<Rightarrow> string \<Rightarrow> rst_state \<Rightarrow> rst_state" where
  "rst_settle cmee_mode user_care rsp_at s =
     (case rs_ret s of
        None \<Rightarrow>
          if at_strstr rsp_at (''OK'' @ [CR]) \<noteq> None then s\<lparr>rs_ret := Some 0\<rparr>
          else (case at_is_rsp_err cmee_mode True rsp_at of
                  (True, Some n) \<Rightarrow> s\<lparr>rs_ret := (if n = -1 then Some (err_number ATERR_NOT_ALLOWED) else Some n)\<rparr>
                | (True, None) \<Rightarrow> s\<lparr>rs_ret := Some (err_number ATERR_NOT_ALLOWED)\<rparr>
                | (False, _) \<Rightarrow> s)
      | Some r \<Rightarrow>
          if r = 0 \<and> \<not> fst (is_result_at cmee_mode user_care False rsp_at) then s\<lparr>rs_ret := None\<rparr> else s)"

text \<open>The text collected under \<^verbatim>\<open>%a\<close> is handed over with the final result.\<close>

definition rst_all :: "string \<Rightarrow> rst_state \<Rightarrow> rst_state" where
  "rst_all rsp_at s =
     (if rs_ret s \<noteq> None then
        (case rs_all s of None \<Rightarrow> s | Some t \<Rightarrow> s\<lparr>rs_slots := rs_slots s @ [Text t], rs_all := None\<rparr>)
      else s\<lparr>rs_all := Some (case rs_all s of None \<Rightarrow> rsp_at | Some t \<Rightarrow> t @ rsp_at)\<rparr>)"

fun rst_loop :: "nat \<Rightarrow> bool \<Rightarrow> string option \<Rightarrow> string option \<Rightarrow> string list \<Rightarrow> rst_state \<Rightarrow> (int \<times> slot list) option" where
  "rst_loop cmee uc prefix info_fmt [] s = None"
| "rst_loop cmee uc prefix info_fmt (rsp_at # queue) s =
     do {
       s1 \<leftarrow> (case info_fmt of
                Some fmt \<Rightarrow> if is_all_fmt fmt then Some s else rst_params prefix fmt rsp_at s
              | None \<Rightarrow> Some s);
       let s2 = rst_settle cmee uc rsp_at s1;
       let s3 = (case info_fmt of
                   Some fmt \<Rightarrow> if is_all_fmt fmt then rst_all rsp_at s2 else s2
                 | None \<Rightarrow> s2);
       case rs_ret s3 of
         None \<Rightarrow> rst_loop cmee uc prefix info_fmt queue s3
       | Some r \<Rightarrow> Some (r, rs_slots s3)
     }"

definition get_handle_rst_vp ::
  "nat \<Rightarrow> bool \<Rightarrow> string option \<Rightarrow> string option \<Rightarrow> string list \<Rightarrow> (int \<times> slot list) option" where
  "get_handle_rst_vp cmee_mode user_care prefix info_fmt queue =
     rst_loop cmee_mode user_care prefix info_fmt queue
       \<lparr>rs_ret = None, rs_slots = [], rs_all = None\<rparr>"

section \<open>Raw text parameters\<close>

text \<open>The parameters in front of the text: as many commas as the format has before its \<^verbatim>\<open>%s\<close>.\<close>

definition commas_before :: "string \<Rightarrow> nat \<Rightarrow> nat" where
  "commas_before fmt n = length (filter (\<lambda>c. c = COMMA) (take n fmt))"

fun skip_fields :: "memory \<Rightarrow> nat \<Rightarrow> nat \<Rightarrow> nat option" where
  "skip_fields m p 0 = Some p"
| "skip_fields m p (Suc n) = (case strchr m p COMMA of None \<Rightarrow> None | Some c \<Rightarrow> skip_fields m (c + 1) n)"

text \<open>
  After the copy, quotes and commas inside the text are masked in the command line so that
  the parameters behind it can still be scanned.
\<close>

definition mask_char :: "char \<Rightarrow> char" where
  "mask_char c = (if c = QUOTE then CHR 0x27 else if c = COMMA then CHR '';'' else c)"

fun mask_range :: "memory \<Rightarrow> nat \<Rightarrow> nat \<Rightarrow> memory" where
  "mask_range m p 0 = m"
| "mask_range m p (Suc n) = mask_range (m[p := mask_char (peek m p)]) (Suc p) n"

text \<open>\<^verbatim>\<open>memcpy\<close> of \<open>n\<close> bytes from \<open>p\<close>.\<close>

definition bytes_at :: "memory \<Rightarrow> nat \<Rightarrow> nat \<Rightarrow> string" where
  "bytes_at m p n = map (\<lambda>i. peek m (p + i)) [0..<n]"

text \<open>
  \<open>get_ascii_data\<close>: \<open>transmission_flag\<close> is the global of the TCP/UDP string mode. The result is
  the code, the bytes copied to \<^verbatim>\<open>param_data\<close> (before its NUL) and the masked line.
\<close>

definition get_ascii_data ::
  "bool \<Rightarrow> string \<Rightarrow> memory \<Rightarrow> nat \<Rightarrow> nat \<Rightarrow> (at_err \<times> string \<times> memory) option" where
  "get_ascii_data transmission_flag fmt_parm m at_str0 ascii_len =
     (case find_sub ''%s'' fmt_parm of
        None \<Rightarrow> None
      | Some e \<Rightarrow> do {
          _ \<leftarrow> xy_assert (find_sub ''%s'' (drop (e + 2) fmt_parm) = None);
          Some (case skip_fields m at_str0 (commas_before fmt_parm e) of
              None \<Rightarrow> (ATERR_PARAM_INVALID, [], m)
            | Some p \<Rightarrow>
                let copy = (\<lambda>q. (AT_OK, bytes_at m q ascii_len, mask_range m q ascii_len)) in
                if peek m p = QUOTE then
                  (if peek m (p + 1 + ascii_len) \<noteq> QUOTE then (ATERR_PARAM_INVALID, [], m)
                   else copy (p + 1))
                else
                  (let stop = (if \<not> transmission_flag \<and> strchr m p COMMA \<noteq> None
                               then strchr m p COMMA else strchr m p CR)
                   in case stop of
                        None \<Rightarrow> (ATERR_PARAM_INVALID, [], m)
                      | Some q \<Rightarrow> if q - p \<noteq> ascii_len then (ATERR_PARAM_INVALID, [], m) else copy p))
        })"

text \<open>
  \<open>get_ascii_data_json\<close>: the closing quote is the last one of the line. Without an opening
  quote nothing is copied (\<^verbatim>\<open>str_len\<close> stays 0) but the masking takes place.
\<close>

definition get_ascii_data_json ::
  "string \<Rightarrow> memory \<Rightarrow> nat \<Rightarrow> nat \<Rightarrow> (at_err \<times> string \<times> memory) option" where
  "get_ascii_data_json fmt_parm m at_str0 ascii_len =
     (case find_sub ''%s'' fmt_parm of
        None \<Rightarrow> None
      | Some e \<Rightarrow> do {
          _ \<leftarrow> xy_assert (find_sub ''%s'' (drop (e + 2) fmt_parm) = None);
          Some (case skip_fields m at_str0 (commas_before fmt_parm e) of
              None \<Rightarrow> (ATERR_PARAM_INVALID, [], m)
            | Some p \<Rightarrow>
                if peek m p = QUOTE then
                  (case strrchr m (p + 1) QUOTE of
                     None \<Rightarrow> (ATERR_PARAM_INVALID, [], m)
                   | Some q \<Rightarrow>
                       if q - (p + 1) \<noteq> ascii_len then (ATERR_PARAM_INVALID, [], m)
                       else (AT_OK, bytes_at m (p + 1) (q - (p + 1)), mask_range m (p + 1) ascii_len))
                else (AT_OK, [], mask_range m p ascii_len))
        })"

end
