(* ===== verification/Ipc_Ringbuf.thy ===== *)
theory Ipc_Ringbuf
  imports XY_Prelude
begin

unbundle bit_operations_syntax

text \<open>
  The shared-memory ring buffers of the inter-core channel
  (\<^verbatim>\<open>src/xinyi/DRIVERS/IpcMsg/src/ipcmsg_ringbuf.c\<close>). Memory is a map from byte addresses to
  bytes and \<^verbatim>\<open>memcpy\<close> writes a range of it; positions, sizes and addresses are the
  \<^verbatim>\<open>unsigned int\<close> of the C code, with its wrap-around. \<open>ring_get\<close> reads the ring as one cyclic
  sequence of bytes; the lemmas below show that the read and write operations, whichever of their
  branches runs, are the cyclic read and write.
\<close>

section \<open>The operations of the code\<close>

definition ALIGN_IPCMSG :: "u32 \<Rightarrow> u32 \<Rightarrow> u32" where
  "ALIGN_IPCMSG s a = (s + a - 1) AND (NOT (a - 1))"

definition CACHE_LINE :: u32 where "CACHE_LINE = 32"
definition IPCMSG_ALIGN :: u32 where "IPCMSG_ALIGN = 4"

record T_RingBuf =
  rb_size :: u32
  Write_Pos :: u32
  base_addr :: u32
  Read_Pos :: u32

type_synonym ram = "nat \<Rightarrow> u8"

definition mem_copy :: "nat \<Rightarrow> (nat \<Rightarrow> u8) \<Rightarrow> nat \<Rightarrow> ram \<Rightarrow> ram" where
  "mem_copy dest src n m = (\<lambda>a. if dest \<le> a \<and> a < dest + n then src (a - dest) else m a)"

definition mem_get :: "ram \<Rightarrow> nat \<Rightarrow> nat \<Rightarrow> u8 list" where
  "mem_get m a n = map (\<lambda>i. m (a + i)) [0..<n]"

definition Is_Ringbuf_Empty :: "T_RingBuf \<Rightarrow> bool" where
  "Is_Ringbuf_Empty ringbuf \<longleftrightarrow> Write_Pos ringbuf = Read_Pos ringbuf"

definition Is_Ringbuf_ChFreeSpace :: "T_RingBuf \<Rightarrow> u32 \<Rightarrow> bool" where
  "Is_Ringbuf_ChFreeSpace rb n =
     (if Write_Pos rb < Read_Pos rb then Read_Pos rb - Write_Pos rb > n
      else rb_size rb - Write_Pos rb + Read_Pos rb > n)"

text \<open>
  \<open>ipcmsg_ringbuf_read\<close>: the bytes it copies to \<^verbatim>\<open>__dest\<close> and the ring with its new
  \<^verbatim>\<open>Read_Pos\<close>. \<open>data_len\<close> bytes are copied, \<open>buf_len\<close> bytes are consumed.
\<close>

definition ring_rewind_read :: "T_RingBuf \<Rightarrow> T_RingBuf" where
  "ring_rewind_read rb =
     (if rb_size rb \<le> Read_Pos rb then rb\<lparr>Read_Pos := Read_Pos rb mod rb_size rb\<rparr> else rb)"

definition ipcmsg_ringbuf_read ::
    "ram \<Rightarrow> T_RingBuf \<Rightarrow> u32 \<Rightarrow> u32 \<Rightarrow> u8 list \<times> T_RingBuf" where
  "ipcmsg_ringbuf_read m rb data_len buf_len =
     (let read_pos = Read_Pos rb; write_pos = Write_Pos rb; base = base_addr rb in
      if write_pos < read_pos \<and> buf_len > rb_size rb - read_pos then
        ((if data_len > rb_size rb - read_pos then
            mem_get m (unat (base + read_pos)) (unat (rb_size rb - read_pos)) @
            mem_get m (unat base) (unat (data_len - rb_size rb + read_pos))
          else mem_get m (unat (base + read_pos)) (unat data_len)),
         ring_rewind_read
           (rb\<lparr>Read_Pos := ALIGN_IPCMSG (buf_len - rb_size rb + read_pos) IPCMSG_ALIGN\<rparr>))
      else
        (mem_get m (unat (base + read_pos)) (unat data_len),
         ring_rewind_read (rb\<lparr>Read_Pos := Read_Pos rb + ALIGN_IPCMSG buf_len IPCMSG_ALIGN\<rparr>)))"

text \<open>
  \<open>ipcmsg_ringbuf_write\<close>: \<open>n\<close> bytes of the source \<open>src\<close>, which is given from its first byte on,
  are copied into the ring.
\<close>

definition ring_rewind_write :: "T_RingBuf \<Rightarrow> T_RingBuf" where
  "ring_rewind_write rb =
     (if rb_size rb \<le> Write_Pos rb then rb\<lparr>Write_Pos := Write_Pos rb mod rb_size rb\<rparr> else rb)"

definition ipcmsg_ringbuf_write ::
    "T_RingBuf \<Rightarrow> (nat \<Rightarrow> u8) \<Rightarrow> u32 \<Rightarrow> ram \<Rightarrow> T_RingBuf \<times> ram" where
  "ipcmsg_ringbuf_write rb src n m =
     (let read_pos = Read_Pos rb; write_pos = Write_Pos rb; base = base_addr rb in
      if write_pos \<ge> read_pos \<and> n > rb_size rb - write_pos then
        (let room = unat (rb_size rb - write_pos);
             m1 = mem_copy (unat (base + write_pos)) src room m;
             m2 = mem_copy (unat base) (\<lambda>i. src (i + room)) (unat (n - rb_size rb + write_pos)) m1
         in (ring_rewind_write
               (rb\<lparr>Write_Pos := ALIGN_IPCMSG (n - rb_size rb + write_pos) IPCMSG_ALIGN\<rparr>), m2))
      else
        (ring_rewind_write (rb\<lparr>Write_Pos := Write_Pos rb + ALIGN_IPCMSG n IPCMSG_ALIGN\<rparr>),
         mem_copy (unat (base + write_pos)) src (unat n) m))"
section \<open>Alignment\<close>

lemma and_not_mask: "(x::'a::len word) AND NOT (mask n) = push_bit n (drop_bit n x)"
  by (rule bit_word_eqI) (auto simp: bit_simps)

lemma unat_and_not_mask:
  fixes x :: "'a::len word"
  shows "unat (x AND NOT (mask n)) = 2 ^ n * (unat x div 2 ^ n)"
proof -
  have "push_bit n (unat x div 2 ^ n) < 2 ^ LENGTH('a)"
    by (metis div_times_less_eq_dividend le_less_trans push_bit_eq_mult unsigned_less)
  then show ?thesis
    unfolding and_not_mask unsigned_push_bit_eq unat_drop_bit_eq
    by (simp add: drop_bit_eq_div take_bit_nat_eq_self push_bit_eq_mult mult.commute)
qed

lemma unat_ALIGN:
  assumes "unat s + (2 ^ n - 1) < 2 ^ 32" and "n < 32"
  shows "unat (ALIGN_IPCMSG s (2 ^ n)) = 2 ^ n * ((unat s + (2 ^ n - 1)) div 2 ^ n)"
proof -
  have m: "(2::u32) ^ n - 1 = mask n" by (simp add: mask_eq_exp_minus_1)
  have um: "unat (mask n :: u32) = 2 ^ n - 1"
  proof -
    have "unat (mask n :: u32) = nat (mask n)"
      using assms(2) by (simp add: uint_mask_eq flip: nat_uint_eq)
    then show ?thesis unfolding nat_mask_eq by (simp only: mask_eq_exp_minus_1 [where 'a = nat])
  qed
  have "s + 2 ^ n - 1 = s + mask n" using m by (simp add: add_diff_eq)
  moreover have "unat (s + mask n) = unat s + (2 ^ n - 1)"
    using assms(1) um by (simp add: unat_word_ariths)
  ultimately show ?thesis
    unfolding ALIGN_IPCMSG_def by (simp only: m unat_and_not_mask)
qed

lemma unat_ALIGN_32:
  "unat s + 31 < 2 ^ 32 \<Longrightarrow> unat (ALIGN_IPCMSG s CACHE_LINE) = 32 * ((unat s + 31) div 32)"
  using unat_ALIGN [of s 5] by (simp add: CACHE_LINE_def)

lemma ALIGN_4_id:
  assumes "4 dvd unat s"
  shows "ALIGN_IPCMSG s IPCMSG_ALIGN = s"
proof -
  obtain k where k: "unat s = 4 * k" using assms by (auto elim: dvdE)
  have "unat s < 2 ^ 32" using unsigned_less [of s] by simp
  then have "unat s + 3 < 2 ^ 32" using k by simp
  then have "unat (ALIGN_IPCMSG s 4) = 4 * ((unat s + 3) div 4)"
    using unat_ALIGN [of s 2] by simp
  also have "\<dots> = unat s" using k by simp
  finally show ?thesis unfolding IPCMSG_ALIGN_def by (simp add: word_unat_eq_iff)
qed

section \<open>The ring as a cyclic sequence of bytes\<close>

definition cyc_dist :: "nat \<Rightarrow> nat \<Rightarrow> nat \<Rightarrow> nat" where
  "cyc_dist s p x = (if p \<le> x then x - p else x + s - p)"

definition cyc_get :: "nat \<Rightarrow> nat \<Rightarrow> nat \<Rightarrow> nat \<Rightarrow> ram \<Rightarrow> u8 list" where
  "cyc_get b s p n m = map (\<lambda>i. m (b + (p + i) mod s)) [0..<n]"

definition cyc_put :: "nat \<Rightarrow> nat \<Rightarrow> nat \<Rightarrow> (nat \<Rightarrow> u8) \<Rightarrow> nat \<Rightarrow> ram \<Rightarrow> ram" where
  "cyc_put b s p src n m = (\<lambda>a. if b \<le> a \<and> a < b + s \<and> cyc_dist s p (a - b) < n
     then src (cyc_dist s p (a - b)) else m a)"

lemma mod_once: "p < s \<Longrightarrow> i \<le> s \<Longrightarrow> (p + i) mod s = (if p + i < s then p + i else p + i - s)" for p :: nat
  by (auto simp: le_mod_geq not_less)

lemma cyc_get_length [simp]: "length (cyc_get b s p n m) = n"
  by (simp add: cyc_get_def)

lemma cyc_get_0 [simp]: "cyc_get b s p 0 m = []"
  by (simp add: cyc_get_def)

lemma cyc_get_put_same:
  assumes "p < s" "n \<le> s"
  shows "cyc_get b s p n (cyc_put b s p src n m) = map src [0..<n]"
proof -
  have "cyc_dist s p ((p + i) mod s) = i \<and> (p + i) mod s < s" if "i < n" for i
    using assms that by (auto simp: mod_once cyc_dist_def)
  then show ?thesis
    using assms unfolding cyc_get_def cyc_put_def by (intro map_cong) auto
qed

lemma cyc_get_put_before:
  assumes "q < s" "k + n \<le> s" "p = (q + k) mod s"
  shows "cyc_get b s q k (cyc_put b s p src n m) = cyc_get b s q k m"
proof -
  have "\<not> cyc_dist s p ((q + i) mod s) < n" if "i < k" for i
    using assms that by (auto simp: mod_once cyc_dist_def)
  then show ?thesis
    unfolding cyc_get_def cyc_put_def by (intro map_cong) auto
qed

lemma cyc_get_append:
  "cyc_get b s q (k + n) m = cyc_get b s q k m @ cyc_get b s ((q + k) mod s) n m"
proof -
  have "[0..<k + n] = [0..<k] @ map ((+) k) [0..<n]"
    by (rule nth_equalityI) (auto simp: nth_append)
  then show ?thesis
    by (auto simp: cyc_get_def mod_add_left_eq add.assoc o_def)
qed

lemma cyc_put_outside:
  "a < b \<or> b + s \<le> a \<Longrightarrow> cyc_put b s p src n m a = m a"
  by (auto simp: cyc_put_def)

lemma mem_get_linear:
  assumes "p < s" "p + n \<le> s"
  shows "mem_get m (b + p) n = cyc_get b s p n m"
  using assms unfolding mem_get_def cyc_get_def by (intro map_cong) (auto simp: add.assoc)

lemma mem_get_wrapped:
  assumes "p < s" "s - p \<le> n" "n \<le> s"
  shows "mem_get m (b + p) (s - p) @ mem_get m b (n + p - s) = cyc_get b s p n m"
proof -
  have n: "n = (s - p) + (n + p - s)" using assms by simp
  have a: "mem_get m (b + p) (s - p) = cyc_get b s p (s - p) m"
    by (rule mem_get_linear) (use assms in auto)
  have b: "mem_get m b (n + p - s) = cyc_get b s ((p + (s - p)) mod s) (n + p - s) m"
    using mem_get_linear [of 0 s "n + p - s" m b] assms by simp
  show ?thesis
    using cyc_get_append [of b s p "s - p" "n + p - s" m] n a b by simp
qed

lemma mem_copy_linear:
  assumes "p < s" "p + n \<le> s"
  shows "mem_copy (b + p) src n m = cyc_put b s p src n m"
  using assms by (auto simp: mem_copy_def cyc_put_def cyc_dist_def fun_eq_iff)

lemma mem_copy_wrapped:
  assumes "p < s" "s - p \<le> n" "n \<le> s"
  shows "mem_copy b (\<lambda>i. src (i + (s - p))) (n + p - s) (mem_copy (b + p) src (s - p) m)
       = cyc_put b s p src n m"
  using assms
  by (auto simp: mem_copy_def cyc_put_def cyc_dist_def fun_eq_iff intro: arg_cong [of _ _ src])

section \<open>The operations read and write the cyclic sequence\<close>

text \<open>
  \<open>ring_ok\<close>: positions inside the area and word-aligned, and an area that does not wrap the
  address space. \<open>ring_used\<close> is the number of bytes between the reader and the writer.
\<close>

definition ring_ok :: "T_RingBuf \<Rightarrow> bool" where
  "ring_ok rb \<longleftrightarrow>
     4 dvd unat (rb_size rb) \<and> 4 dvd unat (Read_Pos rb) \<and> 4 dvd unat (Write_Pos rb) \<and>
     unat (Read_Pos rb) < unat (rb_size rb) \<and> unat (Write_Pos rb) < unat (rb_size rb) \<and>
     unat (base_addr rb) + unat (rb_size rb) < 2 ^ 32"

definition ring_used :: "T_RingBuf \<Rightarrow> nat" where
  "ring_used rb =
     cyc_dist (unat (rb_size rb)) (unat (Read_Pos rb)) (unat (Write_Pos rb))"

definition ring_content :: "ram \<Rightarrow> T_RingBuf \<Rightarrow> u8 list" where
  "ring_content m rb = cyc_get (unat (base_addr rb)) (unat (rb_size rb))
     (unat (Read_Pos rb)) (ring_used rb) m"

lemma ring_used_less: "ring_ok rb \<Longrightarrow> ring_used rb < unat (rb_size rb)"
  by (auto simp: ring_used_def ring_ok_def cyc_dist_def)

lemma ring_used_0: "ring_ok rb \<Longrightarrow> ring_used rb = 0 \<longleftrightarrow> Is_Ringbuf_Empty rb"
  by (auto simp: ring_used_def ring_ok_def cyc_dist_def Is_Ringbuf_Empty_def word_unat_eq_iff)

lemma ring_content_length [simp]: "length (ring_content m rb) = ring_used rb"
  by (simp add: ring_content_def)

text \<open>Subtraction and addition of words that do not wrap.\<close>

lemma unat_minus_le: "b \<le> a \<Longrightarrow> unat (a - b) = unat a - unat b" for a b :: u32
  by (simp add: unat_sub)

lemma unat_plus_small: "unat a + unat b < 2 ^ 32 \<Longrightarrow> unat (a + b) = unat a + unat b" for a b :: u32
  by (simp add: unat_word_ariths)

lemma Is_Ringbuf_ChFreeSpace_iff:
  assumes "ring_ok rb"
  shows "Is_Ringbuf_ChFreeSpace rb n \<longleftrightarrow> unat n + ring_used rb < unat (rb_size rb)"
proof (cases "Write_Pos rb < Read_Pos rb")
  case True
  then show ?thesis
    using assms
    by (auto simp: Is_Ringbuf_ChFreeSpace_def ring_used_def cyc_dist_def ring_ok_def
        word_less_nat_alt unat_minus_le word_le_nat_alt)
next
  case False
  then have le: "Read_Pos rb \<le> Write_Pos rb" by simp
  have "unat (rb_size rb - Write_Pos rb + Read_Pos rb)
      = unat (rb_size rb) - unat (Write_Pos rb) + unat (Read_Pos rb)"
    using assms le unfolding ring_ok_def
    by (subst unat_plus_small) (auto simp: unat_minus_le word_le_nat_alt)
  then show ?thesis
    using assms le
    by (auto simp: Is_Ringbuf_ChFreeSpace_def ring_used_def cyc_dist_def ring_ok_def
        word_less_nat_alt word_le_nat_alt)
qed

lemma ring_rewind_read_mod:
  "ring_rewind_read (rb\<lparr>Read_Pos := x\<rparr>) = rb\<lparr>Read_Pos := x mod rb_size rb\<rparr>"
proof (cases "rb_size rb \<le> x")
  case False
  then have "x mod rb_size rb = x"
    by (simp add: word_unat_eq_iff unat_mod word_le_nat_alt)
  with False show ?thesis by (simp add: ring_rewind_read_def)
qed (simp add: ring_rewind_read_def)

lemma ring_rewind_write_mod:
  "ring_rewind_write (rb\<lparr>Write_Pos := x\<rparr>) = rb\<lparr>Write_Pos := x mod rb_size rb\<rparr>"
proof (cases "rb_size rb \<le> x")
  case False
  then have "x mod rb_size rb = x"
    by (simp add: word_unat_eq_iff unat_mod word_le_nat_alt)
  with False show ?thesis by (simp add: ring_rewind_write_def)
qed (simp add: ring_rewind_write_def)

definition ring_pos :: "T_RingBuf \<Rightarrow> u32 \<Rightarrow> nat \<Rightarrow> u32" where
  "ring_pos rb p n = of_nat ((unat p + n) mod unat (rb_size rb))"

lemma unat_ring_pos:
  assumes "0 < unat (rb_size rb)"
  shows "unat (ring_pos rb p n) = (unat p + n) mod unat (rb_size rb)"
proof -
  have "(unat p + n) mod unat (rb_size rb) < unat (rb_size rb)"
    using assms by simp
  also have "\<dots> < 2 ^ 32" using unsigned_less [of "rb_size rb"] by simp
  finally show ?thesis by (simp add: ring_pos_def unat_of_nat)
qed

lemma ring_pos_linear:
  assumes "unat p + unat n < 2 ^ 32"
  shows "(p + n) mod rb_size rb = ring_pos rb p (unat n)"
proof (cases "rb_size rb = 0")
  case True
  then show ?thesis
    using assms by (simp add: ring_pos_def word_unat_eq_iff unat_mod unat_plus_small unat_of_nat)
next
  case False
  then have "0 < unat (rb_size rb)" by (simp add: unat_gt_0)
  then show ?thesis
    using assms by (simp add: word_unat_eq_iff unat_mod unat_plus_small unat_ring_pos)
qed

lemma ring_pos_wrapped:
  assumes "unat p < unat (rb_size rb)" "unat (rb_size rb) \<le> unat p + unat n"
    "unat n \<le> unat (rb_size rb)"
  shows "unat (n - rb_size rb + p) = unat p + unat n - unat (rb_size rb)"
    and "(n - rb_size rb + p) mod rb_size rb = ring_pos rb p (unat n)"
proof -
  have turn: "n - rb_size rb + p = p - (rb_size rb - n)" by simp
  have "unat (rb_size rb - n) = unat (rb_size rb) - unat n"
    using assms by (simp add: unat_minus_le word_le_nat_alt)
  then show u: "unat (n - rb_size rb + p) = unat p + unat n - unat (rb_size rb)"
    using assms unfolding turn by (subst unat_minus_le) (auto simp: word_le_nat_alt)
  show "(n - rb_size rb + p) mod rb_size rb = ring_pos rb p (unat n)"
    using assms by (simp add: word_unat_eq_iff unat_mod u unat_ring_pos le_mod_geq)
qed

lemma ipcmsg_ringbuf_read_cyclic:
  assumes ok: "ring_ok rb" and al: "4 dvd unat bl" and used: "unat bl \<le> ring_used rb"
    and dl: "unat dl \<le> unat bl"
  shows "ipcmsg_ringbuf_read m rb dl bl
       = (cyc_get (unat (base_addr rb)) (unat (rb_size rb)) (unat (Read_Pos rb)) (unat dl) m,
          rb\<lparr>Read_Pos := ring_pos rb (Read_Pos rb) (unat bl)\<rparr>)"
proof -
  let ?s = "unat (rb_size rb)" and ?r = "unat (Read_Pos rb)" and ?b = "unat (base_addr rb)"
  have r: "?r < ?s" and w: "unat (Write_Pos rb) < ?s" and b: "?b + ?s < 2 ^ 32"
    and d4: "4 dvd ?s" "4 dvd ?r"
    using ok by (auto simp: ring_ok_def)
  have bls: "unat bl \<le> ?s" using used ring_used_less [OF ok] by simp
  have base: "unat (base_addr rb + Read_Pos rb) = ?b + ?r"
    using r b by (simp add: unat_plus_small)
  have room: "unat (rb_size rb - Read_Pos rb) = ?s - ?r"
    using r by (simp add: unat_minus_le word_le_nat_alt)
  show ?thesis
  proof (cases "Write_Pos rb < Read_Pos rb \<and> bl > rb_size rb - Read_Pos rb")
    case True
    then have over: "?s < unat bl + ?r"
      using r by (simp add: word_less_nat_alt room less_diff_conv2)
    note wrap = ring_pos_wrapped [where rb = rb and p = "Read_Pos rb" and n = bl]
    have "4 dvd unat (bl - rb_size rb + Read_Pos rb)"
      using r over bls al d4 by (simp add: wrap)
    then have pos: "ring_rewind_read
        (rb\<lparr>Read_Pos := ALIGN_IPCMSG (bl - rb_size rb + Read_Pos rb) IPCMSG_ALIGN\<rparr>)
        = rb\<lparr>Read_Pos := ring_pos rb (Read_Pos rb) (unat bl)\<rparr>"
      using r over bls by (simp add: ALIGN_4_id ring_rewind_read_mod wrap)
    show ?thesis
    proof (cases "dl > rb_size rb - Read_Pos rb")
      case long: True
      then have o: "?s < unat dl + ?r"
        using r by (simp add: word_less_nat_alt room less_diff_conv2)
      have "unat (dl - rb_size rb + Read_Pos rb) = unat dl + ?r - ?s"
        using ring_pos_wrapped(1) [of "Read_Pos rb" rb dl] o r bls dl by simp
      then show ?thesis
        using True long o r bls dl mem_get_wrapped [of ?r ?s "unat dl" m ?b]
        by (simp add: ipcmsg_ringbuf_read_def Let_def base room pos)
    next
      case False
      then have "?r + unat dl \<le> ?s"
        using r by (simp add: word_less_nat_alt room)
      then show ?thesis
        using True False r
        by (simp add: ipcmsg_ringbuf_read_def Let_def base pos mem_get_linear)
    qed
  next
    case False
    have lin: "?r + unat bl \<le> ?s"
      using False used w r
      by (auto simp: ring_used_def cyc_dist_def word_less_nat_alt room not_less split: if_splits)
    have "?r + unat bl < 2 ^ 32"
      using lin b by simp
    then show ?thesis
      unfolding ipcmsg_ringbuf_read_def Let_def if_not_P [OF False] using lin r al dl
      by (simp add: base ALIGN_4_id ring_rewind_read_mod ring_pos_linear
          mem_get_linear)
  qed
qed

lemma ipcmsg_ringbuf_write_cyclic:
  assumes ok: "ring_ok rb" and al: "4 dvd unat n" and room: "unat n + ring_used rb < unat (rb_size rb)"
  shows "ipcmsg_ringbuf_write rb src n m
       = (rb\<lparr>Write_Pos := ring_pos rb (Write_Pos rb) (unat n)\<rparr>,
          cyc_put (unat (base_addr rb)) (unat (rb_size rb)) (unat (Write_Pos rb)) src (unat n) m)"
proof -
  let ?s = "unat (rb_size rb)" and ?w = "unat (Write_Pos rb)" and ?b = "unat (base_addr rb)"
  have w: "?w < ?s" and r: "unat (Read_Pos rb) < ?s" and b: "?b + ?s < 2 ^ 32"
    and d4: "4 dvd ?s" "4 dvd ?w"
    using ok by (auto simp: ring_ok_def)
  have ns: "unat n \<le> ?s" using room by simp
  have base: "unat (base_addr rb + Write_Pos rb) = ?b + ?w"
    using w b by (simp add: unat_plus_small)
  have tail: "unat (rb_size rb - Write_Pos rb) = ?s - ?w"
    using w by (simp add: unat_minus_le word_le_nat_alt)
  show ?thesis
  proof (cases "Write_Pos rb \<ge> Read_Pos rb \<and> n > rb_size rb - Write_Pos rb")
    case True
    then have over: "?s < unat n + ?w"
      using w by (simp add: word_less_nat_alt tail less_diff_conv2)
    note wrap = ring_pos_wrapped [where rb = rb and p = "Write_Pos rb" and n = n]
    have "4 dvd unat (n - rb_size rb + Write_Pos rb)"
      using w over ns al d4 by (simp add: wrap)
    then have "ring_rewind_write
        (rb\<lparr>Write_Pos := ALIGN_IPCMSG (n - rb_size rb + Write_Pos rb) IPCMSG_ALIGN\<rparr>)
        = rb\<lparr>Write_Pos := ring_pos rb (Write_Pos rb) (unat n)\<rparr>"
      using w over ns by (simp add: ALIGN_4_id ring_rewind_write_mod wrap)
    moreover have "unat (n - rb_size rb + Write_Pos rb) = unat n + ?w - ?s"
      using w over ns by (simp add: wrap)
    ultimately show ?thesis
      using True w over ns mem_copy_wrapped [of ?w ?s "unat n" ?b src m]
      by (simp add: ipcmsg_ringbuf_write_def Let_def base tail)
  next
    case False
    have lin: "?w + unat n \<le> ?s"
      using False room w r
      by (auto simp: ring_used_def cyc_dist_def word_less_nat_alt word_le_nat_alt tail not_less
          split: if_splits)
    then have "?w + unat n < 2 ^ 32"
      using b by simp
    then show ?thesis
      unfolding ipcmsg_ringbuf_write_def Let_def if_not_P [OF False] using lin w al
      by (simp add: base ALIGN_4_id ring_rewind_write_mod
          ring_pos_linear mem_copy_linear)
  qed
qed

section \<open>What one write and one read do to the content of the ring\<close>

lemma cyc_dist_eq: "w < s \<Longrightarrow> r < s \<Longrightarrow> d < s \<Longrightarrow> (r + d) mod s = w \<Longrightarrow> cyc_dist s r w = d"
  by (auto simp: cyc_dist_def mod_once split: if_splits)

lemma cyc_dist_add: "w < s \<Longrightarrow> r < s \<Longrightarrow> (r + cyc_dist s r w) mod s = w"
  by (auto simp: cyc_dist_def le_mod_geq)

lemma dvd_mod_add: "4 dvd s \<Longrightarrow> 4 dvd p \<Longrightarrow> 4 dvd n \<Longrightarrow> 4 dvd (p + n) mod s" for s p n :: nat
  by (simp add: dvd_mod)

lemma ring_write_law:
  assumes ok: "ring_ok rb" and al: "4 dvd unat n"
    and room: "unat n + ring_used rb < unat (rb_size rb)"
    and res: "ipcmsg_ringbuf_write rb src n m = (rb', m')"
  shows "ring_ok rb'" and "ring_used rb' = ring_used rb + unat n"
    and "ring_content m' rb' = ring_content m rb @ map src [0..<unat n]"
    and "rb_size rb' = rb_size rb" and "Read_Pos rb' = Read_Pos rb"
    and "base_addr rb' = base_addr rb"
    and "Write_Pos rb' = ring_pos rb (Write_Pos rb) (unat n)"
proof -
  let ?s = "unat (rb_size rb)" and ?w = "unat (Write_Pos rb)" and ?r = "unat (Read_Pos rb)"
  note cyc = ipcmsg_ringbuf_write_cyclic [OF ok al room, of src m]
  have rb': "rb' = rb\<lparr>Write_Pos := ring_pos rb (Write_Pos rb) (unat n)\<rparr>"
    and m': "m' = cyc_put (unat (base_addr rb)) ?s ?w src (unat n) m"
    using res cyc by auto
  have s0: "0 < ?s" and r: "?r < ?s" and w: "?w < ?s" and d: "4 dvd ?s" "4 dvd ?w"
    using ok by (auto simp: ring_ok_def)
  show f: "rb_size rb' = rb_size rb" "Read_Pos rb' = Read_Pos rb" "base_addr rb' = base_addr rb"
    "Write_Pos rb' = ring_pos rb (Write_Pos rb) (unat n)"
    by (simp_all add: rb')
  show "ring_ok rb'"
    using ok s0 dvd_mod_add [OF d al] by (auto simp: ring_ok_def rb' unat_ring_pos)
  have w': "?w = (?r + ring_used rb) mod ?s"
    using cyc_dist_add [OF w r] by (simp add: ring_used_def)
  have "(?r + (ring_used rb + unat n)) mod ?s = (?w + unat n) mod ?s"
    unfolding w' by (simp add: mod_add_left_eq add.assoc)
  then show used: "ring_used rb' = ring_used rb + unat n"
    using room r s0 f
    by (subst ring_used_def, intro cyc_dist_eq) (auto simp: unat_ring_pos)
  show "ring_content m' rb' = ring_content m rb @ map src [0..<unat n]"
    unfolding ring_content_def used f m'
    using r w w' room
    by (simp add: cyc_get_append cyc_get_put_before cyc_get_put_same)
qed

lemma ring_read_law:
  assumes ok: "ring_ok rb" and al: "4 dvd unat bl" and used: "unat bl \<le> ring_used rb"
    and dl: "unat dl \<le> unat bl"
    and res: "ipcmsg_ringbuf_read m rb dl bl = (bytes, rb')"
  shows "ring_ok rb'" and "ring_used rb' = ring_used rb - unat bl"
    and "bytes = take (unat dl) (ring_content m rb)"
    and "ring_content m rb' = drop (unat bl) (ring_content m rb)"
    and "rb_size rb' = rb_size rb" and "Write_Pos rb' = Write_Pos rb"
    and "base_addr rb' = base_addr rb"
    and "Read_Pos rb' = ring_pos rb (Read_Pos rb) (unat bl)"
proof -
  let ?s = "unat (rb_size rb)" and ?w = "unat (Write_Pos rb)" and ?r = "unat (Read_Pos rb)"
    and ?b = "unat (base_addr rb)"
  have rb': "rb' = rb\<lparr>Read_Pos := ring_pos rb (Read_Pos rb) (unat bl)\<rparr>"
    and bytes: "bytes = cyc_get ?b ?s ?r (unat dl) m"
    using res ipcmsg_ringbuf_read_cyclic [OF ok al used dl, of m] by auto
  have s0: "0 < ?s" and r: "?r < ?s" and w: "?w < ?s" and d: "4 dvd ?s" "4 dvd ?r"
    using ok by (auto simp: ring_ok_def)
  show f: "rb_size rb' = rb_size rb" "Write_Pos rb' = Write_Pos rb" "base_addr rb' = base_addr rb"
    "Read_Pos rb' = ring_pos rb (Read_Pos rb) (unat bl)"
    by (simp_all add: rb')
  show "ring_ok rb'"
    using ok s0 dvd_mod_add [OF d al] by (auto simp: ring_ok_def rb' unat_ring_pos)
  have w': "?w = (?r + ring_used rb) mod ?s"
    using cyc_dist_add [OF w r] by (simp add: ring_used_def)
  have "((?r + unat bl) mod ?s + (ring_used rb - unat bl)) mod ?s = ?w"
    unfolding w' mod_add_left_eq using used by (simp add: add.assoc)
  then show used': "ring_used rb' = ring_used rb - unat bl"
    using ring_used_less [OF ok] r w s0 f
    by (subst ring_used_def, intro cyc_dist_eq) (auto simp: unat_ring_pos)
  have split: "ring_content m rb = cyc_get ?b ?s ?r (unat bl) m @
      cyc_get ?b ?s ((?r + unat bl) mod ?s) (ring_used rb - unat bl) m"
    using cyc_get_append [of ?b ?s ?r "unat bl" "ring_used rb - unat bl" m] used
    by (simp add: ring_content_def)
  then show "ring_content m rb' = drop (unat bl) (ring_content m rb)"
    unfolding split by (simp add: ring_content_def used' f unat_ring_pos s0)
  have "cyc_get ?b ?s ?r (ring_used rb) m = bytes @
      cyc_get ?b ?s ((?r + unat dl) mod ?s) (ring_used rb - unat dl) m"
    using cyc_get_append [of ?b ?s ?r "unat dl" "ring_used rb - unat dl" m] used dl
    by (simp add: bytes)
  then show "bytes = take (unat dl) (ring_content m rb)"
    by (simp add: ring_content_def bytes)
qed

lemma ring_write_outside:
  assumes "ring_ok rb" "4 dvd unat n" "unat n + ring_used rb < unat (rb_size rb)"
    and "ipcmsg_ringbuf_write rb src n m = (rb', m')"
    and "a < unat (base_addr rb) \<or> unat (base_addr rb) + unat (rb_size rb) \<le> a"
  shows "m' a = m a"
  using assms(4,5) ipcmsg_ringbuf_write_cyclic [OF assms(1-3), of src m]
  by (auto simp: cyc_put_outside)

end
