(* ===== verification/Ipc_Msg.thy ===== *)
theory Ipc_Msg
  imports Ipc_Ringbuf
begin

text \<open>
  The inter-core message channels (\<^verbatim>\<open>src/xinyi/DRIVERS/IpcMsg/src/ipcmsg_drv.c\<close>): four numbered
  channels between the Cortex-M3 and the DSP, each with a ring buffer per direction in shared
  memory. \<open>ipc_state\<close> holds the channel table with the shared ring headers, the local copies
  the driver works on, shared memory and the flags. The DSP and the RTOS are outside the source:
  what happens while \<open>IpcMsg_Read\<close> waits for its semaphore is a parameter. \<open>None\<close> is a failed
  \<^verbatim>\<open>xy_assert\<close>, or a mutex that is already held (in one thread nobody will release it).

  The abstract view of a ring is the queue of the messages in it (\<open>ring_queue\<close>); the locale
  \<open>fifo_channel\<close> states the contract of a queue between two cores, its client lemma that
  messages arrive in the order sent, and the interpretation discharges it for the code.
\<close>

section \<open>Channels\<close>

record T_IpcMsg_Resource =
  Ch_ID :: u32
  block_size :: u32
  block_cnt :: u32
  direction :: u32

definition IpcMsg_LOG :: nat where "IpcMsg_LOG = 0"
definition IpcMsg_Normal :: nat where "IpcMsg_Normal = 1"
definition IpcMsg_Dump :: nat where "IpcMsg_Dump = 2"
definition IpcMsg_Flash :: nat where "IpcMsg_Flash = 3"
definition IpcMsg_Channel_MAX :: nat where "IpcMsg_Channel_MAX = 4"

definition ICM_FLASHWRITE :: u32 where "ICM_FLASHWRITE = 12"

definition IpcMsg_Resource_Tbl :: "T_IpcMsg_Resource list" where
  "IpcMsg_Resource_Tbl =
     [\<lparr>Ch_ID = of_nat IpcMsg_LOG, block_size = 4, block_cnt = 96, direction = 2\<rparr>,
      \<lparr>Ch_ID = of_nat IpcMsg_Normal, block_size = 4, block_cnt = 64, direction = 3\<rparr>,
      \<lparr>Ch_ID = of_nat IpcMsg_Dump, block_size = 4, block_cnt = 4, direction = 3\<rparr>,
      \<lparr>Ch_ID = of_nat IpcMsg_Flash, block_size = 4, block_cnt = 8, direction = 2\<rparr>]"

definition sizeof_head :: u32 where "sizeof_head = 4"
definition sizeof_ringbuf :: u32 where "sizeof_ringbuf = 64"

definition get_ipcmsg_buf_len :: "nat \<Rightarrow> u32 option" where
  "get_ipcmsg_buf_len ch_id =
     (case filter (\<lambda>r. of_nat ch_id = Ch_ID r) IpcMsg_Resource_Tbl of
        [] \<Rightarrow> None
      | r # _ \<Rightarrow> Some (block_cnt r * (block_size r + sizeof_head)))"

text \<open>
  One channel: the shared ring headers and the addresses they are at, the local copies
  \<^verbatim>\<open>g_ringbuf_ctl[i]\<close>, and the write mutex.
\<close>

record T_IpcMsg_ChInfo =
  hdr_send :: u32
  RingBuf_send :: T_RingBuf
  hdr_rcv :: u32
  RingBuf_rcv :: T_RingBuf
  ch_flag :: u32
  write_mutex :: bool
  send_crl :: T_RingBuf
  rcv_crl :: T_RingBuf

record ipc_state =
  g_IpcMsg_ChInfo :: "T_IpcMsg_ChInfo list"
  ipc_ram :: ram
  g_icminitflag :: u8
  g_icm_flag :: bool
  PRCM_irq :: u32

record T_IpcMsg_Msg =
  chID :: nat
  msg_flag :: u32
  buf :: "nat \<Rightarrow> u8"
  msg_len :: u32

definition upd_ch :: "nat \<Rightarrow> (T_IpcMsg_ChInfo \<Rightarrow> T_IpcMsg_ChInfo) \<Rightarrow> ipc_state \<Rightarrow> ipc_state" where
  "upd_ch i f st = st\<lparr>g_IpcMsg_ChInfo := (g_IpcMsg_ChInfo st)[i := f (g_IpcMsg_ChInfo st ! i)]\<rparr>"

section \<open>Writing\<close>

definition Ipc_SetInt :: "nat \<Rightarrow> ipc_state \<Rightarrow> ipc_state" where
  "Ipc_SetInt ch st = (if ch \<noteq> IpcMsg_LOG then st\<lparr>PRCM_irq := PRCM_irq st OR 0x02\<rparr> else st)"

definition mutex_lock :: "nat \<Rightarrow> ipc_state \<Rightarrow> ipc_state option" where
  "mutex_lock ch st = (if write_mutex (g_IpcMsg_ChInfo st ! ch) then None
     else Some (upd_ch ch (\<lambda>c. c\<lparr>write_mutex := True\<rparr>) st))"

definition mutex_unlock :: "nat \<Rightarrow> ipc_state \<Rightarrow> ipc_state" where
  "mutex_unlock ch st = upd_ch ch (\<lambda>c. c\<lparr>write_mutex := False\<rparr>) st"

text \<open>The message header as it lies in memory: \<^verbatim>\<open>data_len\<close>, then \<^verbatim>\<open>data_flag\<close>, little endian.\<close>

definition head_bytes :: "u16 \<Rightarrow> u16 \<Rightarrow> u8 list" where
  "head_bytes data_len data_flag =
     [ucast data_len, ucast (drop_bit 8 data_len), ucast data_flag, ucast (drop_bit 8 data_flag)]"

definition put_frame ::
    "u32 \<Rightarrow> u32 \<Rightarrow> (nat \<Rightarrow> u8) \<Rightarrow> u32 \<Rightarrow> T_RingBuf \<Rightarrow> ram \<Rightarrow> T_RingBuf \<times> ram" where
  "put_frame flag len src size' rb m =
     (let head = head_bytes (ucast len) (ucast flag);
          (rb1, m1) = ipcmsg_ringbuf_write rb (\<lambda>i. head ! i) sizeof_head m in
      if len \<noteq> 0 then ipcmsg_ringbuf_write rb1 src (size' - sizeof_head) m1 else (rb1, m1))"

definition frame_size :: "u32 \<Rightarrow> u32" where
  "frame_size len = ALIGN_IPCMSG (len + sizeof_head) CACHE_LINE"

definition IpcMsg_Write :: "T_IpcMsg_Msg \<Rightarrow> ipc_state \<Rightarrow> (u32 \<times> ipc_state) option" where
  "IpcMsg_Write msg st = do {
     xy_assert (msg_len msg \<noteq> 0);
     if g_icminitflag st \<noteq> 1 then Some (-1, st)
     else do {
       let ch = chID msg;
       let size' = frame_size (msg_len msg);
       let locked = msg_flag msg \<noteq> ICM_FLASHWRITE;
       st1 \<leftarrow> (if locked then mutex_lock ch st else Some st);
       let c = g_IpcMsg_ChInfo st1 ! ch;
       let rb = (send_crl c)\<lparr>Read_Pos := Read_Pos (RingBuf_send c),
                             Write_Pos := Write_Pos (RingBuf_send c)\<rparr>;
       let st2 = upd_ch ch (\<lambda>c. c\<lparr>send_crl := rb\<rparr>) st1;
       if Is_Ringbuf_ChFreeSpace rb size' then do {
         let (rb', m') = put_frame (msg_flag msg) (msg_len msg) (buf msg) size' rb (ipc_ram st2);
         let st3 = upd_ch ch (\<lambda>c. c\<lparr>send_crl := rb',
                      RingBuf_send := (RingBuf_send c)\<lparr>Write_Pos := Write_Pos rb'\<rparr>\<rparr>)
                    (st2\<lparr>ipc_ram := m'\<rparr>);
         let st4 = Ipc_SetInt ch st3;
         Some (msg_len msg, if locked then mutex_unlock ch st4 else st4)
       } else Some (-1, if locked then mutex_unlock ch st2 else st2)
     }
   }"

section \<open>Reading\<close>

definition u16_of_bytes :: "u8 \<Rightarrow> u8 \<Rightarrow> u16" where
  "u16_of_bytes lo hi = ucast lo OR push_bit 8 (ucast hi)"

definition get_frame ::
    "ram \<Rightarrow> T_RingBuf \<Rightarrow> u32 \<Rightarrow> (u32 \<times> u16 \<times> u8 list \<times> T_RingBuf) option" where
  "get_frame m rb cap = do {
     let (h, rb1) = ipcmsg_ringbuf_read m rb sizeof_head sizeof_head;
     let data_len = (ucast (u16_of_bytes (h ! 0) (h ! 1)) :: u32);
     xy_assert (\<not> cap < data_len);
     let (bytes, rb2) = ipcmsg_ringbuf_read m rb1 data_len (frame_size data_len - sizeof_head);
     Some (data_len, u16_of_bytes (h ! 2) (h ! 3), bytes, rb2)
   }"

text \<open>
  \<open>IpcMsg_Read\<close> returns the result length, the flag and the bytes stored into \<^verbatim>\<open>pMsg\<close> (nothing
  when the ring stays empty), and the new state; \<open>take_sema\<close> is the wait.
\<close>

definition IpcMsg_Read ::
    "(nat \<Rightarrow> ipc_state \<Rightarrow> ipc_state) \<Rightarrow> nat \<Rightarrow> u32 \<Rightarrow> ipc_state
      \<Rightarrow> (u32 \<times> (u16 \<times> u8 list) option \<times> ipc_state) option" where
  "IpcMsg_Read take_sema ch cap st = do {
     let st1 = (if Is_Ringbuf_Empty (RingBuf_rcv (g_IpcMsg_ChInfo st ! ch))
                then (take_sema ch (st\<lparr>g_icm_flag := False\<rparr>))\<lparr>g_icm_flag := True\<rparr> else st);
     let c = g_IpcMsg_ChInfo st1 ! ch;
     if Is_Ringbuf_Empty (RingBuf_rcv c) then Some (0, None, st1)
     else do {
       let rb = (rcv_crl c)\<lparr>Read_Pos := Read_Pos (RingBuf_rcv c),
                            Write_Pos := Write_Pos (RingBuf_rcv c)\<rparr>;
       (n, flag, bytes, rb2) \<leftarrow> get_frame (ipc_ram st1) rb cap;
       Some (n, Some (flag, bytes),
             upd_ch ch (\<lambda>c. c\<lparr>rcv_crl := rb2,
               RingBuf_rcv := (RingBuf_rcv c)\<lparr>Read_Pos := Read_Pos rb2\<rparr>\<rparr>) st1)
     }
   }"

definition icpmsg_ringbuf_write_remain_size :: "nat \<Rightarrow> ipc_state \<Rightarrow> u32" where
  "icpmsg_ringbuf_write_remain_size ch st =
     (let rb = RingBuf_send (g_IpcMsg_ChInfo st ! ch) in
      if Write_Pos rb < Read_Pos rb then Read_Pos rb - Write_Pos rb
      else rb_size rb - Write_Pos rb + Read_Pos rb)"

section \<open>Initialisation\<close>

definition IPCMSG_BUF_BASE_ADDR :: u32 where "IPCMSG_BUF_BASE_ADDR = 0x2001BF00"
definition IPCMSG_BUF_LEN :: u32 where "IPCMSG_BUF_LEN = 0xe00"

definition ringbuf_ctl_init :: "T_RingBuf \<Rightarrow> T_RingBuf" where
  "ringbuf_ctl_init rb = \<lparr>rb_size = rb_size rb, Write_Pos = Write_Pos rb,
     base_addr = base_addr rb, Read_Pos = Read_Pos rb\<rparr>"

definition fresh_ring :: "u32 \<Rightarrow> u32 \<Rightarrow> T_RingBuf" where
  "fresh_ring addr n =
     \<lparr>rb_size = n, Write_Pos = 0, base_addr = addr + sizeof_ringbuf, Read_Pos = 0\<rparr>"

definition ring_span :: "u32 \<Rightarrow> u32" where
  "ring_span n = ALIGN_IPCMSG (sizeof_ringbuf + n) CACHE_LINE"

definition buf_init_ch :: "nat \<Rightarrow> u32 \<times> ipc_state \<Rightarrow> (u32 \<times> ipc_state) option" where
  "buf_init_ch i = (\<lambda>(addr, st). do {
     n \<leftarrow> get_ipcmsg_buf_len i;
     let dir = direction (IpcMsg_Resource_Tbl ! i);
     let (addr1, st1) =
       (if dir AND 1 = 1
        then (addr + ring_span n, upd_ch i (\<lambda>c. c\<lparr>hdr_rcv := addr, RingBuf_rcv := fresh_ring addr n,
                rcv_crl := ringbuf_ctl_init (fresh_ring addr n)\<rparr>) st)
        else (addr, st));
     let (addr2, st2) =
       (if dir AND 2 = 2
        then (addr1 + ring_span n, upd_ch i (\<lambda>c. c\<lparr>hdr_send := addr1, RingBuf_send := fresh_ring addr1 n,
                send_crl := ringbuf_ctl_init (fresh_ring addr1 n), write_mutex := False\<rparr>) st1)
        else (addr1, st1));
     let st3 = upd_ch i (\<lambda>c. c\<lparr>ch_flag := of_nat i\<rparr>) st2;
     xy_assert (\<not> addr2 - IPCMSG_BUF_BASE_ADDR > IPCMSG_BUF_LEN);
     Some (addr2, st3\<lparr>g_icminitflag := 1\<rparr>)
   })"

fun buf_init_loop :: "nat list \<Rightarrow> u32 \<times> ipc_state \<Rightarrow> (u32 \<times> ipc_state) option" where
  "buf_init_loop [] s = Some s"
| "buf_init_loop (i # is) s = do { s' \<leftarrow> buf_init_ch i s; buf_init_loop is s' }"

definition IpcMsg_Buf_init :: "ipc_state \<Rightarrow> ipc_state option" where
  "IpcMsg_Buf_init st =
     map_option snd (buf_init_loop [0..<IpcMsg_Channel_MAX]
       (ALIGN_IPCMSG IPCMSG_BUF_BASE_ADDR CACHE_LINE, st))"


section \<open>The abstract queue of messages\<close>

text \<open>
  \<open>frames\<close> reads a byte sequence as consecutive frames: a header, the data, and padding to the
  next 32-byte boundary.
\<close>

definition frame_span :: "nat \<Rightarrow> nat" where "frame_span n = 32 * ((n + 35) div 32)"

lemma frame_span_bounds: "n + 4 \<le> frame_span n" "frame_span n < n + 36" "32 dvd frame_span n"
  using div_mod_bounds [of 32 "n + 35"] by (auto simp: frame_span_def)

lemma frame_span_pos [simp]: "0 < frame_span n"
  using frame_span_bounds(1) [of n] by simp

definition frame_len :: "u8 list \<Rightarrow> nat" where
  "frame_len bs = unat (u16_of_bytes (bs ! 0) (bs ! 1))"

definition frame_msg :: "u8 list \<Rightarrow> u16 \<times> u8 list" where
  "frame_msg bs = (u16_of_bytes (bs ! 2) (bs ! 3), take (frame_len bs) (drop 4 bs))"

function frames :: "u8 list \<Rightarrow> (u16 \<times> u8 list) list option" where
  "frames bs =
     (if bs = [] then Some []
      else if length bs < frame_span (frame_len bs) then None
      else map_option ((#) (frame_msg bs)) (frames (drop (frame_span (frame_len bs)) bs)))"
  by auto
termination
  by (relation "measure length") (auto simp: frame_span_def)

declare frames.simps [simp del]

lemma frames_Nil [simp]: "frames [] = Some []"
  by (simp add: frames.simps)

lemma frame_append:
  assumes "4 \<le> length bs"
  shows "frame_len (bs @ cs) = frame_len bs"
    and "frame_span (frame_len bs) \<le> length bs \<Longrightarrow> frame_msg (bs @ cs) = frame_msg bs"
proof -
  have ne: "bs \<noteq> []" using assms by auto
  show len: "frame_len (bs @ cs) = frame_len bs"
    using assms ne by (simp add: frame_len_def nth_append)
  show "frame_msg (bs @ cs) = frame_msg bs" if "frame_span (frame_len bs) \<le> length bs"
    using assms ne frame_span_bounds(1) [of "frame_len bs"] that
    by (simp add: len frame_msg_def nth_append)
qed

lemma frames_append:
  "frames bs = Some q \<Longrightarrow> frames (bs @ cs) = map_option ((@) q) (frames cs)"
proof (induction bs arbitrary: q rule: frames.induct)
  case (1 bs)
  show ?case
  proof (cases "bs = []")
    case True
    then show ?thesis using "1.prems" by (simp add: option.map_ident_strong)
  next
    case ne: False
    let ?k = "frame_span (frame_len bs)"
    have le: "?k \<le> length bs"
      using "1.prems" ne by (subst (asm) frames.simps) (auto split: if_splits)
    then have four: "4 \<le> length bs"
      using frame_span_bounds(1) [of "frame_len bs"] by simp
    obtain q' where q': "frames (drop ?k bs) = Some q'" "q = frame_msg bs # q'"
      using "1.prems" ne le by (subst (asm) (2) frames.simps) (auto split: if_splits)
    have "frames (drop ?k bs @ cs) = map_option ((@) q') (frames cs)"
      using "1.IH" ne le q'(1) by simp
    then show ?thesis
      using ne le q'(2)
      by (subst frames.simps)
        (auto simp: frame_append [OF four] option.map_comp o_def intro: option.map_cong)
  qed
qed

lemma u16_of_bytes_split: "u16_of_bytes (ucast x) (ucast (drop_bit 8 x)) = x"
  unfolding u16_of_bytes_def by (rule bit_word_eqI) (auto simp: bit_simps)

lemma head_bytes_simps [simp]:
  "length (head_bytes n f) = 4"
  "u16_of_bytes (head_bytes n f ! 0) (head_bytes n f ! Suc 0) = n"
  "u16_of_bytes (head_bytes n f ! 2) (head_bytes n f ! 3) = f"
  by (simp_all add: head_bytes_def u16_of_bytes_split numeral_2_eq_2 numeral_3_eq_3)

lemma frames_of_frame:
  assumes "length body + 4 = frame_span (unat n)"
  shows "frames (head_bytes n f @ body) = Some [(f, take (unat n) body)]"
proof -
  have "frame_len (head_bytes n f @ body) = unat n"
    by (simp add: frame_len_def nth_append)
  moreover have "frame_msg (head_bytes n f @ body) = (f, take (unat n) body)"
    using calculation by (simp add: frame_msg_def nth_append)
  moreover have "head_bytes n f @ body \<noteq> []"
    by (simp add: head_bytes_def)
  ultimately show ?thesis
    using assms by (subst frames.simps) simp
qed

lemma frame_size_span:
  assumes "unat n < 2 ^ 16"
  shows "unat (frame_size n) = frame_span (unat n)"
    and "unat (frame_size n - sizeof_head) = frame_span (unat n) - 4"
    and "4 dvd unat (frame_size n - sizeof_head)"
proof -
  have "unat (n + sizeof_head) = unat n + 4"
    using assms unfolding sizeof_head_def by (subst unat_plus_small) auto
  then show s: "unat (frame_size n) = frame_span (unat n)"
    using assms by (simp add: frame_size_def unat_ALIGN_32 frame_span_def)
  then show t: "unat (frame_size n - sizeof_head) = frame_span (unat n) - 4"
    using frame_span_bounds(1) [of "unat n"]
    by (subst unat_minus_le) (auto simp: sizeof_head_def word_le_nat_alt)
  have "4 dvd frame_span (unat n)" by (simp add: frame_span_def)
  then show "4 dvd unat (frame_size n - sizeof_head)"
    unfolding t by (simp add: dvd_diff_nat)
qed

definition msg_ring_ok :: "T_RingBuf \<Rightarrow> bool" where
  "msg_ring_ok rb \<longleftrightarrow> ring_ok rb \<and> 32 dvd unat (rb_size rb) \<and> 32 dvd unat (Read_Pos rb) \<and>
     32 dvd unat (Write_Pos rb)"

definition ring_queue :: "T_RingBuf \<times> ram \<Rightarrow> (u16 \<times> u8 list) list option" where
  "ring_queue = (\<lambda>(rb, m). if msg_ring_ok rb then frames (ring_content m rb) else None)"

lemma mod_step: "k \<le> n \<Longrightarrow> ((a + k) mod s + n - k) mod s = (a + n) mod s" for a k n s :: nat
  by (metis Nat.add_diff_assoc add.assoc le_add_diff_inverse mod_add_left_eq)

lemma put_frame_law:
  assumes ok: "msg_ring_ok rb" and len: "0 < unat n" "unat n < 2 ^ 16"
    and free: "Is_Ringbuf_ChFreeSpace rb (frame_size n)"
    and res: "put_frame fl n src (frame_size n) rb m = (rb', m')"
  shows "msg_ring_ok rb'"
    and "ring_content m' rb' = ring_content m rb @ head_bytes (ucast n) (ucast fl) @
           map src [0..<frame_span (unat n) - 4]"
    and "rb_size rb' = rb_size rb" and "Read_Pos rb' = Read_Pos rb"
    and "base_addr rb' = base_addr rb"
    and "\<And>a. a < unat (base_addr rb) \<or> unat (base_addr rb) + unat (rb_size rb) \<le> a \<Longrightarrow> m' a = m a"
proof -
  let ?h = "head_bytes (ucast n) (ucast fl)"
  obtain rb1 m1 where one: "ipcmsg_ringbuf_write rb (\<lambda>i. ?h ! i) sizeof_head m = (rb1, m1)"
    by (metis surj_pair)
  have two: "ipcmsg_ringbuf_write rb1 src (frame_size n - sizeof_head) m1 = (rb', m')"
    using res one len(1) by (auto simp: put_frame_def split: if_splits)
  have rok: "ring_ok rb" using ok by (simp add: msg_ring_ok_def)
  have span: "frame_span (unat n) + ring_used rb < unat (rb_size rb)"
    using free len(2) by (simp add: Is_Ringbuf_ChFreeSpace_iff [OF rok] frame_size_span)
  have head4: "unat sizeof_head = 4" by (simp add: sizeof_head_def)
  have room1: "unat sizeof_head + ring_used rb < unat (rb_size rb)"
    using span frame_span_bounds(1) [of "unat n"] head4 by simp
  note w1 = ring_write_law [OF rok _ room1 one]
  have al1: "4 dvd unat sizeof_head" by (simp add: head4)
  have room2: "unat (frame_size n - sizeof_head) + ring_used rb1 < unat (rb_size rb1)"
    using span frame_span_bounds(1) [of "unat n"]
    by (simp add: w1(2,4) [OF al1] head4 frame_size_span(2) [OF len(2)])
  note w2 = ring_write_law [OF w1(1) [OF al1] frame_size_span(3) [OF len(2)] room2 two]
  show fields: "rb_size rb' = rb_size rb" "Read_Pos rb' = Read_Pos rb" "base_addr rb' = base_addr rb"
    using w1 w2 al1 by simp_all
  have "map ((!) ?h) [0..<4] = ?h"
    by (metis head_bytes_simps(1) map_nth)
  then show "ring_content m' rb' = ring_content m rb @ ?h @ map src [0..<frame_span (unat n) - 4]"
    using w2(3) w1(3) [OF al1] by (simp add: head4 frame_size_span(2) [OF len(2)])
  have s0: "0 < unat (rb_size rb)" using rok by (simp add: ring_ok_def)
  have "unat (Write_Pos rb') = (unat (Write_Pos rb) + frame_span (unat n)) mod unat (rb_size rb)"
    using w1(4,7) [OF al1] w2(7) s0 frame_span_bounds(1) [of "unat n"]
    by (simp add: unat_ring_pos head4 frame_size_span(2) [OF len(2)] mod_step)
  moreover have "32 dvd frame_span (unat n)" by (rule frame_span_bounds)
  ultimately show "msg_ring_ok rb'"
    using ok w2(1) fields by (simp add: msg_ring_ok_def dvd_mod)
  fix a assume out: "a < unat (base_addr rb) \<or> unat (base_addr rb) + unat (rb_size rb) \<le> a"
  have "m' a = m1 a"
    using ring_write_outside [OF w1(1) [OF al1] frame_size_span(3) [OF len(2)] room2 two] out
      w1(4,6) [OF al1] by simp
  also have "m1 a = m a"
    using ring_write_outside [OF rok al1 room1 one] out by simp
  finally show "m' a = m a" .
qed

lemma put_frame_queue:
  assumes "ring_queue (rb, m) = Some q" and len: "0 < unat n" "unat n < 2 ^ 16"
    and free: "Is_Ringbuf_ChFreeSpace rb (frame_size n)"
    and res: "put_frame fl n src (frame_size n) rb m = (rb', m')"
  shows "ring_queue (rb', m') = Some (q @ [(ucast fl, map src [0..<unat n])])"
proof -
  have ok: "msg_ring_ok rb" and q: "frames (ring_content m rb) = Some q"
    using assms(1) by (auto simp: ring_queue_def split: if_splits)
  have n16: "unat (ucast n :: u16) = unat n"
    using len(2) by (simp add: unsigned_ucast_eq take_bit_nat_eq_self)
  let ?body = "map src [0..<frame_span (unat n) - 4]"
  have b: "length ?body + 4 = frame_span (unat (ucast n :: u16))"
    using frame_span_bounds(1) [of "unat n"] by (simp add: n16)
  have "take (unat n) ?body = map src [0..<unat n]"
    using frame_span_bounds(1) [of "unat n"] by (simp add: take_map)
  then show ?thesis
    using put_frame_law(1,2) [OF ok len free res] frames_append [OF q]
      frames_of_frame [OF b, of "ucast fl"]
    by (simp add: ring_queue_def n16)
qed

lemma get_frame_queue:
  assumes "ring_queue (rb, m) = Some ((fl, bytes) # q)" and cap: "length bytes \<le> unat cap"
  shows "\<exists>rb'. get_frame m rb cap = Some (of_nat (length bytes), fl, bytes, rb') \<and>
      ring_queue (rb', m) = Some q \<and> rb_size rb' = rb_size rb \<and> Write_Pos rb' = Write_Pos rb \<and>
      base_addr rb' = base_addr rb"
proof -
  let ?c = "ring_content m rb"
  have ok: "msg_ring_ok rb" and f: "frames ?c = Some ((fl, bytes) # q)"
    using assms(1) by (auto simp: ring_queue_def split: if_splits)
  have rok: "ring_ok rb" using ok by (simp add: msg_ring_ok_def)
  have ne: "?c \<noteq> []" using f by auto
  have le: "frame_span (frame_len ?c) \<le> ring_used rb" and msg: "frame_msg ?c = (fl, bytes)"
    and q: "frames (drop (frame_span (frame_len ?c)) ?c) = Some q"
    using f ne by (subst (asm) frames.simps; auto split: if_splits)+
  define n where "n = u16_of_bytes (?c ! 0) (?c ! 1)"
  have fl: "frame_len ?c = unat n" by (simp add: frame_len_def n_def)
  have "unat n < 2 ^ LENGTH(16)" by (rule unsigned_less)
  then have n16: "unat (ucast n :: u32) = unat n" "unat n < 2 ^ 16"
    by (simp_all add: unsigned_ucast_eq take_bit_nat_eq_self)
  note span = frame_size_span [of "ucast n", unfolded n16(1), OF n16(2)]
  have head4: "unat sizeof_head = 4" by (simp add: sizeof_head_def)
  have four: "4 \<le> ring_used rb" "unat n + 4 \<le> frame_span (unat n)"
    using le frame_span_bounds(1) [of "frame_len ?c"] fl by auto
  obtain h rb1 where one: "ipcmsg_ringbuf_read m rb sizeof_head sizeof_head = (h, rb1)"
    by (metis surj_pair)
  have r1: "ring_ok rb1" "ring_used rb1 = ring_used rb - 4" "h = take 4 ?c"
      "ring_content m rb1 = drop 4 ?c" "rb_size rb1 = rb_size rb" "Write_Pos rb1 = Write_Pos rb"
      "base_addr rb1 = base_addr rb" "Read_Pos rb1 = ring_pos rb (Read_Pos rb) 4"
    using ring_read_law [OF rok _ _ _ one] head4 four by simp_all
  obtain d rb2 where two: "ipcmsg_ringbuf_read m rb1 (ucast n) (frame_size (ucast n) - sizeof_head)
      = (d, rb2)"
    by (metis surj_pair)
  have used2: "unat (frame_size (ucast n) - sizeof_head) \<le> ring_used rb1"
      "unat (ucast n :: u32) \<le> unat (frame_size (ucast n) - sizeof_head)"
    using le four by (simp_all add: span r1 fl n16)
  note r2 = ring_read_law [OF r1(1) span(3) used2 two]
  have bytes: "bytes = d" "length bytes = unat n" "fl = u16_of_bytes (?c ! 2) (?c ! 3)"
    using msg le four by (auto simp: frame_msg_def r2(3) r1(4) fl n16)
  have s0: "0 < unat (rb_size rb)" using rok by (simp add: ring_ok_def)
  have "unat (Read_Pos rb2) = (unat (Read_Pos rb) + frame_span (unat n)) mod unat (rb_size rb)"
    using r2(8) r1(5,8) s0 four(2) by (simp add: unat_ring_pos span mod_step)
  then have "msg_ring_ok rb2"
    using ok r2(1,5,6) r1(5,6) frame_span_bounds(3) [of "unat n"]
    by (simp add: msg_ring_ok_def dvd_mod)
  moreover have "ring_content m rb2 = drop (frame_span (frame_len ?c)) ?c"
    using r2(4) four(2) by (simp add: r1(4) span fl)
  ultimately have queue: "ring_queue (rb2, m) = Some q"
    using q by (simp add: ring_queue_def)
  have hd: "u16_of_bytes (h ! 0) (h ! 1) = n" "u16_of_bytes (h ! 2) (h ! 3) = fl"
    by (simp_all add: r1(3) n_def bytes(3))
  have "get_frame m rb cap = Some (of_nat (length bytes), fl, bytes, rb2)"
    using one two cap bytes
    by (simp add: get_frame_def hd [unfolded One_nat_def] word_less_nat_alt n16)
  with queue show ?thesis using r1 r2 by auto
qed

lemma ring_queue_empty:
  assumes "ring_queue (rb, m) = Some q"
  shows "Is_Ringbuf_Empty rb \<longleftrightarrow> q = []"
proof -
  have ok: "ring_ok rb" and f: "frames (ring_content m rb) = Some q"
    using assms by (auto simp: ring_queue_def msg_ring_ok_def split: if_splits)
  have "q = [] \<longleftrightarrow> ring_content m rb = []"
    using f by (subst (asm) frames.simps) (auto split: if_splits)
  also have "\<dots> \<longleftrightarrow> ring_used rb = 0"
    by (simp flip: length_0_conv)
  finally show ?thesis using ring_used_0 [OF ok] by simp
qed

section \<open>The contract of a message queue\<close>

text \<open>
  A schedule interleaves sends (\<open>Some c\<close>) and receives (\<open>None\<close>) in any order; a refused send and
  a receive from the empty queue change nothing. \<open>fifo_run\<close> collects the accepted and the
  delivered messages.
\<close>

fun fifo_run :: "('c \<Rightarrow> 's \<Rightarrow> 's option) \<Rightarrow> ('s \<Rightarrow> ('m \<times> 's) option) \<Rightarrow> ('c \<Rightarrow> 'm) \<Rightarrow>
    'c option list \<Rightarrow> 's \<Rightarrow> 'm list \<times> 'm list \<times> 's" where
  "fifo_run put get view [] s = ([], [], s)"
| "fifo_run put get view (Some c # es) s =
     (case put c s of
        None \<Rightarrow> fifo_run put get view es s
      | Some s' \<Rightarrow> (let (a, d, t) = fifo_run put get view es s' in (view c # a, d, t)))"
| "fifo_run put get view (None # es) s =
     (case get s of
        None \<Rightarrow> fifo_run put get view es s
      | Some (x, s') \<Rightarrow> (let (a, d, t) = fifo_run put get view es s' in (a, x # d, t)))"

text \<open>
  What the two cores rely on: \<open>put\<close> appends a message or refuses, \<open>get\<close> removes the oldest.
  \<open>valid\<close> are the messages the sender may hand in, \<open>view\<close> what the receiver sees of one, \<open>fits\<close>
  the messages the receiver's buffer can hold.
\<close>

locale fifo_channel =
  fixes queue :: "'s \<Rightarrow> 'm list option"
    and put :: "'c \<Rightarrow> 's \<Rightarrow> 's option"
    and get :: "'s \<Rightarrow> ('m \<times> 's) option"
    and valid :: "'c \<Rightarrow> bool"
    and view :: "'c \<Rightarrow> 'm"
    and fits :: "'m \<Rightarrow> bool"
  assumes put_law: "queue s = Some q \<Longrightarrow> valid c \<Longrightarrow> put c s = Some s' \<Longrightarrow>
      queue s' = Some (q @ [view c])"
    and get_law: "queue s = Some (x # q) \<Longrightarrow> fits x \<Longrightarrow>
      \<exists>s'. get s = Some (x, s') \<and> queue s' = Some q"
    and get_empty: "queue s = Some [] \<Longrightarrow> get s = None"
    and view_fits: "valid c \<Longrightarrow> fits (view c)"
begin

lemma delivered_in_order:
  assumes "queue s = Some q" and "\<And>x. x \<in> set q \<Longrightarrow> fits x"
    and "\<And>c. Some c \<in> set es \<Longrightarrow> valid c"
    and "fifo_run put get view es s = (accepted, delivered, t)"
  shows "\<exists>rest. queue t = Some rest \<and> q @ accepted = delivered @ rest"
  using assms
proof (induction es arbitrary: s q accepted delivered)
  case Nil
  then show ?case by simp
next
  case (Cons e es)
  show ?case
  proof (cases e)
    case e: (Some c)
    show ?thesis
    proof (cases "put c s")
      case None
      then show ?thesis using Cons e by simp
    next
      case (Some s')
      obtain a where a: "fifo_run put get view es s' = (a, delivered, t)" "accepted = view c # a"
        using Some Cons.prems(4) e by (auto split: prod.splits)
      have v: "valid c" using Cons.prems(3) e by simp
      have "queue s' = Some (q @ [view c])"
        using put_law [OF Cons.prems(1) v Some] .
      moreover have "\<And>x. x \<in> set (q @ [view c]) \<Longrightarrow> fits x"
        using Cons.prems(2) view_fits [OF v] by auto
      ultimately show ?thesis
        using Cons.IH [of s'] Cons.prems(3) a by fastforce
    qed
  next
    case e: None
    show ?thesis
    proof (cases q)
      case Nil
      then have "get s = None" using Cons.prems(1) get_empty by simp
      then show ?thesis using Cons e by simp
    next
      case q: (Cons x q')
      then obtain s' where s': "get s = Some (x, s')" "queue s' = Some q'"
        using get_law Cons.prems(1,2) by force
      obtain d where d: "fifo_run put get view es s' = (accepted, d, t)" "delivered = x # d"
        using s' Cons.prems(4) e by (auto split: prod.splits)
      have "\<And>y. y \<in> set q' \<Longrightarrow> fits y" using q Cons.prems(2) by simp
      then show ?thesis
        using Cons.IH [OF s'(2)] Cons.prems(3) d q by fastforce
    qed
  qed
qed

end

text \<open>
  The two ends as the driver uses them on one ring: the sender checks the free space and writes
  a frame, the receiver checks for emptiness and reads one into a buffer of 65535 bytes.
\<close>

definition ring_send ::
    "T_IpcMsg_Msg \<Rightarrow> T_RingBuf \<times> ram \<Rightarrow> (T_RingBuf \<times> ram) option" where
  "ring_send msg = (\<lambda>(rb, m).
     if Is_Ringbuf_ChFreeSpace rb (frame_size (msg_len msg))
     then Some (put_frame (msg_flag msg) (msg_len msg) (buf msg) (frame_size (msg_len msg)) rb m)
     else None)"

definition ring_receive ::
    "T_RingBuf \<times> ram \<Rightarrow> ((u16 \<times> u8 list) \<times> T_RingBuf \<times> ram) option" where
  "ring_receive = (\<lambda>(rb, m).
     if Is_Ringbuf_Empty rb then None
     else map_option (\<lambda>(n, fl, bytes, rb'). ((fl, bytes), rb', m)) (get_frame m rb 0xFFFF))"

definition msg_ok :: "T_IpcMsg_Msg \<Rightarrow> bool" where
  "msg_ok msg \<longleftrightarrow> 0 < unat (msg_len msg) \<and> unat (msg_len msg) < 2 ^ 16"

definition msg_view :: "T_IpcMsg_Msg \<Rightarrow> u16 \<times> u8 list" where
  "msg_view msg = (ucast (msg_flag msg), map (buf msg) [0..<unat (msg_len msg)])"

interpretation ring: fifo_channel ring_queue ring_send ring_receive msg_ok msg_view
  "\<lambda>(fl, bytes). length bytes < 2 ^ 16"
proof unfold_locales
  fix s q c s'
  assume "ring_queue s = Some q" "msg_ok c" "ring_send c s = Some s'"
  then show "ring_queue s' = Some (q @ [msg_view c])"
    by (cases s; cases s')
      (auto simp: ring_send_def msg_ok_def msg_view_def split: if_splits intro!: put_frame_queue)
next
  fix s x q
  assume "ring_queue s = Some (x # q)" and x: "case x of (fl, bytes) \<Rightarrow> length bytes < 2 ^ 16"
  then show "\<exists>s'. ring_receive s = Some (x, s') \<and> ring_queue s' = Some q"
    using get_frame_queue [of "fst s" "snd s" "fst x" "snd x" q "0xFFFF"]
      ring_queue_empty [of "fst s" "snd s" "x # q"]
    by (cases s; cases x) (auto simp: ring_receive_def)
next
  fix s assume "ring_queue s = Some []"
  then show "ring_receive s = None"
    using ring_queue_empty [of "fst s" "snd s" "[]"]
    by (cases s) (auto simp: ring_receive_def)
next
  fix c assume "msg_ok c"
  then show "case msg_view c of (fl, bytes) \<Rightarrow> length bytes < 2 ^ 16"
    by (simp add: msg_ok_def msg_view_def)
qed

section \<open>The driver's state\<close>

text \<open>
  \<open>sender_ok\<close> and \<open>receiver_ok\<close>: the channel exists, the driver is initialised, the write mutex
  is free, and the local copy of the ring header has the geometry of the shared one (which
  \<^verbatim>\<open>ringbuf_ctl_init\<close> establishes and nothing changes).
\<close>

definition same_area :: "T_RingBuf \<Rightarrow> T_RingBuf \<Rightarrow> bool" where
  "same_area a b \<longleftrightarrow> rb_size a = rb_size b \<and> base_addr a = base_addr b"

definition sender_ok :: "nat \<Rightarrow> ipc_state \<Rightarrow> bool" where
  "sender_ok ch st \<longleftrightarrow> ch < length (g_IpcMsg_ChInfo st) \<and> g_icminitflag st = 1 \<and>
     \<not> write_mutex (g_IpcMsg_ChInfo st ! ch) \<and>
     same_area (send_crl (g_IpcMsg_ChInfo st ! ch)) (RingBuf_send (g_IpcMsg_ChInfo st ! ch))"

definition receiver_ok :: "nat \<Rightarrow> ipc_state \<Rightarrow> bool" where
  "receiver_ok ch st \<longleftrightarrow> ch < length (g_IpcMsg_ChInfo st) \<and>
     same_area (rcv_crl (g_IpcMsg_ChInfo st ! ch)) (RingBuf_rcv (g_IpcMsg_ChInfo st ! ch))"

definition send_queue :: "nat \<Rightarrow> ipc_state \<Rightarrow> (u16 \<times> u8 list) list option" where
  "send_queue ch st = ring_queue (RingBuf_send (g_IpcMsg_ChInfo st ! ch), ipc_ram st)"

definition rcv_queue :: "nat \<Rightarrow> ipc_state \<Rightarrow> (u16 \<times> u8 list) list option" where
  "rcv_queue ch st = ring_queue (RingBuf_rcv (g_IpcMsg_ChInfo st ! ch), ipc_ram st)"

lemma resync_ring:
  "same_area a b \<Longrightarrow> a\<lparr>Read_Pos := Read_Pos b, Write_Pos := Write_Pos b\<rparr> = b"
  "same_area a b \<Longrightarrow> a\<lparr>Write_Pos := Write_Pos b, Read_Pos := Read_Pos b\<rparr> = b"
  by (cases a; cases b; simp add: same_area_def)+

lemma upd_ch_simps [simp]:
  "ipc_ram (upd_ch i f st) = ipc_ram st"
  "g_icminitflag (upd_ch i f st) = g_icminitflag st"
  "length (g_IpcMsg_ChInfo (upd_ch i f st)) = length (g_IpcMsg_ChInfo st)"
  "i < length (g_IpcMsg_ChInfo st) \<Longrightarrow> g_IpcMsg_ChInfo (upd_ch i f st) ! i = f (g_IpcMsg_ChInfo st ! i)"
  "j \<noteq> i \<Longrightarrow> g_IpcMsg_ChInfo (upd_ch i f st) ! j = g_IpcMsg_ChInfo st ! j"
  by (simp_all add: upd_ch_def)

lemma Ipc_SetInt_simps [simp]:
  "ipc_ram (Ipc_SetInt ch st) = ipc_ram st"
  "g_icminitflag (Ipc_SetInt ch st) = g_icminitflag st"
  "g_IpcMsg_ChInfo (Ipc_SetInt ch st) = g_IpcMsg_ChInfo st"
  by (simp_all add: Ipc_SetInt_def)

lemma put_frame_fields:
  assumes "send_queue ch st = Some q" and "msg_ok msg"
    and "rb = RingBuf_send (g_IpcMsg_ChInfo st ! ch)"
    and "Is_Ringbuf_ChFreeSpace rb (frame_size (msg_len msg))"
    and "put_frame (msg_flag msg) (msg_len msg) (buf msg) (frame_size (msg_len msg)) rb (ipc_ram st)
         = (rb', m')"
  shows "rb_size rb' = rb_size rb" "base_addr rb' = base_addr rb" "Read_Pos rb' = Read_Pos rb"
    and "a < unat (base_addr rb) \<or> unat (base_addr rb) + unat (rb_size rb) \<le> a \<Longrightarrow>
         m' a = ipc_ram st a"
    and "ring_queue (rb', m') = Some (q @ [msg_view msg])"
proof -
  have q: "ring_queue (rb, ipc_ram st) = Some q" and ok: "msg_ring_ok rb"
    using assms(1,3) by (auto simp: send_queue_def ring_queue_def split: if_splits)
  have len: "0 < unat (msg_len msg)" "unat (msg_len msg) < 2 ^ 16"
    using assms(2) by (auto simp: msg_ok_def)
  note law = put_frame_law [OF ok len assms(4,5)]
  show "rb_size rb' = rb_size rb" "base_addr rb' = base_addr rb" "Read_Pos rb' = Read_Pos rb"
    using law by auto
  show "m' a = ipc_ram st a"
    if "a < unat (base_addr rb) \<or> unat (base_addr rb) + unat (rb_size rb) \<le> a"
    using law(6) that by blast
  show "ring_queue (rb', m') = Some (q @ [msg_view msg])"
    using put_frame_queue [OF q len assms(4,5)] by (simp add: msg_view_def)
qed

text \<open>
  One send, as the state it leaves: the shared ring advanced and the frame in memory when there
  was room, nothing but the local copy otherwise.
\<close>

lemma IpcMsg_Write_cases:
  assumes ok: "sender_ok ch st" and ch: "chID msg = ch" and m: "msg_ok msg"
    and q: "send_queue ch st = Some q"
  defines "rb \<equiv> RingBuf_send (g_IpcMsg_ChInfo st ! ch)"
  defines "free \<equiv> Is_Ringbuf_ChFreeSpace rb (frame_size (msg_len msg))"
  shows "\<exists>st'. IpcMsg_Write msg st = Some (if free then msg_len msg else -1, st') \<and>
    sender_ok ch st' \<and>
    send_queue ch st' = Some (if free then q @ [msg_view msg] else q) \<and>
    (\<forall>i. i \<noteq> ch \<longrightarrow> g_IpcMsg_ChInfo st' ! i = g_IpcMsg_ChInfo st ! i) \<and>
    RingBuf_rcv (g_IpcMsg_ChInfo st' ! ch) = RingBuf_rcv (g_IpcMsg_ChInfo st ! ch) \<and>
    (\<forall>a. a < unat (base_addr rb) \<or> unat (base_addr rb) + unat (rb_size rb) \<le> a \<longrightarrow>
      ipc_ram st' a = ipc_ram st a)"
proof -
  have c: "ch < length (g_IpcMsg_ChInfo st)" and i: "g_icminitflag st = 1"
    and mx: "\<not> write_mutex (g_IpcMsg_ChInfo st ! ch)"
    and area: "same_area (send_crl (g_IpcMsg_ChInfo st ! ch)) rb"
    using ok by (auto simp: sender_ok_def rb_def)
  have len: "msg_len msg \<noteq> 0"
    using m by (auto simp: msg_ok_def)
  note sync = resync_ring [OF area]
  show ?thesis
  proof (cases free)
    case False
    then show ?thesis
      using c i mx len area q ch
      unfolding IpcMsg_Write_def Let_def free_def
      by (auto simp: mutex_lock_def mutex_unlock_def rb_def [symmetric] sync sender_ok_def
          send_queue_def same_area_def)
  next
    case True
    obtain rb' m' where p: "put_frame (msg_flag msg) (msg_len msg) (buf msg)
        (frame_size (msg_len msg)) rb (ipc_ram st) = (rb', m')"
      by (metis surj_pair)
    have p': "msg_flag msg = ICM_FLASHWRITE \<Longrightarrow> put_frame ICM_FLASHWRITE (msg_len msg) (buf msg)
        (frame_size (msg_len msg)) rb (ipc_ram st) = (rb', m')"
      using p by simp
    note law = put_frame_fields [OF q m rb_def [THEN meta_eq_to_obj_eq] True [unfolded free_def] p]
    have whole: "rb\<lparr>Write_Pos := Write_Pos rb'\<rparr> = rb'"
      using law by (cases rb; cases rb') simp
    have area': "same_area rb' rb'" by (simp add: same_area_def)
    show ?thesis
      using c i mx len area q ch True law(4,5) area'
      unfolding IpcMsg_Write_def Let_def free_def
      by (auto simp: mutex_lock_def mutex_unlock_def rb_def [symmetric] sync sender_ok_def p p' whole
          send_queue_def)
  qed
qed

section \<open>Properties of the channels\<close>

text \<open>The driver's state before initialisation: all zero.\<close>

definition null_ring :: T_RingBuf where
  "null_ring = \<lparr>rb_size = 0, Write_Pos = 0, base_addr = 0, Read_Pos = 0\<rparr>"

definition null_chan :: T_IpcMsg_ChInfo where
  "null_chan = \<lparr>hdr_send = 0, RingBuf_send = null_ring, hdr_rcv = 0, RingBuf_rcv = null_ring,
     ch_flag = 0, write_mutex = False, send_crl = null_ring, rcv_crl = null_ring\<rparr>"

definition ipc_reset :: ipc_state where
  "ipc_reset = \<lparr>g_IpcMsg_ChInfo = replicate IpcMsg_Channel_MAX null_chan, ipc_ram = (\<lambda>_. 0),
     g_icminitflag = 0, g_icm_flag = False, PRCM_irq = 0\<rparr>"

definition ipc_ready :: ipc_state where
  "ipc_ready = the (IpcMsg_Buf_init ipc_reset)"

definition demo_msg :: T_IpcMsg_Msg where
  "demo_msg = \<lparr>chID = IpcMsg_Normal, msg_flag = 2, buf = of_nat, msg_len = 3\<rparr>"


lemma ring_queue_idle:
  "msg_ring_ok rb \<Longrightarrow> Write_Pos rb = Read_Pos rb \<Longrightarrow> ring_queue (rb, m) = Some []"
  by (simp add: ring_queue_def ring_content_def ring_used_def cyc_dist_def)

text \<open>The memory each open direction occupies, header and data, in the order of the table.\<close>

definition ring_extent :: "u32 \<Rightarrow> T_RingBuf \<Rightarrow> nat \<times> nat" where
  "ring_extent hdr rb = (unat hdr, unat (base_addr rb) + unat (rb_size rb))"

definition ring_extents :: "ipc_state \<Rightarrow> (nat \<times> nat) list" where
  "ring_extents st = concat (map (\<lambda>i.
     (let c = g_IpcMsg_ChInfo st ! i; d = direction (IpcMsg_Resource_Tbl ! i) in
      (if d AND 1 = 1 then [ring_extent (hdr_rcv c) (RingBuf_rcv c)] else []) @
      (if d AND 2 = 2 then [ring_extent (hdr_send c) (RingBuf_send c)] else [])))
     [0..<IpcMsg_Channel_MAX])"

lemmas ipc_tables = IpcMsg_Resource_Tbl_def IpcMsg_Channel_MAX_def IpcMsg_LOG_def
  IpcMsg_Normal_def IpcMsg_Dump_def IpcMsg_Flash_def

lemmas ipc_init_eval = IpcMsg_Buf_init_def buf_init_ch_def Let_def get_ipcmsg_buf_len_def
  ipc_tables sizeof_head_def sizeof_ringbuf_def ALIGN_IPCMSG_def CACHE_LINE_def
  IPCMSG_BUF_BASE_ADDR_def IPCMSG_BUF_LEN_def ring_span_def fresh_ring_def ringbuf_ctl_init_def
  upd_ch_def xy_assert_def

lemma length_4_cases:
  assumes "length xs = 4" obtains a b c d where "xs = [a, b, c, d]"
  using assms by (auto simp: length_Suc_conv eval_nat_numeral)

definition idle_ring :: "u32 \<Rightarrow> u32 \<Rightarrow> T_RingBuf" where
  "idle_ring base n = \<lparr>rb_size = n, Write_Pos = 0, base_addr = base, Read_Pos = 0\<rparr>"

lemma upto_4: "[0..<4] = [0, 1, 2, 3]"
  by (simp add: upt_rec)

lemma Buf_init_result:
  assumes "g_IpcMsg_ChInfo st = [a, b, c, d]"
  shows "IpcMsg_Buf_init st = Some (st\<lparr>g_IpcMsg_ChInfo :=
     [a\<lparr>hdr_send := 0x2001BF00, RingBuf_send := idle_ring 0x2001BF40 768,
        send_crl := idle_ring 0x2001BF40 768, write_mutex := False, ch_flag := 0\<rparr>,
      b\<lparr>hdr_rcv := 0x2001C240, RingBuf_rcv := idle_ring 0x2001C280 512,
        rcv_crl := idle_ring 0x2001C280 512, hdr_send := 0x2001C480,
        RingBuf_send := idle_ring 0x2001C4C0 512,
        send_crl := idle_ring 0x2001C4C0 512, write_mutex := False, ch_flag := 1\<rparr>,
      c\<lparr>hdr_rcv := 0x2001C6C0, RingBuf_rcv := idle_ring 0x2001C700 32,
        rcv_crl := idle_ring 0x2001C700 32, hdr_send := 0x2001C720,
        RingBuf_send := idle_ring 0x2001C760 32,
        send_crl := idle_ring 0x2001C760 32, write_mutex := False, ch_flag := 2\<rparr>,
      d\<lparr>hdr_send := 0x2001C780, RingBuf_send := idle_ring 0x2001C7C0 64,
        send_crl := idle_ring 0x2001C7C0 64, write_mutex := False, ch_flag := 3\<rparr>],
     g_icminitflag := 1\<rparr>)"
  using assms by (simp add: ipc_init_eval idle_ring_def upto_4)

lemma idle_ring_simps [simp]:
  "rb_size (idle_ring b n) = n" "base_addr (idle_ring b n) = b"
  "Write_Pos (idle_ring b n) = 0" "Read_Pos (idle_ring b n) = 0"
  by (simp_all add: idle_ring_def)

lemma idle_ring_ok:
  "0 < unat n \<Longrightarrow> 32 dvd unat n \<Longrightarrow> unat b + unat n < 2 ^ 32 \<Longrightarrow> msg_ring_ok (idle_ring b n)"
  unfolding msg_ring_ok_def ring_ok_def by (auto intro: dvd_trans [of 4 32])

lemma idle_ring_queue:
  "0 < unat n \<Longrightarrow> 32 dvd unat n \<Longrightarrow> unat b + unat n < 2 ^ 32 \<Longrightarrow>
   ring_queue (idle_ring b n, m) = Some []"
  by (simp add: ring_queue_idle idle_ring_ok)

lemma less_4_cases: "i < 4 \<longleftrightarrow> i = 0 \<or> i = 1 \<or> i = 2 \<or> i = 3" for i :: nat
  by auto

lemma Buf_init_state:
  assumes "length (g_IpcMsg_ChInfo st) = IpcMsg_Channel_MAX"
  shows "\<exists>st'. IpcMsg_Buf_init st = Some st' \<and>
     ring_extents st' = [(0x2001BF00, 0x2001C240), (0x2001C240, 0x2001C480), (0x2001C480, 0x2001C6C0),
        (0x2001C6C0, 0x2001C720), (0x2001C720, 0x2001C780), (0x2001C780, 0x2001C800)] \<and>
     (\<forall>ch<4. sender_ok ch st' \<and> send_queue ch st' = Some []) \<and>
     (\<forall>ch. ch = 1 \<or> ch = 2 \<longrightarrow> receiver_ok ch st' \<and> rcv_queue ch st' = Some [])"
proof -
  obtain a b c d where st: "g_IpcMsg_ChInfo st = [a, b, c, d]"
    using assms by (auto simp: IpcMsg_Channel_MAX_def elim: length_4_cases)
  show ?thesis
    unfolding Buf_init_result [OF st] ring_extents_def less_4_cases
    by (simp add: upto_4 ring_extent_def ipc_tables sender_ok_def receiver_ok_def same_area_def send_queue_def
        rcv_queue_def idle_ring_queue all_conj_distrib imp_disjL)
qed


text \<open>
  initialisation succeeds from any former contents, lays the six rings out one after the
  other without overlap inside the shared buffer (2304 of its 3584 bytes), and leaves every
  channel ready: all send queues empty with their mutexes free, both receive queues empty.
\<close>
lemma IpcMsg_Buf_init_layout:
  assumes "length (g_IpcMsg_ChInfo st) = IpcMsg_Channel_MAX"
  shows "\<exists>st'. IpcMsg_Buf_init st = Some st' \<and>
     (\<forall>ch<4. sender_ok ch st' \<and> send_queue ch st' = Some []) \<and>
     (\<forall>ch. ch = 1 \<or> ch = 2 \<longrightarrow> receiver_ok ch st' \<and> rcv_queue ch st' = Some []) \<and>
     sorted_wrt (\<lambda>x y. snd x \<le> fst y) (ring_extents st') \<and>
     (\<forall>x \<in> set (ring_extents st'). unat IPCMSG_BUF_BASE_ADDR \<le> fst x \<and> fst x + 64 < snd x \<and>
        snd x \<le> unat IPCMSG_BUF_BASE_ADDR + unat IPCMSG_BUF_LEN)"
  using Buf_init_state [OF assms] by (auto simp: IPCMSG_BUF_BASE_ADDR_def IPCMSG_BUF_LEN_def)

lemma ipc_ready_chans:
  "IpcMsg_Buf_init ipc_reset = Some ipc_ready"
  "RingBuf_send (g_IpcMsg_ChInfo ipc_ready ! 1) = idle_ring 0x2001C4C0 512"
proof -
  have "g_IpcMsg_ChInfo ipc_reset = [null_chan, null_chan, null_chan, null_chan]"
    by (simp add: ipc_reset_def IpcMsg_Channel_MAX_def numeral_eq_Suc)
  note result = Buf_init_result [OF this]
  show "IpcMsg_Buf_init ipc_reset = Some ipc_ready"
    by (simp add: ipc_ready_def result)
  show "RingBuf_send (g_IpcMsg_ChInfo ipc_ready ! 1) = idle_ring 0x2001C4C0 512"
    by (simp add: ipc_ready_def result)
qed

lemmas ipc_ready_send = ipc_ready_chans(2) [unfolded One_nat_def]

lemma ipc_ready_ok: "sender_ok 1 ipc_ready" "send_queue 1 ipc_ready = Some []"
  using Buf_init_state [of ipc_reset] ipc_ready_chans(1)
  by (auto simp: ipc_reset_def IpcMsg_Channel_MAX_def)

lemma demo_msg_facts:
  "chID demo_msg = 1" "msg_ok demo_msg" "msg_len demo_msg = 3"
  "msg_view demo_msg = (2, [0, 1, 2])"
  "Is_Ringbuf_ChFreeSpace (RingBuf_send (g_IpcMsg_ChInfo ipc_ready ! Suc 0)) (frame_size 3)"
proof -
  show "chID demo_msg = 1" "msg_ok demo_msg" "msg_len demo_msg = 3"
    by (simp_all add: demo_msg_def msg_ok_def IpcMsg_Normal_def)
  show "msg_view demo_msg = (2, [0, 1, 2])"
    by (simp add: msg_view_def demo_msg_def upt_rec)
  show "Is_Ringbuf_ChFreeSpace (RingBuf_send (g_IpcMsg_ChInfo ipc_ready ! Suc 0)) (frame_size 3)"
    by (simp add: ipc_ready_send Is_Ringbuf_ChFreeSpace_def frame_size_def ALIGN_IPCMSG_def
        sizeof_head_def CACHE_LINE_def)
qed

text \<open>
  C1: the two ends of a channel deliver in order and lose nothing. For every interleaving of
  sends and receives on one ring, what was queued before followed by the messages accepted by
  \<^verbatim>\<open>IpcMsg_Write\<close>'s frame writer is exactly what was delivered by the frame reader followed by
  what is still queued, whatever wraps around the end of the ring on the way.
\<close>
theorem ipc_fifo_order:
  assumes "ring_queue s = Some q" and "\<And>fl bytes. (fl, bytes) \<in> set q \<Longrightarrow> length bytes < 2 ^ 16"
    and "\<And>msg. Some msg \<in> set es \<Longrightarrow> msg_ok msg"
    and "fifo_run ring_send ring_receive msg_view es s = (accepted, delivered, t)"
  shows "\<exists>rest. ring_queue t = Some rest \<and> q @ accepted = delivered @ rest"
  by (rule ring.delivered_in_order [OF assms(1) _ assms(3,4)]) (use assms(2) in auto)

definition demo_ring :: "T_RingBuf \<times> ram" where
  "demo_ring = (\<lparr>rb_size = 64, Write_Pos = 32, base_addr = 8, Read_Pos = 32\<rparr>, \<lambda>_. 0)"

lemma ipc_fifo_order_witness:
  "\<exists>rest. ring_queue (snd (snd (fifo_run ring_send ring_receive msg_view
       [Some demo_msg, None, Some demo_msg, Some demo_msg] demo_ring))) = Some rest \<and>
     [] @ [(2, [0, 1, 2]), (2, [0, 1, 2])] = [(2, [0, 1, 2])] @ rest"
proof (rule ipc_fifo_order [where q = "[]"])
  let ?es = "[Some demo_msg, None, Some demo_msg, Some demo_msg]"
  let ?run = "fifo_run ring_send ring_receive msg_view ?es demo_ring"
  show "ring_queue demo_ring = Some []"
    unfolding demo_ring_def by (rule ring_queue_idle) (simp_all add: msg_ring_ok_def ring_ok_def)
  have "fst ?run = [(2, [0, 1, 2]), (2, [0, 1, 2])]" by code_simp
  moreover have "fst (snd ?run) = [(2, [0, 1, 2])]" by code_simp
  ultimately show "?run = ([(2, [0, 1, 2]), (2, [0, 1, 2])], [(2, [0, 1, 2])], snd (snd ?run))"
    by (metis prod.collapse)
  fix msg assume "Some msg \<in> set ?es"
  then have "msg = demo_msg" by auto
  then show "msg_ok msg" by (simp add: msg_ok_def demo_msg_def)
qed simp

text \<open>
  C2: \<^verbatim>\<open>IpcMsg_Write\<close> implements the abstract enqueue. With the channel initialised and the mutex
  free, it returns the length and appends exactly the message to the queue the peer reads when
  the ring has room for the padded frame, returns -1 and leaves the queue alone otherwise, and
  on both paths releases the mutex and leaves every other channel untouched.
\<close>
theorem IpcMsg_Write_refines_enqueue:
  assumes "sender_ok ch st" and "chID msg = ch" and "msg_ok msg" and "send_queue ch st = Some q"
  shows "\<exists>st'. IpcMsg_Write msg st =
       Some (if Is_Ringbuf_ChFreeSpace (RingBuf_send (g_IpcMsg_ChInfo st ! ch))
                  (frame_size (msg_len msg)) then msg_len msg else -1, st') \<and>
     sender_ok ch st' \<and>
     send_queue ch st' =
       Some (if Is_Ringbuf_ChFreeSpace (RingBuf_send (g_IpcMsg_ChInfo st ! ch))
                  (frame_size (msg_len msg)) then q @ [msg_view msg] else q) \<and>
     (\<forall>i. i \<noteq> ch \<longrightarrow> g_IpcMsg_ChInfo st' ! i = g_IpcMsg_ChInfo st ! i)"
  using IpcMsg_Write_cases [OF assms] by auto

lemma IpcMsg_Write_refines_enqueue_witness:
  "\<exists>st'. IpcMsg_Write demo_msg ipc_ready = Some (3, st') \<and> sender_ok 1 st' \<and>
     send_queue 1 st' = Some [(2, [0, 1, 2])]"
  using IpcMsg_Write_refines_enqueue [OF ipc_ready_ok(1) demo_msg_facts(1,2) ipc_ready_ok(2)]
  by (auto simp: demo_msg_facts)

text \<open>
  a send never touches memory outside the data area of its own ring: not the ring header,
  not another channel, not the rest of the chip's memory, although the frame may wrap around.
\<close>
lemma IpcMsg_Write_stays_in_ring:
  assumes "sender_ok ch st" and "chID msg = ch" and "msg_ok msg" and "send_queue ch st = Some q"
    and "IpcMsg_Write msg st = Some (r, st')"
    and "a < unat (base_addr (RingBuf_send (g_IpcMsg_ChInfo st ! ch))) \<or>
         unat (base_addr (RingBuf_send (g_IpcMsg_ChInfo st ! ch))) +
         unat (rb_size (RingBuf_send (g_IpcMsg_ChInfo st ! ch))) \<le> a"
  shows "ipc_ram st' a = ipc_ram st a"
  using IpcMsg_Write_cases [OF assms(1-4)] assms(5,6) by auto

text \<open>
  C3: \<^verbatim>\<open>IpcMsg_Read\<close> implements the abstract dequeue. With messages in the receive ring it does
  not wait, hands out the flag and the bytes of the oldest message (when the caller's buffer
  holds it), returns its length, and leaves the rest of the queue.
\<close>
theorem IpcMsg_Read_refines_dequeue:
  assumes "receiver_ok ch st" and "rcv_queue ch st = Some ((fl, bytes) # q)"
    and "length bytes \<le> unat cap"
  shows "\<exists>st'. IpcMsg_Read take_sema ch cap st = Some (of_nat (length bytes), Some (fl, bytes), st') \<and>
     receiver_ok ch st' \<and> rcv_queue ch st' = Some q \<and> ipc_ram st' = ipc_ram st"
proof -
  let ?rb = "RingBuf_rcv (g_IpcMsg_ChInfo st ! ch)"
  have c: "ch < length (g_IpcMsg_ChInfo st)"
    and area: "same_area (rcv_crl (g_IpcMsg_ChInfo st ! ch)) ?rb"
    and q: "ring_queue (?rb, ipc_ram st) = Some ((fl, bytes) # q)"
    using assms(1,2) by (auto simp: receiver_ok_def rcv_queue_def)
  obtain rb' where rb': "get_frame (ipc_ram st) ?rb cap = Some (of_nat (length bytes), fl, bytes, rb')"
    "ring_queue (rb', ipc_ram st) = Some q" "rb_size rb' = rb_size ?rb"
    "Write_Pos rb' = Write_Pos ?rb" "base_addr rb' = base_addr ?rb"
    using get_frame_queue [OF q assms(3)] by auto
  have whole: "?rb\<lparr>Read_Pos := Read_Pos rb'\<rparr> = rb'"
    using rb'(3-5) by (cases ?rb; cases rb') simp
  have busy: "\<not> Is_Ringbuf_Empty ?rb" using ring_queue_empty [OF q] by simp
  show ?thesis
    using c rb'(1,2) busy
    by (simp add: IpcMsg_Read_def resync_ring [OF area] whole receiver_ok_def rcv_queue_def
        same_area_def)
qed

definition demo_rcv :: ipc_state where
  "demo_rcv = ipc_reset\<lparr>g_IpcMsg_ChInfo :=
      [null_chan\<lparr>RingBuf_rcv := idle_ring 0 64\<lparr>Write_Pos := 32\<rparr>, rcv_crl := idle_ring 0 64\<rparr>],
     ipc_ram := (\<lambda>a. if a = 0 then 2 else if a = 1 then 0 else 7)\<rparr>"

lemma IpcMsg_Read_refines_dequeue_witness:
  "\<exists>st'. IpcMsg_Read (\<lambda>_ st. st) 0 8 demo_rcv = Some (2, Some (0x0707, [7, 7]), st') \<and>
     rcv_queue 0 st' = Some []"
proof -
  let ?rb = "idle_ring 0 64\<lparr>Write_Pos := 32\<rparr>"
  have rok: "receiver_ok 0 demo_rcv"
    by (simp add: receiver_ok_def demo_rcv_def same_area_def)
  have "msg_ring_ok ?rb"
    by (simp add: msg_ring_ok_def ring_ok_def)
  moreover have "frames (ring_content (ipc_ram demo_rcv) ?rb) = Some [(0x0707, [7, 7])]"
    by code_simp
  ultimately have q: "rcv_queue 0 demo_rcv = Some [(0x0707, [7, 7])]"
    by (simp add: rcv_queue_def ring_queue_def demo_rcv_def)
  show ?thesis
    using IpcMsg_Read_refines_dequeue [OF rok q, of 8 "\<lambda>_ st. st"] by auto
qed

end
