(* ===== verification/Rtc_Calendar.thy ===== *)
theory Rtc_Calendar
  imports XY_Prelude
begin

text \<open>
  The calendar of the real-time clock (\<^verbatim>\<open>src/xinyi/SYSAPP/rtc_tmr/src/rtc_adapt.c\<close>): conversion
  between milliseconds since 1970-01-01 and \<^verbatim>\<open>struct rtc_time\<close>. The record and the result of
  \<open>xy_mktime\<close> are machine words with the C arithmetic; the conversion to a date works on the
  exact integers, because no intermediate value of \<^verbatim>\<open>clock_utc_to_calendar\<close> can leave the range
  of its \<^verbatim>\<open>int\<close> and \<^verbatim>\<open>time_t64\<close> when the day count comes from a 64-bit millisecond count.
  The specification counts days year by year with the Gregorian leap rule.
\<close>

section \<open>The code\<close>

record rtc_time =
  tm_msec :: u32
  tm_sec :: u32
  tm_min :: u32
  tm_hour :: u32
  tm_mday :: u32
  tm_mon :: u32
  tm_year :: u32
  tm_wday :: u32
  tm_yday :: u32
  tm_isdst :: u32

definition clock_is_leapyear :: "int \<Rightarrow> bool" where
  "clock_is_leapyear year =
     (if year mod 400 \<noteq> 0 then (if year mod 100 \<noteq> 0 then (if year mod 4 \<noteq> 0 then False else True)
      else False) else True)"

definition g_daysbeforemonth :: "int list" where
  "g_daysbeforemonth = [0, 31, 59, 90, 120, 151, 181, 212, 243, 273, 304, 334, 365]"

definition clock_days_before_month :: "int \<Rightarrow> bool \<Rightarrow> int" where
  "clock_days_before_month month leapyear =
     (let retval = g_daysbeforemonth ! nat month in
      if month \<ge> 2 \<and> leapyear then retval + 1 else retval)"

definition clock_calendar_to_utc :: "int \<Rightarrow> int \<Rightarrow> int \<Rightarrow> u32" where
  "clock_calendar_to_utc year month day =
     of_int ((year - 1970) * 365) + of_int ((year - 1969) div 4) +
     of_int (clock_days_before_month month (clock_is_leapyear year)) + of_int (day - 1)"

definition clock_dayoftheweek :: "int \<Rightarrow> int \<Rightarrow> int \<Rightarrow> int" where
  "clock_dayoftheweek mday month year =
     (let (month, year) = (if month = 1 \<or> month = 2 then (month + 12, year - 1) else (month, year)) in
      (mday + 2 * month + 3 * (month + 1) div 5 + year + year div 4 - year div 100 + year div 400)
        mod 7 + 1)"

text \<open>The year loop and the binary search over the months of \<^verbatim>\<open>clock_utc_to_calendar\<close>.\<close>

function year_loop :: "int \<Rightarrow> int \<Rightarrow> int \<times> int \<times> bool" where
  "year_loop value days =
     (let leapyear = clock_is_leapyear (value + 1970);
          tmp = (if leapyear then 366 else 365) in
      if days \<ge> tmp then year_loop (value + 1) (days - tmp) else (value, days, leapyear))"
  by pat_completeness auto
termination
  by (relation "measure (\<lambda>(value, days). nat days)") (auto split: if_splits)

declare year_loop.simps [simp del]

function month_loop :: "bool \<Rightarrow> int \<Rightarrow> int \<Rightarrow> int \<Rightarrow> int" where
  "month_loop leapyear days mn mx =
     (let value = (mn + mx) div 2 in
      if clock_days_before_month (value + 1) leapyear > days then
        (if clock_days_before_month value leapyear > days then
           (if mn < value - 1 then month_loop leapyear days mn (value - 1) else mn)
         else value)
      else (if value + 1 < mx then month_loop leapyear days (value + 1) mx else value + 1))"
  by pat_completeness auto
termination
  by (relation "measure (\<lambda>(l, d, mn, mx). nat (mx - mn))") auto

declare month_loop.simps [simp del]

definition clock_utc_to_calendar :: "int \<Rightarrow> int \<times> int \<times> int" where
  "clock_utc_to_calendar days0 =
     (let value0 = days0 div (4 * 365 + 1);
          days1 = days0 - value0 * (4 * 365 + 1);
          (value, days2, leapyear) = year_loop (value0 * 4) days1;
          month = month_loop leapyear days2 0 11;
          days3 = days2 - clock_days_before_month month leapyear
      in (1970 + value, month + 1, days3 + 1))"

definition xy_mktime :: "rtc_time \<Rightarrow> u64" where
  "xy_mktime tp =
     (let msec = tm_msec tp; sec = tm_sec tp; minute = tm_min tp; hour = tm_hour tp;
          mday = tm_mday tp; mon = tm_mon tp; year = tm_year tp in
      if sec = 0 \<and> minute = 0 \<and> hour = 0 \<and> mday = 0 \<and> mon = 0 \<and> year = 0 then 0
      else
        let mon1 = mon - 2;
            (mon2, year2) = (if 0 \<ge> sint mon1 then (mon1 + 12, year - 1) else (mon1, year)) in
        ((((ucast (year2 div 4 - year2 div 100 + year2 div 400) + 367 * ucast mon2 div 12 + ucast mday
            + ucast year2 * 365 - 719499) * 24 + ucast hour) * 60 + ucast minute) * 60 + ucast sec) * 1000
        + ucast msec)"

definition xy_gmtime_r :: "u64 \<Rightarrow> rtc_time" where
  "xy_gmtime_r msec =
     (let epoch = uint msec div 1000;
          jdn = epoch div 86400;
          epoch1 = epoch - 86400 * jdn;
          hour = epoch1 div 3600;
          epoch2 = epoch1 - 3600 * hour;
          minute = epoch2 div 60;
          sec = epoch2 - 60 * minute;
          (year, month, day) = clock_utc_to_calendar jdn
      in \<lparr>tm_msec = of_int (uint msec mod 1000), tm_sec = of_int sec, tm_min = of_int minute,
          tm_hour = of_int hour, tm_mday = of_int day, tm_mon = of_int month,
          tm_year = of_int year, tm_wday = of_int (clock_dayoftheweek day month year),
          tm_yday = of_int (day + clock_days_before_month (month - 1) (clock_is_leapyear year)),
          tm_isdst = 0\<rparr>)"

section \<open>The specification\<close>

text \<open>
  \<open>year_length\<close> and \<open>month_length\<close> are the Gregorian lengths, \<open>year_start y\<close> the days from
  1970-01-01 to the first of January of \<open>y\<close>, and \<open>civil_day\<close> the day number of a date.
\<close>

definition gregorian_leap :: "int \<Rightarrow> bool" where
  "gregorian_leap y \<longleftrightarrow> 4 dvd y \<and> (100 dvd y \<longrightarrow> 400 dvd y)"

definition year_length :: "int \<Rightarrow> int" where
  "year_length y = (if gregorian_leap y then 366 else 365)"

definition year_start :: "int \<Rightarrow> int" where
  "year_start y = sum year_length {1970..<y}"

definition month_length :: "int \<Rightarrow> int \<Rightarrow> int" where
  "month_length y m =
     (if m = 2 then (if gregorian_leap y then 29 else 28)
      else if m = 4 \<or> m = 6 \<or> m = 9 \<or> m = 11 then 30 else 31)"

definition month_start :: "int \<Rightarrow> int \<Rightarrow> int" where
  "month_start y m = sum (month_length y) {1..<m}"

definition valid_date :: "int \<Rightarrow> int \<Rightarrow> int \<Rightarrow> bool" where
  "valid_date y m d \<longleftrightarrow> 1970 \<le> y \<and> 1 \<le> m \<and> m \<le> 12 \<and> 1 \<le> d \<and> d \<le> month_length y m"

definition civil_day :: "int \<Rightarrow> int \<Rightarrow> int \<Rightarrow> int" where
  "civil_day y m d = year_start y + month_start y m + d - 1"

lemma clock_is_leapyear_iff: "clock_is_leapyear y \<longleftrightarrow> gregorian_leap y"
proof -
  have "400 dvd y \<Longrightarrow> 100 dvd y" by (rule dvd_trans [of 100 400]) simp
  moreover have "100 dvd y \<Longrightarrow> 4 dvd y" by (rule dvd_trans [of 4 100]) simp
  ultimately show ?thesis
    by (auto simp: clock_is_leapyear_def gregorian_leap_def mod_eq_0_iff_dvd)
qed

lemma year_start_1970 [simp]: "year_start 1970 = 0"
  by (simp add: year_start_def)

lemma year_start_Suc: "1970 \<le> y \<Longrightarrow> year_start (y + 1) = year_start y + year_length y"
proof -
  assume "1970 \<le> y"
  then have "{1970..<y + 1} = insert y {1970..<y}" by auto
  then show ?thesis by (simp add: year_start_def)
qed

lemma month_cases:
  assumes "1 \<le> m" "m \<le> (12::int)"
  obtains "m = 1" | "m = 2" | "m = 3" | "m = 4" | "m = 5" | "m = 6" | "m = 7" | "m = 8"
    | "m = 9" | "m = 10" | "m = 11" | "m = 12"
proof -
  have "m \<in> set [1..12]" using assms by simp
  then have "m \<in> {1, 2, 3, 4, 5, 6, 7, 8, 9, 10, 11, 12}" by (simp add: upto.simps)
  then show thesis using that by blast
qed

lemma month_start_eq:
  assumes "1 \<le> m" "m \<le> 12"
  shows "month_start y m = clock_days_before_month (m - 1) (gregorian_leap y)"
proof -
  have upto: "{1..<m} = set [1..m - 1]" by (auto)
  show ?thesis
    using assms unfolding month_start_def upto
    by (cases rule: month_cases [OF assms])
      (simp_all add: upto.simps month_length_def clock_days_before_month_def g_daysbeforemonth_def
        eval_nat_numeral sum.set_conv_list)
qed

section \<open>The two searches\<close>

definition year_found :: "int \<Rightarrow> int \<Rightarrow> int \<times> int \<times> bool \<Rightarrow> bool" where
  "year_found val days = (\<lambda>(v, d, leap). val \<le> v \<and> 0 \<le> d \<and> d < year_length (1970 + v) \<and>
     leap = gregorian_leap (1970 + v) \<and>
     year_start (1970 + v) + d = year_start (1970 + val) + days)"

lemma year_loop_spec:
  "0 \<le> val \<Longrightarrow> 0 \<le> days \<Longrightarrow> year_found val days (year_loop val days)"
proof (induction val days rule: year_loop.induct)
  case (1 val days)
  have len: "(if clock_is_leapyear (val + 1970) then 366 else 365) = year_length (1970 + val)"
    by (simp add: year_length_def clock_is_leapyear_iff add.commute)
  have step: "year_start (1970 + (val + 1)) = year_start (1970 + val) + year_length (1970 + val)"
    using year_start_Suc [of "1970 + val"] "1.prems"(1) by (simp add: add.assoc)
  show ?case
  proof (cases "year_length (1970 + val) \<le> days")
    case True
    then have "year_found (val + 1) (days - year_length (1970 + val))
        (year_loop (val + 1) (days - year_length (1970 + val)))"
      using "1.IH" [OF refl refl] "1.prems" by (simp add: len)
    moreover have "year_loop val days = year_loop (val + 1) (days - year_length (1970 + val))"
      using True by (subst year_loop.simps) (simp add: Let_def len)
    ultimately show ?thesis
      using step by (auto simp: year_found_def)
  next
    case False
    then have "year_loop val days = (val, days, clock_is_leapyear (val + 1970))"
      by (subst year_loop.simps) (simp add: Let_def len)
    then show ?thesis
      using False "1.prems" by (simp add: year_found_def clock_is_leapyear_iff add.commute)
  qed
qed

lemma month_loop_spec:
  assumes "mn \<le> mx" "clock_days_before_month mn leap \<le> days"
    "days < clock_days_before_month (mx + 1) leap"
  shows "mn \<le> month_loop leap days mn mx \<and> month_loop leap days mn mx \<le> mx \<and>
    clock_days_before_month (month_loop leap days mn mx) leap \<le> days \<and>
    days < clock_days_before_month (month_loop leap days mn mx + 1) leap"
  using assms
proof (induction leap days mn mx rule: month_loop.induct)
  case (1 leap days mn mx)
  let ?b = "\<lambda>m. clock_days_before_month m leap"
  define val where "val = (mn + mx) div 2"
  have range: "mn \<le> val" "val \<le> mx" using "1.prems"(1) by (auto simp: val_def)
  have unf: "month_loop leap days mn mx =
      (if ?b (val + 1) > days then
         (if ?b val > days then (if mn < val - 1 then month_loop leap days mn (val - 1) else mn)
          else val)
       else (if val + 1 < mx then month_loop leap days (val + 1) mx else val + 1))"
    by (subst month_loop.simps) (simp add: val_def Let_def)
  show ?case
  proof (cases "?b (val + 1) > days")
    case above: True
    show ?thesis
    proof (cases "?b val > days")
      case True
      then have low: "mn \<le> val - 1"
        using "1.prems"(2) range by (cases "mn = val") auto
      show ?thesis
      proof (cases "mn < val - 1")
        case rec: True
        then show ?thesis
          using "1.IH"(1) [OF val_def above True rec] "1.prems"(2) True range above
          unfolding unf by simp
      next
        case False
        then have "mn = val - 1" using low by simp
        then show ?thesis
          using True above "1.prems"(2) range
          unfolding unf by simp
      qed
    next
      case False
      then show ?thesis
        using above range
        unfolding unf by simp
    qed
  next
    case below: False
    then have high: "val + 1 \<le> mx"
      using "1.prems"(3) range by (cases "val = mx") auto
    show ?thesis
    proof (cases "val + 1 < mx")
      case True
      then show ?thesis
        using "1.IH"(2) [OF val_def below True] "1.prems"(3) below range
        unfolding unf by simp
    next
      case False
      then have "mx = val + 1" using high by simp
      then show ?thesis
        using below "1.prems"(3) range
        unfolding unf by simp
    qed
  qed
qed

section \<open>Leap years\<close>

definition leaps :: "int \<Rightarrow> int" where
  "leaps n = n div 4 - n div 100 + n div 400"

lemma div_succ:
  fixes n k :: int
  assumes "0 < k"
  shows "(n + 1) div k = n div k + (if k dvd n + 1 then 1 else 0)"
proof (cases "n mod k + 1 = k")
  case True
  then have "n + 1 = k * (n div k) + k"
    using mult_div_mod_eq [of k n] by linarith
  then have "n + 1 = k * (n div k + 1)" by (simp add: distrib_left)
  then show ?thesis using assms by simp
next
  case False
  have n: "n + 1 = k * (n div k) + (n mod k + 1)" by simp
  have r: "0 \<le> n mod k + 1" "n mod k + 1 < k"
    using assms False pos_mod_bound [OF assms, of n] pos_mod_sign [OF assms, of n] by linarith+
  have "(n + 1) mod k = n mod k + 1" by (rule int_mod_pos_eq [OF n r])
  moreover have "n mod k + 1 \<noteq> 0" using pos_mod_sign [OF assms, of n] by linarith
  ultimately show ?thesis
    using int_div_pos_eq [OF n r] by (auto simp: dvd_eq_mod_eq_0)
qed

lemma leap_count:
  "(c \<longrightarrow> b) \<Longrightarrow> (b \<longrightarrow> a) \<Longrightarrow>
   (if a then 1 else 0) - (if b then 1 else 0) + (if c then 1 else 0)
     = (if a \<and> (b \<longrightarrow> c) then 1 else (0 :: int))"
  by (cases a; cases b; cases c) simp_all

lemma count_step:
  "x' = x + p \<Longrightarrow> y' = y + q \<Longrightarrow> z' = z + r \<Longrightarrow> p - q + r = s \<Longrightarrow>
   x' - y' + z' = x - y + z + s" for x y z p q r s :: int
  by simp

lemma leaps_succ: "leaps (n + 1) = leaps n + (if gregorian_leap (n + 1) then 1 else 0)"
proof -
  have "400 dvd n + 1 \<longrightarrow> 100 dvd n + 1" using dvd_trans [of 100 400 "n + 1"] by simp
  moreover have "100 dvd n + 1 \<longrightarrow> 4 dvd n + 1" using dvd_trans [of 4 100 "n + 1"] by simp
  ultimately have "(if 4 dvd n + 1 then 1 else 0) - (if 100 dvd n + 1 then 1 else 0)
      + (if 400 dvd n + 1 then 1 else 0) = (if gregorian_leap (n + 1) then 1 else (0 :: int))"
    unfolding gregorian_leap_def by (rule leap_count)
  then show ?thesis
    unfolding leaps_def by (rule count_step [OF div_succ div_succ div_succ, rotated 3]) simp_all
qed

lemma year_start_closed:
  assumes "1970 \<le> y"
  shows "year_start y = 365 * (y - 1970) + leaps (y - 1) - 477"
  using assms
proof (induction y rule: int_ge_induct)
  case base
  then show ?case by (simp add: leaps_def)
next
  case (step y)
  then show ?case
    using year_start_Suc [of y] leaps_succ [of "y - 1"] by (simp add: year_length_def algebra_simps)
qed

lemma leaps_before_2101:
  assumes "1970 \<le> y" "y \<le> 2100"
  shows "leaps (y - 1) - 477 = (y - 1969) div 4"
proof -
  have "(y - 1) div 100 - (y - 1) div 400 = 15"
  proof (cases "y \<le> 2000")
    case True
    then show ?thesis
      using assms int_div_pos_eq [of "y - 1" 100 19 "y - 1901"]
        int_div_pos_eq [of "y - 1" 400 4 "y - 1601"] by simp
  next
    case False
    then show ?thesis
      using assms int_div_pos_eq [of "y - 1" 100 20 "y - 2001"]
        int_div_pos_eq [of "y - 1" 400 5 "y - 2001"] by simp
  qed
  moreover have "(y - 1) div 4 = (y - 1969) div 4 + 492" by presburger
  ultimately show ?thesis unfolding leaps_def by simp
qed

section \<open>Days to date\<close>

lemma month_length_diff:
  assumes "1 \<le> m" "m \<le> 12"
  shows "clock_days_before_month m (gregorian_leap y) - clock_days_before_month (m - 1) (gregorian_leap y)
    = month_length y m"
  by (cases rule: month_cases [OF assms])
    (simp_all add: month_length_def clock_days_before_month_def g_daysbeforemonth_def eval_nat_numeral)

lemma days_before_ends:
  "clock_days_before_month 0 leap = 0"
  "clock_days_before_month 12 leap = (if leap then 366 else 365)"
  by (simp_all add: clock_days_before_month_def g_daysbeforemonth_def eval_nat_numeral)

text \<open>The day number at which the four-year division of the code stops being a calendar.\<close>

definition calendar_limit :: int where "calendar_limit = 48213"

lemma year_start_block:
  assumes "0 \<le> k" "k \<le> 32"
  shows "year_start (1970 + 4 * k) = 1461 * k"
proof -
  have "(4 * k + 1) div 4 = k" using int_div_pos_eq [of "4 * k + 1" 4 k 1] by simp
  then show ?thesis
    using assms year_start_closed [of "1970 + 4 * k"] leaps_before_2101 [of "1970 + 4 * k"]
    by (simp add: algebra_simps)
qed

lemma clock_utc_to_calendar_date:
  assumes "0 \<le> days" "days < calendar_limit" and "clock_utc_to_calendar days = (y, m, d)"
  shows "valid_date y m d \<and> civil_day y m d = days"
proof -
  define k where "k = days div 1461"
  define r where "r = days - k * 1461"
  have k: "0 \<le> k" "k \<le> 32" and r: "0 \<le> r" and days: "days = 1461 * k + r"
    using assms(1,2) by (auto simp: k_def r_def calendar_limit_def minus_div_mult_eq_mod)
  obtain v d2 leap where loop: "year_loop (k * 4) r = (v, d2, leap)"
    by (metis surj_pair)
  have "year_found (k * 4) r (v, d2, leap)"
    using year_loop_spec [of "k * 4" r] k r loop by simp
  then have v: "k * 4 \<le> v" "0 \<le> d2" "d2 < year_length (1970 + v)" "leap = gregorian_leap (1970 + v)"
    and total: "year_start (1970 + v) + d2 = days"
    using year_start_block [OF k] days by (auto simp: year_found_def mult.commute)
  define mon where "mon = month_loop leap d2 0 11"
  have mon: "0 \<le> mon" "mon \<le> 11" "clock_days_before_month mon leap \<le> d2"
    "d2 < clock_days_before_month (mon + 1) leap"
    using month_loop_spec [of 0 11 leap d2] v
    by (auto simp: mon_def days_before_ends year_length_def)
  have ymd: "y = 1970 + v" "m = mon + 1" "d = d2 - clock_days_before_month mon leap + 1"
    using assms(3) loop
    by (auto simp: clock_utc_to_calendar_def Let_def k_def r_def mon_def)
  have len: "clock_days_before_month m leap - clock_days_before_month mon leap = month_length y m"
    using month_length_diff [of m y] mon by (simp add: ymd v)
  have start: "month_start y m = clock_days_before_month mon leap"
    using month_start_eq [of m y] mon by (simp add: ymd v)
  have "valid_date y m d"
    using mon len k v by (auto simp: valid_date_def ymd)
  moreover have "civil_day y m d = days"
    using total start by (simp add: civil_day_def ymd)
  ultimately show ?thesis by simp
qed

section \<open>Date to days\<close>

text \<open>The formula of \<open>xy_mktime\<close> on exact integers: February last, months as \<open>367 * m / 12\<close>.\<close>

definition mktime_days :: "int \<Rightarrow> int \<Rightarrow> int \<Rightarrow> int" where
  "mktime_days y m d =
     (let (m', y') = (if m \<le> 2 then (m + 10, y - 1) else (m - 2, y)) in
      y' div 4 - y' div 100 + y' div 400 + 367 * m' div 12 + d + y' * 365 - 719499)"

lemma mktime_days_civil:
  assumes "valid_date y m d"
  shows "mktime_days y m d = civil_day y m d"
proof -
  have y: "1970 \<le> y" and m: "1 \<le> m" "m \<le> 12" using assms by (auto simp: valid_date_def)
  have this_year: "leaps y = leaps (y - 1) + (if gregorian_leap y then 1 else 0)"
    using leaps_succ [of "y - 1"] by simp
  have closed: "civil_day y m d = 365 * (y - 1970) + leaps (y - 1) - 477
      + clock_days_before_month (m - 1) (gregorian_leap y) + d - 1"
    using year_start_closed [OF y] month_start_eq [OF m] by (simp add: civil_day_def)
  have "mktime_days y m d = (if m \<le> 2 then leaps (y - 1) + 367 * (m + 10) div 12 + d + (y - 1) * 365 - 719499
      else leaps y + 367 * (m - 2) div 12 + d + y * 365 - 719499)"
    by (simp add: mktime_days_def leaps_def)
  also have "\<dots> = civil_day y m d"
    unfolding closed this_year
    by (cases rule: month_cases [OF m])
      (simp_all add: clock_days_before_month_def g_daysbeforemonth_def eval_nat_numeral)
  finally show ?thesis .
qed

section \<open>The word arithmetic of \<open>xy_mktime\<close>\<close>

text \<open>The milliseconds a record stands for, and the dates and times for which the 64-bit result is exact.\<close>

definition rtc_msec_spec :: "rtc_time \<Rightarrow> int" where
  "rtc_msec_spec t =
     (((civil_day (uint (tm_year t)) (uint (tm_mon t)) (uint (tm_mday t)) * 24 + uint (tm_hour t)) * 60
       + uint (tm_min t)) * 60 + uint (tm_sec t)) * 1000 + uint (tm_msec t)"

definition rtc_valid :: "rtc_time \<Rightarrow> bool" where
  "rtc_valid t \<longleftrightarrow> valid_date (uint (tm_year t)) (uint (tm_mon t)) (uint (tm_mday t)) \<and>
     uint (tm_year t) < 1000000"

lemma uint_u32_less: "uint (w :: u32) < 4294967296"
  using uint_lt2p [of w] by simp

lemma uint_ucast_u64: "uint (ucast (w :: u32) :: u64) = uint w"
  using uint_u32_less [of w] by (simp add: unsigned_ucast_eq take_bit_int_eq_self)

lemma uint_leap_term:
  fixes y :: u32
  shows "uint (y div 4 - y div 100 + y div 400) = uint y div 4 - uint y div 100 + uint y div 400"
proof -
  let ?Y = "uint y"
  have b: "0 \<le> ?Y" "?Y < 4294967296" by (simp_all add: uint_u32_less)
  have "?Y div 100 \<le> ?Y div 4" "?Y div 400 \<le> ?Y div 100"
    by (rule zdiv_mono2; simp)+
  moreover have "0 \<le> ?Y div 400" "?Y div 4 \<le> ?Y" "0 \<le> ?Y div 100"
    using zdiv_mono2 [of ?Y 1 4] b by (simp_all add: pos_imp_zdiv_nonneg_iff)
  ultimately have r: "0 \<le> ?Y div 4 - ?Y div 100 + ?Y div 400"
      "?Y div 4 - ?Y div 100 + ?Y div 400 < 4294967296"
    using b(2) by linarith+
  have "y div 4 - y div 100 + y div 400 = of_int (?Y div 4 - ?Y div 100 + ?Y div 400)"
    by (simp add: word_div_def)
  then show ?thesis
    unfolding \<open>y div 4 - y div 100 + y div 400 = _\<close> uint_word_of_int using r by simp
qed


text \<open>The 64-bit expression for given (March-based) year and month.\<close>

definition mktime_expr :: "u32 \<Rightarrow> u32 \<Rightarrow> u32 \<Rightarrow> u32 \<Rightarrow> u32 \<Rightarrow> u32 \<Rightarrow> u32 \<Rightarrow> u64" where
  "mktime_expr y m d h mi s ms =
     ((((ucast (y div 4 - y div 100 + y div 400) + 367 * ucast m div 12 + ucast d
            + ucast y * 365 - 719499) * 24 + ucast h) * 60 + ucast mi) * 60 + ucast s) * 1000 + ucast ms"

lemma mktime_expr_eq:
  assumes "uint m < 2 ^ 20"
  shows "mktime_expr y m d h mi s ms =
    of_int (((((uint y div 4 - uint y div 100 + uint y div 400 + 367 * uint m div 12 + uint d
      + uint y * 365 - 719499) * 24 + uint h) * 60 + uint mi) * 60 + uint s) * 1000 + uint ms)"
proof -
  have "uint ((367 :: u64) * ucast m) = (367 * uint m) mod 2 ^ 64"
    by (simp add: uint_word_ariths uint_ucast_u64)
  also have "\<dots> = 367 * uint m"
    using assms by (intro mod_pos_pos_trivial) auto
  finally have m: "((367 :: u64) * ucast m) div 12 = of_int (367 * uint m div 12)"
    by (simp add: word_div_def)
  have l: "(ucast (y div 4 - y div 100 + y div 400) :: u64) =
      of_int (uint y div 4 - uint y div 100 + uint y div 400)"
    by (simp only: ucast_eq uint_leap_term)
  show ?thesis
    unfolding mktime_expr_def l m
    by (simp only: ucast_eq of_int_add of_int_diff of_int_mult of_int_numeral)
qed

lemma xy_mktime_expr:
  assumes m: "1 \<le> uint (tm_mon tp)" "uint (tm_mon tp) \<le> 12" and y: "tm_year tp \<noteq> 0"
  shows "xy_mktime tp =
    (if uint (tm_mon tp) \<le> 2
     then mktime_expr (tm_year tp - 1) (tm_mon tp - 2 + 12) (tm_mday tp) (tm_hour tp) (tm_min tp) (tm_sec tp) (tm_msec tp)
     else mktime_expr (tm_year tp) (tm_mon tp - 2) (tm_mday tp) (tm_hour tp) (tm_min tp) (tm_sec tp) (tm_msec tp))"
proof -
  have mon: "tm_mon tp = of_int (uint (tm_mon tp))" by simp
  have start: "sint (tm_mon tp - 2) \<le> 0 \<longleftrightarrow> uint (tm_mon tp) \<le> 2"
    by (subst mon, cases rule: month_cases [OF m]) simp_all
  show ?thesis
    using y start by (simp add: xy_mktime_def mktime_expr_def Let_def)
qed

lemma year_length_bounds: "365 \<le> year_length y" "year_length y \<le> 366"
  by (simp_all add: year_length_def)

lemma civil_day_bounds:
  assumes "valid_date y m d"
  shows "0 \<le> civil_day y m d" "civil_day y m d < 366 * (y - 1970) + 400"
    "365 * (y - 1970) \<le> civil_day y m d"
proof -
  have y: "1970 \<le> y" and m: "1 \<le> m" "m \<le> 12" and d: "1 \<le> d" "d \<le> month_length y m"
    using assms by (auto simp: valid_date_def)
  have "0 \<le> month_start y m" "month_start y m \<le> 335" "month_length y m \<le> 31"
    unfolding month_start_eq [OF m]
    by (cases rule: month_cases [OF m];
        simp add: month_length_def clock_days_before_month_def g_daysbeforemonth_def eval_nat_numeral)+
  moreover have "0 \<le> year_start y"
    unfolding year_start_def by (rule sum_nonneg) (simp add: year_length_def)
  moreover have "year_start y \<le> 366 * (y - 1970)"
    using sum_bounded_above [of "{1970..<y}" year_length 366, OF year_length_bounds(2)] y
    by (simp add: year_start_def algebra_simps)
  moreover have "365 * (y - 1970) \<le> year_start y"
    using sum_bounded_below [of "{1970..<y}" 365 year_length, OF year_length_bounds(1)] y
    by (simp add: year_start_def algebra_simps)
  ultimately show "0 \<le> civil_day y m d" "civil_day y m d < 366 * (y - 1970) + 400"
    "365 * (y - 1970) \<le> civil_day y m d"
    using d unfolding civil_day_def by linarith+
qed

lemma xy_mktime_exact:
  assumes "rtc_valid t"
  shows "uint (xy_mktime t) = rtc_msec_spec t"
proof -
  let ?y = "uint (tm_year t)" and ?m = "uint (tm_mon t)" and ?d = "uint (tm_mday t)"
  have v: "valid_date ?y ?m ?d" and ylt: "?y < 1000000"
    using assms by (auto simp: rtc_valid_def)
  then have y: "1970 \<le> ?y" and m: "1 \<le> ?m" "?m \<le> 12" and d: "1 \<le> ?d"
    by (auto simp: valid_date_def)
  have y0: "tm_year t \<noteq> 0" using y by auto
  have "xy_mktime t = of_int ((((mktime_days ?y ?m ?d * 24 + uint (tm_hour t)) * 60 + uint (tm_min t)) * 60
      + uint (tm_sec t)) * 1000 + uint (tm_msec t))"
  proof (cases "?m \<le> 2")
    case True
    have "?m = 1 \<or> ?m = 2" using True m by auto
    then have "tm_mon t = 1 \<or> tm_mon t = 2" by (simp add: word_uint_eq_iff)
    then have "uint (tm_mon t - 2 + 12) = ?m + 10" by auto
    moreover have "uint (tm_year t - 1) = ?y - 1"
      using y by (simp add: uint_sub_if')
    ultimately show ?thesis
      using True m xy_mktime_expr [OF m y0] by (simp only: mktime_expr_eq) (simp add: mktime_days_def mktime_expr_eq)
  next
    case False
    have "uint (tm_mon t - 2) = ?m - 2"
      using False by (simp add: uint_sub_if')
    then show ?thesis
      using False m xy_mktime_expr [OF m y0] by (simp add: mktime_days_def mktime_expr_eq)
  qed
  then have eq: "xy_mktime t = of_int (rtc_msec_spec t)"
    by (simp only: mktime_days_civil [OF v] rtc_msec_spec_def)
  have "0 \<le> rtc_msec_spec t" "rtc_msec_spec t < 2 ^ 64"
    using civil_day_bounds [OF v] ylt uint_u32_less [of "tm_hour t"] uint_u32_less [of "tm_min t"]
      uint_u32_less [of "tm_sec t"] uint_u32_less [of "tm_msec t"]
    by (simp_all add: rtc_msec_spec_def)
  then show ?thesis
    unfolding eq uint_word_of_int by simp
qed

section \<open>The day of the week\<close>

lemma clock_dayoftheweek_civil:
  assumes "valid_date y m d"
  shows "clock_dayoftheweek d m y = (civil_day y m d + 3) mod 7 + 1"
proof -
  have m: "1 \<le> m" "m \<le> 12" using assms by (auto simp: valid_date_def)
  define arg where "arg = (let (m', y') = (if m = 1 \<or> m = 2 then (m + 12, y - 1) else (m, y)) in
    d + 2 * m' + 3 * (m' + 1) div 5 + y' + y' div 4 - y' div 100 + y' div 400)"
  have "7 dvd (mktime_days y m d + 3) - arg"
    unfolding arg_def by (cases rule: month_cases [OF m]) (simp_all add: mktime_days_def)
  then have "(mktime_days y m d + 3) mod 7 = arg mod 7"
    by (simp only: mod_eq_dvd_iff)
  moreover have "clock_dayoftheweek d m y = arg mod 7 + 1"
    by (cases "m = 1 \<or> m = 2") (simp_all only: clock_dayoftheweek_def arg_def Let_def if_True if_False prod.case)
  ultimately show ?thesis
    by (simp only: mktime_days_civil [OF assms])
qed

section \<open>Milliseconds to a record and back\<close>

text \<open>
  A record \<open>represents\<close> a time when its date is a Gregorian date, its time of day is in range,
  its weekday is right (1 is Monday; 1970-01-01 was a Thursday), and it stands for that many
  milliseconds since the epoch.
\<close>

definition msec_limit :: int where "msec_limit = calendar_limit * 86400000"

definition represents :: "rtc_time \<Rightarrow> int \<Rightarrow> bool" where
  "represents t n \<longleftrightarrow> rtc_valid t \<and> uint (tm_hour t) < 24 \<and> uint (tm_min t) < 60 \<and>
     uint (tm_sec t) < 60 \<and> uint (tm_msec t) < 1000 \<and> rtc_msec_spec t = n \<and>
     uint (tm_wday t) = (n div 86400000 + 3) mod 7 + 1"

lemma uint_of_int_u32: "0 \<le> k \<Longrightarrow> k < 4294967296 \<Longrightarrow> uint (of_int k :: u32) = k"
  by (simp add: uint_word_of_int)

lemma quotient_rest:
  fixes n k :: int
  assumes "0 < k"
  shows "0 \<le> n - k * (n div k)" "n - k * (n div k) < k"
  using assms by (simp_all add: minus_mult_div_eq_mod)

lemma xy_gmtime_r_represents:
  assumes "uint msec < msec_limit"
  shows "represents (xy_gmtime_r msec) (uint msec)"
proof -
  define n where "n = uint msec"
  define jdn where "jdn = n div 1000 div 86400"
  define e1 where "e1 = n div 1000 - 86400 * jdn"
  define h where "h = e1 div 3600"
  define e2 where "e2 = e1 - 3600 * h"
  define mi where "mi = e2 div 60"
  define s where "s = e2 - 60 * mi"
  obtain y m d where ymd: "clock_utc_to_calendar jdn = (y, m, d)"
    by (metis surj_pair)
  have n: "0 \<le> n" "n < calendar_limit * 86400000"
    using assms by (auto simp: n_def msec_limit_def)
  have jdn: "jdn = n div 86400000"
    using zdiv_zmult2_eq [of 86400 n 1000] by (simp add: jdn_def)
  have day: "0 \<le> jdn" "jdn < calendar_limit"
    using n by (simp_all add: jdn pos_imp_zdiv_nonneg_iff calendar_limit_def)
  have v: "valid_date y m d" and c: "civil_day y m d = jdn"
    using clock_utc_to_calendar_date [OF day ymd] by auto
  have y: "1970 \<le> y" "y < 1000000"
    using civil_day_bounds(3) [OF v] day v c by (auto simp: valid_date_def calendar_limit_def)
  have m: "1 \<le> m" "m \<le> 12" and d: "1 \<le> d" "d \<le> 31"
    using v by (auto simp: valid_date_def month_length_def split: if_splits)
  have w: "1 \<le> clock_dayoftheweek d m y" "clock_dayoftheweek d m y \<le> 7"
    unfolding clock_dayoftheweek_civil [OF v]
    using pos_mod_bound [of 7 "civil_day y m d + 3"] by auto
  have e1: "0 \<le> e1" "e1 < 86400"
    using quotient_rest [of 86400 "n div 1000"] by (simp_all add: e1_def jdn_def)
  have h: "0 \<le> h" "h < 24"
    using e1 by (simp_all add: h_def pos_imp_zdiv_nonneg_iff)
  have e2: "0 \<le> e2" "e2 < 3600"
    using quotient_rest [of 3600 e1] by (simp_all add: e2_def h_def)
  have mi: "0 \<le> mi" "mi < 60"
    using e2 by (simp_all add: mi_def pos_imp_zdiv_nonneg_iff)
  have s: "0 \<le> s" "s < 60"
    using quotient_rest [of 60 e2] by (simp_all add: s_def mi_def)
  have ms: "0 \<le> n mod 1000" "n mod 1000 < 1000" by auto
  have whole: "(((jdn * 24 + h) * 60 + mi) * 60 + s) * 1000 + n mod 1000 = n"
  proof -
    have "((jdn * 24 + h) * 60 + mi) * 60 + s = n div 1000"
      unfolding s_def e2_def e1_def by (simp add: algebra_simps)
    then show ?thesis by simp
  qed
  have t: "xy_gmtime_r msec = \<lparr>tm_msec = of_int (n mod 1000), tm_sec = of_int s, tm_min = of_int mi,
      tm_hour = of_int h, tm_mday = of_int d, tm_mon = of_int m, tm_year = of_int y,
      tm_wday = of_int (clock_dayoftheweek d m y),
      tm_yday = of_int (d + clock_days_before_month (m - 1) (clock_is_leapyear y)), tm_isdst = 0\<rparr>"
    unfolding xy_gmtime_r_def Let_def
    by (simp only: n_def [symmetric] jdn_def [symmetric] e1_def [symmetric] h_def [symmetric]
        e2_def [symmetric] mi_def [symmetric] s_def [symmetric] ymd prod.case)
  have "uint (of_int (clock_dayoftheweek d m y) :: u32) = clock_dayoftheweek d m y"
    using w by (intro uint_of_int_u32) auto
  then have wk: "uint (of_int (clock_dayoftheweek d m y) :: u32) = (jdn + 3) mod 7 + 1"
    by (simp only: clock_dayoftheweek_civil [OF v] c)
  show ?thesis
    unfolding represents_def rtc_valid_def rtc_msec_spec_def t n_def [symmetric]
    using y m d h mi s ms v whole
    by (simp add: uint_of_int_u32 c wk jdn)
qed

lemma xy_mktime_gmtime:
  assumes "uint msec < msec_limit"
  shows "xy_mktime (xy_gmtime_r msec) = msec"
  using xy_gmtime_r_represents [OF assms] xy_mktime_exact [of "xy_gmtime_r msec"]
  by (simp add: represents_def word_uint_eq_iff)

section \<open>The order of dates\<close>

lemma year_start_mono:
  assumes "1970 \<le> y" "y \<le> y'"
  shows "year_start y \<le> year_start y'"
  unfolding year_start_def
  by (rule sum_mono2) (use assms in \<open>auto simp: year_length_def\<close>)

lemma month_end:
  assumes "valid_date y m d"
  shows "month_start y m + d - 1 < year_length y" "0 \<le> month_start y m + d - 1"
    "m < m' \<Longrightarrow> m' \<le> 12 \<Longrightarrow> month_start y m + d - 1 < month_start y m'"
proof -
  have m: "1 \<le> m" "m \<le> 12" and d: "1 \<le> d" "d \<le> month_length y m"
    using assms by (auto simp: valid_date_def)
  have pos: "0 \<le> month_length y k" for k by (simp add: month_length_def)
  have ms: "month_start y (m + 1) = month_start y m + month_length y m"
  proof -
    have "{1..<m + 1} = insert m {1..<m}" using m by auto
    then show ?thesis by (simp add: month_start_def)
  qed
  have mono: "month_start y (m + 1) \<le> month_start y k" if "m + 1 \<le> k" for k
    unfolding month_start_def by (rule sum_mono2) (use that pos in auto)
  have "{1..<13} = insert 12 {1..<12 :: int}" by auto
  then have "month_start y 13 = month_start y 12 + 31"
    by (simp add: month_start_def month_length_def)
  also have "\<dots> = year_length y"
    by (simp add: month_start_eq year_length_def clock_days_before_month_def g_daysbeforemonth_def
        eval_nat_numeral)
  finally have "month_start y 13 = year_length y" .
  then show "month_start y m + d - 1 < year_length y"
    using mono [of 13] m d ms by simp
  show "0 \<le> month_start y m + d - 1"
    unfolding month_start_def using sum_nonneg [of "{1..<m}" "month_length y"] pos d by simp
  show "month_start y m + d - 1 < month_start y m'" if "m < m'" "m' \<le> 12"
    using mono [of m'] that d ms by simp
qed

text \<open>Lexicographic order of two lists of fields.\<close>

lemma civil_day_less:
  assumes a: "valid_date y m d" and b: "valid_date y' m' d'"
    and less: "y < y' \<or> y = y' \<and> (m < m' \<or> m = m' \<and> d < d')"
  shows "civil_day y m d < civil_day y' m' d'"
proof -
  note ea = month_end [OF a] and eb = month_end [OF b]
  have y: "1970 \<le> y" and m': "m' \<le> 12" using a b by (auto simp: valid_date_def)
  consider "y < y'" | "y = y'" "m < m'" | "y = y'" "m = m'" "d < d'" using less by auto
  then show ?thesis
  proof cases
    case 1
    then have "year_start y + year_length y \<le> year_start y'"
      using year_start_mono [of "y + 1" y'] y by (simp add: year_start_Suc)
    then show ?thesis using ea(1) eb(2) by (simp add: civil_day_def)
  next
    case 2
    have "1 \<le> d'" using b by (simp add: valid_date_def)
    then show ?thesis using 2 ea(3) [OF 2(2) m'] by (simp add: civil_day_def)
  next
    case 3
    then show ?thesis by (simp add: civil_day_def)
  qed
qed

section \<open>Properties\<close>



text \<open>
  \<^verbatim>\<open>xy_mktime\<close> is exact: for every Gregorian date from 1970 on (years below a million) and any
  time-of-day fields, its 64-bit arithmetic yields the number of milliseconds since the epoch,
  without wrap-around.
\<close>
lemma xy_mktime_correct:
  assumes "rtc_valid t"
  shows "uint (xy_mktime t) = rtc_msec_spec t"
  by (rule xy_mktime_exact [OF assms])

text \<open>
  C12: round trip. Converting a millisecond count to a date and time and back gives the same
  count, so re-arming the alarm from a stored record never drifts.
\<close>
theorem mktime_gmtime_roundtrip:
  assumes "uint msec < msec_limit"
  shows "xy_mktime (xy_gmtime_r msec) = msec"
  by (rule xy_mktime_gmtime [OF assms])

lemma mktime_gmtime_roundtrip_witness: "xy_mktime (xy_gmtime_r 86399999) = 86399999"
  using mktime_gmtime_roundtrip [of 86399999] by (simp add: msec_limit_def calendar_limit_def)

text \<open>
  The limit is sharp. On the day after, 2102-01-02, the conversion answers 2102-01-01 and the
  way back is a whole day short.
\<close>
theorem mktime_gmtime_after_limit:
  "uint (xy_mktime (xy_gmtime_r (of_int msec_limit))) = msec_limit - 86400000"
  by code_simp

end
