(* ===== verification/Utc_Regs.thy ===== *)
theory Utc_Regs
  imports Rtc_Calendar
begin

unbundle bit_operations_syntax

text \<open>
  The UTC register block (\<^verbatim>\<open>src/xinyi/DRIVERS/driverlib/src/utc.c\<close> and the field positions of
  \<^verbatim>\<open>hw_utc.h\<close>) and the hardware part of \<^verbatim>\<open>rtc_adapt.c\<close>. Times and dates are kept in the
  registers as binary-coded decimal digits in bit fields; \<open>reg_field\<close> is the code's
  \<^verbatim>\<open>(reg & Msk) >> Pos\<close>. The registers are plain memory here: the clock advancing them is not
  modelled, the busy-wait on \<^verbatim>\<open>UTC_CLK_CNT\<close> in \<^verbatim>\<open>rtc_timer_read\<close> appears as the counter value
  read last.
\<close>

section \<open>Registers and fields\<close>

record utc_regs =
  UTC_TIMER :: u32
  UTC_CAL :: u32
  UTC_ALARM_TIMER :: u32
  UTC_ALARM_CAL :: u32
  UTC_ALARM_EN :: u32
  UTC_INT_EN :: u32
  UTC_CTRL :: u32
  UTC_CLK_CNT :: u32
  UTCALARMCLKCNT_CFG :: u32

definition reg_field :: "u32 \<Rightarrow> u32 \<Rightarrow> nat \<Rightarrow> u32" where
  "reg_field ulReg msk pos = drop_bit pos (ulReg AND push_bit pos msk)"

text \<open>\<^verbatim>\<open>unsigned char\<close> digits shifted into place.\<close>

definition bcd_high :: "u32 \<Rightarrow> u8" where "bcd_high v = ucast (v div 10)"
definition bcd_low :: "u32 \<Rightarrow> u8" where "bcd_low v = ucast (v mod 10)"

definition put_digit :: "u8 \<Rightarrow> nat \<Rightarrow> u32" where
  "put_digit d pos = push_bit pos (ucast d)"

definition UTCTimerSet :: "u32 \<Rightarrow> u32 \<Rightarrow> u32 \<Rightarrow> u32 \<Rightarrow> u32 \<Rightarrow> utc_regs \<Rightarrow> utc_regs" where
  "UTCTimerSet ulAMPM ulHour ulMin ulSec ulMinSec r = r\<lparr>UTC_TIMER :=
     (UTC_TIMER r AND 0x80000000) OR push_bit 30 ulAMPM OR
     put_digit (bcd_high ulHour) 28 OR put_digit (bcd_low ulHour) 24 OR
     put_digit (bcd_high ulMin) 20 OR put_digit (bcd_low ulMin) 16 OR
     put_digit (bcd_high ulSec) 12 OR put_digit (bcd_low ulSec) 8 OR
     put_digit (bcd_high ulMinSec) 4 OR put_digit (bcd_low ulMinSec) 0\<rparr>"

text \<open>The five results of \<open>UTCTimerGet\<close>: AM/PM, hour, minute, second, hundredths.\<close>

definition UTCTimerGet :: "u32 \<Rightarrow> utc_regs \<Rightarrow> u8 \<times> u8 \<times> u8 \<times> u8 \<times> u8" where
  "UTCTimerGet ulRegData r =
     (let ulReg = (if ulRegData \<noteq> 0 then ulRegData else UTC_TIMER r) in
      (ucast (reg_field ulReg 1 30),
       ucast (reg_field ulReg 0x3 28 * 10 + reg_field ulReg 0xF 24),
       ucast (reg_field ulReg 0x7 20 * 10 + reg_field ulReg 0xF 16),
       ucast (reg_field ulReg 0x7 12 * 10 + reg_field ulReg 0xF 8),
       ucast (reg_field ulReg 0xF 4 * 10 + reg_field ulReg 0xF 0)))"

definition UTCTimerAlarmSet :: "u32 \<Rightarrow> u32 \<Rightarrow> u32 \<Rightarrow> u32 \<Rightarrow> u32 \<Rightarrow> utc_regs \<Rightarrow> utc_regs" where
  "UTCTimerAlarmSet ulAMPM ulHour ulMin ulSec ulMS r = r\<lparr>UTC_ALARM_TIMER :=
     push_bit 30 ulAMPM OR
     put_digit (bcd_high ulHour) 28 OR put_digit (bcd_low ulHour) 24 OR
     put_digit (bcd_high ulMin) 20 OR put_digit (bcd_low ulMin) 16 OR
     put_digit (bcd_high ulSec) 12 OR put_digit (bcd_low ulSec) 8 OR
     put_digit (bcd_high (ulMS div 10)) 4 OR put_digit (bcd_low (ulMS div 10)) 0\<rparr>"

definition UTCTimerAlarmSetAccurate :: "u32 \<Rightarrow> u32 \<Rightarrow> u32 \<Rightarrow> u32 \<Rightarrow> u32 \<Rightarrow> utc_regs \<Rightarrow> utc_regs" where
  "UTCTimerAlarmSetAccurate ulAMPM ulHour ulMin ulSec ulMS r =
     (let ulClkCnt = (ulMS mod 10) * 32;
          r1 = UTCTimerAlarmSet ulAMPM ulHour ulMin ulSec ulMS r in
      if ulClkCnt < 160 then r1\<lparr>UTCALARMCLKCNT_CFG := 0x200 OR (ulClkCnt + 256)\<rparr>
      else r1\<lparr>UTCALARMCLKCNT_CFG := 0x200 OR (ulClkCnt - 160)\<rparr>)"

definition UTCTimerAlarmGet :: "utc_regs \<Rightarrow> u32 \<times> u32 \<times> u32 \<times> u32" where
  "UTCTimerAlarmGet r =
     (let ulReg = UTC_ALARM_TIMER r;
          hundredths = 10 * (reg_field ulReg 0xF 4 * 10 + reg_field ulReg 0xF 0);
          cnt = UTC_CLK_CNT r AND 0x1FF in
      (reg_field ulReg 0x3 28 * 10 + reg_field ulReg 0xF 24,
       reg_field ulReg 0x7 20 * 10 + reg_field ulReg 0xF 16,
       reg_field ulReg 0x7 12 * 10 + reg_field ulReg 0xF 8,
       if UTCALARMCLKCNT_CFG r AND 0x200 \<noteq> 0 then
         (if cnt AND 0x100 \<noteq> 0 then (cnt - 256) div 32 + hundredths
          else (cnt + 160) div 32 + hundredths)
       else hundredths))"

definition UTCCalSet :: "u32 \<Rightarrow> u32 \<Rightarrow> u32 \<Rightarrow> u32 \<Rightarrow> u32 \<Rightarrow> utc_regs \<Rightarrow> utc_regs" where
  "UTCCalSet ulCentury ulYear ulMonth ulDate ulDay r = r\<lparr>UTC_CAL :=
     (UTC_CAL r AND 0x80000000) OR
     put_digit (bcd_high ulCentury) 28 OR put_digit (bcd_low ulCentury) 24 OR
     put_digit (bcd_high ulYear) 20 OR put_digit (bcd_low ulYear) 16 OR
     put_digit (bcd_high ulMonth) 7 OR put_digit (bcd_low ulMonth) 3 OR
     put_digit (bcd_high ulDate) 12 OR put_digit (bcd_low ulDate) 8 OR
     push_bit 0 ulDay\<rparr>"

definition UTCCalGet :: "u32 \<Rightarrow> utc_regs \<Rightarrow> u8 \<times> u8 \<times> u8 \<times> u8 \<times> u8" where
  "UTCCalGet ulRegData r =
     (let ulReg = (if ulRegData \<noteq> 0 then ulRegData else UTC_CAL r) in
      (ucast (reg_field ulReg 0x3 28 * 10 + reg_field ulReg 0xF 24),
       ucast (reg_field ulReg 0xF 20 * 10 + reg_field ulReg 0xF 16),
       ucast (reg_field ulReg 1 7 * 10 + reg_field ulReg 0xF 3),
       ucast (reg_field ulReg 0x3 12 * 10 + reg_field ulReg 0xF 8),
       ucast (reg_field ulReg 0x7 0)))"

definition UTCCalAlarmSet :: "u32 \<Rightarrow> u32 \<Rightarrow> utc_regs \<Rightarrow> utc_regs" where
  "UTCCalAlarmSet ulMonth ulDate r = r\<lparr>UTC_ALARM_CAL :=
     put_digit (bcd_high ulMonth) 7 OR put_digit (bcd_low ulMonth) 3 OR
     put_digit (bcd_high ulDate) 12 OR put_digit (bcd_low ulDate) 8\<rparr>"

definition UTCCalAlarmGet :: "utc_regs \<Rightarrow> u8 \<times> u32" where
  "UTCCalAlarmGet r =
     (let ulReg = UTC_ALARM_CAL r in
      (ucast (reg_field ulReg 1 7 * 10 + reg_field ulReg 0xF 3),
       reg_field ulReg 0x3 12 * 10 + reg_field ulReg 0xF 8))"

definition UTCAlarmEnable :: "u32 \<Rightarrow> utc_regs \<Rightarrow> utc_regs" where
  "UTCAlarmEnable f r = r\<lparr>UTC_ALARM_EN := UTC_ALARM_EN r OR f\<rparr>"

definition UTCAlarmDisable :: "u32 \<Rightarrow> utc_regs \<Rightarrow> utc_regs" where
  "UTCAlarmDisable f r = r\<lparr>UTC_ALARM_EN := UTC_ALARM_EN r AND NOT f\<rparr>"

definition UTCIntEnable :: "u32 \<Rightarrow> utc_regs \<Rightarrow> utc_regs" where
  "UTCIntEnable f r = r\<lparr>UTC_INT_EN := UTC_INT_EN r OR f\<rparr>"

definition UTC_ALARM_ALL :: u32 where "UTC_ALARM_ALL = 0x3F"
definition UTC_INT_ALARM :: u32 where "UTC_INT_ALARM = 0x40"

definition UTCClkCntSet :: "u32 \<Rightarrow> utc_regs \<Rightarrow> utc_regs" where
  "UTCClkCntSet ulClkCnt r =
     (if ulClkCnt < 160 then r\<lparr>UTC_CLK_CNT := ulClkCnt + 256\<rparr>
      else r\<lparr>UTC_CLK_CNT := ulClkCnt - 160\<rparr>)"

definition UTCClkCntConvert :: "u32 \<Rightarrow> u32" where
  "UTCClkCntConvert ulRegData =
     (let reg_value = ulRegData AND 0x1FF in
      if reg_value AND 0x100 \<noteq> 0 then reg_value - 256 else reg_value + 160)"

section \<open>The clock of \<^verbatim>\<open>rtc_adapt.c\<close>\<close>

definition rtc_timer_read :: "utc_regs \<Rightarrow> rtc_time" where
  "rtc_timer_read r =
     (let (ulAMPM, ulHour, ulMin, ulSec, ulMinSec) = UTCTimerGet 0 r;
          (ulCentury, ulYear, ulMonth, ulData, ulDay) = UTCCalGet 0 r;
          ulclkcnt = UTCClkCntConvert (UTC_CLK_CNT r);
          year = ucast ulCentury * 100 + ucast ulYear in
      \<lparr>tm_msec = ucast ulMinSec * 10 + ulclkcnt div 32, tm_sec = ucast ulSec, tm_min = ucast ulMin,
       tm_hour = ucast ulAMPM * 12 + ucast ulHour, tm_mday = ucast ulData, tm_mon = ucast ulMonth,
       tm_year = year, tm_wday = ucast ulDay,
       tm_yday = ucast ulData + of_int (clock_days_before_month (uint ulMonth - 1)
         (clock_is_leapyear (uint year))), tm_isdst = 0\<rparr>)"

definition to_u8 :: "u32 \<Rightarrow> u32" where "to_u8 v = ucast (ucast v :: u8)"

definition rtc_timer_set :: "rtc_time \<Rightarrow> utc_regs \<Rightarrow> utc_regs" where
  "rtc_timer_set t r =
     UTCTimerSet 0 (to_u8 (tm_hour t)) (to_u8 (tm_min t)) (to_u8 (tm_sec t)) (to_u8 (tm_msec t div 10))
       (UTCCalSet (to_u8 (tm_year t div 100)) (to_u8 (tm_year t mod 100)) (to_u8 (tm_mon t))
         (to_u8 (tm_mday t)) (to_u8 (tm_wday t)) r)"

definition rtc_alarm_set :: "rtc_time \<Rightarrow> utc_regs \<Rightarrow> utc_regs" where
  "rtc_alarm_set t r =
     UTCIntEnable UTC_INT_ALARM (UTCAlarmEnable UTC_ALARM_ALL
       (UTCTimerAlarmSet 0 (tm_hour t) (tm_min t) (tm_sec t) (tm_msec t)
         (UTCCalAlarmSet (tm_mon t) (tm_mday t) r)))"

definition rtc_alarm_set_accurate :: "rtc_time \<Rightarrow> utc_regs \<Rightarrow> utc_regs" where
  "rtc_alarm_set_accurate t r =
     UTCIntEnable UTC_INT_ALARM (UTCAlarmEnable UTC_ALARM_ALL
       (UTCTimerAlarmSetAccurate 0 (tm_hour t) (tm_min t) (tm_sec t) (tm_msec t)
         (UTCCalAlarmSet (tm_mon t) (tm_mday t) (UTCAlarmDisable UTC_ALARM_ALL r))))"

definition rtc_alarm_clear :: "utc_regs \<Rightarrow> utc_regs" where
  "rtc_alarm_clear r = UTCTimerAlarmSet 0 0 0 0 0 (UTCCalAlarmSet 0 0 r)"

text \<open>\<open>rtc_alarm_get\<close> stores the month through a byte pointer, so the upper bytes of the field stay.\<close>

definition rtc_alarm_get :: "utc_regs \<Rightarrow> rtc_time \<Rightarrow> rtc_time" where
  "rtc_alarm_get r t =
     (let (mon, mday) = UTCCalAlarmGet r; (hour, minute, sec, ms) = UTCTimerAlarmGet r in
      t\<lparr>tm_mon := (tm_mon t AND NOT 0xFF) OR ucast mon, tm_mday := mday, tm_hour := hour,
        tm_min := minute, tm_sec := sec, tm_msec := ms, tm_year := 0\<rparr>)"

definition rtc_alarm_disable :: "utc_regs \<Rightarrow> utc_regs" where
  "rtc_alarm_disable r = UTCAlarmDisable UTC_ALARM_ALL r"

definition rtc_alarm_enable :: "utc_regs \<Rightarrow> utc_regs" where
  "rtc_alarm_enable r = UTCAlarmEnable UTC_ALARM_ALL r"

definition rtc_timer_stop :: "utc_regs \<Rightarrow> utc_regs" where
  "rtc_timer_stop r = r\<lparr>UTC_CTRL := 0x07\<rparr>"

definition rtc_timer_run :: "utc_regs \<Rightarrow> utc_regs" where
  "rtc_timer_run r = r\<lparr>UTC_CTRL := 0\<rparr>"

section \<open>Bit fields\<close>

definition fits :: "nat \<Rightarrow> u32 \<Rightarrow> bool" where "fits k x \<longleftrightarrow> unat x < 2 ^ k"

lemma fits_bit:
  assumes "fits k x" "bit x n"
  shows "n < k"
proof (rule ccontr)
  assume "\<not> n < k"
  then have "(2 :: nat) ^ k \<le> 2 ^ n" by simp
  with assms(1) have "unat x < 2 ^ n" unfolding fits_def by (rule less_le_trans)
  then have "\<not> bit (unat x) n" by (simp add: bit_iff_odd)
  then show False using assms(2) by (simp add: bit_unsigned_iff)
qed

lemma reg_field_or: "reg_field (a OR b) m p = reg_field a m p OR reg_field b m p"
  unfolding reg_field_def by (rule bit_word_eqI) (auto simp: bit_simps)

lemma reg_field_own:
  assumes "fits k x" "p + k \<le> 32"
  shows "reg_field (push_bit p x) (mask k) p = x"
proof (rule bit_word_eqI)
  fix n
  have "bit x n \<Longrightarrow> n < k \<and> p + n < 32"
    using fits_bit [OF assms(1)] assms(2) by fastforce
  then show "bit (reg_field (push_bit p x) (mask k) p) n = bit x n"
    by (auto simp: reg_field_def bit_simps)
qed

lemma reg_field_lower:
  assumes "fits j x" "q + j \<le> p"
  shows "reg_field (push_bit q x) m p = 0"
  unfolding reg_field_def
  by (rule bit_word_eqI) (use assms(2) in \<open>auto simp: bit_simps dest!: fits_bit [OF assms(1)]\<close>)

lemma reg_field_higher:
  assumes "p + k \<le> q"
  shows "reg_field (push_bit q x) (mask k) p = 0"
  unfolding reg_field_def by (rule bit_word_eqI) (use assms in \<open>auto simp: bit_simps\<close>)

lemma reg_field_top:
  assumes "p + k \<le> 31"
  shows "reg_field (r AND 0x80000000) (mask k) p = 0"
proof -
  have "reg_field (r AND push_bit q 1) (mask k) p = 0" if "p + k \<le> q" for q
    unfolding reg_field_def by (rule bit_word_eqI) (use that in \<open>auto simp: bit_simps\<close>)
  from this [OF assms] show ?thesis by simp
qed

lemma field_masks: "(1 :: u32) = mask 1" "(0x3 :: u32) = mask 2" "(0x7 :: u32) = mask 3"
  "(0xF :: u32) = mask 4"
  by (simp_all add: mask_eq_exp_minus_1)

lemma unat_u8_u32: "unat v < 256 \<Longrightarrow> unat (ucast (ucast v :: u8) :: u32) = unat v" for v :: u32
  by (simp add: unsigned_ucast_eq unsigned_take_bit_eq take_bit_nat_eq_self)

lemma unat_bcd:
  assumes "unat v < 2560"
  shows "unat (ucast (bcd_high v) :: u32) = unat v div 10"
    and "unat (ucast (bcd_low v) :: u32) = unat v mod 10"
  using unat_u8_u32 [of "v div 10"] unat_u8_u32 [of "v mod 10"] assms
  by (simp_all add: bcd_high_def bcd_low_def unat_div unat_mod less_mult_imp_div_less)

lemma bcd_high_fits:
  assumes "unat v < 10 * n" "n \<le> 2 ^ k" "n \<le> 256"
  shows "fits k (ucast (bcd_high v))"
  using unat_bcd(1) [of v] assms by (simp add: fits_def less_mult_imp_div_less mult.commute less_le_trans)

lemma bcd_low_fits: "unat v < 2560 \<Longrightarrow> fits 4 (ucast (bcd_low v))"
  using unat_bcd(2) [of v] by (simp add: fits_def less_le_trans [of _ 10])

lemma bcd_value:
  assumes "unat v < 2560"
  shows "ucast (bcd_high v) * 10 + ucast (bcd_low v) = v"
proof -
  have "unat (ucast (bcd_high v) * 10 + ucast (bcd_low v) :: u32) = unat v"
    using unat_bcd [OF assms] assms
    by (simp add: unat_word_ariths)
  then show ?thesis by (simp add: word_unat_eq_iff)
qed

lemma fits_mono: "fits j x \<Longrightarrow> j \<le> k \<Longrightarrow> fits k x"
  unfolding fits_def by (meson less_le_trans one_le_numeral power_increasing)

lemma reg_field_zero [simp]: "reg_field 0 m p = 0"
  by (simp add: reg_field_def)

lemma or_zero [simp]: "(0 :: u32) OR x = x" "(x :: u32) OR 0 = x"
  by simp_all

lemmas reg_own = reg_field_own [where k = 1, folded field_masks(1)]
  reg_field_own [where k = 2, folded field_masks] reg_field_own [where k = 3, folded field_masks]
  reg_field_own [where k = 4, folded field_masks]
lemmas reg_higher = reg_field_higher [where k = 1, folded field_masks(1)]
  reg_field_higher [where k = 2, folded field_masks] reg_field_higher [where k = 3, folded field_masks]
  reg_field_higher [where k = 4, folded field_masks]
lemmas reg_top = reg_field_top [where k = 1, folded field_masks(1)]
  reg_field_top [where k = 2, folded field_masks] reg_field_top [where k = 3, folded field_masks]
  reg_field_top [where k = 4, folded field_masks]
lemmas reg_lower = reg_field_lower [where j = 1] reg_field_lower [where j = 2]
  reg_field_lower [where j = 3] reg_field_lower [where j = 4]
lemmas reg_bottom = reg_field_lower [where j = 4 and q = 0, simplified]
  reg_field_lower [where j = 3 and q = 0, simplified]
  reg_field_own [where k = 4 and p = 0, folded field_masks, simplified]
  reg_field_own [where k = 3 and p = 0, folded field_masks, simplified]
lemmas reg_fields = reg_field_or put_digit_def reg_own reg_higher reg_top reg_lower reg_bottom

lemma UTCTimerGet_Set:
  assumes "unat h < 40" "unat mi < 80" "unat s < 80" "unat c < 100"
  shows "UTCTimerGet 0 (UTCTimerSet 0 h mi s c r) = (0, ucast h, ucast mi, ucast s, ucast c)"
proof -
  have f: "fits 2 (ucast (bcd_high h))" "fits 3 (ucast (bcd_high mi))" "fits 3 (ucast (bcd_high s))"
      "fits 4 (ucast (bcd_high c))" "fits 4 (ucast (bcd_low h))" "fits 4 (ucast (bcd_low mi))"
      "fits 4 (ucast (bcd_low s))" "fits 4 (ucast (bcd_low c))"
    using assms
    by (simp_all add: bcd_low_fits bcd_high_fits [where n = 4 and k = 2]
        bcd_high_fits [where n = 8 and k = 3] bcd_high_fits [where n = 10 and k = 4])
  have g: "fits 4 (ucast (bcd_high h))" "fits 4 (ucast (bcd_high mi))" "fits 4 (ucast (bcd_high s))"
    using f by (auto intro: fits_mono)
  define R where "R = UTC_TIMER (UTCTimerSet 0 h mi s c r)"
  have fields: "reg_field R 1 30 = 0" "reg_field R 3 28 = ucast (bcd_high h)" "reg_field R 0xF 24 = ucast (bcd_low h)"
      "reg_field R 7 20 = ucast (bcd_high mi)" "reg_field R 0xF 16 = ucast (bcd_low mi)"
      "reg_field R 7 12 = ucast (bcd_high s)" "reg_field R 0xF 8 = ucast (bcd_low s)"
      "reg_field R 0xF 4 = ucast (bcd_high c)" "reg_field R 0xF 0 = ucast (bcd_low c)"
    unfolding R_def UTCTimerSet_def by (simp_all add: reg_fields f g)
  show ?thesis
    unfolding UTCTimerGet_def R_def [symmetric] using assms
    by (simp add: fields bcd_value)
qed

lemma UTCCalGet_Set:
  assumes "unat cent < 40" "unat y < 100" "unat m < 20" "unat d < 40" "unat w < 8"
  shows "UTCCalGet 0 (UTCCalSet cent y m d w r) = (ucast cent, ucast y, ucast m, ucast d, ucast w)"
proof -
  have f1: "fits 1 (ucast (bcd_high m))"
    by (rule bcd_high_fits [where n = 2]) (use assms in simp_all)
  have f: "fits 2 (ucast (bcd_high cent))" "fits 4 (ucast (bcd_high y))"
      "fits 2 (ucast (bcd_high d))" "fits 4 (ucast (bcd_low cent))" "fits 4 (ucast (bcd_low y))"
      "fits 4 (ucast (bcd_low m))" "fits 4 (ucast (bcd_low d))" "fits 3 w"
    using assms
    by (simp_all add: bcd_low_fits bcd_high_fits [where n = 4 and k = 2] fits_def [of 3]
        bcd_high_fits [where n = 10 and k = 4])
  have g: "fits 4 (ucast (bcd_high cent))" "fits 4 (ucast (bcd_high d))"
    using f by (auto intro: fits_mono)
  define R where "R = UTC_CAL (UTCCalSet cent y m d w r)"
  have fields: "reg_field R 3 28 = ucast (bcd_high cent)" "reg_field R 0xF 24 = ucast (bcd_low cent)"
      "reg_field R 0xF 20 = ucast (bcd_high y)" "reg_field R 0xF 16 = ucast (bcd_low y)"
      "reg_field R 1 7 = ucast (bcd_high m)" "reg_field R 0xF 3 = ucast (bcd_low m)"
      "reg_field R 3 12 = ucast (bcd_high d)" "reg_field R 0xF 8 = ucast (bcd_low d)"
      "reg_field R 7 0 = w"
    unfolding R_def UTCCalSet_def by (simp_all add: reg_fields f g f1 [unfolded One_nat_def])
  show ?thesis
    unfolding UTCCalGet_def R_def [symmetric] using assms
    by (simp add: fields bcd_value)
qed

section \<open>Setting and reading the clock\<close>

lemma unat_less_of_uint: "uint v < int k \<Longrightarrow> unat v < k" for v :: u32
  by (metis of_nat_less_iff uint_nat)

lemma to_u8_small: "unat v < 256 \<Longrightarrow> to_u8 v = v"
  using unat_u8_u32 [of v] by (simp add: to_u8_def word_unat_eq_iff)

lemma ucast_u8_u32: "unat v < 256 \<Longrightarrow> ucast (ucast v :: u8) = (v :: u32)"
  using unat_u8_u32 [of v] by (simp add: word_unat_eq_iff)

lemma century_year: "(v div 100) * 100 + v mod 100 = (v :: u32)"
  by (rule div_mult_mod_eq)

lemma represents_bounds:
  assumes t: "represents t n"
  shows "unat (tm_mon t) < 20" "unat (tm_mday t) < 40" "unat (tm_hour t) < 40"
    "unat (tm_min t) < 80" "unat (tm_sec t) < 80" "unat (tm_msec t) < 1000" "unat (tm_wday t) < 8"
proof -
  have v: "valid_date (uint (tm_year t)) (uint (tm_mon t)) (uint (tm_mday t))"
    using t by (simp add: represents_def rtc_valid_def)
  then have "uint (tm_mon t) < int 20" "uint (tm_mday t) < int 40"
    by (auto simp: valid_date_def month_length_def split: if_splits)
  then show "unat (tm_mon t) < 20" "unat (tm_mday t) < 40"
    by (blast intro: unat_less_of_uint)+
  show "unat (tm_hour t) < 40" "unat (tm_min t) < 80" "unat (tm_sec t) < 80" "unat (tm_msec t) < 1000"
    by (rule unat_less_of_uint, use t in \<open>simp add: represents_def\<close>)+
  have "(n div 86400000 + 3) mod 7 < 7" by simp
  then show "unat (tm_wday t) < 8"
    using t by (intro unat_less_of_uint) (simp add: represents_def)
qed

lemma rtc_timer_set_read_fields:
  fixes r :: utc_regs
  assumes t: "represents t n" and y: "uint (tm_year t) < 4000"
  defines "t' \<equiv> rtc_timer_read (rtc_timer_set t r)"
  shows "tm_year t' = tm_year t" "tm_mon t' = tm_mon t" "tm_mday t' = tm_mday t"
    "tm_hour t' = tm_hour t" "tm_min t' = tm_min t" "tm_sec t' = tm_sec t" "tm_wday t' = tm_wday t"
    "tm_msec t' = tm_msec t div 10 * 10 + UTCClkCntConvert (UTC_CLK_CNT r) div 32"
proof -
  note md = represents_bounds(1,2) [OF t] and wd = represents_bounds(7) [OF t]
  have hms: "unat (tm_hour t) < 40" "unat (tm_min t) < 80" "unat (tm_sec t) < 80"
      "unat (tm_msec t) < 1000" "unat (tm_year t) < 4000"
    using represents_bounds [OF t] unat_less_of_uint [of "tm_year t" 4000] y by simp_all
  have cs: "unat (tm_msec t div 10) < 100" "unat (tm_year t div 100) < 40" "unat (tm_year t mod 100) < 100"
    using hms(4,5) by (simp_all add: unat_div unat_mod)
  have cal: "UTCCalGet 0 (rtc_timer_set t r) =
      (ucast (tm_year t div 100), ucast (tm_year t mod 100), ucast (tm_mon t), ucast (tm_mday t), ucast (tm_wday t))"
    using UTCCalGet_Set [OF cs(2,3) md wd] md hms cs wd
    by (simp add: rtc_timer_set_def to_u8_small UTCTimerSet_def UTCCalGet_def)
  have tim: "UTCTimerGet 0 (rtc_timer_set t r) =
      (0, ucast (tm_hour t), ucast (tm_min t), ucast (tm_sec t), ucast (tm_msec t div 10))"
    using UTCTimerGet_Set [OF hms(1-3) cs(1)] md hms cs wd
    by (simp add: rtc_timer_set_def to_u8_small)
  have clk: "UTC_CLK_CNT (rtc_timer_set t r) = UTC_CLK_CNT r"
    by (simp add: rtc_timer_set_def UTCTimerSet_def UTCCalSet_def)
  show "tm_year t' = tm_year t" "tm_mon t' = tm_mon t" "tm_mday t' = tm_mday t"
    "tm_hour t' = tm_hour t" "tm_min t' = tm_min t" "tm_sec t' = tm_sec t" "tm_wday t' = tm_wday t"
    "tm_msec t' = tm_msec t div 10 * 10 + UTCClkCntConvert (UTC_CLK_CNT r) div 32"
    unfolding t'_def rtc_timer_read_def Let_def cal tim prod.case clk rtc_time.simps
    using md hms cs wd by (simp_all add: ucast_u8_u32 century_year)
qed



lemma last_digit: "(x * 1000 + y) mod 10 = y mod 10" for x y :: int
proof -
  have "x * 1000 + y = y + 10 * (100 * x)" by simp
  then show ?thesis by (simp only: mod_mult_self2)
qed

lemma rtc_timer_set_read_msec:
  assumes t: "represents t n" and y: "uint (tm_year t) < 4000"
    and clk: "uint (UTCClkCntConvert (UTC_CLK_CNT r)) < 320"
  shows "uint (xy_mktime (rtc_timer_read (rtc_timer_set t r)))
       = n - n mod 10 + uint (UTCClkCntConvert (UTC_CLK_CNT r)) div 32"
proof -
  let ?t' = "rtc_timer_read (rtc_timer_set t r)" and ?c = "UTCClkCntConvert (UTC_CLK_CNT r)"
  let ?ms = "uint (tm_msec t)"
  note f = rtc_timer_set_read_fields [OF t y, of r]
  have ms: "0 \<le> ?ms" "?ms < 1000" and n: "rtc_msec_spec t = n" and v: "rtc_valid t"
    using t by (auto simp: represents_def)
  have c: "0 \<le> uint ?c div 32" "uint ?c div 32 < 10"
    using clk by (simp_all add: pos_imp_zdiv_nonneg_iff)
  have q: "0 \<le> ?ms div 10" "?ms div 10 < 100"
    using ms by (simp_all add: pos_imp_zdiv_nonneg_iff)
  have "uint (tm_msec t div 10 * 10) = ?ms div 10 * 10"
    using q by (simp add: uint_word_ariths uint_div)
  moreover have "uint (?c div 32) = uint ?c div 32"
    by (simp add: uint_div)
  ultimately have new: "uint (tm_msec ?t') = ?ms div 10 * 10 + uint ?c div 32"
    unfolding f(8) uint_plus_if' using q c by simp
  have "rtc_msec_spec t mod 10 = ?ms mod 10"
    unfolding rtc_msec_spec_def by (rule last_digit)
  then have digit: "n mod 10 = ?ms - ?ms div 10 * 10"
    by (simp only: n minus_div_mult_eq_mod)
  have "rtc_msec_spec ?t' = rtc_msec_spec t - ?ms + uint (tm_msec ?t')"
    by (simp add: rtc_msec_spec_def f(1-6))
  then have "rtc_msec_spec ?t' = n - n mod 10 + uint ?c div 32"
    unfolding n new digit by simp
  moreover have "rtc_valid ?t'"
    using v by (simp add: rtc_valid_def f)
  ultimately show ?thesis using xy_mktime_exact by simp
qed

lemma UTCTimerAlarmGet_Set:
  assumes "unat h < 40" "unat mi < 80" "unat s < 80" "unat ms < 1000"
    and "UTCALARMCLKCNT_CFG r AND 0x200 = 0"
  shows "UTCTimerAlarmGet (UTCTimerAlarmSet 0 h mi s ms r) = (h, mi, s, 10 * (ms div 10))"
proof -
  let ?c = "ms div 10"
  have c: "unat ?c < 100" using assms(4) by (simp add: unat_div)
  have f: "fits 2 (ucast (bcd_high h))" "fits 3 (ucast (bcd_high mi))" "fits 3 (ucast (bcd_high s))"
      "fits 4 (ucast (bcd_high ?c))" "fits 4 (ucast (bcd_low h))" "fits 4 (ucast (bcd_low mi))"
      "fits 4 (ucast (bcd_low s))" "fits 4 (ucast (bcd_low ?c))"
    using assms(1-3) c
    by (simp_all add: bcd_low_fits bcd_high_fits [where n = 4 and k = 2]
        bcd_high_fits [where n = 8 and k = 3] bcd_high_fits [where n = 10 and k = 4])
  have g: "fits 4 (ucast (bcd_high h))" "fits 4 (ucast (bcd_high mi))" "fits 4 (ucast (bcd_high s))"
    using f by (auto intro: fits_mono)
  define R where "R = UTC_ALARM_TIMER (UTCTimerAlarmSet 0 h mi s ms r)"
  have fields: "reg_field R 3 28 = ucast (bcd_high h)" "reg_field R 0xF 24 = ucast (bcd_low h)"
      "reg_field R 7 20 = ucast (bcd_high mi)" "reg_field R 0xF 16 = ucast (bcd_low mi)"
      "reg_field R 7 12 = ucast (bcd_high s)" "reg_field R 0xF 8 = ucast (bcd_low s)"
      "reg_field R 0xF 4 = ucast (bcd_high ?c)" "reg_field R 0xF 0 = ucast (bcd_low ?c)"
    unfolding R_def UTCTimerAlarmSet_def by (simp_all add: reg_fields f g)
  have cfg: "UTCALARMCLKCNT_CFG (UTCTimerAlarmSet 0 h mi s ms r) AND 0x200 = 0"
    using assms(5) by (simp add: UTCTimerAlarmSet_def)
  have v: "ucast (bcd_high h) * 10 + ucast (bcd_low h) = h" "ucast (bcd_high mi) * 10 + ucast (bcd_low mi) = mi"
      "ucast (bcd_high s) * 10 + ucast (bcd_low s) = s" "ucast (bcd_high ?c) * 10 + ucast (bcd_low ?c) = ?c"
    using assms(1-3) c by (simp_all add: bcd_value)
  show ?thesis
    unfolding UTCTimerAlarmGet_def R_def [symmetric] Let_def fields v cfg by simp
qed

lemma UTCCalAlarmGet_Set:
  assumes "unat m < 20" "unat d < 40"
  shows "UTCCalAlarmGet (UTCCalAlarmSet m d r) = (ucast m, d)"
proof -
  have f1: "fits 1 (ucast (bcd_high m))"
    by (rule bcd_high_fits [where n = 2]) (use assms in simp_all)
  have f: "fits 2 (ucast (bcd_high d))" "fits 4 (ucast (bcd_low m))" "fits 4 (ucast (bcd_low d))"
    using assms by (simp_all add: bcd_low_fits bcd_high_fits [where n = 4 and k = 2])
  have g: "fits 4 (ucast (bcd_high d))" using f by (auto intro: fits_mono)
  define R where "R = UTC_ALARM_CAL (UTCCalAlarmSet m d r)"
  have fields: "reg_field R 1 7 = ucast (bcd_high m)" "reg_field R 0xF 3 = ucast (bcd_low m)"
      "reg_field R 3 12 = ucast (bcd_high d)" "reg_field R 0xF 8 = ucast (bcd_low d)"
    unfolding R_def UTCCalAlarmSet_def by (simp_all add: reg_fields f g f1 [unfolded One_nat_def])
  show ?thesis
    unfolding UTCCalAlarmGet_def R_def [symmetric] using assms
    by (simp add: fields bcd_value)
qed

lemma rtc_alarm_set_get:
  assumes "represents t n" and "UTCALARMCLKCNT_CFG r AND 0x200 = 0"
  shows "UTCCalAlarmGet (rtc_alarm_set t r) = (ucast (tm_mon t), tm_mday t) \<and>
    UTCTimerAlarmGet (rtc_alarm_set t r) =
      (tm_hour t, tm_min t, tm_sec t, 10 * (tm_msec t div 10)) \<and>
    UTC_ALARM_EN (rtc_alarm_set t r) AND UTC_ALARM_ALL = UTC_ALARM_ALL \<and>
    UTC_INT_EN (rtc_alarm_set t r) AND UTC_INT_ALARM = UTC_INT_ALARM"
proof -
  note b = represents_bounds [OF assms(1)]
  have "UTCALARMCLKCNT_CFG (UTCCalAlarmSet (tm_mon t) (tm_mday t) r) AND 0x200 = 0"
    using assms(2) by (simp add: UTCCalAlarmSet_def)
  note tim = UTCTimerAlarmGet_Set [OF b(3-6) this]
  have "(x OR y) AND y = y" for x y :: u32
    by (rule bit_word_eqI) (auto simp: bit_simps)
  then show ?thesis
    using tim UTCCalAlarmGet_Set [OF b(1,2), of r]
    by (simp add: rtc_alarm_set_def UTCIntEnable_def UTCAlarmEnable_def UTCTimerAlarmGet_def
        UTCCalAlarmGet_def UTCTimerAlarmSet_def)
qed

section \<open>Properties\<close>

text \<open>
  setting the clock and reading it back. Through the decimal digit fields of the registers the
  clock returns the time it was set to, the milliseconds rounded down to the hundredths the
  registers hold, plus what the sub-tick counter has advanced since.
\<close>
lemma rtc_timer_set_then_read:
  assumes "represents t n" and "uint (tm_year t) < 4000"
    and "uint (UTCClkCntConvert (UTC_CLK_CNT r)) < 320"
  shows "uint (xy_mktime (rtc_timer_read (rtc_timer_set t r)))
       = n - n mod 10 + uint (UTCClkCntConvert (UTC_CLK_CNT r)) div 32"
  by (rule rtc_timer_set_read_msec [OF assms])

definition demo_regs :: utc_regs where
  "demo_regs = \<lparr>UTC_TIMER = 0x80000000, UTC_CAL = 0, UTC_ALARM_TIMER = 0, UTC_ALARM_CAL = 0,
     UTC_ALARM_EN = 0, UTC_INT_EN = 0, UTC_CTRL = 0, UTC_CLK_CNT = 352, UTCALARMCLKCNT_CFG = 0\<rparr>"

lemma demo_time: "represents (xy_gmtime_r 1709164799998) 1709164799998"
  using xy_gmtime_r_represents [of 1709164799998] by (simp add: msec_limit_def calendar_limit_def)

text \<open>
  arming the alarm. After \<^verbatim>\<open>rtc_alarm_set\<close> for a time, the alarm registers read back its month,
  day, hour, minute, second and hundredths, and all alarm fields and the alarm interrupt are
  enabled.
\<close>
lemma rtc_alarm_set_then_get:
  assumes "represents t n" and "UTCALARMCLKCNT_CFG r AND 0x200 = 0"
  shows "UTCCalAlarmGet (rtc_alarm_set t r) = (ucast (tm_mon t), tm_mday t) \<and>
    UTCTimerAlarmGet (rtc_alarm_set t r) =
      (tm_hour t, tm_min t, tm_sec t, 10 * (tm_msec t div 10)) \<and>
    UTC_ALARM_EN (rtc_alarm_set t r) AND UTC_ALARM_ALL = UTC_ALARM_ALL \<and>
    UTC_INT_EN (rtc_alarm_set t r) AND UTC_INT_ALARM = UTC_INT_ALARM"
  by (rule rtc_alarm_set_get [OF assms])

end
