(* ===== verification/Rtc_Timer.thy ===== *)
theory Rtc_Timer
  imports Utc_Regs
begin

text \<open>
  The real-time timers (\<^verbatim>\<open>src/xinyi/SYSAPP/rtc_tmr/src/rtc_tmr.c\<close> and \<^verbatim>\<open>xy_rtc_api.c\<close>): twelve timer
  slots in retention memory, the alarm values the two cores publish in shared memory, the alarm
  registers, and the wall clock kept as two second counts in non-volatile memory. A function
  pointer is a number (0 is \<^verbatim>\<open>NULL\<close>) and what calling it does is a parameter; \<^verbatim>\<open>XY_UTC_CLK\<close> is not
  defined in the repository and is a parameter too. The mutex and the critical sections, taken
  and released on the same path by every function, are not part of the sequential model. \<open>None\<close>
  is a failed \<^verbatim>\<open>xy_assert\<close>, an access outside the slots, or fuel used up.
\<close>

section \<open>State\<close>

record rtc_event_info =
  rtc_msec :: u64
  timer_id :: u8
  ev_callback :: nat
  ev_data :: nat

record rtc_state =
  ap_rtc_event_arry :: "rtc_event_info list"
  AP_ALARM_VALUE :: u64
  CP_ALARM_VALUE :: u64
  utc :: utc_regs
  g_rtc_sem :: nat
  g_RTC_wakeup_type :: nat
  HAVE_FREE_LOCK :: u32
  s_called_once :: bool
  cclk_netl_sec :: u64
  cclk_local_sec :: u64
  rtc_snap_msec :: u64
  g_zone :: u8
  xtal_32k :: u8
  rc32k_freq :: u32
  os_tick :: u32

definition RTC_TIMER_LPM :: nat where "RTC_TIMER_LPM = 0"
definition RTC_TIMER_AP_MAX :: nat where "RTC_TIMER_AP_MAX = 12"
definition RTC_ALARM_INVALID :: u64 where "RTC_ALARM_INVALID = 0xFFFFFFFFFFFFFFFF"

definition no_event :: rtc_event_info where
  "no_event = \<lparr>rtc_msec = 0, timer_id = 0, ev_callback = 0, ev_data = 0\<rparr>"

section \<open>Pending events\<close>

definition rtc_now :: "rtc_state \<Rightarrow> u64" where
  "rtc_now st = xy_mktime (rtc_timer_read (utc st))"

definition is_rtc_event_expired :: "rtc_event_info \<Rightarrow> rtc_state \<Rightarrow> bool" where
  "is_rtc_event_expired ev st \<longleftrightarrow> rtc_msec ev div 10 \<le> rtc_now st div 10 + 1"

fun next_event_loop :: "rtc_event_info list \<Rightarrow> nat option \<Rightarrow> nat list \<Rightarrow> nat option" where
  "next_event_loop ev best [] = best"
| "next_event_loop ev best (i # is) =
     (if rtc_msec (ev ! i) = 0 then next_event_loop ev best is
      else case best of
        None \<Rightarrow> next_event_loop ev (Some i) is
      | Some b \<Rightarrow> if rtc_msec (ev ! i) < rtc_msec (ev ! b) then next_event_loop ev (Some i) is
                 else next_event_loop ev best is)"

definition rtc_get_next_event :: "rtc_state \<Rightarrow> nat option" where
  "rtc_get_next_event st = next_event_loop (ap_rtc_event_arry st) None [0..<RTC_TIMER_AP_MAX]"

text \<open>\<^verbatim>\<open>RTC_TIMER_CP_MAX\<close> is 0: the other core has no slots in this build.\<close>

definition rtc_get_next_event_CP_nomutex :: "rtc_state \<Rightarrow> u64 option" where
  "rtc_get_next_event_CP_nomutex st = None"

section \<open>The alarm\<close>

definition pack_time :: "rtc_time \<Rightarrow> u64" where
  "pack_time t = ucast (tm_msec t) + push_bit 16 (ucast (tm_sec t)) + push_bit 22 (ucast (tm_min t)) +
     push_bit 28 (ucast (tm_hour t)) + push_bit 34 (ucast (tm_mday t)) + push_bit 40 (ucast (tm_mon t)) +
     push_bit 46 (ucast (tm_year t))"

definition rtc_time_compare :: "rtc_time \<Rightarrow> rtc_time \<Rightarrow> nat" where
  "rtc_time_compare t1 t2 = (if pack_time t1 < pack_time t2 then 0 else 1)"

definition rtc_time_compare_offset :: "rtc_time \<Rightarrow> rtc_time \<Rightarrow> u32 \<Rightarrow> u32 \<Rightarrow> nat" where
  "rtc_time_compare_offset t1 t2 offset1_ms offset2_ms =
     (if pack_time t1 + ucast offset1_ms < pack_time t2 + ucast offset2_ms then 0 else 1)"

definition rtc_alarm_reset :: "u64 \<Rightarrow> rtc_state \<Rightarrow> rtc_state" where
  "rtc_alarm_reset ms st =
     (if ms = RTC_ALARM_INVALID then
        let st1 = st\<lparr>AP_ALARM_VALUE := ms\<rparr> in
        if CP_ALARM_VALUE st1 \<noteq> RTC_ALARM_INVALID
        then st1\<lparr>utc := rtc_alarm_set (xy_gmtime_r (CP_ALARM_VALUE st1)) (utc st1)\<rparr>
        else st1\<lparr>utc := rtc_alarm_disable (utc st1)\<rparr>
      else
        let t = xy_gmtime_r ms; cur = rtc_timer_read (utc st); st1 = st\<lparr>AP_ALARM_VALUE := ms\<rparr> in
        if rtc_time_compare_offset t cur 0 11 = 0 then st1\<lparr>g_rtc_sem := Suc (g_rtc_sem st1)\<rparr>
        else if ms < CP_ALARM_VALUE st1 then st1\<lparr>utc := rtc_alarm_set t (utc st1)\<rparr>
        else st1)"

definition rtc_alarm_reset_accurate :: "u64 \<Rightarrow> rtc_state \<Rightarrow> rtc_state" where
  "rtc_alarm_reset_accurate ms st =
     (let t = xy_gmtime_r ms; st1 = st\<lparr>AP_ALARM_VALUE := ms\<rparr> in
      if ms < CP_ALARM_VALUE st1 then st1\<lparr>utc := rtc_alarm_set_accurate t (utc st1)\<rparr> else st1)"

definition rtc_timer_reset :: "u64 \<Rightarrow> rtc_state \<Rightarrow> rtc_state" where
  "rtc_timer_reset ms st =
     st\<lparr>utc := rtc_timer_run (rtc_timer_set (xy_gmtime_r ms) (rtc_timer_stop (utc st)))\<rparr>"

section \<open>Adding and removing events\<close>

definition set_event :: "nat \<Rightarrow> rtc_event_info \<Rightarrow> rtc_state \<Rightarrow> rtc_state" where
  "set_event i ev st = st\<lparr>ap_rtc_event_arry := (ap_rtc_event_arry st)[i := ev]\<rparr>"

definition insert_new_rtc_event :: "u8 \<Rightarrow> u64 \<Rightarrow> nat \<Rightarrow> nat \<Rightarrow> rtc_state \<Rightarrow> rtc_state option" where
  "insert_new_rtc_event tid ms callback data st = do {
     xy_assert (unat tid < RTC_TIMER_AP_MAX);
     let i = unat tid;
     let st1 = set_event i \<lparr>rtc_msec = ms, timer_id = tid, ev_callback = callback, ev_data = data\<rparr> st;
     if rtc_get_next_event st1 = Some i
     then Some (rtc_alarm_reset (rtc_msec (ap_rtc_event_arry st1 ! i)) st1)
     else Some st1
   }"

definition insert_new_rtc_event_accurate :: "u8 \<Rightarrow> u64 \<Rightarrow> nat \<Rightarrow> nat \<Rightarrow> rtc_state \<Rightarrow> rtc_state option" where
  "insert_new_rtc_event_accurate tid ms callback data st = do {
     xy_assert (unat tid < RTC_TIMER_AP_MAX);
     let i = unat tid;
     let st1 = set_event i \<lparr>rtc_msec = ms, timer_id = tid, ev_callback = callback, ev_data = data\<rparr> st;
     if rtc_get_next_event st1 = Some i
     then Some (rtc_alarm_reset_accurate (rtc_msec (ap_rtc_event_arry st1 ! i)) st1)
     else Some st1
   }"

definition rtc_get_global_byoffset :: "u32 \<Rightarrow> u64 \<Rightarrow> rtc_state \<Rightarrow> u64" where
  "rtc_get_global_byoffset XY_UTC_CLK msec_offset st =
     msec_offset * ucast XY_UTC_CLK div 32000 + rtc_now st"

definition rtc_event_add_by_offset :: "u32 \<Rightarrow> u8 \<Rightarrow> u64 \<Rightarrow> nat \<Rightarrow> nat \<Rightarrow> rtc_state \<Rightarrow> rtc_state option" where
  "rtc_event_add_by_offset XY_UTC_CLK tid msec_offset callback data st =
     insert_new_rtc_event tid (rtc_get_global_byoffset XY_UTC_CLK msec_offset st) callback data st"

definition rtc_event_add_by_offset_accurate ::
    "u32 \<Rightarrow> u8 \<Rightarrow> u64 \<Rightarrow> nat \<Rightarrow> nat \<Rightarrow> rtc_state \<Rightarrow> rtc_state option" where
  "rtc_event_add_by_offset_accurate XY_UTC_CLK tid msec_offset callback data st =
     insert_new_rtc_event_accurate tid (rtc_get_global_byoffset XY_UTC_CLK msec_offset st) callback data st"

definition rtc_event_add_by_global :: "u8 \<Rightarrow> u64 \<Rightarrow> nat \<Rightarrow> nat \<Rightarrow> rtc_state \<Rightarrow> rtc_state option" where
  "rtc_event_add_by_global tid ms callback data st = insert_new_rtc_event tid ms callback data st"

definition rtc_get_next_offset_by_ID :: "u32 \<Rightarrow> u8 \<Rightarrow> rtc_state \<Rightarrow> u32" where
  "rtc_get_next_offset_by_ID XY_UTC_CLK tid st =
     (let now = rtc_get_global_byoffset XY_UTC_CLK 0 st;
          ms = rtc_msec (ap_rtc_event_arry st ! unat tid) in
      if ms \<noteq> 0 \<and> ms \<ge> now then ucast ((ms - now) * 32 div ucast XY_UTC_CLK) else 0)"

definition refresh_alarm :: "rtc_state \<Rightarrow> rtc_state" where
  "refresh_alarm st =
     (case rtc_get_next_event st of
        Some i \<Rightarrow> rtc_alarm_reset (rtc_msec (ap_rtc_event_arry st ! i)) st
      | None \<Rightarrow> rtc_alarm_reset RTC_ALARM_INVALID st)"

definition rtc_event_delete :: "u8 \<Rightarrow> rtc_state \<Rightarrow> rtc_state option" where
  "rtc_event_delete tid st =
     (if \<not> unat tid < RTC_TIMER_AP_MAX then None
      else if rtc_get_next_event st = Some (unat tid)
      then Some (refresh_alarm (set_event (unat tid) no_event st))
      else Some (set_event (unat tid) no_event st))"

text \<open>The \<^verbatim>\<open>_nomutex\<close> twins differ only in not taking the mutex.\<close>

definition rtc_get_next_event_nomutex :: "rtc_state \<Rightarrow> nat option" where
  "rtc_get_next_event_nomutex st = next_event_loop (ap_rtc_event_arry st) None [0..<RTC_TIMER_AP_MAX]"

definition rtc_event_delete_nomutex :: "u8 \<Rightarrow> rtc_state \<Rightarrow> rtc_state option" where
  "rtc_event_delete_nomutex tid st =
     (if \<not> unat tid < RTC_TIMER_AP_MAX then None
      else
        let st1 = set_event (unat tid) no_event st in
        if rtc_get_next_event_nomutex st = Some (unat tid)
        then (case rtc_get_next_event_nomutex st1 of
                Some i \<Rightarrow> Some (rtc_alarm_reset (rtc_msec (ap_rtc_event_arry st1 ! i)) st1)
              | None \<Rightarrow> Some (rtc_alarm_reset RTC_ALARM_INVALID st1))
        else Some st1)"

definition rtc_event_refresh :: "rtc_state \<Rightarrow> rtc_state" where
  "rtc_event_refresh st = refresh_alarm st"

text \<open>\<open>rtc_event_proc\<close>, one unit of fuel per turn of the \<^verbatim>\<open>deal_event\<close> loop.\<close>

fun rtc_event_proc ::
    "(nat \<Rightarrow> nat \<Rightarrow> rtc_state \<Rightarrow> rtc_state) \<Rightarrow> nat \<Rightarrow> rtc_state \<Rightarrow> rtc_state option" where
  "rtc_event_proc cb 0 st = None"
| "rtc_event_proc cb (Suc n) st =
     (case rtc_get_next_event st of
        None \<Rightarrow> Some (rtc_alarm_reset RTC_ALARM_INVALID st)
      | Some i \<Rightarrow>
          let ev = ap_rtc_event_arry st ! i in
          if is_rtc_event_expired ev st then
            let st1 = set_event i no_event st;
                st2 = (if ev_callback ev \<noteq> 0 then cb (ev_callback ev) (ev_data ev) st1 else st1)
            in rtc_event_proc cb n st2
          else Some (rtc_alarm_reset (rtc_msec ev) st))"

text \<open>\<open>restore_RTC_list\<close>; the wake-up reason is an argument (\<^verbatim>\<open>get_sys_up_stat\<close>).\<close>

datatype sys_up_stat = UTC_WAKEUP | EXTPIN_WAKEUP | OTHER_UP

definition restore_RTC_list :: "sys_up_stat \<Rightarrow> rtc_state \<Rightarrow> rtc_state" where
  "restore_RTC_list up st =
     (let ap = rtc_get_next_event st in
      if s_called_once st then st
      else
        let st1 = st\<lparr>s_called_once := True\<rparr>;
            st2 = (case ap of Some i \<Rightarrow> st1\<lparr>AP_ALARM_VALUE := rtc_msec (ap_rtc_event_arry st1 ! i)\<rparr>
                   | None \<Rightarrow> st1);
            st3 = (if up \<noteq> UTC_WAKEUP \<and> up \<noteq> EXTPIN_WAKEUP then rtc_event_refresh st2 else st2) in
        case ap of
          None \<Rightarrow> st3
        | Some i \<Rightarrow>
            if up = UTC_WAKEUP then
              st3\<lparr>HAVE_FREE_LOCK := 1, g_RTC_wakeup_type := (if i = RTC_TIMER_LPM then 1 else 2)\<rparr>
            else st3)"

section \<open>The next event is the earliest pending one\<close>

definition pending :: "rtc_event_info list \<Rightarrow> nat \<Rightarrow> bool" where
  "pending ev i \<longleftrightarrow> rtc_msec (ev ! i) \<noteq> 0"

lemma next_event_loop_spec:
  assumes "\<And>b. best = Some b \<Longrightarrow> pending ev b"
  shows "(next_event_loop ev best is = None \<longleftrightarrow> best = None \<and> (\<forall>i\<in>set is. \<not> pending ev i)) \<and>
    (\<forall>j. next_event_loop ev best is = Some j \<longrightarrow>
       pending ev j \<and> (j \<in> set is \<or> best = Some j) \<and>
       (\<forall>i\<in>set is. pending ev i \<longrightarrow> rtc_msec (ev ! j) \<le> rtc_msec (ev ! i)) \<and>
       (\<forall>b. best = Some b \<longrightarrow> rtc_msec (ev ! j) \<le> rtc_msec (ev ! b)))"
  using assms
proof (induction ev best "is" rule: next_event_loop.induct)
  case (1 ev best)
  then show ?case by auto
next
  case (2 ev best i "is")
  show ?case
  proof (cases "rtc_msec (ev ! i) = 0")
    case True
    then show ?thesis using 2 by (auto simp: pending_def)
  next
    case p: False
    show ?thesis
    proof (cases best)
      case None
      then show ?thesis using "2.IH"(2) [OF p None] p by (auto simp: pending_def)
    next
      case (Some b)
      show ?thesis
      proof (cases "rtc_msec (ev ! i) < rtc_msec (ev ! b)")
        case True
        then show ?thesis
          using "2.IH"(3) [OF p Some True] p Some by (auto simp: pending_def)
      next
        case False
        then show ?thesis
          using "2.IH"(4) [OF p Some False] "2.prems" p Some by (auto simp: pending_def)
      qed
    qed
  qed
qed

lemma rtc_get_next_event_None:
  "rtc_get_next_event st = None \<longleftrightarrow> (\<forall>i<RTC_TIMER_AP_MAX. \<not> pending (ap_rtc_event_arry st) i)"
  using next_event_loop_spec [of None "ap_rtc_event_arry st" "[0..<RTC_TIMER_AP_MAX]"]
  by (auto simp: rtc_get_next_event_def)

lemma rtc_get_next_event_Some:
  assumes "rtc_get_next_event st = Some j"
  shows "j < RTC_TIMER_AP_MAX" "pending (ap_rtc_event_arry st) j"
    and "\<And>i. i < RTC_TIMER_AP_MAX \<Longrightarrow> pending (ap_rtc_event_arry st) i \<Longrightarrow>
      rtc_msec (ap_rtc_event_arry st ! j) \<le> rtc_msec (ap_rtc_event_arry st ! i)"
  using next_event_loop_spec [of None "ap_rtc_event_arry st" "[0..<RTC_TIMER_AP_MAX]"] assms
  by (auto simp: rtc_get_next_event_def)

section \<open>The published alarm is never later than a pending event\<close>

definition rtc_ok :: "rtc_state \<Rightarrow> bool" where
  "rtc_ok st \<longleftrightarrow> length (ap_rtc_event_arry st) = RTC_TIMER_AP_MAX \<and>
     (\<forall>i<RTC_TIMER_AP_MAX. pending (ap_rtc_event_arry st) i \<longrightarrow>
        AP_ALARM_VALUE st \<le> rtc_msec (ap_rtc_event_arry st ! i))"

lemma rtc_alarm_reset_simps [simp]:
  "ap_rtc_event_arry (rtc_alarm_reset ms st) = ap_rtc_event_arry st"
  "AP_ALARM_VALUE (rtc_alarm_reset ms st) = ms"
  "CP_ALARM_VALUE (rtc_alarm_reset ms st) = CP_ALARM_VALUE st"
  by (simp_all add: rtc_alarm_reset_def Let_def)

lemma rtc_alarm_set_clock [simp]:
  "UTC_TIMER (rtc_alarm_set t r) = UTC_TIMER r" "UTC_CAL (rtc_alarm_set t r) = UTC_CAL r"
  "UTC_CLK_CNT (rtc_alarm_set t r) = UTC_CLK_CNT r"
  "UTC_TIMER (rtc_alarm_disable r) = UTC_TIMER r" "UTC_CAL (rtc_alarm_disable r) = UTC_CAL r"
  "UTC_CLK_CNT (rtc_alarm_disable r) = UTC_CLK_CNT r"
  by (simp_all add: rtc_alarm_set_def UTCIntEnable_def UTCAlarmEnable_def UTCTimerAlarmSet_def
      UTCCalAlarmSet_def rtc_alarm_disable_def UTCAlarmDisable_def)

lemma rtc_timer_read_cong:
  "UTC_TIMER r = UTC_TIMER r' \<Longrightarrow> UTC_CAL r = UTC_CAL r' \<Longrightarrow> UTC_CLK_CNT r = UTC_CLK_CNT r' \<Longrightarrow>
   rtc_timer_read r = rtc_timer_read r'"
  by (simp add: rtc_timer_read_def UTCTimerGet_def UTCCalGet_def)

lemma rtc_now_alarm_reset [simp]: "rtc_now (rtc_alarm_reset ms st) = rtc_now st"
  by (auto simp: rtc_now_def rtc_alarm_reset_def Let_def intro!: arg_cong [of _ _ xy_mktime] rtc_timer_read_cong)

lemma refresh_alarm_simps [simp]:
  "ap_rtc_event_arry (refresh_alarm st) = ap_rtc_event_arry st"
  "rtc_now (refresh_alarm st) = rtc_now st"
  by (simp_all add: refresh_alarm_def split: option.splits)

lemma refresh_alarm_ok:
  assumes "length (ap_rtc_event_arry st) = RTC_TIMER_AP_MAX"
  shows "rtc_ok (refresh_alarm st)"
  using assms rtc_get_next_event_Some [of st] rtc_get_next_event_None [of st]
  by (cases "rtc_get_next_event st") (auto simp: rtc_ok_def refresh_alarm_def)

lemma set_event_simps [simp]:
  "length (ap_rtc_event_arry (set_event i ev st)) = length (ap_rtc_event_arry st)"
  "AP_ALARM_VALUE (set_event i ev st) = AP_ALARM_VALUE st"
  "rtc_now (set_event i ev st) = rtc_now st"
  "utc (set_event i ev st) = utc st" "CP_ALARM_VALUE (set_event i ev st) = CP_ALARM_VALUE st"
  "g_rtc_sem (set_event i ev st) = g_rtc_sem st"
  by (simp_all add: set_event_def rtc_now_def)

lemma set_event_nth:
  "i < length (ap_rtc_event_arry st) \<Longrightarrow>
   ap_rtc_event_arry (set_event i ev st) ! j = (if j = i then ev else ap_rtc_event_arry st ! j)"
  by (simp add: set_event_def)

lemma pending_no_event [simp]: "rtc_msec no_event = 0"
  by (simp add: no_event_def)

lemma insert_preserves_ok:
  assumes ok: "rtc_ok st" and ins: "insert_new_rtc_event tid ms callback data st = Some st'"
  shows "rtc_ok st'"
proof -
  let ?i = "unat tid"
  define st1 where "st1 = set_event ?i
    \<lparr>rtc_msec = ms, timer_id = tid, ev_callback = callback, ev_data = data\<rparr> st"
  have i: "?i < RTC_TIMER_AP_MAX"
    using ins by (auto simp: insert_new_rtc_event_def split: Option.bind_splits)
  have len: "length (ap_rtc_event_arry st1) = RTC_TIMER_AP_MAX"
    using ok by (simp add: rtc_ok_def st1_def)
  have nth: "ap_rtc_event_arry st1 ! j = (if j = ?i then \<lparr>rtc_msec = ms, timer_id = tid,
      ev_callback = callback, ev_data = data\<rparr> else ap_rtc_event_arry st ! j)" for j
    using ok i by (simp add: rtc_ok_def st1_def set_event_nth)
  have st': "st' = (if rtc_get_next_event st1 = Some ?i
      then rtc_alarm_reset (rtc_msec (ap_rtc_event_arry st1 ! ?i)) st1 else st1)"
    using ins i by (auto simp: insert_new_rtc_event_def st1_def Let_def)
  show ?thesis
  proof (cases "rtc_get_next_event st1 = Some ?i")
    case True
    then show ?thesis
      using rtc_get_next_event_Some [OF True] len by (auto simp: st' rtc_ok_def)
  next
    case other: False
    show ?thesis
    proof (cases "rtc_get_next_event st1")
      case None
      then show ?thesis
        using len unfolding st' rtc_get_next_event_None by (auto simp: rtc_ok_def)
    next
      case (Some j)
      note nx = rtc_get_next_event_Some [OF Some]
      have j: "j \<noteq> ?i" using other Some by auto
      have old: "pending (ap_rtc_event_arry st) j" using nx(2) nth j by (simp add: pending_def)
      have "AP_ALARM_VALUE st \<le> rtc_msec (ap_rtc_event_arry st1 ! j)"
        using ok nx(1) old j nth by (simp add: rtc_ok_def)
      then show ?thesis
        using nx(3) len other by (auto simp: st' rtc_ok_def st1_def intro: order_trans)
    qed
  qed
qed

lemma delete_preserves_ok:
  assumes ok: "rtc_ok st" and del: "rtc_event_delete tid st = Some st'"
  shows "rtc_ok st'"
proof -
  let ?st1 = "set_event (unat tid) no_event st"
  have i: "unat tid < RTC_TIMER_AP_MAX" and len: "length (ap_rtc_event_arry ?st1) = RTC_TIMER_AP_MAX"
    using ok del by (auto simp: rtc_event_delete_def rtc_ok_def split: if_splits)
  have "rtc_ok ?st1"
    using ok i by (auto simp: rtc_ok_def set_event_nth pending_def)
  then show ?thesis
    using del i refresh_alarm_ok [OF len] by (auto simp: rtc_event_delete_def split: if_splits)
qed

section \<open>Processing the due events\<close>

text \<open>
  The slots whose event is due. A callback is \<open>well_behaved\<close> when it keeps the number of slots and
  makes no slot due that was not due before: it may cancel timers, and re-arm its own or others for
  a time after the present one, which is what the firmware's callbacks do.
\<close>

definition due_events :: "rtc_state \<Rightarrow> nat set" where
  "due_events st = {i. i < RTC_TIMER_AP_MAX \<and> pending (ap_rtc_event_arry st) i \<and>
     is_rtc_event_expired (ap_rtc_event_arry st ! i) st}"

definition well_behaved :: "(nat \<Rightarrow> nat \<Rightarrow> rtc_state \<Rightarrow> rtc_state) \<Rightarrow> bool" where
  "well_behaved cb \<longleftrightarrow> (\<forall>c d st. length (ap_rtc_event_arry (cb c d st)) = length (ap_rtc_event_arry st) \<and>
     due_events (cb c d st) \<subseteq> due_events st)"

lemma finite_due [simp]: "finite (due_events st)"
  by (rule finite_subset [of _ "{..<RTC_TIMER_AP_MAX}"]) (auto simp: due_events_def)

lemma due_events_alarm_reset [simp]: "due_events (rtc_alarm_reset ms st) = due_events st"
  by (simp add: due_events_def is_rtc_event_expired_def)

lemma word_div_mono: "a \<le> b \<Longrightarrow> a div k \<le> b div k" for a b k :: u64
  by (simp add: word_le_nat_alt unat_div div_le_mono)

lemma due_events_clear:
  assumes "length (ap_rtc_event_arry st) = RTC_TIMER_AP_MAX" "i < RTC_TIMER_AP_MAX"
  shows "due_events (set_event i no_event st) = due_events st - {i}"
  using assms by (auto simp: due_events_def is_rtc_event_expired_def set_event_nth pending_def)

lemma not_due_if_next_not:
  assumes "rtc_get_next_event st = Some i" "\<not> is_rtc_event_expired (ap_rtc_event_arry st ! i) st"
  shows "due_events st = {}"
  using assms(2) rtc_get_next_event_Some(3) [OF assms(1)]
  by (auto simp: due_events_def is_rtc_event_expired_def) (meson order_trans word_div_mono)

lemma rtc_event_proc_spec:
  assumes cb: "well_behaved cb"
  shows "length (ap_rtc_event_arry st) = RTC_TIMER_AP_MAX \<Longrightarrow> card (due_events st) < n \<Longrightarrow>
    \<exists>st'. rtc_event_proc cb n st = Some st' \<and> due_events st' = {} \<and> rtc_ok st'"
proof (induction n arbitrary: st)
  case 0
  then show ?case by simp
next
  case (Suc n)
  show ?case
  proof (cases "rtc_get_next_event st")
    case None
    then have "\<forall>i<RTC_TIMER_AP_MAX. \<not> pending (ap_rtc_event_arry st) i"
      by (simp add: rtc_get_next_event_None)
    then show ?thesis using None Suc.prems(1) by (auto simp: due_events_def rtc_ok_def)
  next
    case (Some i)
    note nx = rtc_get_next_event_Some [OF Some]
    let ?ev = "ap_rtc_event_arry st ! i"
    show ?thesis
    proof (cases "is_rtc_event_expired ?ev st")
      case due: True
      define st1 where "st1 = set_event i no_event st"
      define st2 where "st2 = (if ev_callback ?ev \<noteq> 0 then cb (ev_callback ?ev) (ev_data ?ev) st1 else st1)"
      have i: "i \<in> due_events st" using due nx by (simp add: due_events_def)
      have "due_events st1 = due_events st - {i}"
        using due_events_clear [OF Suc.prems(1) nx(1)] by (simp add: st1_def)
      then have less: "card (due_events st1) < card (due_events st)"
        using i by (metis card_Diff1_less finite_due)
      have sub: "due_events st2 \<subseteq> due_events st1" "length (ap_rtc_event_arry st2) = RTC_TIMER_AP_MAX"
        using cb Suc.prems(1) by (auto simp: st2_def st1_def well_behaved_def)
      have "card (due_events st2) < n"
        using less card_mono [OF finite_due sub(1)] Suc.prems(2) by simp
      moreover have "rtc_event_proc cb (Suc n) st = rtc_event_proc cb n st2"
        using Some due by (simp add: Let_def st1_def st2_def)
      ultimately show ?thesis using Suc.IH [OF sub(2)] by simp
    next
      case False
      then show ?thesis
        using Some not_due_if_next_not [OF Some False] nx Suc.prems(1)
        by (auto simp: Let_def rtc_ok_def)
    qed
  qed
qed

section \<open>The packed comparison orders times\<close>

definition time_lex :: "rtc_time \<Rightarrow> rtc_time \<Rightarrow> bool" where
  "time_lex s t \<longleftrightarrow>
     (uint (tm_year s) < uint (tm_year t) \<or> uint (tm_year s) = uint (tm_year t) \<and>
     (uint (tm_mon s) < uint (tm_mon t) \<or> uint (tm_mon s) = uint (tm_mon t) \<and>
     (uint (tm_mday s) < uint (tm_mday t) \<or> uint (tm_mday s) = uint (tm_mday t) \<and>
     (uint (tm_hour s) < uint (tm_hour t) \<or> uint (tm_hour s) = uint (tm_hour t) \<and>
     (uint (tm_min s) < uint (tm_min t) \<or> uint (tm_min s) = uint (tm_min t) \<and>
     (uint (tm_sec s) < uint (tm_sec t) \<or> uint (tm_sec s) = uint (tm_sec t) \<and>
      uint (tm_msec s) < uint (tm_msec t)))))))"

definition pack_int :: "rtc_time \<Rightarrow> int" where
  "pack_int t = uint (tm_msec t) + uint (tm_sec t) * 2 ^ 16 + uint (tm_min t) * 2 ^ 22 +
     uint (tm_hour t) * 2 ^ 28 + uint (tm_mday t) * 2 ^ 34 + uint (tm_mon t) * 2 ^ 40 +
     uint (tm_year t) * 2 ^ 46"

lemma represents_fields:
  assumes "represents t n"
  shows "valid_date (uint (tm_year t)) (uint (tm_mon t)) (uint (tm_mday t))"
    "1 \<le> uint (tm_mon t)" "uint (tm_mon t) \<le> 12" "1 \<le> uint (tm_mday t)" "uint (tm_mday t) \<le> 31"
    "0 \<le> uint (tm_hour t)" "uint (tm_hour t) < 24" "0 \<le> uint (tm_min t)" "uint (tm_min t) < 60"
    "0 \<le> uint (tm_sec t)" "uint (tm_sec t) < 60" "0 \<le> uint (tm_msec t)" "uint (tm_msec t) < 1000"
    "rtc_msec_spec t = n"
  using assms by (auto simp: represents_def rtc_valid_def valid_date_def month_length_def split: if_splits)

text \<open>The same on plain integers: days, hours, minutes, seconds, milliseconds, and packed fields.\<close>

lemma clock_value_less:
  fixes c c' h h' m m' s s' u u' :: int
  assumes "0 \<le> h" "h < 24" "0 \<le> m" "m < 60" "0 \<le> s" "s < 60" "0 \<le> u" "u < 1000"
    and "0 \<le> h'" "0 \<le> m'" "0 \<le> s'" "0 \<le> u'"
    and "c + 1 \<le> c' \<or> c = c' \<and> (h < h' \<or> h = h' \<and> (m < m' \<or> m = m' \<and> (s < s' \<or> s = s' \<and> u < u')))"
  shows "c * 86400000 + h * 3600000 + m * 60000 + s * 1000 + u
       < c' * 86400000 + h' * 3600000 + m' * 60000 + s' * 1000 + u'"
  using assms(13)
  by (elim disjE conjE) (use assms(1-12) in linarith)+

lemma packed_date_less:
  fixes y y' mo mo' d d' :: int
  assumes "0 \<le> mo" "mo \<le> 12" "0 \<le> d" "d \<le> 31" "0 \<le> mo'" "0 \<le> d'"
    and "y < y' \<or> y = y' \<and> (mo < mo' \<or> mo = mo' \<and> d < d')"
  shows "d + mo * 2 ^ 6 + y * 2 ^ 12 + 1 \<le> d' + mo' * 2 ^ 6 + y' * 2 ^ 12"
  using assms(7)
  by (elim disjE conjE) (use assms(1-6) in simp_all)

lemma packed_clock_less:
  fixes c c' h h' m m' s s' u u' :: int
  assumes "0 \<le> h" "h < 24" "0 \<le> m" "m < 60" "0 \<le> s" "s < 60" "0 \<le> u" "u < 1000"
    and "0 \<le> h'" "0 \<le> m'" "0 \<le> s'" "0 \<le> u'"
    and "c + 1 \<le> c' \<or> c = c' \<and> (h < h' \<or> h = h' \<and> (m < m' \<or> m = m' \<and> (s < s' \<or> s = s' \<and> u < u')))"
  shows "u + s * 65536 + m * 4194304 + h * 268435456 + c * 17179869184
       < u' + s' * 65536 + m' * 4194304 + h' * 268435456 + c' * 17179869184"
  using assms(13)
  by (elim disjE conjE) (use assms(1-12) in linarith)+

lemma time_lex_less:
  assumes s: "represents s m" and t: "represents t n" and lex: "time_lex s t"
  shows "m < n" "pack_int s < pack_int t"
proof -
  note fs = represents_fields [OF s] and ft = represents_fields [OF t]
  have lex': "(uint (tm_year s) < uint (tm_year t) \<or> uint (tm_year s) = uint (tm_year t) \<and>
      (uint (tm_mon s) < uint (tm_mon t) \<or> uint (tm_mon s) = uint (tm_mon t) \<and>
       uint (tm_mday s) < uint (tm_mday t))) \<or>
      (uint (tm_year s) = uint (tm_year t) \<and> uint (tm_mon s) = uint (tm_mon t) \<and>
       uint (tm_mday s) = uint (tm_mday t)) \<and>
      (uint (tm_hour s) < uint (tm_hour t) \<or> uint (tm_hour s) = uint (tm_hour t) \<and>
      (uint (tm_min s) < uint (tm_min t) \<or> uint (tm_min s) = uint (tm_min t) \<and>
      (uint (tm_sec s) < uint (tm_sec t) \<or> uint (tm_sec s) = uint (tm_sec t) \<and>
       uint (tm_msec s) < uint (tm_msec t))))"
    using lex unfolding time_lex_def by blast
  have msecs: "x = civil_day (uint (tm_year z)) (uint (tm_mon z)) (uint (tm_mday z)) * 86400000 +
      uint (tm_hour z) * 3600000 + uint (tm_min z) * 60000 + uint (tm_sec z) * 1000 + uint (tm_msec z)"
    if "rtc_msec_spec z = x" for z x
    unfolding that [symmetric] rtc_msec_spec_def by (simp add: algebra_simps)
  have days: "civil_day (uint (tm_year s)) (uint (tm_mon s)) (uint (tm_mday s)) + 1
      \<le> civil_day (uint (tm_year t)) (uint (tm_mon t)) (uint (tm_mday t))"
    if "uint (tm_year s) < uint (tm_year t) \<or> uint (tm_year s) = uint (tm_year t) \<and>
      (uint (tm_mon s) < uint (tm_mon t) \<or> uint (tm_mon s) = uint (tm_mon t) \<and>
       uint (tm_mday s) < uint (tm_mday t))"
    using civil_day_less [OF fs(1) ft(1) that] by simp
  show "m < n"
    unfolding msecs [OF fs(14)] msecs [OF ft(14)]
    using lex' by (intro clock_value_less [OF fs(6-13) ft(6,8,10,12)], elim disjE [OF _ days [THEN disjI1]])
      auto
  have d0: "0 \<le> uint (tm_mon s)" "0 \<le> uint (tm_mday s)" "0 \<le> uint (tm_mon t)" "0 \<le> uint (tm_mday t)"
    by simp_all
  have split: "pack_int x = uint (tm_msec x) + uint (tm_sec x) * 65536 + uint (tm_min x) * 4194304 +
      uint (tm_hour x) * 268435456 +
      (uint (tm_mday x) + uint (tm_mon x) * 2 ^ 6 + uint (tm_year x) * 2 ^ 12) * 17179869184" for x
    by (simp add: pack_int_def)
  note dates = packed_date_less [OF d0(1) fs(3) d0(2) fs(5) d0(3,4)]
  show "pack_int s < pack_int t"
    unfolding split
    using lex' by (intro packed_clock_less [OF fs(6-13) ft(6,8,10,12)], elim disjE [OF _ dates [THEN disjI1]])
      auto
qed

lemma time_lex_total:
  assumes "\<not> time_lex s t" "\<not> time_lex t s"
  shows "pack_int s = pack_int t" "rtc_msec_spec s = rtc_msec_spec t"
proof -
  note u = assms [unfolded time_lex_def]
  have y: "uint (tm_year s) = uint (tm_year t)"
    by (rule linorder_cases [of "uint (tm_year s)" "uint (tm_year t)"]) (use u in simp_all)
  have mo: "uint (tm_mon s) = uint (tm_mon t)"
    by (rule linorder_cases [of "uint (tm_mon s)" "uint (tm_mon t)"]) (use u y in simp_all)
  have d: "uint (tm_mday s) = uint (tm_mday t)"
    by (rule linorder_cases [of "uint (tm_mday s)" "uint (tm_mday t)"]) (use u y mo in simp_all)
  have h: "uint (tm_hour s) = uint (tm_hour t)"
    by (rule linorder_cases [of "uint (tm_hour s)" "uint (tm_hour t)"]) (use u y mo d in simp_all)
  have mi: "uint (tm_min s) = uint (tm_min t)"
    by (rule linorder_cases [of "uint (tm_min s)" "uint (tm_min t)"]) (use u y mo d h in simp_all)
  have se: "uint (tm_sec s) = uint (tm_sec t)"
    by (rule linorder_cases [of "uint (tm_sec s)" "uint (tm_sec t)"]) (use u y mo d h mi in simp_all)
  have "uint (tm_msec s) = uint (tm_msec t)"
    by (rule linorder_cases [of "uint (tm_msec s)" "uint (tm_msec t)"]) (use u y mo d h mi se in simp_all)
  note eqs = y mo d h mi se this
  show "pack_int s = pack_int t" "rtc_msec_spec s = rtc_msec_spec t"
    by (simp_all add: eqs pack_int_def rtc_msec_spec_def)
qed

lemma pack_time_int:
  assumes "represents t n" "uint (tm_year t) < 4000"
  shows "uint (pack_time t) = pack_int t"
proof -
  have "pack_time t = of_int (pack_int t)"
    unfolding pack_time_def pack_int_def
    by (simp only: push_bit_eq_mult ucast_eq of_int_add of_int_mult of_int_power of_int_numeral)
  moreover have "0 \<le> pack_int t" "pack_int t < 2 ^ 64"
    using represents_fields [OF assms(1)] assms(2) unfolding pack_int_def by auto
  ultimately show ?thesis by (simp add: uint_word_of_int)
qed

lemma rtc_time_compare_order:
  assumes "represents s m" "represents t n" "uint (tm_year s) < 4000" "uint (tm_year t) < 4000"
  shows "rtc_time_compare s t = (if m < n then 0 else 1)"
proof -
  have "pack_int s < pack_int t \<longleftrightarrow> m < n"
    using time_lex_less [OF assms(1,2)] time_lex_less [OF assms(2,1)] time_lex_total [of s t]
      represents_fields(14) [OF assms(1)] represents_fields(14) [OF assms(2)]
    by (cases "time_lex s t"; cases "time_lex t s") auto
  then show ?thesis
    using pack_time_int [OF assms(1,3)] pack_time_int [OF assms(2,4)]
    by (simp add: rtc_time_compare_def word_less_def)
qed

section \<open>Properties\<close>

text \<open>
  \<^verbatim>\<open>rtc_get_next_event\<close> finds the earliest pending event: it answers with a slot exactly when some
  slot is pending, and no pending slot is earlier than the one it answers with.
\<close>
lemma rtc_get_next_event_earliest:
  "case rtc_get_next_event st of
     None \<Rightarrow> \<forall>i<RTC_TIMER_AP_MAX. rtc_msec (ap_rtc_event_arry st ! i) = 0
   | Some j \<Rightarrow> j < RTC_TIMER_AP_MAX \<and> rtc_msec (ap_rtc_event_arry st ! j) \<noteq> 0 \<and>
       (\<forall>i<RTC_TIMER_AP_MAX. rtc_msec (ap_rtc_event_arry st ! i) \<noteq> 0 \<longrightarrow>
          rtc_msec (ap_rtc_event_arry st ! j) \<le> rtc_msec (ap_rtc_event_arry st ! i))"
  using rtc_get_next_event_None [of st] rtc_get_next_event_Some [of st]
  by (auto simp: pending_def split: option.split)

definition demo_rtc :: rtc_state where
  "demo_rtc = \<lparr>ap_rtc_event_arry = (replicate 12 no_event)
       [0 := \<lparr>rtc_msec = 1709164800000, timer_id = 0, ev_callback = 1, ev_data = 0\<rparr>,
        9 := \<lparr>rtc_msec = 1709164805000, timer_id = 9, ev_callback = 1, ev_data = 5\<rparr>],
     AP_ALARM_VALUE = 1709164800000, CP_ALARM_VALUE = RTC_ALARM_INVALID,
     utc = rtc_timer_set (xy_gmtime_r 1709164801000) demo_regs, g_rtc_sem = 0, g_RTC_wakeup_type = 0,
     HAVE_FREE_LOCK = 0, s_called_once = False, cclk_netl_sec = 0, cclk_local_sec = 0,
     rtc_snap_msec = 0, g_zone = 32, xtal_32k = 1, rc32k_freq = 0, os_tick = 7000\<rparr>"

text \<open>
  C9: no timer is overslept. Starting from a state in which the alarm value the core publishes is
  not later than any pending timer, adding a timer (also one that replaces an earlier or later one
  in the same slot) keeps it so.
\<close>
theorem insert_keeps_alarm_early:
  assumes "rtc_ok st" and "unat tid < RTC_TIMER_AP_MAX"
  shows "\<exists>st'. insert_new_rtc_event tid ms callback data st = Some st' \<and> rtc_ok st' \<and>
    (\<forall>i. i \<noteq> unat tid \<longrightarrow> ap_rtc_event_arry st' ! i = ap_rtc_event_arry st ! i) \<and>
    rtc_msec (ap_rtc_event_arry st' ! unat tid) = ms"
proof -
  have "insert_new_rtc_event tid ms callback data st \<noteq> None"
    using assms(2) by (simp add: insert_new_rtc_event_def Let_def)
  then obtain st' where ins: "insert_new_rtc_event tid ms callback data st = Some st'" by auto
  then have "ap_rtc_event_arry st' = (ap_rtc_event_arry st)[unat tid :=
      \<lparr>rtc_msec = ms, timer_id = tid, ev_callback = callback, ev_data = data\<rparr>]"
    using assms(2) by (auto simp: insert_new_rtc_event_def Let_def set_event_def split: if_splits)
  then show ?thesis using ins insert_preserves_ok [OF assms(1) ins] assms by (auto simp: rtc_ok_def)
qed

lemma demo_rtc_ok: "rtc_ok demo_rtc"
proof -
  have "length (ap_rtc_event_arry demo_rtc) = RTC_TIMER_AP_MAX"
    by (simp add: demo_rtc_def RTC_TIMER_AP_MAX_def)
  moreover have "list_all (\<lambda>ev. rtc_msec ev = 0 \<or> AP_ALARM_VALUE demo_rtc \<le> rtc_msec ev)
      (ap_rtc_event_arry demo_rtc)" by code_simp
  ultimately show ?thesis
    by (auto simp: rtc_ok_def pending_def list_all_length)
qed

lemma insert_keeps_alarm_early_witness:
  "\<exists>st'. insert_new_rtc_event 0 1709164809000 2 0 demo_rtc = Some st' \<and> rtc_ok st'"
  using insert_keeps_alarm_early [OF demo_rtc_ok, of 0 1709164809000 2 0] by (auto simp: RTC_TIMER_AP_MAX_def)

text \<open>
  cancelling a timer empties its slot, leaves every other slot alone and keeps the published
  alarm value no later than any remaining timer.
\<close>
lemma delete_keeps_alarm_early:
  assumes "rtc_ok st" and "unat tid < RTC_TIMER_AP_MAX"
  shows "\<exists>st'. rtc_event_delete tid st = Some st' \<and> rtc_ok st' \<and>
    (\<forall>i. i \<noteq> unat tid \<longrightarrow> ap_rtc_event_arry st' ! i = ap_rtc_event_arry st ! i) \<and>
    rtc_msec (ap_rtc_event_arry st' ! unat tid) = 0"
proof -
  have "rtc_event_delete tid st \<noteq> None"
    using assms(2) by (simp add: rtc_event_delete_def)
  then obtain st' where del: "rtc_event_delete tid st = Some st'" by auto
  then have "ap_rtc_event_arry st' = (ap_rtc_event_arry st)[unat tid := no_event]"
    using assms(2) by (auto simp: rtc_event_delete_def refresh_alarm_def set_event_def
        split: if_splits option.splits)
  then show ?thesis using del delete_preserves_ok [OF assms(1) del] assms
    by (auto simp: rtc_ok_def no_event_def)
qed




text \<open>
  the packed comparison is the order of time: for two proper times, \<^verbatim>\<open>rtc_time_compare\<close> answers 0
  exactly when the first is earlier in milliseconds.
\<close>
lemma rtc_time_compare_orders:
  assumes "represents s m" and "represents t n"
    and "uint (tm_year s) < 4000" and "uint (tm_year t) < 4000"
  shows "rtc_time_compare s t = (if m < n then 0 else 1)"
  by (rule rtc_time_compare_order [OF assms])

text \<open>
  arming the hardware. When a new earliest timer is more than eleven milliseconds ahead and
  before the other core's alarm, adding it publishes its time and leaves the alarm registers
  holding that time's date, hour, minute, second and hundredths, with the alarm enabled.
\<close>
lemma insert_arms_alarm:
  assumes "uint ms < msec_limit" and "unat tid < RTC_TIMER_AP_MAX"
    and "rtc_get_next_event (set_event (unat tid)
           \<lparr>rtc_msec = ms, timer_id = tid, ev_callback = callback, ev_data = data\<rparr> st) = Some (unat tid)"
    and "length (ap_rtc_event_arry st) = RTC_TIMER_AP_MAX"
    and "rtc_time_compare_offset (xy_gmtime_r ms) (rtc_timer_read (utc st)) 0 11 = 1"
    and "ms < CP_ALARM_VALUE st" and "UTCALARMCLKCNT_CFG (utc st) AND 0x200 = 0"
  shows "\<exists>st'. insert_new_rtc_event tid ms callback data st = Some st' \<and> AP_ALARM_VALUE st' = ms \<and>
     UTCCalAlarmGet (utc st') = (ucast (tm_mon (xy_gmtime_r ms)), tm_mday (xy_gmtime_r ms)) \<and>
     UTCTimerAlarmGet (utc st') = (tm_hour (xy_gmtime_r ms), tm_min (xy_gmtime_r ms),
       tm_sec (xy_gmtime_r ms), 10 * (tm_msec (xy_gmtime_r ms) div 10)) \<and>
     UTC_ALARM_EN (utc st') AND UTC_ALARM_ALL = UTC_ALARM_ALL"
proof -
  have "ms \<noteq> RTC_ALARM_INVALID"
    using assms(1) by (auto simp: RTC_ALARM_INVALID_def msec_limit_def calendar_limit_def)
  then show ?thesis
    using assms rtc_alarm_set_get [OF xy_gmtime_r_represents [OF assms(1)] assms(7)]
    by (simp add: insert_new_rtc_event_def Let_def rtc_alarm_reset_def set_event_nth)
qed

text \<open>
  The eleven-millisecond margin of \<^verbatim>\<open>rtc_time_compare_offset\<close> does not carry into the seconds: an
  alarm five milliseconds ahead, in the next second, is reported as not yet due although its
  comment promises every alarm less than eleven milliseconds ahead is.
\<close>
theorem compare_offset_misses_second:
  "uint (xy_mktime (xy_gmtime_r 60000)) < uint (xy_mktime (xy_gmtime_r 59995)) + 11 \<and>
   rtc_time_compare_offset (xy_gmtime_r 60000) (xy_gmtime_r 59995) 0 11 = 1"
  by code_simp

end
