(* ===== verification/Rtc_Api.thy ===== *)
theory Rtc_Api
  imports Rtc_Timer "HOL-Library.Signed_Division"
begin

text \<open>
  The wall clock (\<^verbatim>\<open>reset_universal_timer\<close>, \<^verbatim>\<open>get_universal_timer\<close>, \<^verbatim>\<open>get_system_sec\<close> of
  \<^verbatim>\<open>rtc_tmr.c\<close>) and the user interface of the timers (\<^verbatim>\<open>xy_rtc_api.c\<close>). The wall clock is kept as
  two second counts taken when the time was set: the network time and the local clock; reading it
  adds what the local clock has advanced since. \<^verbatim>\<open>rand()\<close> is an argument; the NTP client and the
  seeding of the random generator are not modelled.
\<close>

section \<open>The wall clock\<close>

definition local_sec :: "u32 \<Rightarrow> rtc_state \<Rightarrow> u64" where
  "local_sec XY_UTC_CLK st =
     (rtc_get_global_byoffset XY_UTC_CLK 0 st + 500) div 1000 * 32000 * 10 div ucast (rc32k_freq st)"

definition reset_universal_timer :: "u32 \<Rightarrow> rtc_time \<Rightarrow> u32 \<Rightarrow> rtc_state \<Rightarrow> rtc_state" where
  "reset_universal_timer XY_UTC_CLK t zone_sec st =
     (let new_time = xy_mktime t;
          st1 = st\<lparr>cclk_netl_sec := (new_time + 500) div 1000 + scast zone_sec\<rparr> in
      if xtal_32k st1 = 0 then st1\<lparr>cclk_local_sec := local_sec XY_UTC_CLK st\<rparr>
      else st1\<lparr>cclk_local_sec := ucast (os_tick st1 div 1000)\<rparr>)"

definition system_sec64 :: "u32 \<Rightarrow> rtc_state \<Rightarrow> u64" where
  "system_sec64 XY_UTC_CLK st =
     (if xtal_32k st = 0 then local_sec XY_UTC_CLK st else ucast (os_tick st div 1000))"

definition get_universal_timer :: "u32 \<Rightarrow> u32 \<Rightarrow> rtc_state \<Rightarrow> rtc_time option \<times> rtc_state" where
  "get_universal_timer XY_UTC_CLK zone_sec st =
     (if cclk_netl_sec st \<noteq> 0 then
        let now_sec = system_sec64 XY_UTC_CLK st in
        if now_sec < cclk_local_sec st \<or> cclk_local_sec st = 0
        then (None, st\<lparr>cclk_local_sec := 0\<rparr>)
        else (Some (xy_gmtime_r ((cclk_netl_sec st + now_sec - cclk_local_sec st - scast zone_sec) * 1000)), st)
      else (None, st))"

definition get_system_sec :: "u32 \<Rightarrow> rtc_state \<Rightarrow> u32" where
  "get_system_sec XY_UTC_CLK st = ucast (system_sec64 XY_UTC_CLK st)"

section \<open>The user interface\<close>

record xy_wall_clock =
  wc_sec :: u32
  wc_min :: u32
  wc_hour :: u32
  wc_mday :: u32
  wc_mon :: u32
  wc_year :: u32

definition wall_of_rtc :: "rtc_time \<Rightarrow> xy_wall_clock" where
  "wall_of_rtc t = \<lparr>wc_sec = tm_sec t, wc_min = tm_min t, wc_hour = tm_hour t, wc_mday = tm_mday t,
     wc_mon = tm_mon t, wc_year = tm_year t\<rparr>"

definition rtc_of_wall :: "xy_wall_clock \<Rightarrow> rtc_time" where
  "rtc_of_wall w = \<lparr>tm_msec = 0, tm_sec = wc_sec w, tm_min = wc_min w, tm_hour = wc_hour w,
     tm_mday = wc_mday w, tm_mon = wc_mon w, tm_year = wc_year w, tm_wday = 0, tm_yday = 0,
     tm_isdst = 0\<rparr>"

definition xy_rtc_timer_create :: "u32 \<Rightarrow> u8 \<Rightarrow> u32 \<Rightarrow> nat \<Rightarrow> nat \<Rightarrow> rtc_state \<Rightarrow> rtc_state option" where
  "xy_rtc_timer_create XY_UTC_CLK tid sec_offset callback data st =
     rtc_event_add_by_offset XY_UTC_CLK tid (scast sec_offset * 1000) callback data st"

definition xy_rtc_next_offset_by_ID :: "u32 \<Rightarrow> u8 \<Rightarrow> rtc_state \<Rightarrow> u32" where
  "xy_rtc_next_offset_by_ID XY_UTC_CLK tid st = rtc_get_next_offset_by_ID XY_UTC_CLK tid st"

definition xy_get_last_work_offset :: "u32 \<Rightarrow> rtc_state \<Rightarrow> u32" where
  "xy_get_last_work_offset XY_UTC_CLK st =
     (let now = rtc_get_global_byoffset XY_UTC_CLK 0 st in
      if rtc_snap_msec st \<noteq> 0 \<and> rtc_snap_msec st < now
      then ucast ((now div 1000 - rtc_snap_msec st) * 32 div ucast XY_UTC_CLK) else 0)"

definition xy_get_working_time :: "rtc_state \<Rightarrow> u32" where
  "xy_get_working_time st = os_tick st div 1000"

definition xy_rtc_timer_delete :: "u8 \<Rightarrow> rtc_state \<Rightarrow> rtc_state option" where
  "xy_rtc_timer_delete tid st = rtc_event_delete tid st"

definition xy_rtc_set_time :: "u32 \<Rightarrow> xy_wall_clock \<Rightarrow> u32 \<Rightarrow> rtc_state \<Rightarrow> rtc_state" where
  "xy_rtc_set_time XY_UTC_CLK w zone_sec st = reset_universal_timer XY_UTC_CLK (rtc_of_wall w) zone_sec st"

definition xy_rtc_get_time :: "u32 \<Rightarrow> rtc_state \<Rightarrow> xy_wall_clock option \<times> rtc_state" where
  "xy_rtc_get_time XY_UTC_CLK st =
     (case get_universal_timer XY_UTC_CLK 0 st of (t, st') \<Rightarrow> (map_option wall_of_rtc t, st'))"

definition xy_rtc_get_UT_offset :: "u32 \<Rightarrow> u32 \<Rightarrow> rtc_state \<Rightarrow> xy_wall_clock option \<times> rtc_state" where
  "xy_rtc_get_UT_offset XY_UTC_CLK offset_sec st =
     (case get_universal_timer XY_UTC_CLK (0 - offset_sec) st of (t, st') \<Rightarrow> (map_option wall_of_rtc t, st'))"

definition xy_rtc_get_sec :: "u32 \<Rightarrow> u32 \<Rightarrow> rtc_state \<Rightarrow> u32 \<times> rtc_state" where
  "xy_rtc_get_sec XY_UTC_CLK need_UT_time st =
     (let now_sec = get_system_sec XY_UTC_CLK st in
      if need_UT_time = 1 then
        (if cclk_netl_sec st \<noteq> 0 then
           (if ucast now_sec < cclk_local_sec st \<or> cclk_local_sec st = 0
            then (0, st\<lparr>cclk_local_sec := 0, cclk_netl_sec := 0\<rparr>)
            else (ucast (cclk_netl_sec st + (ucast now_sec - cclk_local_sec st - ucast (g_zone st) * 15 * 60)), st))
         else (0, st))
      else (now_sec, st))"

text \<open>The wait until a time of day, or of a day of the week, and the random spread on top of it.\<close>

definition day_wait :: "u32 \<Rightarrow> u32 \<Rightarrow> u32 \<Rightarrow> xy_wall_clock \<Rightarrow> u32" where
  "day_wait hour_start mi s w =
     (let sec_offset = (hour_start - wc_hour w) * 3600 + (mi - wc_min w) * 60 + (s - wc_sec w) in
      if sint sec_offset \<le> 0 then sec_offset + 3600 * 24 else sec_offset)"

definition week_wait :: "u32 \<Rightarrow> u32 \<Rightarrow> u32 \<Rightarrow> u32 \<Rightarrow> rtc_time \<Rightarrow> u32" where
  "week_wait day_week hour_start mi s t =
     (let sec_offset = (day_week - tm_wday t) * 3600 * 24 + (hour_start - tm_hour t) * 3600 +
            (mi - tm_min t) * 60 + (s - tm_sec t) in
      if sint sec_offset \<le> 0 then sec_offset + 7 * 3600 * 24 else sec_offset)"

definition rand_span :: "u32 \<Rightarrow> u32 \<Rightarrow> u32" where
  "rand_span r sec_span = of_int (sint r smod sint sec_span)"

definition xy_rtc_set_by_day ::
    "u32 \<Rightarrow> u32 \<Rightarrow> u8 \<Rightarrow> nat \<Rightarrow> nat \<Rightarrow> u32 \<Rightarrow> u32 \<Rightarrow> u32 \<Rightarrow> u32 \<Rightarrow> rtc_state \<Rightarrow> (xy_ret \<times> rtc_state) option" where
  "xy_rtc_set_by_day XY_UTC_CLK r tid callback data hour_start sec_span mi s st =
     (case xy_rtc_get_time XY_UTC_CLK st of
        (None, st1) \<Rightarrow> Some (XY_ERR, st1)
      | (Some w, st1) \<Rightarrow>
          map_option (Pair XY_OK) (xy_rtc_timer_create XY_UTC_CLK tid
            (day_wait hour_start mi s w + rand_span r sec_span) callback data st1))"

definition xy_rtc_set_by_week ::
    "u32 \<Rightarrow> u32 \<Rightarrow> u8 \<Rightarrow> nat \<Rightarrow> nat \<Rightarrow> u32 \<Rightarrow> u32 \<Rightarrow> u32 \<Rightarrow> u32 \<Rightarrow> u32 \<Rightarrow> rtc_state \<Rightarrow> (xy_ret \<times> rtc_state) option" where
  "xy_rtc_set_by_week XY_UTC_CLK r tid callback data day_week hour_start sec_span mi s st =
     (case get_universal_timer XY_UTC_CLK 0 st of
        (None, st1) \<Rightarrow> Some (XY_ERR, st1)
      | (Some t, st1) \<Rightarrow>
          map_option (Pair XY_OK) (xy_rtc_timer_create XY_UTC_CLK tid
            (week_wait day_week hour_start mi s t + rand_span r sec_span) callback data st1))"

section \<open>Setting and reading the wall clock\<close>

lemma reset_universal_timer_fields:
  "cclk_netl_sec (reset_universal_timer c t z st) = (xy_mktime t + 500) div 1000 + scast z"
  "cclk_local_sec (reset_universal_timer c t z st) = system_sec64 c st"
  by (simp_all add: reset_universal_timer_def system_sec64_def Let_def)

lemma get_after_reset:
  assumes "cclk_netl_sec st2 = (xy_mktime t + 500) div 1000 + scast z" and "cclk_netl_sec st2 \<noteq> 0"
    and "cclk_local_sec st2 \<noteq> 0" and "system_sec64 c st2 = cclk_local_sec st2 + k"
    and "cclk_local_sec st2 \<le> cclk_local_sec st2 + k"
  shows "get_universal_timer c z st2 = (Some (xy_gmtime_r (((xy_mktime t + 500) div 1000 + k) * 1000)), st2)"
  using assms by (simp add: get_universal_timer_def Let_def not_less)

lemma uint_mult_1000: "uint v * 1000 < 18446744073709551616 \<Longrightarrow> uint (v * 1000) = uint v * 1000" for v :: u64
  by (simp add: uint_word_ariths)

lemma seconds_word:
  assumes "rtc_valid t" and "rtc_msec_spec t + 500 + 1000 * uint k < msec_limit"
  shows "uint (((xy_mktime t + 500) div 1000 + k) * 1000) = ((rtc_msec_spec t + 500) div 1000 + uint k) * 1000"
proof -
  let ?n = "rtc_msec_spec t"
  have n: "uint (xy_mktime t) = ?n" using xy_mktime_exact [OF assms(1)] .
  then have n0: "0 \<le> ?n" by (metis uint_ge_0)
  have lim: "msec_limit < 9223372036854775808" by (simp add: msec_limit_def calendar_limit_def)
  have k0: "0 \<le> uint k" by simp
  have big: "?n + 500 < 18446744073709551616" "?n + 500 + 1000 * uint k < 18446744073709551616"
    using assms(2) lim k0 by linarith+
  have "uint (xy_mktime t + 500) = ?n + 500"
    using n n0 big(1) by (simp add: uint_word_ariths)
  then have q: "uint ((xy_mktime t + 500) div 1000) = (?n + 500) div 1000"
    by (simp add: uint_div)
  have b: "0 \<le> (?n + 500) div 1000" "(?n + 500) div 1000 * 1000 \<le> ?n + 500"
    using n0 by (simp_all add: pos_imp_zdiv_nonneg_iff)
  have "((?n + 500) div 1000 + uint k) * 1000 \<le> ?n + 500 + 1000 * uint k"
    using b(2) by (simp add: distrib_right)
  then have prod: "((?n + 500) div 1000 + uint k) * 1000 < 18446744073709551616"
    using big(2) by (rule le_less_trans)
  have sum: "0 \<le> (?n + 500) div 1000 + uint k"
    using b(1) k0 by simp
  then have sum': "(?n + 500) div 1000 + uint k < 18446744073709551616"
    using prod by simp
  have "uint ((xy_mktime t + 500) div 1000 + k) = (?n + 500) div 1000 + uint k"
    using q sum sum' by (simp add: uint_word_ariths)
  then show ?thesis
    using prod uint_mult_1000 [of "(xy_mktime t + 500) div 1000 + k"] by simp
qed

section \<open>Waiting for a time of day\<close>

lemma sint_word_small:
  assumes "- (2 ^ 31) \<le> D" "D < 2 ^ 31"
  shows "sint (word_of_int D :: u32) = D"
  using assms by (simp add: signed_of_int signed_take_bit_int_eq_self)

text \<open>The next instant strictly after now that is congruent to the target modulo the period.\<close>

lemma next_wait:
  fixes D P :: int
  assumes "- P < D" "D < P" "0 < P" "P < 2 ^ 30"
  defines "d \<equiv> word_of_int D :: u32"
  defines "x \<equiv> (if sint d \<le> 0 then d + word_of_int P else d)"
  shows "0 < uint x \<and> uint x \<le> P \<and> uint x mod P = D mod P"
proof -
  have s: "sint d = D" unfolding d_def by (rule sint_word_small) (use assms in auto)
  have u: "uint (word_of_int k :: u32) = k" if "0 \<le> k" "k < 2 ^ 31" for k
    using that by (simp add: uint_word_of_int)
  show ?thesis
  proof (cases "D \<le> 0")
    case True
    have "x = word_of_int (D + P)" using True by (simp add: x_def s [unfolded d_def] d_def)
    then have "uint x = D + P" using u [of "D + P"] assms by simp
    then show ?thesis using True assms by simp
  next
    case False
    then have "uint x = D" using u [of D] assms by (simp add: x_def s [unfolded d_def] d_def)
    then show ?thesis using False assms by simp
  qed
qed


definition tod :: "u32 \<Rightarrow> u32 \<Rightarrow> u32 \<Rightarrow> int" where
  "tod h mi s = uint h * 3600 + uint mi * 60 + uint s"

lemma tod_bounds: "uint h < 24 \<Longrightarrow> uint mi < 60 \<Longrightarrow> uint s < 60 \<Longrightarrow> 0 \<le> tod h mi s \<and> tod h mi s < 86400"
proof -
  assume "uint h < 24" "uint mi < 60" "uint s < 60"
  moreover have "0 \<le> uint h" "0 \<le> uint mi" "0 \<le> uint s" by simp_all
  ultimately show ?thesis unfolding tod_def by linarith
qed

lemma day_wait_word:
  "day_wait h mi s w =
     (let d = word_of_int (tod h mi s - tod (wc_hour w) (wc_min w) (wc_sec w)) in
      if sint d \<le> 0 then d + word_of_int 86400 else d)"
proof -
  have "(h - wc_hour w) * 3600 + (mi - wc_min w) * 60 + (s - wc_sec w)
      = word_of_int (tod h mi s - tod (wc_hour w) (wc_min w) (wc_sec w))"
    by (simp add: tod_def algebra_simps)
  then show ?thesis by (simp only: day_wait_def Let_def) simp
qed

lemma week_wait_word:
  "week_wait dw h mi s t =
     (let d = word_of_int ((uint dw * 86400 + tod h mi s) -
            (uint (tm_wday t) * 86400 + tod (tm_hour t) (tm_min t) (tm_sec t))) in
      if sint d \<le> 0 then d + word_of_int 604800 else d)"
proof -
  have "(dw - tm_wday t) * 3600 * 24 + (h - tm_hour t) * 3600 + (mi - tm_min t) * 60 + (s - tm_sec t)
      = word_of_int ((uint dw * 86400 + tod h mi s) -
            (uint (tm_wday t) * 86400 + tod (tm_hour t) (tm_min t) (tm_sec t)))"
    by (simp add: tod_def algebra_simps)
  then show ?thesis by (simp only: week_wait_def Let_def) simp
qed

section \<open>Properties\<close>

text \<open>
  the wall clock keeps the time it was set to. After \<^verbatim>\<open>reset_universal_timer\<close> with a time, and
  with the local second count advanced by \<open>k\<close> since, \<^verbatim>\<open>get_universal_timer\<close> for the same zone gives
  the civil time of the set time (rounded to the second) plus \<open>k\<close> seconds.
\<close>
lemma wall_clock_set_then_get:
  assumes "rtc_valid t" and "rtc_msec_spec t + 500 + 1000 * uint k < msec_limit"
    and "st1 = reset_universal_timer c t zone st"
    and "cclk_netl_sec st2 = cclk_netl_sec st1" and "cclk_local_sec st2 = cclk_local_sec st1"
    and "cclk_netl_sec st1 \<noteq> 0" and "cclk_local_sec st1 \<noteq> 0"
    and "system_sec64 c st2 = cclk_local_sec st1 + k"
    and "cclk_local_sec st1 \<le> cclk_local_sec st1 + k"
  shows "\<exists>t'. get_universal_timer c zone st2 = (Some t', st2) \<and>
     represents t' (((rtc_msec_spec t + 500) div 1000 + uint k) * 1000)"
proof -
  let ?w = "((xy_mktime t + 500) div 1000 + k) * 1000"
  have w: "uint ?w = ((rtc_msec_spec t + 500) div 1000 + uint k) * 1000"
    by (rule seconds_word [OF assms(1,2)])
  have "(rtc_msec_spec t + 500) div 1000 * 1000 \<le> rtc_msec_spec t + 500"
    by (simp add: minus_mod_eq_div_mult [symmetric])
  then have "uint ?w < msec_limit"
    unfolding w using assms(2) by (simp add: algebra_simps)
  then have "represents (xy_gmtime_r ?w) (uint ?w)"
    by (rule xy_gmtime_r_represents)
  moreover have "get_universal_timer c zone st2 = (Some (xy_gmtime_r ?w), st2)"
    by (rule get_after_reset) (use assms(3-9) reset_universal_timer_fields [of c t zone st] in simp_all)
  ultimately show ?thesis unfolding w by blast
qed

text \<open>
  \<^verbatim>\<open>xy_rtc_set_by_day\<close> waits for the next occurrence of the time of day: at least one second and
  at most one day, and the wait added to the present time of day gives the wanted one, also when it
  has already passed today.
\<close>
lemma day_wait_next_occurrence:
  assumes "uint h < 24" and "uint mi < 60" and "uint s < 60"
    and "uint (wc_hour w) < 24" and "uint (wc_min w) < 60" and "uint (wc_sec w) < 60"
  shows "0 < uint (day_wait h mi s w) \<and> uint (day_wait h mi s w) \<le> 86400 \<and>
    (tod (wc_hour w) (wc_min w) (wc_sec w) + uint (day_wait h mi s w)) mod 86400 = tod h mi s"
proof -
  let ?now = "tod (wc_hour w) (wc_min w) (wc_sec w)" and ?then = "tod h mi s"
  have b: "0 \<le> ?now" "?now < 86400" "0 \<le> ?then" "?then < 86400"
    using tod_bounds assms by auto
  have nw: "0 < uint (day_wait h mi s w) \<and> uint (day_wait h mi s w) \<le> 86400 \<and>
      uint (day_wait h mi s w) mod 86400 = (?then - ?now) mod 86400"
    unfolding day_wait_word Let_def by (rule next_wait) (use b in auto)
  then have "(?now + uint (day_wait h mi s w)) mod 86400 = (?now + (?then - ?now)) mod 86400"
    by (metis mod_add_right_eq)
  then show ?thesis using nw b by simp
qed

text \<open>
  \<^verbatim>\<open>xy_rtc_set_by_week\<close> waits for the next occurrence of the weekday and time of day: at least one
  second and at most one week, landing on the wanted second of the week.
\<close>
lemma week_wait_next_occurrence:
  assumes "1 \<le> uint dw" and "uint dw \<le> 7" and "uint h < 24" and "uint mi < 60" and "uint s < 60"
    and "represents t n"
  shows "0 < uint (week_wait dw h mi s t) \<and> uint (week_wait dw h mi s t) \<le> 604800 \<and>
    (uint (tm_wday t) * 86400 + tod (tm_hour t) (tm_min t) (tm_sec t) + uint (week_wait dw h mi s t))
      mod 604800 = (uint dw * 86400 + tod h mi s) mod 604800"
proof -
  let ?now = "uint (tm_wday t) * 86400 + tod (tm_hour t) (tm_min t) (tm_sec t)"
    and ?then = "uint dw * 86400 + tod h mi s"
  note f = represents_fields [OF assms(6)]
  have wd: "1 \<le> uint (tm_wday t)" "uint (tm_wday t) \<le> 7"
    using assms(6) pos_mod_bound [of 7 "n div 86400000 + 3"] by (auto simp: represents_def)
  have b: "0 \<le> tod (tm_hour t) (tm_min t) (tm_sec t)" "tod (tm_hour t) (tm_min t) (tm_sec t) < 86400"
    "0 \<le> tod h mi s" "tod h mi s < 86400"
    using tod_bounds f assms by auto
  have nw: "0 < uint (week_wait dw h mi s t) \<and> uint (week_wait dw h mi s t) \<le> 604800 \<and>
      uint (week_wait dw h mi s t) mod 604800 = (?then - ?now) mod 604800"
    unfolding week_wait_word Let_def by (rule next_wait) (use b wd assms(1,2) in auto)
  then have "(?now + uint (week_wait dw h mi s t)) mod 604800 = (?now + (?then - ?now)) mod 604800"
    by (metis mod_add_right_eq)
  then show ?thesis using nw by simp
qed

end
