(* ===== verification/Work_Lock.thy ===== *)
theory Work_Lock
  imports At_Params_Spec At_Com
begin

text \<open>
  The work locks that keep the chip out of deep sleep
  (\<^verbatim>\<open>src/xinyi/SYSAPP/at_cmd/src/at_worklock.c\<close>, \<^verbatim>\<open>xy_work_lock\<close> and \<^verbatim>\<open>xy_work_unlock\<close> of
  \<^verbatim>\<open>SYSAPP/system/src/xy_system.c\<close>). A counter per lock type, the delay lock bound to a
  one-shot timer, the flag \<^verbatim>\<open>HAVE_FREE_LOCK\<close> that lets the sleep code go ahead, and the
  notifications to the DSP. What leaves the component (messages, the interrupt, the RAI task, the
  forced \<^verbatim>\<open>AT+CFUN=5\<close>) is recorded in \<open>outputs\<close>. The counters are exact integers (two to the 31st nested
  requests would be needed to wrap them); the recursive mutex, which every function releases on
  the path that took it, and the debug prints are left out.
\<close>

section \<open>State\<close>

datatype WORK_LOCK_TYPE_E = LOCK_DEFAULT | LOCK_XY_LOCAL | LOCK_DELAY | LOCK_EXT

lemma all_lock_types:
  "(\<forall>ty. P ty) \<longleftrightarrow> P LOCK_DEFAULT \<and> P LOCK_XY_LOCAL \<and> P LOCK_DELAY \<and> P LOCK_EXT"
  by (metis WORK_LOCK_TYPE_E.exhaust)

lemma ex_lock_types:
  "(\<exists>ty. P ty) \<longleftrightarrow> P LOCK_DEFAULT \<or> P LOCK_XY_LOCAL \<or> P LOCK_DELAY \<or> P LOCK_EXT"
  by (metis WORK_LOCK_TYPE_E.exhaust)

lemma UNIV_lock_types: "UNIV = {LOCK_DEFAULT, LOCK_XY_LOCAL, LOCK_DELAY, LOCK_EXT}"
  by (auto intro: WORK_LOCK_TYPE_E.exhaust)

text \<open>The lock types are enumerable, so statements over all of them can be evaluated.\<close>

instantiation WORK_LOCK_TYPE_E :: enum
begin

definition enum_WORK_LOCK_TYPE_E :: "WORK_LOCK_TYPE_E list" where
  "enum_WORK_LOCK_TYPE_E = [LOCK_DEFAULT, LOCK_XY_LOCAL, LOCK_DELAY, LOCK_EXT]"

definition enum_all_WORK_LOCK_TYPE_E :: "(WORK_LOCK_TYPE_E \<Rightarrow> bool) \<Rightarrow> bool" where
  "enum_all_WORK_LOCK_TYPE_E P \<longleftrightarrow> P LOCK_DEFAULT \<and> P LOCK_XY_LOCAL \<and> P LOCK_DELAY \<and> P LOCK_EXT"

definition enum_ex_WORK_LOCK_TYPE_E :: "(WORK_LOCK_TYPE_E \<Rightarrow> bool) \<Rightarrow> bool" where
  "enum_ex_WORK_LOCK_TYPE_E P \<longleftrightarrow> P LOCK_DEFAULT \<or> P LOCK_XY_LOCAL \<or> P LOCK_DELAY \<or> P LOCK_EXT"

instance
  by standard
    (auto simp: enum_WORK_LOCK_TYPE_E_def enum_all_WORK_LOCK_TYPE_E_def enum_ex_WORK_LOCK_TYPE_E_def
      all_lock_types ex_lock_types UNIV_lock_types)

end

datatype MSG_USER_LOCK = MSG_UNLOCK | MSG_LOCK | MSG_FASTOFF

datatype wl_output = Shm_msg MSG_USER_LOCK | Dsp_irq | Rai_task | Cfun5

record wl_state =
  lock_num :: "WORK_LOCK_TYPE_E \<Rightarrow> int"
  free_lock_flag :: bool
  delay_timer_made :: bool
  delay_timer_running :: bool
  have_lock_ext :: bool
  at_lock :: bool
  user_lock_state :: bool
  rai_handle :: bool
  outputs :: "wl_output list"
  deepsleep_enable :: bool
  deepsleep_delay :: nat
  ext_lock_disable :: bool
  close_rai :: bool
  dsp_loaded :: bool
  check_valid_sim :: bool

definition emit :: "wl_output \<Rightarrow> wl_state \<Rightarrow> wl_state" where
  "emit out st = st\<lparr>outputs := outputs st @ [out]\<rparr>"

definition set_num :: "WORK_LOCK_TYPE_E \<Rightarrow> int \<Rightarrow> wl_state \<Rightarrow> wl_state" where
  "set_num ty n st = st\<lparr>lock_num := (lock_num st)(ty := n)\<rparr>"

section \<open>Operations\<close>

definition create_send_rai_task :: "wl_state \<Rightarrow> wl_state" where
  "create_send_rai_task st =
     (if close_rai st then st
      else if \<not> rai_handle st then emit Rai_task (st\<lparr>rai_handle := True\<rparr>) else st)"

definition xy_delaylock_suspend :: "wl_state \<Rightarrow> wl_state" where
  "xy_delaylock_suspend st =
     (if \<not> deepsleep_enable st \<or> deepsleep_delay st = 0 \<or> lock_num st LOCK_DELAY = 0 then st
      else
        let st1 = (if delay_timer_made st \<and> delay_timer_running st
                   then st\<lparr>delay_timer_running := False\<rparr> else st)
        in set_num LOCK_DELAY 0 st1)"

definition notify_dsp :: "bool \<Rightarrow> wl_state \<Rightarrow> wl_state" where
  "notify_dsp locked st =
     emit (Shm_msg (if locked then MSG_LOCK else MSG_UNLOCK)) (st\<lparr>user_lock_state := locked\<rparr>)"

definition increase_worklock :: "WORK_LOCK_TYPE_E \<Rightarrow> wl_state \<Rightarrow> wl_state" where
  "increase_worklock ty st =
     (if \<not> deepsleep_enable st then st
      else
        let st0 = st\<lparr>free_lock_flag := False\<rparr> in
        if ty = LOCK_EXT \<and> lock_num st0 ty = 1 \<and> \<not> have_lock_ext st0 \<and> \<not> ext_lock_disable st0
        then st0\<lparr>have_lock_ext := True\<rparr>
        else
          let st1 = set_num ty (lock_num st0 ty + 1) st0;
              st2 = (if ty = LOCK_EXT then xy_delaylock_suspend st1 else st1)
          in if (ty = LOCK_DEFAULT \<or> ty = LOCK_EXT) \<and>
                lock_num st2 LOCK_DEFAULT + lock_num st2 LOCK_EXT = 1 \<and> dsp_loaded st2
             then notify_dsp True st2 else st2)"

definition decrease_worklock :: "WORK_LOCK_TYPE_E \<Rightarrow> wl_state \<Rightarrow> wl_state" where
  "decrease_worklock ty st =
     (if \<not> deepsleep_enable st then st
      else
        let st1 = (if lock_num st ty > 0 then
                     let s = set_num ty (lock_num st ty - 1) st in
                     if ty = LOCK_EXT \<and> lock_num s LOCK_EXT = 0 then s\<lparr>have_lock_ext := True\<rparr> else s
                   else st);
            st2 = (if (ty = LOCK_EXT \<or> ty = LOCK_DEFAULT) \<and>
                      lock_num st1 LOCK_EXT + lock_num st1 LOCK_DEFAULT = 0
                   then let s = xy_delaylock_suspend st1 in
                        if dsp_loaded s then notify_dsp False s else s
                   else st1);
            st3 = (if ty \<noteq> LOCK_DELAY \<and>
                      lock_num st2 LOCK_XY_LOCAL + lock_num st2 LOCK_DEFAULT + lock_num st2 LOCK_EXT = 0 \<and>
                      dsp_loaded st2
                   then let s = (if \<not> check_valid_sim st2 then emit Cfun5 st2 else st2) in
                        if ty \<noteq> LOCK_XY_LOCAL then create_send_rai_task s else s
                   else st2)
        in if lock_num st3 LOCK_XY_LOCAL + lock_num st3 LOCK_DEFAULT + lock_num st3 LOCK_EXT +
              lock_num st3 LOCK_DELAY = 0
           then let s = st3\<lparr>free_lock_flag := True\<rparr> in if dsp_loaded s then emit Dsp_irq s else s
           else st3)"

definition get_locknum_by_type :: "WORK_LOCK_TYPE_E \<Rightarrow> wl_state \<Rightarrow> int" where
  "get_locknum_by_type ty st = lock_num st ty"

text \<open>\<open>xy_work_lock\<close> and \<open>xy_work_unlock\<close> assert that the counters' functions return 1, which they do.\<close>

definition xy_work_lock :: "WORK_LOCK_TYPE_E \<Rightarrow> wl_state \<Rightarrow> wl_state" where
  "xy_work_lock ty st = increase_worklock ty st"

definition xy_work_unlock :: "WORK_LOCK_TYPE_E \<Rightarrow> wl_state \<Rightarrow> wl_state" where
  "xy_work_unlock ty st = decrease_worklock ty st"

definition deepsleep_delay_callback :: "wl_state \<Rightarrow> wl_state" where
  "deepsleep_delay_callback st = xy_work_unlock LOCK_DELAY st"

definition xy_delaylock_active :: "wl_state \<Rightarrow> wl_state" where
  "xy_delaylock_active st =
     (if \<not> deepsleep_enable st \<or> deepsleep_delay st = 0 \<or> get_locknum_by_type LOCK_EXT st \<ge> 1 then st
      else if \<not> delay_timer_made st
      then (xy_work_lock LOCK_DELAY st)\<lparr>delay_timer_made := True, delay_timer_running := True\<rparr>
      else
        let st1 = (if \<not> delay_timer_running st then xy_work_lock LOCK_DELAY st else st)
        in st1\<lparr>delay_timer_running := True\<rparr>)"

definition set_lock_by_MCU_at :: "bool \<Rightarrow> wl_state \<Rightarrow> wl_state" where
  "set_lock_by_MCU_at operation_ver st =
     (if \<not> deepsleep_enable st then st
      else
        let st1 = xy_delaylock_active st in
        if operation_ver then st1
        else if \<not> at_lock st1 \<and> \<not> ext_lock_disable st1
        then (increase_worklock LOCK_EXT st1)\<lparr>at_lock := True\<rparr>
        else st1)"

definition clear_xy_worklock :: "wl_state \<Rightarrow> wl_state" where
  "clear_xy_worklock st =
     (let st1 = set_num LOCK_XY_LOCAL 0 (xy_delaylock_suspend st) in
      if lock_num st1 LOCK_DEFAULT + lock_num st1 LOCK_EXT = 0 then notify_dsp False st1 else st1)"

definition do_unlock_all :: "bool \<Rightarrow> wl_state \<Rightarrow> wl_state" where
  "do_unlock_all fastoff st =
     (let st1 = (set_num LOCK_EXT 0 (set_num LOCK_DEFAULT 0 (set_num LOCK_XY_LOCAL 0
                  (xy_delaylock_suspend st))))\<lparr>free_lock_flag := True\<rparr> in
      if \<not> fastoff then create_send_rai_task (notify_dsp False st1) else st1)"

definition xy_unlock_all :: "wl_state \<Rightarrow> wl_state" where
  "xy_unlock_all st = do_unlock_all False st"

section \<open>The AT command\<close>

definition LOCK_EXT_code :: int where "LOCK_EXT_code = 3"

definition worklock_query :: "wl_state \<Rightarrow> string" where
  "worklock_query st =
     [CR, LF] @ ''+WORKLOCK:'' @ show_dec (lock_num st LOCK_DEFAULT) @ COMMA # show_dec (lock_num st LOCK_XY_LOCAL)
     @ COMMA # show_dec (lock_num st LOCK_DELAY) @ COMMA # show_dec (lock_num st LOCK_EXT)
     @ [CR, LF, CR, LF] @ ''OK'' @ [CR, LF]"

definition at_WORKLOCK_req ::
    "at_req_type \<Rightarrow> memory \<Rightarrow> nat \<Rightarrow> wl_state \<Rightarrow> (at_rsp \<times> wl_state) option" where
  "at_WORKLOCK_req g_req_type m at_buf st =
     (case g_req_type of
        AT_CMD_REQ \<Rightarrow>
          if \<not> deepsleep_enable st then Some (No_rsp, st)
          else
            (case at_parse_param ''%d,%d'' m at_buf of
               None \<Rightarrow> None
             | Some (r, ap, m') \<Rightarrow>
                 let enable = int_dest ap 0 0; type = int_dest ap 1 LOCK_EXT_code in
                 if r \<noteq> AT_OK \<or> type \<noteq> LOCK_EXT_code then Some (Err_rsp ATERR_PARAM_INVALID, st)
                 else if enable = 1 then Some (No_rsp, increase_worklock LOCK_EXT st)
                 else if enable = 0 then Some (No_rsp, decrease_worklock LOCK_EXT st)
                 else Some (Err_rsp ATERR_PARAM_INVALID, st))
      | AT_CMD_TEST \<Rightarrow>
          Some (Rsp ([CR, LF] @ ''+WORKLOCK:(0-1)[,(0-1)]'' @ [CR, LF, CR, LF] @ ''OK'' @ [CR, LF]), st)
      | AT_CMD_QUERY \<Rightarrow> Some (Rsp (worklock_query st), st)
      | AT_CMD_ACTIVE \<Rightarrow> Some (Err_rsp ATERR_PARAM_INVALID, st))"

section \<open>Runs of the component\<close>

text \<open>
  The events that reach the component. Users take and release every lock but the delay lock,
  which only its timer and the first AT command handle; \<open>Timer_expired\<close> is the one-shot timer
  running out.
\<close>

datatype wl_event =
    User_lock WORK_LOCK_TYPE_E | User_unlock WORK_LOCK_TYPE_E | Delay_active | Timer_expired
  | Mcu_at bool | Clear_internal | Unlock_all

inductive wl_step :: "wl_state \<Rightarrow> wl_event \<Rightarrow> wl_state \<Rightarrow> bool" where
  lock: "ty \<noteq> LOCK_DELAY \<Longrightarrow> wl_step st (User_lock ty) (xy_work_lock ty st)"
| unlock: "ty \<noteq> LOCK_DELAY \<Longrightarrow> wl_step st (User_unlock ty) (xy_work_unlock ty st)"
| active: "wl_step st Delay_active (xy_delaylock_active st)"
| expired: "delay_timer_running st \<Longrightarrow>
    wl_step st Timer_expired (deepsleep_delay_callback (st\<lparr>delay_timer_running := False\<rparr>))"
| mcu: "wl_step st (Mcu_at ov) (set_lock_by_MCU_at ov st)"
| clear: "wl_step st Clear_internal (clear_xy_worklock st)"
| unlock_all: "wl_step st Unlock_all (xy_unlock_all st)"

inductive wl_reachable :: "wl_state \<Rightarrow> wl_state \<Rightarrow> bool" for st0 where
  start: "wl_reachable st0 st0"
| step: "wl_reachable st0 st \<Longrightarrow> wl_step st e st' \<Longrightarrow> wl_reachable st0 st'"

inductive_cases wl_stepE: "wl_step st e st'"

text \<open>
  The invariant: counters are not negative; the delay lock is held exactly once while its timer
  runs, and not at all otherwise; sleep is permitted only when no lock is held; and the DSP, once
  loaded, has been told to stay up whenever a user or external lock is held.
\<close>

definition user_locks :: "wl_state \<Rightarrow> int" where
  "user_locks st = lock_num st LOCK_DEFAULT + lock_num st LOCK_EXT"

definition all_locks :: "wl_state \<Rightarrow> int" where
  "all_locks st = user_locks st + lock_num st LOCK_XY_LOCAL + lock_num st LOCK_DELAY"

definition delay_inv :: "wl_state \<Rightarrow> bool" where
  "delay_inv st \<longleftrightarrow> lock_num st LOCK_DELAY = (if delay_timer_running st then 1 else 0) \<and>
     (delay_timer_running st \<longrightarrow> delay_timer_made st \<and> deepsleep_enable st \<and> deepsleep_delay st \<noteq> 0)"

definition wl_inv :: "wl_state \<Rightarrow> bool" where
  "wl_inv st \<longleftrightarrow> (\<forall>ty. 0 \<le> lock_num st ty) \<and> delay_inv st \<and>
     (free_lock_flag st \<longrightarrow> all_locks st = 0) \<and>
     (dsp_loaded st \<and> 0 < user_locks st \<longrightarrow> user_lock_state st)"

lemma wl_simps [simp]:
  "lock_num (set_num ty n st) = (lock_num st)(ty := n)"
  "lock_num (emit out st) = lock_num st" "lock_num (notify_dsp b st) = lock_num st"
  "lock_num (create_send_rai_task st) = lock_num st"
  "free_lock_flag (set_num ty n st) = free_lock_flag st" "free_lock_flag (emit out st) = free_lock_flag st"
  "free_lock_flag (notify_dsp b st) = free_lock_flag st"
  "free_lock_flag (create_send_rai_task st) = free_lock_flag st"
  "delay_timer_running (set_num ty n st) = delay_timer_running st"
  "delay_timer_running (emit out st) = delay_timer_running st"
  "delay_timer_running (notify_dsp b st) = delay_timer_running st"
  "delay_timer_running (create_send_rai_task st) = delay_timer_running st"
  "delay_timer_made (set_num ty n st) = delay_timer_made st"
  "delay_timer_made (emit out st) = delay_timer_made st"
  "delay_timer_made (notify_dsp b st) = delay_timer_made st"
  "delay_timer_made (create_send_rai_task st) = delay_timer_made st"
  "user_lock_state (set_num ty n st) = user_lock_state st"
  "user_lock_state (emit out st) = user_lock_state st" "user_lock_state (notify_dsp b st) = b"
  "user_lock_state (create_send_rai_task st) = user_lock_state st"
  by (simp_all add: set_num_def emit_def notify_dsp_def create_send_rai_task_def)

lemma wl_config [simp]:
  "deepsleep_enable (set_num ty n st) = deepsleep_enable st" "deepsleep_enable (emit out st) = deepsleep_enable st"
  "deepsleep_enable (notify_dsp b st) = deepsleep_enable st"
  "deepsleep_enable (create_send_rai_task st) = deepsleep_enable st"
  "deepsleep_delay (set_num ty n st) = deepsleep_delay st" "deepsleep_delay (emit out st) = deepsleep_delay st"
  "deepsleep_delay (notify_dsp b st) = deepsleep_delay st"
  "deepsleep_delay (create_send_rai_task st) = deepsleep_delay st"
  "dsp_loaded (set_num ty n st) = dsp_loaded st" "dsp_loaded (emit out st) = dsp_loaded st"
  "dsp_loaded (notify_dsp b st) = dsp_loaded st" "dsp_loaded (create_send_rai_task st) = dsp_loaded st"
  by (simp_all add: set_num_def emit_def notify_dsp_def create_send_rai_task_def)

text \<open>What each operation does to the five fields the invariant reads.\<close>

lemma suspend_effect:
  assumes "delay_inv st"
  shows "lock_num (xy_delaylock_suspend st) = (lock_num st)(LOCK_DELAY := 0)"
    and "delay_timer_running (xy_delaylock_suspend st) = False"
    and "delay_timer_made (xy_delaylock_suspend st) = delay_timer_made st"
    and "free_lock_flag (xy_delaylock_suspend st) = free_lock_flag st"
    and "user_lock_state (xy_delaylock_suspend st) = user_lock_state st"
    and "dsp_loaded (xy_delaylock_suspend st) = dsp_loaded st"
    and "deepsleep_enable (xy_delaylock_suspend st) = deepsleep_enable st"
    and "deepsleep_delay (xy_delaylock_suspend st) = deepsleep_delay st"
  using assms by (auto simp: xy_delaylock_suspend_def delay_inv_def Let_def fun_eq_iff split: if_splits)


lemma delay_inv_cong:
  "lock_num st' LOCK_DELAY = lock_num st LOCK_DELAY \<Longrightarrow>
   delay_timer_running st' = delay_timer_running st \<Longrightarrow> delay_timer_made st' = delay_timer_made st \<Longrightarrow>
   deepsleep_enable st' = deepsleep_enable st \<Longrightarrow> deepsleep_delay st' = deepsleep_delay st \<Longrightarrow>
   delay_inv st' = delay_inv st"
  by (simp add: delay_inv_def)

lemma wl_inv_nonneg: "wl_inv st \<Longrightarrow> 0 \<le> lock_num st ty"
  by (simp add: wl_inv_def)

lemma user_locks_nonneg: "wl_inv st \<Longrightarrow> 0 \<le> user_locks st"
  using wl_inv_nonneg [of st LOCK_DEFAULT] wl_inv_nonneg [of st LOCK_EXT] by (simp add: user_locks_def)

lemmas wl_inv_unfold = wl_inv_def all_lock_types delay_inv_def all_locks_def user_locks_def

lemma increase_inv:
  assumes inv: "wl_inv st" and ty: "ty \<noteq> LOCK_DELAY"
  shows "wl_inv (increase_worklock ty st)"
proof (cases "deepsleep_enable st")
  case False
  then show ?thesis using inv by (simp add: increase_worklock_def)
next
  case en: True
  note i = inv [unfolded wl_inv_unfold]
  show ?thesis
  proof (cases ty)
    case LOCK_XY_LOCAL
    then show ?thesis
      using i en unfolding wl_inv_unfold by (simp add: increase_worklock_def Let_def)
  next
    case LOCK_DEFAULT
    then show ?thesis
      using i en unfolding wl_inv_unfold
      by (cases "dsp_loaded st"; cases "lock_num st LOCK_DEFAULT + 1 + lock_num st LOCK_EXT = 1")
        (simp_all add: increase_worklock_def Let_def)
  next
    case LOCK_EXT
    let ?st1 = "set_num LOCK_EXT (lock_num st LOCK_EXT + 1) (st\<lparr>free_lock_flag := False\<rparr>)"
    have "delay_inv ?st1" using i by (simp add: delay_inv_def)
    note sus = suspend_effect [OF this]
    show ?thesis
    proof (cases "lock_num st LOCK_EXT = 1 \<and> \<not> have_lock_ext st \<and> \<not> ext_lock_disable st")
      case True
      then show ?thesis
        using i en LOCK_EXT unfolding wl_inv_unfold by (simp add: increase_worklock_def Let_def)
    next
      case False
      then have "increase_worklock ty st =
          (let s = xy_delaylock_suspend ?st1 in
           if lock_num s LOCK_DEFAULT + lock_num s LOCK_EXT = 1 \<and> dsp_loaded s then notify_dsp True s else s)"
        using en LOCK_EXT by (auto simp: increase_worklock_def Let_def)
      then show ?thesis
        using i unfolding wl_inv_unfold
        by (cases "dsp_loaded st"; cases "lock_num st LOCK_DEFAULT + (lock_num st LOCK_EXT + 1) = 1")
          (simp_all add: Let_def sus)
    qed
  qed (use ty in simp)
qed

lemma increase_delay:
  "deepsleep_enable st \<Longrightarrow> increase_worklock LOCK_DELAY st =
   set_num LOCK_DELAY (lock_num st LOCK_DELAY + 1) (st\<lparr>free_lock_flag := False\<rparr>)"
  by (simp add: increase_worklock_def Let_def)




text \<open>
  The effect of a release, in closed form: \<open>rel\<close> are the counters after the decrement, and the
  delay lock goes when it was the last user or external lock.
\<close>

definition rel :: "WORK_LOCK_TYPE_E \<Rightarrow> wl_state \<Rightarrow> WORK_LOCK_TYPE_E \<Rightarrow> int" where
  "rel ty st = (lock_num st)(ty := (if lock_num st ty > 0 then lock_num st ty - 1 else lock_num st ty))"

definition last_user :: "WORK_LOCK_TYPE_E \<Rightarrow> wl_state \<Rightarrow> bool" where
  "last_user ty st \<longleftrightarrow> (ty = LOCK_EXT \<or> ty = LOCK_DEFAULT) \<and> rel ty st LOCK_EXT + rel ty st LOCK_DEFAULT = 0"

definition rel_nums :: "WORK_LOCK_TYPE_E \<Rightarrow> wl_state \<Rightarrow> WORK_LOCK_TYPE_E \<Rightarrow> int" where
  "rel_nums ty st = (if last_user ty st then (rel ty st)(LOCK_DELAY := 0) else rel ty st)"

lemma decrease_effect:
  assumes d: "delay_inv st \<or> ty = LOCK_DELAY" and en: "deepsleep_enable st"
  defines "r \<equiv> decrease_worklock ty st"
  shows "lock_num r = rel_nums ty st"
    and "delay_timer_running r = (if last_user ty st then False else delay_timer_running st)"
    and "delay_timer_made r = delay_timer_made st"
    and "user_lock_state r = (if last_user ty st \<and> dsp_loaded st then False else user_lock_state st)"
    and "free_lock_flag r = (rel_nums ty st LOCK_XY_LOCAL + rel_nums ty st LOCK_DEFAULT +
           rel_nums ty st LOCK_EXT + rel_nums ty st LOCK_DELAY = 0 \<or> free_lock_flag st)"
    and "deepsleep_enable r = deepsleep_enable st" and "deepsleep_delay r = deepsleep_delay st"
    and "dsp_loaded r = dsp_loaded st"
proof -
  define st1 where "st1 = (if lock_num st ty > 0 then
      let s = set_num ty (lock_num st ty - 1) st in
      if ty = LOCK_EXT \<and> lock_num s LOCK_EXT = 0 then s\<lparr>have_lock_ext := True\<rparr> else s
    else st)"
  have f1: "lock_num st1 = rel ty st" "delay_timer_running st1 = delay_timer_running st"
    "delay_timer_made st1 = delay_timer_made st" "user_lock_state st1 = user_lock_state st"
    "free_lock_flag st1 = free_lock_flag st" "deepsleep_enable st1 = deepsleep_enable st"
    "deepsleep_delay st1 = deepsleep_delay st" "dsp_loaded st1 = dsp_loaded st"
    by (simp_all add: st1_def rel_def Let_def fun_eq_iff)
  define st2 where "st2 = (if (ty = LOCK_EXT \<or> ty = LOCK_DEFAULT) \<and>
        lock_num st1 LOCK_EXT + lock_num st1 LOCK_DEFAULT = 0
      then let s = xy_delaylock_suspend st1 in if dsp_loaded s then notify_dsp False s else s
      else st1)"
  have last: "((ty = LOCK_EXT \<or> ty = LOCK_DEFAULT) \<and> lock_num st1 LOCK_EXT + lock_num st1 LOCK_DEFAULT = 0)
      \<longleftrightarrow> last_user ty st"
    by (simp add: last_user_def f1)
  have d1: "delay_inv st1" if "last_user ty st"
  proof -
    have "rel ty st LOCK_DELAY = lock_num st LOCK_DELAY" and "ty \<noteq> LOCK_DELAY"
      using that by (auto simp: last_user_def rel_def)
    then show ?thesis
      using d delay_inv_cong [of st1 st] by (simp add: f1)
  qed
  have f2: "lock_num st2 = rel_nums ty st"
    "delay_timer_running st2 = (if last_user ty st then False else delay_timer_running st)"
    "delay_timer_made st2 = delay_timer_made st"
    "user_lock_state st2 = (if last_user ty st \<and> dsp_loaded st then False else user_lock_state st)"
    "free_lock_flag st2 = free_lock_flag st" "deepsleep_enable st2 = deepsleep_enable st"
    "deepsleep_delay st2 = deepsleep_delay st" "dsp_loaded st2 = dsp_loaded st"
    unfolding st2_def last using suspend_effect [OF d1] by (simp_all add: f1 rel_nums_def Let_def)
  define st3 where "st3 = (if ty \<noteq> LOCK_DELAY \<and>
        lock_num st2 LOCK_XY_LOCAL + lock_num st2 LOCK_DEFAULT + lock_num st2 LOCK_EXT = 0 \<and> dsp_loaded st2
      then let s = (if \<not> check_valid_sim st2 then emit Cfun5 st2 else st2) in
           if ty \<noteq> LOCK_XY_LOCAL then create_send_rai_task s else s
      else st2)"
  have f3: "lock_num st3 = lock_num st2" "delay_timer_running st3 = delay_timer_running st2"
    "delay_timer_made st3 = delay_timer_made st2" "user_lock_state st3 = user_lock_state st2"
    "free_lock_flag st3 = free_lock_flag st2" "deepsleep_enable st3 = deepsleep_enable st2"
    "deepsleep_delay st3 = deepsleep_delay st2" "dsp_loaded st3 = dsp_loaded st2"
    by (simp_all add: st3_def Let_def)
  have r: "r = (if lock_num st3 LOCK_XY_LOCAL + lock_num st3 LOCK_DEFAULT + lock_num st3 LOCK_EXT +
        lock_num st3 LOCK_DELAY = 0
      then let s = st3\<lparr>free_lock_flag := True\<rparr> in if dsp_loaded s then emit Dsp_irq s else s
      else st3)"
    using en unfolding r_def decrease_worklock_def Let_def st1_def [unfolded Let_def, symmetric]
      st2_def [unfolded Let_def, symmetric] st3_def [unfolded Let_def, symmetric] by simp
  show "lock_num r = rel_nums ty st"
    and "delay_timer_running r = (if last_user ty st then False else delay_timer_running st)"
    and "delay_timer_made r = delay_timer_made st"
    and "user_lock_state r = (if last_user ty st \<and> dsp_loaded st then False else user_lock_state st)"
    and "free_lock_flag r = (rel_nums ty st LOCK_XY_LOCAL + rel_nums ty st LOCK_DEFAULT +
           rel_nums ty st LOCK_EXT + rel_nums ty st LOCK_DELAY = 0 \<or> free_lock_flag st)"
    and "deepsleep_enable r = deepsleep_enable st" and "deepsleep_delay r = deepsleep_delay st"
    and "dsp_loaded r = dsp_loaded st"
    unfolding r Let_def by (simp_all add: f3 f2)
qed

lemma decrease_inv:
  assumes inv: "wl_inv st" and ty: "ty \<noteq> LOCK_DELAY"
  shows "wl_inv (decrease_worklock ty st)"
proof (cases "deepsleep_enable st")
  case False
  then show ?thesis using inv by (simp add: decrease_worklock_def)
next
  case True
  note i = inv [unfolded wl_inv_unfold]
  have "delay_inv st" using inv by (simp add: wl_inv_def)
  then have e: "delay_inv st \<or> ty = LOCK_DELAY" ..
  note f = decrease_effect [OF e True]
  show ?thesis
    using i ty unfolding wl_inv_unfold f
    by (cases ty; cases "last_user ty st") (auto simp: rel_nums_def rel_def last_user_def)
qed


section \<open>The invariant holds in every reachable state\<close>

lemma delay_lock_taken:
  assumes inv: "wl_inv st" and en: "deepsleep_enable st" "deepsleep_delay st \<noteq> 0"
    and idle: "\<not> delay_timer_running st"
  shows "wl_inv ((increase_worklock LOCK_DELAY st)\<lparr>delay_timer_made := True, delay_timer_running := True\<rparr>)"
  using inv idle en unfolding increase_delay [OF en(1)] wl_inv_unfold by simp

lemma active_inv:
  assumes inv: "wl_inv st"
  shows "wl_inv (xy_delaylock_active st)"
proof (cases "\<not> deepsleep_enable st \<or> deepsleep_delay st = 0 \<or> get_locknum_by_type LOCK_EXT st \<ge> 1")
  case True
  then show ?thesis using inv by (simp add: xy_delaylock_active_def)
next
  case False
  then have en: "deepsleep_enable st" "deepsleep_delay st \<noteq> 0" by auto
  show ?thesis
  proof (cases "delay_timer_running st")
    case True
    then have "xy_delaylock_active st = st"
      using False inv by (simp add: xy_delaylock_active_def Let_def wl_inv_def delay_inv_def)
    then show ?thesis using inv by simp
  next
    case idle: False
    have "xy_delaylock_active st =
        (increase_worklock LOCK_DELAY st)\<lparr>delay_timer_made := True, delay_timer_running := True\<rparr>"
      unfolding xy_delaylock_active_def if_not_P [OF False] using idle en
      by (simp add: xy_work_lock_def increase_delay set_num_def Let_def)
    then show ?thesis using delay_lock_taken [OF inv en idle] by simp
  qed
qed

lemma expired_inv:
  assumes inv: "wl_inv st" and run: "delay_timer_running st"
  shows "wl_inv (deepsleep_delay_callback (st\<lparr>delay_timer_running := False\<rparr>))"
proof -
  let ?st = "st\<lparr>delay_timer_running := False\<rparr>"
  note i = inv [unfolded wl_inv_unfold]
  have en: "deepsleep_enable ?st" using i run by simp
  have e: "delay_inv ?st \<or> LOCK_DELAY = LOCK_DELAY" by simp
  note f = decrease_effect [OF e en]
  show ?thesis
    using i run unfolding deepsleep_delay_callback_def xy_work_unlock_def wl_inv_unfold f
    by (auto simp: rel_nums_def rel_def last_user_def)
qed

lemma clear_inv:
  assumes inv: "wl_inv st"
  shows "wl_inv (clear_xy_worklock st)"
proof -
  have "delay_inv st" using inv by (simp add: wl_inv_def)
  note sus = suspend_effect [OF this]
  show ?thesis
    using inv [unfolded wl_inv_unfold] unfolding wl_inv_unfold clear_xy_worklock_def Let_def
    by (cases "lock_num st LOCK_DEFAULT + lock_num st LOCK_EXT = 0") (auto simp: sus)
qed

lemma unlock_all_inv:
  assumes inv: "wl_inv st"
  shows "wl_inv (do_unlock_all fastoff st)"
proof -
  have "delay_inv st" using inv by (simp add: wl_inv_def)
  note sus = suspend_effect [OF this]
  show ?thesis
    unfolding wl_inv_unfold do_unlock_all_def Let_def by (cases fastoff) (simp_all add: sus)
qed

lemma wl_inv_at_lock [simp]: "wl_inv (st\<lparr>at_lock := b\<rparr>) = wl_inv st"
  by (simp add: wl_inv_def all_locks_def user_locks_def delay_inv_def)

lemma mcu_inv:
  assumes "wl_inv st"
  shows "wl_inv (set_lock_by_MCU_at ov st)"
  using assms active_inv [OF assms] increase_inv [OF active_inv [OF assms], of LOCK_EXT]
  by (simp add: set_lock_by_MCU_at_def Let_def)

lemma wl_step_inv:
  assumes "wl_step st e st'" and "wl_inv st"
  shows "wl_inv st'"
  using assms
  by (cases rule: wl_step.cases)
    (auto simp: xy_work_lock_def xy_work_unlock_def xy_unlock_all_def
      intro: increase_inv decrease_inv active_inv expired_inv clear_inv unlock_all_inv mcu_inv)

lemma wl_reachable_inv: "wl_reachable st0 st \<Longrightarrow> wl_inv st0 \<Longrightarrow> wl_inv st"
  by (induction rule: wl_reachable.induct) (auto intro: wl_step_inv)


section \<open>Properties\<close>

lemma suspend_frame:
  "outputs (xy_delaylock_suspend st) = outputs st" "check_valid_sim (xy_delaylock_suspend st) = check_valid_sim st"
  "close_rai (xy_delaylock_suspend st) = close_rai st" "rai_handle (xy_delaylock_suspend st) = rai_handle st"
  "at_lock (xy_delaylock_suspend st) = at_lock st" "have_lock_ext (xy_delaylock_suspend st) = have_lock_ext st"
  "ext_lock_disable (xy_delaylock_suspend st) = ext_lock_disable st"
  by (simp_all add: xy_delaylock_suspend_def set_num_def Let_def)

lemma release_outputs:
  assumes inv: "delay_inv st" and en: "deepsleep_enable st" and ty: "ty = LOCK_DEFAULT \<or> ty = LOCK_EXT"
    and one: "lock_num st ty = 1" and z: "\<And>t. t \<noteq> ty \<Longrightarrow> t \<noteq> LOCK_DELAY \<Longrightarrow> lock_num st t = 0"
  shows "outputs (decrease_worklock ty st) = outputs st @
      (if dsp_loaded st then [Shm_msg MSG_UNLOCK] @ (if check_valid_sim st then [] else [Cfun5]) @
         (if close_rai st \<or> rai_handle st then [] else [Rai_task]) @ [Dsp_irq]
       else [])"
proof -
  let ?st1 = "let s = set_num ty 0 st in if ty = LOCK_EXT then s\<lparr>have_lock_ext := True\<rparr> else s"
  have "lock_num ?st1 LOCK_DELAY = lock_num st LOCK_DELAY" using ty by (auto simp: Let_def)
  then have "delay_inv ?st1" using inv delay_inv_cong [of ?st1 st] by (simp add: Let_def)
  note sus = suspend_effect [OF this] suspend_frame
  show ?thesis
    using en ty one z [of LOCK_DEFAULT] z [of LOCK_EXT] z [of LOCK_XY_LOCAL] sus
    unfolding decrease_worklock_def
    by (elim disjE; simp add: Let_def; simp add: emit_def notify_dsp_def create_send_rai_task_def set_num_def)
qed

text \<open>C10: in every state the component can reach through any interleaving of lock and unlock calls,
  incoming AT commands, timer expiries and the bulk releases, no counter is negative, the delay
  lock is held exactly once while its one-shot timer runs and not at all otherwise, sleep is
  permitted only when no lock of any type is held, and a loaded DSP has been told to stay up
  whenever a user or external lock is held.\<close>

theorem work_lock_invariant:
  assumes "wl_reachable st0 st" and "wl_inv st0"
  shows "(\<forall>ty. 0 \<le> lock_num st ty) \<and>
    lock_num st LOCK_DELAY = (if delay_timer_running st then 1 else 0) \<and>
    (free_lock_flag st \<longrightarrow> (\<forall>ty. lock_num st ty = 0)) \<and>
    (dsp_loaded st \<and> 0 < lock_num st LOCK_DEFAULT + lock_num st LOCK_EXT \<longrightarrow> user_lock_state st)"
  using wl_reachable_inv [OF assms] by (auto simp: wl_inv_unfold)

definition wl_boot :: wl_state where
  "wl_boot = \<lparr>lock_num = (\<lambda>_. 0), free_lock_flag = True, delay_timer_made = False,
     delay_timer_running = False, have_lock_ext = False, at_lock = False, user_lock_state = False,
     rai_handle = False, outputs = [], deepsleep_enable = True, deepsleep_delay = 5,
     ext_lock_disable = False, close_rai = False, dsp_loaded = True, check_valid_sim = True\<rparr>"

lemma wl_boot_inv: "wl_inv wl_boot"
  by (simp add: wl_inv_unfold wl_boot_def)

lemma wl_boot_run:
  "wl_reachable wl_boot (xy_work_lock LOCK_DEFAULT (set_lock_by_MCU_at False wl_boot))"
  by (rule wl_reachable.step [OF wl_reachable.step [OF wl_reachable.start mcu] lock]) simp

theorem work_lock_invariant_witness:
  "\<forall>ty. 0 \<le> lock_num (xy_work_lock LOCK_DEFAULT (set_lock_by_MCU_at False wl_boot)) ty"
  using work_lock_invariant [OF wl_boot_run wl_boot_inv] by simp

text \<open>when the last user or external lock is released and no internal lock is held, all
  counters are zero, the delay timer is stopped and sleep is permitted; a loaded DSP gets the
  unlock message first, then the forced \<^verbatim>\<open>AT+CFUN=5\<close> when no SIM check is asked for, then the RAI
  task unless it exists or is disabled, and last the interrupt that wakes it.\<close>

lemma last_release_permits_sleep:
  assumes "wl_inv st" and "deepsleep_enable st" and ty: "ty = LOCK_DEFAULT \<or> ty = LOCK_EXT"
    and "lock_num st ty = 1" and "\<forall>t. t \<noteq> ty \<and> t \<noteq> LOCK_DELAY \<longrightarrow> lock_num st t = 0"
  shows "lock_num (xy_work_unlock ty st) = (\<lambda>_. 0) \<and> free_lock_flag (xy_work_unlock ty st) \<and>
    \<not> delay_timer_running (xy_work_unlock ty st) \<and>
    outputs (xy_work_unlock ty st) = outputs st @
      (if dsp_loaded st then [Shm_msg MSG_UNLOCK] @ (if check_valid_sim st then [] else [Cfun5]) @
         (if close_rai st \<or> rai_handle st then [] else [Rai_task]) @ [Dsp_irq]
       else [])"
proof -
  have "delay_inv st" using assms(1) by (simp add: wl_inv_def)
  then have e: "delay_inv st \<or> ty = LOCK_DELAY" ..
  note f = decrease_effect [OF e assms(2)]
  have z: "lock_num st t = 0" if "t \<noteq> ty" "t \<noteq> LOCK_DELAY" for t using assms(5) that by blast
  have l: "last_user ty st" using ty z [of LOCK_DEFAULT] z [of LOCK_EXT] assms(4)
    by (auto simp: last_user_def rel_def)
  have n: "rel_nums ty st = (\<lambda>_. 0)"
    using l z assms(4) by (auto simp: rel_nums_def rel_def fun_eq_iff)
  have out: "outputs (decrease_worklock ty st) = outputs st @
      (if dsp_loaded st then [Shm_msg MSG_UNLOCK] @ (if check_valid_sim st then [] else [Cfun5]) @
         (if close_rai st \<or> rai_handle st then [] else [Rai_task]) @ [Dsp_irq]
       else [])"
    by (rule release_outputs) (use assms z \<open>delay_inv st\<close> in auto)
  show ?thesis unfolding xy_work_unlock_def f(1,2,5) using l n out by simp
qed

section \<open>The external lock\<close>

lemma increase_ext_effect:
  assumes "delay_inv st" and "deepsleep_enable st"
    and "\<not> (lock_num st LOCK_EXT = 1 \<and> \<not> have_lock_ext st \<and> \<not> ext_lock_disable st)"
  shows "lock_num (increase_worklock LOCK_EXT st) =
      (lock_num st)(LOCK_EXT := lock_num st LOCK_EXT + 1, LOCK_DELAY := 0)"
    and "have_lock_ext (increase_worklock LOCK_EXT st) = have_lock_ext st"
    and "ext_lock_disable (increase_worklock LOCK_EXT st) = ext_lock_disable st"
    and "deepsleep_enable (increase_worklock LOCK_EXT st) = deepsleep_enable st"
proof -
  let ?st1 = "set_num LOCK_EXT (lock_num st LOCK_EXT + 1) (st\<lparr>free_lock_flag := False\<rparr>)"
  have "delay_inv ?st1" using assms(1) by (simp add: delay_inv_def)
  note sus = suspend_effect [OF this] suspend_frame
  have r: "increase_worklock LOCK_EXT st =
      (let s = xy_delaylock_suspend ?st1 in
       if lock_num s LOCK_DEFAULT + lock_num s LOCK_EXT = 1 \<and> dsp_loaded s then notify_dsp True s else s)"
    using assms(2,3) unfolding increase_worklock_def by (simp add: Let_def; blast)
  show "lock_num (increase_worklock LOCK_EXT st) =
      (lock_num st)(LOCK_EXT := lock_num st LOCK_EXT + 1, LOCK_DELAY := 0)"
    and "have_lock_ext (increase_worklock LOCK_EXT st) = have_lock_ext st"
    and "ext_lock_disable (increase_worklock LOCK_EXT st) = ext_lock_disable st"
    and "deepsleep_enable (increase_worklock LOCK_EXT st) = deepsleep_enable st"
    unfolding r by (simp_all add: Let_def sus) (simp_all add: notify_dsp_def emit_def set_num_def suspend_frame)
qed

lemma active_frame:
  "t \<noteq> LOCK_DELAY \<Longrightarrow> lock_num (xy_delaylock_active st) t = lock_num st t"
  "at_lock (xy_delaylock_active st) = at_lock st"
  "have_lock_ext (xy_delaylock_active st) = have_lock_ext st"
  "ext_lock_disable (xy_delaylock_active st) = ext_lock_disable st"
  "deepsleep_enable (xy_delaylock_active st) = deepsleep_enable st"
  by (simp_all add: xy_delaylock_active_def xy_work_lock_def increase_worklock_def set_num_def Let_def)

lemma have_ext_decrease:
  "have_lock_ext st \<Longrightarrow> have_lock_ext (decrease_worklock ty st)"
proof -
  have i: "have_lock_ext s \<Longrightarrow> have_lock_ext (emit out s)"
    "have_lock_ext s \<Longrightarrow> have_lock_ext (notify_dsp b s)"
    "have_lock_ext s \<Longrightarrow> have_lock_ext (create_send_rai_task s)"
    "have_lock_ext s \<Longrightarrow> have_lock_ext (set_num t n s)"
    "have_lock_ext s \<Longrightarrow> have_lock_ext (xy_delaylock_suspend s)"
    "have_lock_ext s \<Longrightarrow> have_lock_ext (s\<lparr>free_lock_flag := b\<rparr>)"
    "have_lock_ext (s\<lparr>have_lock_ext := True\<rparr>)"
    "have_lock_ext s \<Longrightarrow> have_lock_ext s' \<Longrightarrow> have_lock_ext (if b then s else s')"
    for out s s' b t n
    by (simp_all add: emit_def notify_dsp_def create_send_rai_task_def set_num_def suspend_frame)
  assume "have_lock_ext st"
  then show ?thesis
    unfolding decrease_worklock_def Let_def by (intro i)
qed

text \<open>a session of the external MCU. Its first AT command takes one external lock; the
  \<^verbatim>\<open>AT+WORKLOCK=1\<close> that follows is not counted a second time; the one \<^verbatim>\<open>AT+WORKLOCK=0\<close> at the end
  releases it, the delay lock is gone as well, and every later \<^verbatim>\<open>AT+WORKLOCK=1\<close> counts.\<close>

lemma mcu_lock_session:
  assumes "wl_inv st" "deepsleep_enable st" "\<not> ext_lock_disable st"
    and "\<not> at_lock st" "\<not> have_lock_ext st" "lock_num st LOCK_EXT = 0"
  defines "first \<equiv> set_lock_by_MCU_at False st"
  defines "req \<equiv> increase_worklock LOCK_EXT first"
  defines "rel_st \<equiv> decrease_worklock LOCK_EXT req"
  shows "lock_num first LOCK_EXT = 1 \<and> lock_num first LOCK_DELAY = 0 \<and>
    lock_num req = lock_num first \<and>
    lock_num rel_st LOCK_EXT = 0 \<and> lock_num rel_st LOCK_DELAY = 0 \<and>
    lock_num (increase_worklock LOCK_EXT (increase_worklock LOCK_EXT rel_st)) LOCK_EXT = 2"
proof -
  let ?a = "xy_delaylock_active st"
  have inv: "delay_inv ?a" using active_inv [OF assms(1)] by (simp add: wl_inv_def)
  have en: "deepsleep_enable ?a" using assms(2) by (simp add: active_frame)
  have e0: "lock_num ?a LOCK_EXT = 0" using assms(6) by (simp add: active_frame)
  have f: "first = (increase_worklock LOCK_EXT ?a)\<lparr>at_lock := True\<rparr>"
    using assms(2-5) by (simp add: first_def set_lock_by_MCU_at_def active_frame)
  note i1 = increase_ext_effect [OF inv en]
  have n1: "lock_num first = (lock_num ?a)(LOCK_EXT := 1, LOCK_DELAY := 0)"
    and h1: "\<not> have_lock_ext first" "\<not> ext_lock_disable first" "deepsleep_enable first"
    unfolding f using i1 e0 en assms(3,5) by (simp_all add: active_frame)
  have r: "req = first\<lparr>free_lock_flag := False, have_lock_ext := True\<rparr>"
    using n1 h1 by (simp add: req_def increase_worklock_def Let_def)
  have inv1: "wl_inv first"
    unfolding first_def by (rule mcu_inv [OF assms(1)])
  have inv2: "wl_inv req" unfolding req_def by (rule increase_inv [OF inv1]) simp
  have enr: "deepsleep_enable req" using r h1 by simp
  have "delay_inv req \<or> LOCK_EXT = LOCK_DELAY" using inv2 by (simp add: wl_inv_def)
  note d = decrease_effect [OF this enr]
  have n3: "lock_num rel_st LOCK_EXT = 0" "lock_num rel_st LOCK_DELAY = 0"
    unfolding rel_st_def d(1) using r n1 by (simp_all add: rel_nums_def rel_def)
  have inv3: "wl_inv rel_st" unfolding rel_st_def by (rule decrease_inv [OF inv2]) simp
  have h3: "have_lock_ext rel_st" "deepsleep_enable rel_st"
    using d(6) enr have_ext_decrease [of req LOCK_EXT] r by (simp_all add: rel_st_def)
  note i4 = increase_ext_effect [of rel_st]
  have n4: "lock_num (increase_worklock LOCK_EXT rel_st) LOCK_EXT = 1"
    "have_lock_ext (increase_worklock LOCK_EXT rel_st)" "deepsleep_enable (increase_worklock LOCK_EXT rel_st)"
    using i4 inv3 h3 n3 by (simp_all add: wl_inv_def)
  have inv4: "wl_inv (increase_worklock LOCK_EXT rel_st)" by (rule increase_inv [OF inv3]) simp
  have "lock_num (increase_worklock LOCK_EXT (increase_worklock LOCK_EXT rel_st)) LOCK_EXT = 2"
    using increase_ext_effect [of "increase_worklock LOCK_EXT rel_st"] inv4 n4 by (simp add: wl_inv_def)
  then show ?thesis using n1 n3 r by simp
qed

section \<open>The command line\<close>

lemma parase_absent: "parase_type_val_vp [] ''%d'' a = Some (AT_OK, a @ [Skipped])"
  by (simp add: parase_type_val_vp_def get_val_limit_d Let_def is_num_type_def num_size_ok_def)

lemma vp_spec_one_of_two:
  assumes "long_min \<le> v" "v \<le> long_max"
  shows "vp_spec False (show_dec v) ''%d,%d'' [] = Some (AT_OK, [Long (word_of_int v), Skipped])"
proof -
  have "vp_spec False [] ''%d'' a = Some (AT_OK, a @ [Skipped])" for a
    by (subst vp_spec.simps) (simp add: next_field_plain(1) parase_absent)
  then show ?thesis
    by (subst vp_spec.simps) (simp add: next_field_plain(1) show_dec_clean parase_dec assms)
qed

lemma vp_spec_two:
  assumes "long_min \<le> v" "v \<le> long_max" "long_min \<le> w" "w \<le> long_max"
  shows "vp_spec False (show_dec v @ COMMA # show_dec w) ''%d,%d'' [] =
    Some (AT_OK, [Long (word_of_int v), Long (word_of_int w)])"
  using vp_spec_numbers [of "[v, w]" False "[]"] assms by simp

text \<open>\<^verbatim>\<open>AT+WORKLOCK=enable\<close> and \<^verbatim>\<open>AT+WORKLOCK=enable,type\<close> with any 32-bit numbers. The
  external lock is taken for enable 1 and released for enable 0 when no type is given or the type
  is the external one; every other number is refused and changes no lock, as is every type the
  MCU has no right to.\<close>

lemma worklock_command:
  assumes "deepsleep_enable st" and "- 2147483648 \<le> e" "e \<le> 2147483647"
    and "\<forall>t. ty = Some t \<longrightarrow> - 2147483648 \<le> t \<and> t \<le> 2147483647"
  shows "at_WORKLOCK_req AT_CMD_REQ
      (show_dec e @ (case ty of None \<Rightarrow> [] | Some t \<Rightarrow> COMMA # show_dec t) @ [CR, NUL]) 0 st =
    Some (if ty = None \<or> ty = Some LOCK_EXT_code then
            (if e = 1 then (No_rsp, increase_worklock LOCK_EXT st)
             else if e = 0 then (No_rsp, decrease_worklock LOCK_EXT st)
             else (Err_rsp ATERR_PARAM_INVALID, st))
          else (Err_rsp ATERR_PARAM_INVALID, st))"
proof (cases ty)
  case None
  have "at_parse_param ''%d,%d'' (show_dec e @ [CR, NUL]) 0 =
      Some (AT_OK, [Long (word_of_int e), Skipped], show_dec e @ [CR, NUL])"
    by (rule at_parse_param_line) (use assms in \<open>simp_all add: vp_spec_one_of_two long_min_def long_max_def
      show_dec_clean hd_show_dec\<close>)
  then show ?thesis
    using assms None by (simp add: at_WORKLOCK_req_def int_dest_def sint_of_int32)
next
  case (Some t)
  let ?line = "show_dec e @ COMMA # show_dec t"
  have "at_parse_param ''%d,%d'' (?line @ [CR, NUL]) 0 =
      Some (AT_OK, [Long (word_of_int e), Long (word_of_int t)], ?line @ [CR, NUL])"
    by (rule at_parse_param_line) (use assms Some in \<open>simp_all add: vp_spec_two long_min_def long_max_def
      show_dec_clean hd_show_dec\<close>)
  then show ?thesis
    using assms Some by (simp add: at_WORKLOCK_req_def int_dest_def sint_of_int32)
qed

lemma dec_digits_length: "n < 10 ^ k \<Longrightarrow> 0 < k \<Longrightarrow> length (dec_digits n) \<le> k"
proof (induction k arbitrary: n)
  case 0
  then show ?case by simp
next
  case (Suc k)
  show ?case
  proof (cases "n < 10")
    case True
    then show ?thesis by (subst dec_digits.simps) simp
  next
    case False
    then have "n div 10 < 10 ^ k" "0 < k" using Suc.prems by (auto simp: less_mult_imp_div_less intro: gr0I)
    then show ?thesis using Suc.IH False by (subst dec_digits.simps) simp
  qed
qed

text \<open>the response to \<^verbatim>\<open>AT+WORKLOCK?\<close> fits the 48 bytes allocated for it, terminator
  included, as long as no counter has reached a million.\<close>

lemma worklock_query_fits:
  assumes "\<And>ty. 0 \<le> lock_num st ty" and "\<And>ty. lock_num st ty < 1000000"
  shows "\<exists>r. at_WORKLOCK_req AT_CMD_QUERY m at_buf st = Some (Rsp r, st) \<and> length r + 1 \<le> 48"
proof -
  have "length (show_dec (lock_num st ty)) \<le> 6" for ty
    using assms [of ty] dec_digits_length [of "nat (lock_num st ty)" 6] by (simp add: show_dec_def)
  from add_mono [OF add_mono [OF this [of LOCK_DEFAULT] this [of LOCK_XY_LOCAL]]
      add_mono [OF this [of LOCK_DELAY] this [of LOCK_EXT]]]
  show ?thesis by (simp add: at_WORKLOCK_req_def worklock_query_def)
qed

end
