(* ===== verification/XY_Utils.thy ===== *)
theory XY_Utils
  imports C_Library
begin

unbundle bit_operations_syntax

text \<open>
  The general utilities of \<^verbatim>\<open>SYSAPP/system/src/xy_utils.c\<close>: the checksum that guards stored data,
  the conversions between bytes and hexadecimal text, the byte swap of 32-bit words and the
  pseudo-random generator. Byte buffers are lists of bytes, text buffers are memories.
\<close>

section \<open>Checksum\<close>

text \<open>The loop of \<open>xy_chksum\<close> adds big-endian 16-bit units; an odd last byte is an upper half.\<close>

definition chk_unit :: "u8 \<Rightarrow> u8 \<Rightarrow> u16" where
  "chk_unit hi lo = push_bit 8 (ucast hi) OR ucast lo"

fun chk_acc :: "u32 \<Rightarrow> u8 list \<Rightarrow> u32" where
  "chk_acc acc (hi # lo # rest) = chk_acc (acc + ucast (chk_unit hi lo)) rest"
| "chk_acc acc [hi] = acc + ucast (chk_unit hi 0)"
| "chk_acc acc [] = acc"

definition chk_fold :: "u32 \<Rightarrow> u32" where
  "chk_fold acc = drop_bit 16 acc + (acc AND 0x0000FFFF)"

definition xy_chksum :: "u8 list \<Rightarrow> u32" where
  "xy_chksum data =
     (let acc = chk_fold (chk_acc 0 data)
      in NOT (if acc AND 0xFFFF0000 \<noteq> 0 then chk_fold acc else acc))"

section \<open>Pseudo-random numbers\<close>

definition xy_srand :: "u32 \<Rightarrow> u64" where
  "xy_srand key = ucast key"

text \<open>The result and the new \<^verbatim>\<open>xy_rand_next\<close>.\<close>

definition xy_rand :: "u64 \<Rightarrow> u32 \<times> u64" where
  "xy_rand rnd =
     (let r = rnd * 6364136223846793005 + 1
      in (ucast (drop_bit 32 r AND 0x7FFFFFFF), r))"

section \<open>Bytes and hexadecimal text\<close>

definition hex_nibble :: "char \<Rightarrow> u8 option" where
  "hex_nibble c =
     (if 97 \<le> code c \<and> code c \<le> 102 then Some (of_nat (code c - 97) + 10)
      else if 48 \<le> code c \<and> code c \<le> 57 then Some (of_nat (code c - 48))
      else if 65 \<le> code c \<and> code c \<le> 70 then Some (of_nat (code c - 65) + 10)
      else None)"

text \<open>
  The loop of \<open>hexstr2bytes\<close> reads two characters per round, also when the length is odd. The
  result is the return value and the bytes stored; on a bad second digit the byte with its
  upper half has been stored already.
\<close>

function hexstr_loop :: "memory \<Rightarrow> nat \<Rightarrow> nat \<Rightarrow> nat \<Rightarrow> u8 list \<Rightarrow> int \<times> u8 list" where
  "hexstr_loop m src i src_len dst =
     (if i < src_len then
        (case hex_nibble (peek m (src + i)) of
           None \<Rightarrow> (-1, dst)
         | Some h \<Rightarrow>
             (case hex_nibble (peek m (src + i + 1)) of
                None \<Rightarrow> (-1, dst @ [push_bit 4 h])
              | Some l \<Rightarrow> hexstr_loop m src (i + 2) src_len (dst @ [push_bit 4 h OR l])))
      else (int (src_len div 2), dst))"
  by pat_completeness auto
termination
  by (relation "measure (\<lambda>(m, src, i, src_len, dst). src_len - i)") auto

declare hexstr_loop.simps [simp del]

definition hexstr2bytes :: "memory \<Rightarrow> nat \<Rightarrow> int \<Rightarrow> int \<Rightarrow> (int \<times> u8 list) option" where
  "hexstr2bytes m src src_len dst_size = do {
     _ \<leftarrow> xy_assert (\<not> (src_len < 0 \<or> dst_size < (src_len + 1) div 2));
     Some (hexstr_loop m src 0 (nat src_len) [])
   }"

definition hex_tab :: string where
  "hex_tab = ''0123456789ABCDEF''"

definition hex_pair :: "u8 \<Rightarrow> string" where
  "hex_pair b = [hex_tab ! unat (drop_bit 4 b), hex_tab ! unat (b AND 0x0F)]"

text \<open>The text stored with its NUL, and the return value.\<close>

definition bytes2hexstr :: "u8 list \<Rightarrow> int \<Rightarrow> (int \<times> memory) option" where
  "bytes2hexstr src dst_size = do {
     _ \<leftarrow> xy_assert (\<not> dst_size \<le> int (length src) * 2);
     Some (int (length src) * 2, concat (map hex_pair src) @ [NUL])
   }"

section \<open>Byte order\<close>

fun rearrange_words :: "u8 list \<Rightarrow> u8 list" where
  "rearrange_words (a # b # c # d # rest) = d # c # b # a # rearrange_words rest"
| "rearrange_words rest = rest"

definition xy_rearrange_DWORD :: "u8 list \<Rightarrow> xy_ret \<times> u8 list" where
  "xy_rearrange_DWORD data =
     (if length data mod 4 \<noteq> 0 then (XY_ERR, data) else (XY_OK, rearrange_words data))"

section \<open>Round trip through text\<close>

lemma unat_nibbles: "unat (drop_bit 4 (b :: u8)) < 16" "unat (b AND 0x0F) < 16"
proof -
  have "unat b < 256" using unsigned_less [of b, where ?'a = nat] by simp
  then show "unat (drop_bit 4 b) < 16"
    by (simp add: drop_bit_eq_div unat_div)
  have "b AND 0x0F = take_bit 4 b" by (simp add: take_bit_eq_mask mask_eq_exp_minus_1)
  then show "unat (b AND 0x0F) < 16"
    by (simp add: take_bit_eq_mod unat_mod)
qed

lemma hex_nibble_tab: "i < 16 \<Longrightarrow> hex_nibble (hex_tab ! i) = Some (of_nat i)"
proof -
  have "list_all (\<lambda>i. hex_nibble (hex_tab ! i) = Some (of_nat i)) [0..<16]"
    by code_simp
  then show "i < 16 \<Longrightarrow> ?thesis" by (simp add: list_all_iff)
qed

lemma nibbles_join: "push_bit 4 (drop_bit 4 b) OR (b AND 0x0F) = (b :: u8)"
proof -
  have "b AND 0x0F = take_bit 4 b" by (simp add: take_bit_eq_mask mask_eq_exp_minus_1)
  then show ?thesis
    by (auto intro!: bit_word_eqI simp: bit_simps)
qed

lemma length_hex_text [simp]: "length (concat (map hex_pair bs)) = 2 * length bs"
  by (induction bs) (simp_all add: hex_pair_def)

lemma hexstr_loop_hex_text:
  assumes "\<forall>k < 2 * length bs. peek m (src + i + k) = concat (map hex_pair bs) ! k"
  shows "hexstr_loop m src i (i + 2 * length bs) dst = (int ((i + 2 * length bs) div 2), dst @ bs)"
  using assms
proof (induction bs arbitrary: i dst)
  case Nil
  then show ?case by (subst hexstr_loop.simps) simp
next
  case (Cons b bs)
  let ?t = "concat (map hex_pair bs)"
  have n: "peek m (src + i) = hex_tab ! unat (drop_bit 4 b)" "peek m (src + i + 1) = hex_tab ! unat (b AND 0x0F)"
    using spec [OF Cons.prems, of 0] spec [OF Cons.prems, of 1] by (simp_all add: hex_pair_def [of b])
  have "peek m (src + (i + 2) + k) = ?t ! k" if "k < 2 * length bs" for k
    using spec [OF Cons.prems, of "Suc (Suc k)"] that by (simp add: hex_pair_def [of b] add.assoc)
  then have "hexstr_loop m src (i + 2) (i + 2 + 2 * length bs) d = (int ((i + 2 + 2 * length bs) div 2), d @ bs)" for d
    using Cons.IH by blast
  note IH = this
  have "i + 2 * length (b # bs) = i + 2 + 2 * length bs" by simp
  then show ?case
    using IH [of "dst @ [b]"] n
    by (subst hexstr_loop.simps) (simp only:, simp add: hex_nibble_tab unat_nibbles nibbles_join)
qed

text \<open>bytes written as hexadecimal text by \<^verbatim>\<open>bytes2hexstr\<close> are read back byte for byte by
  \<^verbatim>\<open>hexstr2bytes\<close>, for every byte sequence and every destination buffers that hold them.\<close>

lemma hexstr_roundtrip:
  assumes "2 * length bs < n"
  shows "\<exists>text. bytes2hexstr bs (int n) = Some (2 * int (length bs), text) \<and>
    hexstr2bytes text 0 (2 * int (length bs)) (int (length bs)) = Some (int (length bs), bs)"
proof -
  let ?t = "concat (map hex_pair bs)"
  have "peek (?t @ [NUL]) k = ?t ! k" if "k < 2 * length bs" for k
    using that by (simp add: peek_def nth_append)
  then have "hexstr_loop (?t @ [NUL]) 0 0 (2 * length bs) [] = (int (length bs), bs)"
    using hexstr_loop_hex_text [of bs "?t @ [NUL]" 0 0 "[]"] by simp
  moreover have "nat (2 * int (length bs)) = 2 * length bs" by simp
  ultimately show ?thesis using assms by (simp add: bytes2hexstr_def hexstr2bytes_def)
qed

section \<open>What the checksum detects\<close>

text \<open>The sum of the big-endian units, in the natural numbers.\<close>

fun unit_sum :: "u8 list \<Rightarrow> nat" where
  "unit_sum (hi # lo # rest) = 256 * unat hi + unat lo + unit_sum rest"
| "unit_sum [hi] = 256 * unat hi"
| "unit_sum [] = 0"

lemma byte_less: "unat (b :: u8) < 256"
  using unsigned_less [of b, where ?'a = nat] by simp

lemma unat_chk_unit: "unat (chk_unit hi lo) = 256 * unat hi + unat lo"
proof -
  have "push_bit 8 (ucast hi :: u16) OR ucast lo = push_bit 8 (ucast hi) + ucast lo"
    by (rule disjunctive_add_eq_or [symmetric], rule bit_word_eqI) (auto simp: bit_simps dest: bit_imp_le_length)
  moreover have "unat (push_bit 8 (ucast hi :: u16)) = 256 * unat hi"
  proof -
    have "take_bit 16 (unat hi * 256) = unat hi * 256" "take_bit 16 (unat hi) = unat hi"
      using byte_less [of hi] by (simp_all add: take_bit_nat_eq_self)
    then show ?thesis
      by (simp only: unsigned_push_bit_eq push_bit_eq_mult [where 'a = nat] unsigned_ucast_eq) simp
  qed
  moreover have "unat (ucast lo :: u16) = unat lo"
    using byte_less [of lo] by (simp add: unsigned_ucast_eq take_bit_nat_eq_self)
  ultimately show ?thesis
    using byte_less [of hi] byte_less [of lo] by (simp add: chk_unit_def unat_add_lem [THEN iffD1])
qed

lemma unit_sum_bound: "unit_sum data \<le> 65535 * ((length data + 1) div 2)"
proof (induction data rule: unit_sum.induct)
  case (1 hi lo rest)
  then show ?case using byte_less [of hi] byte_less [of lo] by simp
next
  case (2 hi)
  then show ?case using byte_less [of hi] by simp
qed simp

lemma unat_chk_acc: "unat acc + unit_sum data < 2 ^ 32 \<Longrightarrow> unat (chk_acc acc data) = unat acc + unit_sum data"
proof (induction acc data rule: chk_acc.induct)
  case (1 acc hi lo rest)
  have u: "unat (ucast (chk_unit hi lo) :: u32) = 256 * unat hi + unat lo"
    using byte_less [of hi] byte_less [of lo] by (simp add: unsigned_ucast_eq take_bit_nat_eq_self unat_chk_unit)
  then have "unat (acc + ucast (chk_unit hi lo)) = unat acc + (256 * unat hi + unat lo)"
    using 1(2) by (simp add: unat_add_lem [THEN iffD1])
  then show ?case using 1 by simp
next
  case (2 acc hi)
  have u: "unat (ucast (chk_unit hi 0) :: u32) = 256 * unat hi"
    using byte_less [of hi] by (simp add: unsigned_ucast_eq take_bit_nat_eq_self unat_chk_unit)
  then show ?case using 2 by (simp add: unat_add_lem [THEN iffD1])
qed simp

lemma low_half: "unat (a AND 0x0000FFFF :: u32) = unat a mod 65536"
proof -
  have "a AND 0x0000FFFF = take_bit 16 a" by (simp add: take_bit_eq_mask mask_eq_exp_minus_1)
  then show ?thesis by (simp add: unsigned_take_bit_eq) (simp add: take_bit_eq_mod)
qed

lemma unat_chk_fold: "unat (chk_fold a) = unat a div 65536 + unat a mod 65536"
proof -
  have lt: "unat a < 2 ^ 32" using unsigned_less [of a, where ?'a = nat] by simp
  then have "take_bit 32 (unat a) = unat a" by (rule take_bit_nat_eq_self)
  then have "unat (drop_bit 16 a) = unat a div 65536" by (simp add: unsigned_drop_bit_eq) (simp add: drop_bit_eq_div)
  moreover note lt
  ultimately show ?thesis
    unfolding chk_fold_def by (simp add: unat_add_lem [THEN iffD1] low_half)
qed

lemma high_half: "(a AND 0xFFFF0000 :: u32) \<noteq> 0 \<longleftrightarrow> 65536 \<le> unat a"
proof -
  have split: "a = (a AND 0xFFFF0000) OR (a AND 0x0000FFFF)"
  proof -
    have "(0xFFFF0000 :: u32) OR 0x0000FFFF = - 1" by simp
    then show ?thesis by (metis and.right_neutral bit.conj_disj_distrib)
  qed
  have disj: "(a AND 0x0000FFFF) AND 0xFFFF0000 = 0"
    by (simp add: and.assoc)
  show ?thesis
  proof
    assume "a AND 0xFFFF0000 \<noteq> 0"
    then have "a AND 0x0000FFFF \<noteq> a" using disj by auto
    then have "unat a mod 65536 \<noteq> unat a" using low_half [of a] by (metis word_unat_eq_iff)
    then show "65536 \<le> unat a" by (meson mod_less not_le)
  next
    assume "65536 \<le> unat a"
    moreover have "unat a mod 65536 < 65536" by simp
    ultimately have "a AND 0x0000FFFF \<noteq> a" using low_half [of a] by (metis not_le)
    then show "a AND 0xFFFF0000 \<noteq> 0" using split by (metis or.left_neutral)
  qed
qed

definition chk_residue :: "u8 list \<Rightarrow> u32" where
  "chk_residue data = (let acc = chk_fold (chk_acc 0 data) in if acc AND 0xFFFF0000 \<noteq> 0 then chk_fold acc else acc)"

lemma xy_chksum_residue: "xy_chksum data = NOT (chk_residue data)"
  by (simp add: xy_chksum_def chk_residue_def Let_def)

lemma chk_residue_less: "unat (chk_residue data) < 65536"
proof -
  have "unat (chk_acc 0 data) < 2 ^ 32" using unsigned_less [of "chk_acc 0 data", where ?'a = nat] by simp
  then have "unat (chk_fold (chk_acc 0 data)) \<le> 131070" unfolding unat_chk_fold by simp
  moreover have "x div 65536 + x mod 65536 < 65536" if "x \<le> 131070" for x :: nat
  proof -
    have "x div 65536 < 2" using that by (intro less_mult_imp_div_less) simp
    moreover have "65536 * (x div 65536) + x mod 65536 = x" by (rule mult_div_mod_eq)
    moreover have "x mod 65536 < 65536" by simp
    ultimately show ?thesis using that by (cases "x div 65536 = 0") linarith+
  qed
  ultimately show ?thesis
    by (auto simp: chk_residue_def Let_def high_half unat_chk_fold [of "chk_fold (chk_acc 0 data)"])
qed

lemma xy_chksum_not_0: "xy_chksum data \<noteq> 0"
proof
  assume "xy_chksum data = 0"
  then have "chk_residue data = NOT 0" by (metis xy_chksum_residue bit.double_compl)
  then have "chk_residue data = 0xFFFFFFFF" by simp
  then show False using chk_residue_less [of data] by (simp only:) simp
qed

lemma chk_residue_sum:
  assumes "length data \<le> 131072"
  shows "unat (chk_residue data) mod 65535 = unit_sum data mod 65535"
proof -
  have fold: "(x div 65536 + x mod 65536) mod 65535 = x mod 65535" for x :: nat
  proof -
    have "x = 65535 * (x div 65536) + (x div 65536 + x mod 65536)" using div_mult_mod_eq [of x 65536] by linarith
    then show ?thesis by (metis mod_mult_self4)
  qed
  have "(length data + 1) div 2 \<le> 65536" using assms by simp
  then have "65535 * ((length data + 1) div 2) \<le> 65535 * 65536" by (rule mult_le_mono2)
  then have "unit_sum data \<le> 65535 * 65536" using unit_sum_bound [of data] by (rule order_trans [rotated])
  then have "unat (chk_acc 0 data) = unit_sum data" by (simp add: unat_chk_acc)
  then show ?thesis by (simp add: chk_residue_def Let_def unat_chk_fold fold)
qed

lemma unit_sum_update:
  "i < length data \<Longrightarrow>
   unit_sum (data[i := b]) + (if even i then 256 else 1) * unat (data ! i) =
   unit_sum data + (if even i then 256 else 1) * unat b"
proof (induction data arbitrary: i rule: unit_sum.induct)
  case (1 hi lo rest)
  consider "i = 0" | "i = 1" | k where "i = Suc (Suc k)" using not0_implies_Suc by (metis One_nat_def)
  then show ?case
  proof cases
    case 3
    then show ?thesis using "1.IH" [of k] "1.prems" by simp
  qed simp_all
qed simp_all

lemma mod_summand_unique:
  fixes s u v m :: nat
  assumes "(s + u) mod m = (s + v) mod m" "u < m" "v < m"
  shows "u = v"
proof -
  have *: "u = v" if "u \<le> v" "(s + u) mod m = (s + v) mod m" "v < m" for u v
  proof -
    have "m dvd (s + v) - (s + u)" using that(1,2) by (metis add_le_mono1 add.commute mod_eq_dvd_iff_nat)
    then have "m dvd v - u" by simp
    moreover have "v - u < m" using that by simp
    ultimately show ?thesis using that(1) by (metis diff_is_0_eq dvd_imp_le le_antisym not_gr0 not_le)
  qed
  show ?thesis
  proof (cases "u \<le> v")
    case True
    then show ?thesis using * [of u v] assms by simp
  next
    case False
    then show ?thesis using * [of v u] assms by simp
  qed
qed

text \<open>
  The checksum of any buffer up to 128 KB changes whenever one of its bytes changes, so damage to a
  single byte of a stored page, or of a message, is always noticed.
\<close>

lemma chksum_detects_byte_change:
  assumes "i < length data" "length data \<le> 131072" "b \<noteq> data ! i"
  shows "xy_chksum (data[i := b]) \<noteq> xy_chksum data"
proof
  assume "xy_chksum (data[i := b]) = xy_chksum data"
  then have "chk_residue (data[i := b]) = chk_residue data" by (simp add: xy_chksum_residue)
  then have m: "unit_sum (data[i := b]) mod 65535 = unit_sum data mod 65535"
    using chk_residue_sum [of data] chk_residue_sum [of "data[i := b]"] assms(2) by simp
  define w :: nat where "w = (if even i then 256 else 1)"
  have "unit_sum (data[i := b]) + w * unat (data ! i) = unit_sum data + w * unat b"
    unfolding w_def by (rule unit_sum_update [OF assms(1)])
  then have "(unit_sum data + w * unat (data ! i)) mod 65535 = (unit_sum data + w * unat b) mod 65535"
    using m by (metis mod_add_left_eq)
  moreover have "w * unat x < 65535" for x :: u8 using byte_less [of x] by (simp add: w_def)
  ultimately have "w * unat (data ! i) = w * unat b" by (blast intro: mod_summand_unique)
  then have "unat (data ! i) = unat b" by (simp add: w_def split: if_splits)
  then show False using assms(3) by (metis word_unat_eq_iff)
qed

end
