(* ===== verification/Nor_Flash.thy ===== *)
theory Nor_Flash
  imports XY_Utils
begin

text \<open>
  The flash layer of \<^verbatim>\<open>SYSAPP/flash/src/flash_adapt.c\<close>. The device is a NOR flash mapped into the
  address space, \<open>flash\<close> is its contents: erasing a 4096-byte sector sets all its bits, programming
  only clears bits. While the other core runs, operations are handed to it in a message; its
  firmware is not part of the repository, so what it does is the parameter \<open>dsp_flash\<close> of the
  functions. Addresses and lengths are natural numbers (the flash lies far below the 32-bit
  limit). Buffers passed by address are lists of their bytes, with the address where alignment
  decides a branch.
\<close>

unbundle bit_operations_syntax

type_synonym flash = "nat \<Rightarrow> u8"

definition EFTL_PAGE_SIZE :: nat where "EFTL_PAGE_SIZE = 4096"

definition IS_CACHE_ALIGNED :: "nat \<Rightarrow> bool" where
  "IS_CACHE_ALIGNED a \<longleftrightarrow> a mod 32 = 0"

section \<open>The device\<close>

definition FLASH_SectorErase :: "nat \<Rightarrow> flash \<Rightarrow> flash" where
  "FLASH_SectorErase s fl = (\<lambda>a. if s \<le> a \<and> a < s + EFTL_PAGE_SIZE then 0xFF else fl a)"

definition FLASH_WriteData :: "nat \<Rightarrow> u8 list \<Rightarrow> flash \<Rightarrow> flash" where
  "FLASH_WriteData addr data fl =
     (\<lambda>a. if addr \<le> a \<and> a < addr + length data then fl a AND data ! (a - addr) else fl a)"

section \<open>Local operations\<close>

definition flash_read :: "nat \<Rightarrow> nat \<Rightarrow> flash \<Rightarrow> u8 list" where
  "flash_read addr n fl = map (\<lambda>i. fl (addr + i)) [0..<n]"

definition flash_write_no_erase :: "nat \<Rightarrow> u8 list \<Rightarrow> flash \<Rightarrow> flash" where
  "flash_write_no_erase addr data fl = FLASH_WriteData addr data fl"

definition flash_erase :: "nat \<Rightarrow> nat \<Rightarrow> flash \<Rightarrow> flash option" where
  "flash_erase addr n fl = do {
     _ \<leftarrow> xy_assert (addr mod EFTL_PAGE_SIZE = 0);
     let pages = (n + EFTL_PAGE_SIZE - 1) div EFTL_PAGE_SIZE;
     Some (fold (\<lambda>page. FLASH_SectorErase (addr + page * EFTL_PAGE_SIZE)) [0..<pages] fl)
   }"

text \<open>Overwriting part of a buffer: \<^verbatim>\<open>memcpy(buf + offset, data, n)\<close>.\<close>

definition patch :: "nat \<Rightarrow> u8 list \<Rightarrow> u8 list \<Rightarrow> u8 list" where
  "patch offset data buf = take offset buf @ data @ drop (offset + length data) buf"

text \<open>One round of \<open>flash_write_erase\<close>: the part of the data that lies in one sector.\<close>

definition write_erase_sector :: "nat \<Rightarrow> u8 list \<Rightarrow> flash \<Rightarrow> flash option" where
  "write_erase_sector addr part fl =
     (let offset = addr mod EFTL_PAGE_SIZE; actAddr = addr - offset in
      if length part = EFTL_PAGE_SIZE then do {
        fl1 \<leftarrow> flash_erase actAddr EFTL_PAGE_SIZE fl;
        Some (flash_write_no_erase actAddr part fl1)
      }
      else
        let block_buf = flash_read actAddr EFTL_PAGE_SIZE fl in
        if length part < 100 \<and> take (length part) (drop offset block_buf) = part then Some fl
        else do {
          fl1 \<leftarrow> flash_erase actAddr EFTL_PAGE_SIZE fl;
          Some (flash_write_no_erase actAddr (patch offset part block_buf) fl1)
        })"

function flash_write_erase :: "nat \<Rightarrow> u8 list \<Rightarrow> flash \<Rightarrow> flash option" where
  "flash_write_erase addr data fl =
     (if data = [] then Some fl
      else
        let write_size = min (length data) (EFTL_PAGE_SIZE - addr mod EFTL_PAGE_SIZE) in do {
          fl1 \<leftarrow> write_erase_sector addr (take write_size data) fl;
          flash_write_erase (addr + write_size) (drop write_size data) fl1
        })"
  by pat_completeness auto
termination
  by (relation "measure (\<lambda>(addr, data, fl). length data)") (auto simp: EFTL_PAGE_SIZE_def)

declare flash_write_erase.simps [simp del]

section \<open>Operations through the other core\<close>

datatype flash_op =
  flash_op_default | flash_op_erase | flash_op_writeNoErase | flash_op_writeErase | flash_op_protect

text \<open>
  \<open>flash_operate_ext\<close>; \<open>data\<close> is the caller's buffer at address \<open>ram\<close> (ignored for an erase, whose
  \<open>size\<close> counts alone). The other core receives whole sectors for the two erasing operations.
\<close>

definition operate_round ::
    "(flash_op \<Rightarrow> nat \<Rightarrow> u8 list \<Rightarrow> flash \<Rightarrow> flash) \<Rightarrow> flash_op \<Rightarrow> nat \<Rightarrow> nat \<Rightarrow> nat \<Rightarrow> u8 list \<Rightarrow> flash \<Rightarrow> flash" where
  "operate_round dsp_flash op addr ram size' part fl =
     (let offset = addr mod EFTL_PAGE_SIZE; actAddr = addr - offset in
      case op of
        flash_op_writeErase \<Rightarrow>
          if offset = 0 \<and> length part = EFTL_PAGE_SIZE \<and> IS_CACHE_ALIGNED ram
          then dsp_flash op actAddr part fl
          else
            let write_buf = flash_read actAddr EFTL_PAGE_SIZE fl in
            if size' < 100 \<and> take (length part) (drop offset write_buf) = part then fl
            else dsp_flash op actAddr (patch offset part write_buf) fl
      | flash_op_writeNoErase \<Rightarrow> dsp_flash op (actAddr + offset) part fl
      | flash_op_erase \<Rightarrow> dsp_flash op actAddr [] fl
      | _ \<Rightarrow> fl)"

function flash_operate_ext ::
    "(flash_op \<Rightarrow> nat \<Rightarrow> u8 list \<Rightarrow> flash \<Rightarrow> flash) \<Rightarrow> flash_op \<Rightarrow> nat \<Rightarrow> nat \<Rightarrow> u8 list \<Rightarrow> nat \<Rightarrow> flash \<Rightarrow> flash" where
  "flash_operate_ext dsp_flash op addr ram data size' fl =
     (if size' = 0 then fl
      else
        let write_size = min size' (EFTL_PAGE_SIZE - addr mod EFTL_PAGE_SIZE) in
        flash_operate_ext dsp_flash op (addr + write_size) (ram + write_size) (drop write_size data)
          (size' - write_size) (operate_round dsp_flash op addr ram size' (take write_size data) fl))"
  by pat_completeness auto
termination
  by (relation "measure (\<lambda>(d, op, addr, ram, data, size', fl). size')") (auto simp: EFTL_PAGE_SIZE_def)

declare flash_operate_ext.simps [simp del]

section \<open>Writing a whole sector\<close>

lemma length_flash_read [simp]: "length (flash_read a n fl) = n"
  by (simp add: flash_read_def)

lemma flash_read_nth [simp]: "i < n \<Longrightarrow> flash_read a n fl ! i = fl (a + i)"
  by (simp add: flash_read_def)

lemma flash_read_cong:
  "(\<And>i. i < n \<Longrightarrow> fl (a + i) = fl' (a + i)) \<Longrightarrow> flash_read a n fl = flash_read a n fl'"
  by (simp add: flash_read_def)

lemma take_drop_flash_read:
  "off + k \<le> n \<Longrightarrow> take k (drop off (flash_read a n fl)) = flash_read (a + off) k fl"
  by (rule nth_equalityI) (auto simp: add.assoc)

lemma length_patch [simp]: "offset + length data \<le> length buf \<Longrightarrow> length (patch offset data buf) = length buf"
  by (simp add: patch_def)

lemma patch_nth:
  assumes "offset + length data \<le> length buf" "i < length buf"
  shows "patch offset data buf ! i =
    (if offset \<le> i \<and> i < offset + length data then data ! (i - offset) else buf ! i)"
  using assms by (auto simp: patch_def nth_append min_def)

text \<open>The contents after a sector has been replaced by a page of bytes.\<close>

definition store_sector :: "nat \<Rightarrow> u8 list \<Rightarrow> flash \<Rightarrow> flash" where
  "store_sector s page fl = (\<lambda>a. if s \<le> a \<and> a < s + EFTL_PAGE_SIZE then page ! (a - s) else fl a)"

lemma flash_erase_sector:
  "s mod EFTL_PAGE_SIZE = 0 \<Longrightarrow> flash_erase s EFTL_PAGE_SIZE fl = Some (FLASH_SectorErase s fl)"
proof -
  have "(EFTL_PAGE_SIZE + EFTL_PAGE_SIZE - 1) div EFTL_PAGE_SIZE = 1" by (simp add: EFTL_PAGE_SIZE_def)
  then show "s mod EFTL_PAGE_SIZE = 0 \<Longrightarrow> ?thesis" by (simp add: flash_erase_def)
qed

lemma erased_and [simp]: "0xFF AND (x :: u8) = x"
proof -
  have "(0xFF :: u8) = - 1" by simp
  then show ?thesis by (simp only: and.left_neutral)
qed

lemma program_erased:
  "length page = EFTL_PAGE_SIZE \<Longrightarrow>
   FLASH_WriteData s page (FLASH_SectorErase s fl) = store_sector s page fl"
  by (rule ext) (simp add: FLASH_WriteData_def FLASH_SectorErase_def store_sector_def)

lemma flash_write_erase_sector:
  assumes "s mod EFTL_PAGE_SIZE = 0" and "length page = EFTL_PAGE_SIZE"
  shows "flash_write_erase s page fl = Some (store_sector s page fl)"
proof -
  have ne: "page \<noteq> []" using assms(2) by (auto simp: EFTL_PAGE_SIZE_def)
  have "write_erase_sector s page fl = Some (store_sector s page fl)"
    using assms by (simp add: write_erase_sector_def flash_erase_sector flash_write_no_erase_def program_erased)
  then show ?thesis
    using assms ne by (subst flash_write_erase.simps) (simp add: flash_write_erase.simps [of _ "[]"])
qed

text \<open>
  What the other core must do with the two erasing operations: the same as the local driver.
\<close>

definition dsp_flash_ok :: "(flash_op \<Rightarrow> nat \<Rightarrow> u8 list \<Rightarrow> flash \<Rightarrow> flash) \<Rightarrow> bool" where
  "dsp_flash_ok dsp_flash \<longleftrightarrow>
     (\<forall>s page fl. s mod EFTL_PAGE_SIZE = 0 \<and> length page = EFTL_PAGE_SIZE \<longrightarrow>
        dsp_flash flash_op_writeErase s page fl = store_sector s page fl) \<and>
     (\<forall>s fl. s mod EFTL_PAGE_SIZE = 0 \<longrightarrow> dsp_flash flash_op_erase s [] fl = FLASH_SectorErase s fl)"

lemma patch_whole: "length page = length buf \<Longrightarrow> patch 0 page buf = page"
  by (simp add: patch_def)

lemma operate_ext_one_round:
  assumes "s mod EFTL_PAGE_SIZE = 0"
  shows "flash_operate_ext dsp op s ram data EFTL_PAGE_SIZE fl =
    operate_round dsp op s ram EFTL_PAGE_SIZE (take EFTL_PAGE_SIZE data) fl"
proof -
  have "EFTL_PAGE_SIZE \<noteq> 0" by (simp add: EFTL_PAGE_SIZE_def)
  with assms show ?thesis
    by (subst flash_operate_ext.simps)
      (simp add: Let_def flash_operate_ext.simps [of _ _ _ _ _ 0])
qed

lemma operate_ext_write_sector:
  assumes "dsp_flash_ok dsp" "s mod EFTL_PAGE_SIZE = 0" "length page = EFTL_PAGE_SIZE"
  shows "flash_operate_ext dsp flash_op_writeErase s ram page EFTL_PAGE_SIZE fl = store_sector s page fl"
proof -
  have "\<not> EFTL_PAGE_SIZE < 100" by (simp add: EFTL_PAGE_SIZE_def)
  with assms show ?thesis
    by (simp add: operate_ext_one_round operate_round_def Let_def patch_whole dsp_flash_ok_def)
qed

lemma operate_ext_erase_sector:
  assumes "dsp_flash_ok dsp" "s mod EFTL_PAGE_SIZE = 0"
  shows "flash_operate_ext dsp flash_op_erase s ram [] EFTL_PAGE_SIZE fl = FLASH_SectorErase s fl"
  using assms by (simp add: operate_ext_one_round operate_round_def Let_def dsp_flash_ok_def)

lemma store_sector_simps:
  "length page = EFTL_PAGE_SIZE \<Longrightarrow> s \<le> a \<Longrightarrow> a < s + EFTL_PAGE_SIZE \<Longrightarrow>
     store_sector s page fl a = page ! (a - s)"
  "\<not> (s \<le> a \<and> a < s + EFTL_PAGE_SIZE) \<Longrightarrow> store_sector s page fl a = fl a"
  by (auto simp: store_sector_def)

lemma flash_read_stored: "length page = EFTL_PAGE_SIZE \<Longrightarrow> flash_read s EFTL_PAGE_SIZE (store_sector s page fl) = page"
  by (rule nth_equalityI) (simp_all add: store_sector_def)

section \<open>Writing any range\<close>

text \<open>What a write should achieve: the range holds the data, all other bytes are as before.\<close>

definition write_bytes :: "nat \<Rightarrow> u8 list \<Rightarrow> flash \<Rightarrow> flash" where
  "write_bytes addr data fl = (\<lambda>a. if addr \<le> a \<and> a < addr + length data then data ! (a - addr) else fl a)"

lemma write_bytes_Nil [simp]: "write_bytes addr [] fl = fl"
  by (rule ext) (auto simp: write_bytes_def)

lemma write_bytes_split:
  "k \<le> length data \<Longrightarrow>
   write_bytes (addr + k) (drop k data) (write_bytes addr (take k data) fl) = write_bytes addr data fl"
  by (rule ext) (auto simp: write_bytes_def)

lemma write_bytes_same:
  assumes "take (length part) (drop off (flash_read s n fl)) = part" "off + length part \<le> n"
  shows "write_bytes (s + off) part fl = fl"
proof (rule ext)
  fix a
  have "part ! i = fl (s + off + i)" if "i < length part" for i
  proof -
    have "part ! i = take (length part) (drop off (flash_read s n fl)) ! i" using assms(1) by simp
    also have "\<dots> = fl (s + off + i)" using that assms(2) by (simp add: add.assoc)
    finally show ?thesis .
  qed
  from this [of "a - (s + off)"] show "write_bytes (s + off) part fl a = fl a"
    by (auto simp: write_bytes_def)
qed

lemma write_bytes_patch:
  assumes "off + length part \<le> EFTL_PAGE_SIZE"
  shows "store_sector s (patch off part (flash_read s EFTL_PAGE_SIZE fl)) fl = write_bytes (s + off) part fl"
  using assms by (intro ext) (auto simp: store_sector_def write_bytes_def patch_nth)

lemma write_bytes_sector:
  "length page = EFTL_PAGE_SIZE \<Longrightarrow> store_sector s page fl = write_bytes s page fl"
  by (simp add: store_sector_def write_bytes_def)

lemma sector_start: "(addr - addr mod EFTL_PAGE_SIZE) mod EFTL_PAGE_SIZE = 0"
    "addr - addr mod EFTL_PAGE_SIZE + addr mod EFTL_PAGE_SIZE = (addr :: nat)"
    "addr mod EFTL_PAGE_SIZE < EFTL_PAGE_SIZE"
  by (simp_all add: EFTL_PAGE_SIZE_def minus_mod_eq_mult_div)

lemma write_erase_sector_correct:
  assumes "length part \<le> EFTL_PAGE_SIZE - addr mod EFTL_PAGE_SIZE"
  shows "write_erase_sector addr part fl = Some (write_bytes addr part fl)"
proof -
  let ?off = "addr mod EFTL_PAGE_SIZE" and ?s = "addr - addr mod EFTL_PAGE_SIZE"
  have fit: "?off + length part \<le> EFTL_PAGE_SIZE" using assms sector_start(3) [of addr] by linarith
  have er: "flash_erase ?s EFTL_PAGE_SIZE fl = Some (FLASH_SectorErase ?s fl)"
    by (rule flash_erase_sector) (rule sector_start)
  have same: "write_bytes addr part fl = fl"
    if "take (length part) (drop ?off (flash_read ?s EFTL_PAGE_SIZE fl)) = part"
    using write_bytes_same [OF that fit] by (simp only: sector_start)
  have patched: "store_sector ?s (patch ?off part (flash_read ?s EFTL_PAGE_SIZE fl)) fl = write_bytes addr part fl"
    using write_bytes_patch [OF fit, of ?s fl] by (simp only: sector_start)
  have whole: "store_sector ?s part fl = write_bytes addr part fl" if "length part = EFTL_PAGE_SIZE"
    using that fit by (simp add: write_bytes_sector)
  show ?thesis
    unfolding write_erase_sector_def Let_def er flash_write_no_erase_def
    using fit same patched whole by (auto simp: program_erased)
qed

lemma flash_write_erase_correct: "flash_write_erase addr data fl = Some (write_bytes addr data fl)"
proof (induction addr data fl rule: flash_write_erase.induct)
  case (1 addr data fl)
  let ?w = "min (length data) (EFTL_PAGE_SIZE - addr mod EFTL_PAGE_SIZE)"
  have r: "write_erase_sector addr (take ?w data) fl = Some (write_bytes addr (take ?w data) fl)"
    by (rule write_erase_sector_correct) simp
  show ?case
  proof (cases "data = []")
    case True
    then show ?thesis by (simp add: flash_write_erase.simps [of _ "[]"])
  next
    case False
    have "flash_write_erase (addr + ?w) (drop ?w data) (write_bytes addr (take ?w data) fl) =
        Some (write_bytes addr data fl)"
      using 1 [OF False refl r] by (simp add: write_bytes_split)
    then show ?thesis
      using False r by (subst flash_write_erase.simps) (simp add: Let_def)
  qed
qed

lemma operate_round_correct:
  assumes "dsp_flash_ok dsp" "length part \<le> EFTL_PAGE_SIZE - addr mod EFTL_PAGE_SIZE"
  shows "operate_round dsp flash_op_writeErase addr ram size' part fl = write_bytes addr part fl"
proof -
  let ?off = "addr mod EFTL_PAGE_SIZE" and ?s = "addr - addr mod EFTL_PAGE_SIZE"
  have fit: "?off + length part \<le> EFTL_PAGE_SIZE" using assms(2) sector_start(3) [of addr] by linarith
  have same: "write_bytes addr part fl = fl"
    if "take (length part) (drop ?off (flash_read ?s EFTL_PAGE_SIZE fl)) = part"
    using write_bytes_same [OF that fit] by (simp only: sector_start)
  have dsp: "dsp flash_op_writeErase ?s page fl = store_sector ?s page fl" if "length page = EFTL_PAGE_SIZE" for page
    using assms(1) that sector_start(1) [of addr] by (simp add: dsp_flash_ok_def)
  have patched: "dsp flash_op_writeErase ?s (patch ?off part (flash_read ?s EFTL_PAGE_SIZE fl)) fl = write_bytes addr part fl"
    using write_bytes_patch [OF fit, of ?s fl] fit by (simp add: dsp sector_start)
  have whole: "dsp flash_op_writeErase ?s part fl = write_bytes addr part fl"
    if "length part = EFTL_PAGE_SIZE" "?off = 0"
    using that dsp [of part] by (simp add: write_bytes_sector)
  show ?thesis
    unfolding operate_round_def Let_def using same patched whole by auto
qed

lemma flash_operate_ext_correct:
  assumes "dsp_flash_ok dsp"
  shows "flash_operate_ext dsp flash_op_writeErase addr ram data (length data) fl = write_bytes addr data fl"
proof (induction "length data" arbitrary: addr ram data fl rule: less_induct)
  case less
  let ?w = "min (length data) (EFTL_PAGE_SIZE - addr mod EFTL_PAGE_SIZE)"
  have r: "operate_round dsp flash_op_writeErase addr ram (length data) (take ?w data) fl =
      write_bytes addr (take ?w data) fl"
    by (rule operate_round_correct [OF assms]) simp
  show ?case
  proof (cases "data = []")
    case True
    then show ?thesis by (simp add: flash_operate_ext.simps [of _ _ _ _ _ 0])
  next
    case False
    have "length (drop ?w data) < length data"
      using False sector_start(3) [of addr] by simp
    from less [OF this, of "addr + ?w" "ram + ?w" "write_bytes addr (take ?w data) fl"]
    have "flash_operate_ext dsp flash_op_writeErase (addr + ?w) (ram + ?w) (drop ?w data) (length data - ?w)
        (write_bytes addr (take ?w data) fl) = write_bytes addr data fl"
      by (simp add: write_bytes_split)
    then show ?thesis
      using False r by (subst flash_operate_ext.simps) (simp add: Let_def)
  qed
qed

end
