(* ===== verification/Ftl_Store.thy ===== *)
theory Ftl_Store
  imports Nor_Flash
begin

text \<open>
  The wear-levelling store of \<^verbatim>\<open>SYSAPP/flash/src/xy_flash.c\<close>. A registered region is a few flash
  sectors used in turn; each holds a page with a magic number, 4076 bytes of data, a checksum and
  a write number. The page with the greatest write number is the current one; a write builds the
  next page and stores it into the following sector, so the current one survives a loss of power.
\<close>

section \<open>Constants and state\<close>

definition FLASH_BASE :: nat where "FLASH_BASE = 0x27000000"
definition FLASH_LENGTH :: nat where "FLASH_LENGTH = 0x200000"
definition SRAM_BASE :: nat where "SRAM_BASE = 0x20000000"
definition SRAM_LENGTH :: nat where "SRAM_LENGTH = 0x60000"
definition BACKUP_MEM_BASE :: nat where "BACKUP_MEM_BASE = 0x24000000"
definition RAM_INVAR_NV_BASE :: nat where "RAM_INVAR_NV_BASE = 0x20019F00"
definition RAM_FACTORY_NV_BASE :: nat where "RAM_FACTORY_NV_BASE = 0x2001AF00"

definition NV_FLASH_MAIN_FACTORY_BASE :: nat where "NV_FLASH_MAIN_FACTORY_BASE = 0x27003000"
definition NV_FLASH_FACTORY_BASE :: nat where "NV_FLASH_FACTORY_BASE = 0x27004000"
definition NV_FLASH_FACTORY_LEN :: nat where "NV_FLASH_FACTORY_LEN = 0x2000"
definition NV_FLASH_DSP_VOLATILE_BASE :: nat where "NV_FLASH_DSP_VOLATILE_BASE = 0x27006000"
definition NV_FLASH_DSP_VOLATILE_LEN :: nat where "NV_FLASH_DSP_VOLATILE_LEN = 0x3000"
definition NV_FLASH_DSP_NON_VOLATILE_BASE :: nat where "NV_FLASH_DSP_NON_VOLATILE_BASE = 0x27009000"
definition NV_FLASH_DSP_NON_VOLATILE_LEN :: nat where "NV_FLASH_DSP_NON_VOLATILE_LEN = 0x2000"
definition NV_FLASH_NET_BASE :: nat where "NV_FLASH_NET_BASE = 0x2700F000"
definition NV_FLASH_NET_LEN :: nat where "NV_FLASH_NET_LEN = 0x3000"

definition EFTL_MAGIC_NUM :: u32 where "EFTL_MAGIC_NUM = 0x5A5A5A5A"
definition EFTL_CSM_OFFSET :: nat where "EFTL_CSM_OFFSET = 0xFF0"
definition EFTL_WRITE_NUM_OFFSET :: nat where "EFTL_WRITE_NUM_OFFSET = 0xFF4"
definition XY_FTL_AVAILABLE_SIZE :: nat where "XY_FTL_AVAILABLE_SIZE = 4076"

text \<open>
  What the functions read of the rest of the system: the state of the other core and what it does
  with a flash message, the battery check, three NV settings, the addresses the allocator hands
  out (of a plain and of a cache-aligned block, both in the SRAM heap), and the places of the
  three fields \<^verbatim>\<open>reset_factory_param\<close> sets in the factory settings.
\<close>

record flash_env =
  DSP_IS_NOT_LOADED :: bool
  g_have_suspend_dsp :: bool
  dsp_flash :: "flash_op \<Rightarrow> nat \<Rightarrow> u8 list \<Rightarrow> flash \<Rightarrow> flash"
  low_vBat :: bool
  offtime :: bool
  off_debug :: bool
  heap_block :: nat
  heap_aligned :: nat
  off_ack_timeout :: nat
  off_obs_autoack :: nat
  off_write_format :: nat

text \<open>The list of registered regions: start address and number of sectors, the latest first.\<close>

record ftl_state =
  flash_mem :: flash
  user_nv_cfgs :: "(nat \<times> nat) list"
  g_first_poweron :: bool

section \<open>Reading and writing flash\<close>

definition in_flash :: "nat \<Rightarrow> bool" where
  "in_flash addr \<longleftrightarrow> FLASH_BASE \<le> addr \<and> addr \<le> FLASH_BASE + FLASH_LENGTH"

definition in_sram :: "nat \<Rightarrow> bool" where
  "in_sram p \<longleftrightarrow> SRAM_BASE \<le> p \<and> p \<le> SRAM_BASE + SRAM_LENGTH"

definition local_flash :: "flash_env \<Rightarrow> bool" where
  "local_flash env \<longleftrightarrow> DSP_IS_NOT_LOADED env \<or> g_have_suspend_dsp env"

text \<open>\<open>None\<close> is \<^verbatim>\<open>XY_ERR\<close>, after which the destination at \<open>ptr\<close> is as before.\<close>

definition xy_flash_read :: "nat \<Rightarrow> nat \<Rightarrow> nat \<Rightarrow> flash \<Rightarrow> u8 list option" where
  "xy_flash_read addr ptr size' fl =
     (if in_flash addr \<and> (in_sram ptr \<or> ptr = BACKUP_MEM_BASE) then Some (flash_read addr size' fl)
      else None)"

definition xy_flash_write ::
    "flash_env \<Rightarrow> nat \<Rightarrow> nat \<Rightarrow> u8 list \<Rightarrow> flash \<Rightarrow> (xy_ret \<times> flash) option" where
  "xy_flash_write env addr ptr data fl = do {
     _ \<leftarrow> xy_assert (in_flash addr \<and> in_sram ptr);
     if low_vBat env then Some (XY_Err_LowVbat, fl)
     else if local_flash env then do {
       fl1 \<leftarrow> flash_write_erase addr data fl;
       Some (XY_OK, fl1)
     }
     else Some (XY_OK, flash_operate_ext (dsp_flash env) flash_op_writeErase addr ptr data (length data) fl)
   }"

definition xy_flash_write_ext ::
    "flash_env \<Rightarrow> nat \<Rightarrow> nat \<Rightarrow> u8 list \<Rightarrow> flash \<Rightarrow> (xy_ret \<times> flash) option" where
  "xy_flash_write_ext env addr src data fl = do {
     _ \<leftarrow> xy_assert (in_flash addr \<and> in_sram src);
     if low_vBat env then Some (XY_Err_LowVbat, fl)
     else do {
       fl1 \<leftarrow> (if local_flash env then flash_write_erase addr data fl
               else Some (flash_operate_ext (dsp_flash env) flash_op_writeErase addr (heap_block env)
                            data (length data) fl));
       if flash_read addr (length data) fl1 \<noteq> data then do {
         _ \<leftarrow> xy_assert (off_debug env);
         Some (XY_ERR, fl1)
       }
       else Some (XY_OK, fl1)
     }
   }"

definition xy_flash_write_no_erase ::
    "flash_env \<Rightarrow> nat \<Rightarrow> nat \<Rightarrow> u8 list \<Rightarrow> flash \<Rightarrow> (xy_ret \<times> flash) option" where
  "xy_flash_write_no_erase env addr ptr data fl = do {
     _ \<leftarrow> xy_assert (in_flash addr \<and> in_sram ptr);
     Some (if low_vBat env then (XY_Err_LowVbat, fl)
           else if local_flash env then (XY_OK, flash_write_no_erase addr data fl)
           else (XY_OK, flash_operate_ext (dsp_flash env) flash_op_writeNoErase addr ptr data (length data) fl))
   }"

definition xy_flash_erase :: "flash_env \<Rightarrow> nat \<Rightarrow> nat \<Rightarrow> flash \<Rightarrow> (xy_ret \<times> flash) option" where
  "xy_flash_erase env addr size0 fl =
     (let size' = (if size0 < EFTL_PAGE_SIZE then EFTL_PAGE_SIZE else size0) in
      if low_vBat env then Some (XY_Err_LowVbat, fl)
      else if local_flash env then do {
        fl1 \<leftarrow> flash_erase addr size' fl;
        Some (XY_OK, fl1)
      }
      else Some (XY_OK, flash_operate_ext (dsp_flash env) flash_op_erase addr 0 [] size' fl))"

section \<open>Regions\<close>

definition xy_regist_ftl_req :: "nat \<Rightarrow> nat \<Rightarrow> ftl_state \<Rightarrow> ftl_state option" where
  "xy_regist_ftl_req addr size' st = do {
     _ \<leftarrow> xy_assert (addr mod EFTL_PAGE_SIZE = 0 \<and> size' mod EFTL_PAGE_SIZE = 0);
     Some (st\<lparr>user_nv_cfgs := (addr, size' div EFTL_PAGE_SIZE) # user_nv_cfgs st\<rparr>)
   }"

definition xy_nv_ftl_init :: "ftl_state \<Rightarrow> ftl_state option" where
  "xy_nv_ftl_init st = do {
     st1 \<leftarrow> xy_regist_ftl_req NV_FLASH_FACTORY_BASE NV_FLASH_FACTORY_LEN st;
     st2 \<leftarrow> xy_regist_ftl_req NV_FLASH_DSP_VOLATILE_BASE NV_FLASH_DSP_VOLATILE_LEN st1;
     st3 \<leftarrow> xy_regist_ftl_req NV_FLASH_DSP_NON_VOLATILE_BASE NV_FLASH_DSP_NON_VOLATILE_LEN st2;
     xy_regist_ftl_req NV_FLASH_NET_BASE NV_FLASH_NET_LEN st3
   }"

definition is_ftl_flash_addr :: "nat \<Rightarrow> ftl_state \<Rightarrow> xy_ret" where
  "is_ftl_flash_addr addr st =
     (if \<exists>(a, n) \<in> set (user_nv_cfgs st). a \<le> addr \<and> addr < a + n * EFTL_PAGE_SIZE then XY_OK else XY_ERR)"

definition find_valid_ftl_cfg :: "nat \<Rightarrow> ftl_state \<Rightarrow> (nat \<times> nat) option" where
  "find_valid_ftl_cfg addr st = find (\<lambda>(a, n). a = addr) (user_nv_cfgs st)"

section \<open>Choosing the current page\<close>

text \<open>A 32-bit word in flash, little endian, and in a page buffer.\<close>

definition word_of_bytes :: "u8 \<Rightarrow> u8 \<Rightarrow> u8 \<Rightarrow> u8 \<Rightarrow> u32" where
  "word_of_bytes b0 b1 b2 b3 =
     ucast b0 OR push_bit 8 (ucast b1) OR push_bit 16 (ucast b2) OR push_bit 24 (ucast b3)"

definition bytes_of_word :: "u32 \<Rightarrow> u8 list" where
  "bytes_of_word w = [ucast w, ucast (drop_bit 8 w), ucast (drop_bit 16 w), ucast (drop_bit 24 w)]"

definition EFTL_PAGE_OFFSET_ADDR :: "nat \<Rightarrow> nat \<Rightarrow> nat \<Rightarrow> flash \<Rightarrow> u32" where
  "EFTL_PAGE_OFFSET_ADDR addr index offset fl =
     (let p = addr + EFTL_PAGE_SIZE * index + offset in word_of_bytes (fl p) (fl (p + 1)) (fl (p + 2)) (fl (p + 3)))"

definition buf_word :: "u8 list \<Rightarrow> nat \<Rightarrow> u32" where
  "buf_word b p = word_of_bytes (b ! p) (b ! (p + 1)) (b ! (p + 2)) (b ! (p + 3))"

definition ftl_read_write_num :: "nat \<Rightarrow> flash \<Rightarrow> u32" where
  "ftl_read_write_num addr fl =
     EFTL_PAGE_OFFSET_ADDR (addr - addr mod EFTL_PAGE_SIZE) 0 EFTL_WRITE_NUM_OFFSET fl"

definition page_num :: "nat \<Rightarrow> flash \<Rightarrow> nat \<Rightarrow> u32" where
  "page_num addr fl i = EFTL_PAGE_OFFSET_ADDR addr i EFTL_WRITE_NUM_OFFSET fl"

definition page_valid :: "nat \<Rightarrow> flash \<Rightarrow> nat \<Rightarrow> bool" where
  "page_valid addr fl i \<longleftrightarrow> EFTL_PAGE_OFFSET_ADDR addr i 0 fl = EFTL_MAGIC_NUM \<and>
     page_num addr fl i \<noteq> 0xFFFFFFFF \<and> page_num addr fl i \<noteq> 0"

text \<open>The scan over the sectors, from a maximum and a page found before.\<close>

fun ftl_scan :: "nat \<Rightarrow> flash \<Rightarrow> nat list \<Rightarrow> u32 \<Rightarrow> nat option \<Rightarrow> u32 \<times> nat option" where
  "ftl_scan addr fl [] max_writenum valid_page = (max_writenum, valid_page)"
| "ftl_scan addr fl (i # is) max_writenum valid_page =
     (if page_valid addr fl i \<and> max_writenum \<le> page_num addr fl i
      then ftl_scan addr fl is (page_num addr fl i) (Some i)
      else ftl_scan addr fl is max_writenum valid_page)"

text \<open>
  The loop around \<^verbatim>\<open>CHOOSE_AGAIN\<close>, one unit of fuel per round: \<open>max_writenum\<close> is carried from
  round to round as in the source. A buffer at \<open>ptr\<close> with contents \<open>buf\<close> receives the page.
\<close>

fun choose_loop ::
    "nat \<Rightarrow> flash_env \<Rightarrow> nat \<Rightarrow> nat \<Rightarrow> nat \<Rightarrow> bool \<Rightarrow> u32 \<Rightarrow> u8 list \<Rightarrow> flash \<Rightarrow>
     (nat option \<times> u8 list \<times> flash) option" where
  "choose_loop 0 env addr tpage_total ptr check_csm max_writenum buf fl = None"
| "choose_loop (Suc fuel) env addr tpage_total ptr check_csm max_writenum buf fl =
     (let (mx, valid_page) = ftl_scan addr fl [0..<tpage_total] max_writenum None in
      case valid_page of
        None \<Rightarrow> Some (None, buf, fl)
      | Some i \<Rightarrow>
          let sector = addr + EFTL_PAGE_SIZE * i;
              buf1 = (case xy_flash_read sector ptr EFTL_PAGE_SIZE fl of None \<Rightarrow> buf | Some p \<Rightarrow> p)
          in if check_csm \<and> buf_word buf1 EFTL_CSM_OFFSET \<noteq> xy_chksum (take EFTL_CSM_OFFSET buf1) then do {
               (_, fl1) \<leftarrow> xy_flash_erase env sector EFTL_PAGE_SIZE fl;
               choose_loop fuel env addr tpage_total ptr check_csm mx buf1 fl1
             }
             else Some (Some i, buf1, fl))"

text \<open>\<open>xy_choose_valid_ftl\<close>: the current page's index, the next one, the buffer and the flash.\<close>

definition xy_choose_valid_ftl ::
    "nat \<Rightarrow> flash_env \<Rightarrow> nat \<Rightarrow> nat \<Rightarrow> bool \<Rightarrow> u8 list \<Rightarrow> ftl_state \<Rightarrow>
     (nat option \<times> nat \<times> u8 list \<times> ftl_state) option" where
  "xy_choose_valid_ftl fuel env addr ptr check_csm buf st = do {
     (_, tpage_total) \<leftarrow> find_valid_ftl_cfg addr st;
     (cur, buf1, fl1) \<leftarrow> choose_loop fuel env addr tpage_total ptr check_csm 0 buf (flash_mem st);
     Some (cur, (case cur of None \<Rightarrow> 0 | Some i \<Rightarrow> (i + 1) mod tpage_total), buf1, st\<lparr>flash_mem := fl1\<rparr>)
   }"

definition CheckFactoryNvValid :: "flash \<Rightarrow> nat" where
  "CheckFactoryNvValid fl =
     (case snd (ftl_scan NV_FLASH_FACTORY_BASE fl [0..<NV_FLASH_FACTORY_LEN div EFTL_PAGE_SIZE] 0 None) of
        None \<Rightarrow> 0 | Some i \<Rightarrow> NV_FLASH_FACTORY_BASE + EFTL_PAGE_SIZE * i)"

section \<open>Reading and writing records\<close>

definition reset_factory_param :: "flash_env \<Rightarrow> u8 list \<Rightarrow> u8 list" where
  "reset_factory_param env data =
     data[off_ack_timeout env := 4, off_obs_autoack env := 0, off_write_format env := 0]"

text \<open>
  \<open>xy_ftl_read\<close> into the buffer at \<open>ptr\<close> whose bytes are \<open>data\<close>; the result holds its bytes
  afterwards. \<open>temp0\<close> is what the freshly allocated sector buffer happens to contain.
\<close>

definition ftl_direct_read :: "nat \<Rightarrow> nat \<Rightarrow> bool" where
  "ftl_direct_read addr size' \<longleftrightarrow>
     (addr = NV_FLASH_FACTORY_BASE \<or> addr = NV_FLASH_DSP_VOLATILE_BASE) \<and> size' = XY_FTL_AVAILABLE_SIZE"

definition xy_ftl_read ::
    "nat \<Rightarrow> flash_env \<Rightarrow> u8 list \<Rightarrow> nat \<Rightarrow> nat \<Rightarrow> u8 list \<Rightarrow> nat \<Rightarrow> ftl_state \<Rightarrow>
     (xy_ret \<times> u8 list \<times> ftl_state) option" where
  "xy_ftl_read fuel env temp0 addr ptr data size0 st =
     (let offset = addr mod EFTL_PAGE_SIZE; addr_align = addr - offset in
      if offtime env \<and> NV_FLASH_NET_BASE \<le> addr \<and> addr < NV_FLASH_NET_BASE + XY_FTL_AVAILABLE_SIZE
      then Some (XY_OK, data, st)
      else do {
        _ \<leftarrow> xy_assert (size0 \<le> XY_FTL_AVAILABLE_SIZE);
        _ \<leftarrow> xy_assert (addr + size0 \<le> addr_align + EFTL_CSM_OFFSET);
        let direct = ftl_direct_read addr size0;
        let size' = (if direct then size0 + 4 else size0);
        (cur, _, temp, st1) \<leftarrow> xy_choose_valid_ftl fuel env addr_align
            (if direct then ptr else heap_aligned env) True (if direct then data else temp0) st;
        let data1 = (if direct then temp else data);
        case cur of
          None \<Rightarrow>
            if addr_align = NV_FLASH_FACTORY_BASE
            then Some (XY_OK,
                   reset_factory_param env
                     (patch 0 (flash_read (NV_FLASH_MAIN_FACTORY_BASE + offset) size' (flash_mem st1)) data1),
                   st1\<lparr>g_first_poweron := True\<rparr>)
            else Some (XY_ERR, data1, st1)
        | Some _ \<Rightarrow>
            Some (XY_OK, if direct then data1 else patch 0 (take size' (drop (4 + offset) temp)) data1, st1)
      })"

text \<open>
  The page \<open>xy_ftl_write\<close> builds: magic number, the new bytes, the checksum over everything in
  front of it, and the write number plus one.
\<close>

definition next_page :: "nat \<Rightarrow> u8 list \<Rightarrow> u8 list \<Rightarrow> u8 list" where
  "next_page offset data buf =
     (let b1 = patch (4 + offset) data (patch 0 (bytes_of_word EFTL_MAGIC_NUM) buf);
          b2 = patch EFTL_CSM_OFFSET (bytes_of_word (xy_chksum (take EFTL_CSM_OFFSET b1))) b1;
          n0 = buf_word b2 EFTL_WRITE_NUM_OFFSET;
          n1 = (if n0 = 0xFFFFFFFF then 0 else n0) + 1
      in patch EFTL_WRITE_NUM_OFFSET (bytes_of_word n1) b2)"

definition own_nv_copy :: "nat \<Rightarrow> nat \<Rightarrow> bool" where
  "own_nv_copy base ptr \<longleftrightarrow>
     base = NV_FLASH_FACTORY_BASE \<and> ptr = RAM_FACTORY_NV_BASE \<or>
     base = NV_FLASH_DSP_VOLATILE_BASE \<and> ptr = BACKUP_MEM_BASE \<or>
     base = NV_FLASH_DSP_NON_VOLATILE_BASE \<and> ptr = RAM_INVAR_NV_BASE"

definition xy_ftl_write ::
    "nat \<Rightarrow> flash_env \<Rightarrow> u8 list \<Rightarrow> nat \<Rightarrow> nat \<Rightarrow> nat \<Rightarrow> u8 list \<Rightarrow> nat \<Rightarrow> ftl_state \<Rightarrow>
     (xy_ret \<times> ftl_state) option" where
  "xy_ftl_write fuel env buf0 base offset ptr bytes size' st =
     (if offtime env \<and> base = NV_FLASH_NET_BASE then Some (XY_OK, st)
      else do {
        _ \<leftarrow> xy_assert (offset + size' \<le> XY_FTL_AVAILABLE_SIZE);
        let own = own_nv_copy base ptr;
        let data = take size' (if own then drop 4 bytes else bytes);
        (cur, nxt, buf, st1) \<leftarrow> xy_choose_valid_ftl fuel env base (heap_aligned env) (\<not> own) buf0 st;
        let buf1 = (if cur = None then
                      (if base = NV_FLASH_FACTORY_BASE
                       then (case xy_flash_read NV_FLASH_MAIN_FACTORY_BASE (heap_aligned env) EFTL_PAGE_SIZE
                                    (flash_mem st1) of None \<Rightarrow> buf | Some p \<Rightarrow> p)
                       else replicate EFTL_PAGE_SIZE 0)
                    else buf);
        if cur \<noteq> None \<and> take size' (drop (4 + offset) buf1) = data then Some (XY_OK, st1)
        else do {
          (ret, fl1) \<leftarrow> xy_flash_write env (base + EFTL_PAGE_SIZE * nxt) (heap_aligned env)
                          (next_page offset data buf1) (flash_mem st1);
          let st2 = st1\<lparr>flash_mem := fl1\<rparr>;
          if ret \<noteq> XY_OK then Some (ret, st2)
          else do {
            _ \<leftarrow> xy_assert (EFTL_PAGE_OFFSET_ADDR base nxt 0 fl1 = EFTL_MAGIC_NUM);
            Some (XY_OK, st2)
          }
        }
      })"

definition xy_ftl_erase :: "flash_env \<Rightarrow> nat \<Rightarrow> nat \<Rightarrow> flash \<Rightarrow> flash option" where
  "xy_ftl_erase env addr size' fl = do {
     _ \<leftarrow> xy_assert (addr mod EFTL_PAGE_SIZE = 0 \<and> size' mod EFTL_PAGE_SIZE = 0);
     foldl (\<lambda>f i. do {
         fl0 \<leftarrow> f;
         let s = addr + i * EFTL_PAGE_SIZE;
         if EFTL_PAGE_OFFSET_ADDR s 0 0 fl0 \<noteq> 0xFFFFFFFF \<or>
            EFTL_PAGE_OFFSET_ADDR s 0 EFTL_WRITE_NUM_OFFSET fl0 \<noteq> 0xFFFFFFFF
         then map_option snd (xy_flash_erase env s EFTL_PAGE_SIZE fl0)
         else Some fl0
       }) (Some fl) [0..<size' div EFTL_PAGE_SIZE]
   }"

end
