(* ===== verification/Ftl_Crash.thy ===== *)
theory Ftl_Crash
  imports Ftl_Safety
begin

text \<open>
  The wear-levelling store under faults: a loss of power in the middle of a write, a current page
  with a bad checksum, a low battery, and the end of the write numbers. The first is handled, a
  region keeps its old or its new contents. The others are not, and the theorems say what happens.
\<close>

section \<open>Erased sectors\<close>

lemma FLASH_SectorErase_store: "FLASH_SectorErase s fl = store_sector s (replicate EFTL_PAGE_SIZE 0xFF) fl"
  by (rule ext) (auto simp: FLASH_SectorErase_def store_sector_def)

lemma word_of_erased [simp]: "word_of_bytes 0xFF 0xFF 0xFF 0xFF = 0xFFFFFFFF"
  by (simp add: word_of_bytes_def)

lemma page_erased: "page_at addr (FLASH_SectorErase (addr + EFTL_PAGE_SIZE * i) fl) j =
    (if j = i then replicate EFTL_PAGE_SIZE 0xFF else page_at addr fl j)"
  by (simp add: FLASH_SectorErase_store page_at_stored)

lemma page_num_erased: "page_num addr (FLASH_SectorErase (addr + EFTL_PAGE_SIZE * i) fl) j =
    (if j = i then 0xFFFFFFFF else page_num addr fl j)"
  by (simp add: page_num_buf page_erased) (simp add: buf_word_def EFTL_PAGE_SIZE_def EFTL_WRITE_NUM_OFFSET_def)

lemma page_valid_erased: "page_valid addr (FLASH_SectorErase (addr + EFTL_PAGE_SIZE * i) fl) j \<longleftrightarrow>
    j \<noteq> i \<and> page_valid addr fl j"
  by (simp add: page_valid_buf page_num_erased) (simp add: page_erased)

lemma xy_flash_erase_sector:
  assumes "\<not> low_vBat env" "local_flash env \<or> dsp_flash_ok (dsp_flash env)" "region_ok addr n" "i < n"
  shows "xy_flash_erase env (addr + EFTL_PAGE_SIZE * i) EFTL_PAGE_SIZE fl =
    Some (XY_OK, FLASH_SectorErase (addr + EFTL_PAGE_SIZE * i) fl)"
  using assms region_sector [OF assms(3,4)] by (auto simp: xy_flash_erase_def flash_erase_sector operate_ext_erase_sector)

section \<open>The choice always ends when the battery is good\<close>

lemma choose_loop_ends:
  assumes "env_ok env" "region_ok addr n" "readable ptr"
    and "card {i. i < n \<and> page_valid addr fl i} < fuel"
  shows "choose_loop fuel env addr n ptr chk mx buf fl \<noteq> None"
  using assms(4)
proof (induction fuel arbitrary: mx buf fl)
  case 0
  then show ?case by simp
next
  case (Suc fuel)
  obtain mx' vp where r: "ftl_scan addr fl [0..<n] mx None = (mx', vp)" by fastforce
  show ?case
  proof (cases vp)
    case None
    then show ?thesis using r by simp
  next
    case (Some i)
    then have i: "i < n" "page_valid addr fl i" using ftl_scan_result [OF r] by auto
    note r' = r [unfolded Some]
    let ?fl = "FLASH_SectorErase (addr + EFTL_PAGE_SIZE * i) fl"
    have "{j. j < n \<and> page_valid addr ?fl j} \<subset> {j. j < n \<and> page_valid addr fl j}"
      using i by (auto simp: page_valid_erased)
    then have "card {j. j < n \<and> page_valid addr ?fl j} < card {j. j < n \<and> page_valid addr fl j}"
      by (rule psubset_card_mono [rotated]) simp
    then have "choose_loop fuel env addr n ptr chk mx' (page_at addr fl i) ?fl \<noteq> None"
      using Suc.prems by (intro Suc.IH) simp
    then show ?thesis
      using choose_loop_round [OF assms(2,3) r' i(1)] xy_flash_erase_sector [OF _ _ assms(2) i(1)] assms(1)
      by (cases chk) (simp_all add: env_ok_def del: choose_loop.simps)
  qed
qed

text \<open>
  C13: With a good battery the search for the current page ends whatever the flash contains: every round
  of \<^verbatim>\<open>CHOOSE_AGAIN\<close> but the last erases a page that looked valid, so the number of sectors plus one
  bounds the rounds.
\<close>

theorem choose_terminates:
  assumes "env_ok env" "find_valid_ftl_cfg base st = Some (a, n)" "region_ok base n" "readable ptr" "n < fuel"
  shows "\<exists>cur next buf' st'. xy_choose_valid_ftl fuel env base ptr chk buf st = Some (cur, next, buf', st')"
proof -
  have "card {i. i < n \<and> page_valid base (flash_mem st) i} \<le> card {i. i < n}"
    by (rule card_mono) auto
  then have "choose_loop fuel env base n ptr chk 0 buf (flash_mem st) \<noteq> None"
    using assms by (intro choose_loop_ends) simp_all
  then show ?thesis using assms(2) by (auto simp: xy_choose_valid_ftl_def)
qed

theorem choose_terminates_witness:
  "\<exists>cur next buf' st'. xy_choose_valid_ftl 4 demo_env demo_base 0x20001000 True [] (demo_st blank) = Some (cur, next, buf', st')"
  using choose_terminates [of demo_env demo_base "demo_st blank" demo_base 3 "0x20001000" 4 True "[]"]
  by (simp add: demo_facts)

section \<open>A current page with a bad checksum\<close>

text \<open>The page \<open>i\<close> has the greatest write number of the region; its checksum is wrong.\<close>

definition newest :: "nat \<Rightarrow> nat \<Rightarrow> flash \<Rightarrow> nat \<Rightarrow> bool" where
  "newest base n fl i \<longleftrightarrow> i < n \<and> page_valid base fl i \<and>
     (\<forall>j < n. j \<noteq> i \<longrightarrow> page_valid base fl j \<longrightarrow> page_num base fl j < page_num base fl i)"

definition newest_corrupt :: "nat \<Rightarrow> nat \<Rightarrow> flash \<Rightarrow> nat \<Rightarrow> bool" where
  "newest_corrupt base n fl i \<longleftrightarrow> newest base n fl i \<and> \<not> page_sound (page_at base fl i)"

lemma newest_current: "newest base n fl i \<Longrightarrow> current base n fl = Some i"
  unfolding newest_def by (intro current_unique) auto

lemma newest_corrupt_scan:
  assumes "newest_corrupt base n fl i"
  shows "ftl_scan base fl [0..<n] 0 None = (page_num base fl i, Some i)"
proof -
  have "current base n fl = Some i" using assms by (simp add: newest_corrupt_def newest_current)
  then show ?thesis using current_Some by blast
qed

lemma choose_loop_corrupt:
  assumes "env_ok env" "region_ok base n" "readable ptr" "newest_corrupt base n fl i"
  shows "choose_loop (Suc (Suc fuel)) env base n ptr True 0 buf fl =
    Some (None, page_at base fl i, FLASH_SectorErase (base + EFTL_PAGE_SIZE * i) fl)"
proof -
  let ?fl = "FLASH_SectorErase (base + EFTL_PAGE_SIZE * i) fl"
  have i: "i < n" "\<not> page_sound (page_at base fl i)" using assms(4) by (simp_all add: newest_corrupt_def newest_def)
  obtain mx vp where r: "ftl_scan base ?fl [0..<n] (page_num base fl i) None = (mx, vp)" by fastforce
  have "vp = None"
  proof (rule ccontr)
    assume "vp \<noteq> None"
    then obtain j where j: "vp = Some j" "j < n" "page_valid base ?fl j" "mx = page_num base ?fl j" "page_num base fl i \<le> mx"
      using ftl_scan_result [OF r] by auto
    then have "j \<noteq> i" "page_valid base fl j" "page_num base fl i \<le> page_num base fl j"
      by (simp_all add: page_valid_erased page_num_erased)
    then show False using assms(4) j(2) by (auto simp: newest_corrupt_def newest_def not_le)
  qed
  then show ?thesis
    using choose_loop_round [OF assms(2,3) newest_corrupt_scan [OF assms(4)] i(1), of "Suc fuel" env True buf]
      xy_flash_erase_sector [OF _ _ assms(2) i(1), of env fl] assms(1) i(2) choose_loop_none [of base ?fl n _ mx] r
    by (simp add: env_ok_def del: choose_loop.simps)
qed

lemma xy_choose_corrupt:
  assumes "env_ok env" "find_valid_ftl_cfg base st = Some (a, n)" "region_ok base n" "readable ptr"
    and "newest_corrupt base n (flash_mem st) i"
  shows "xy_choose_valid_ftl (Suc (Suc fuel)) env base ptr True buf st =
    Some (None, 0, page_at base (flash_mem st) i,
      st\<lparr>flash_mem := FLASH_SectorErase (base + EFTL_PAGE_SIZE * i) (flash_mem st)\<rparr>)"
  using assms(2) choose_loop_corrupt [OF assms(1,3,4,5)]
  by (simp add: xy_choose_valid_ftl_def del: choose_loop.simps)

text \<open>
  Code bug: \<open>max_writenum\<close> keeps the write number of a page that was just erased for its bad
  checksum, so the older pages of the region, all with smaller numbers, are passed over. A read then
  fails although the previous record is still in flash, and a write of new data starts again
  from zeroes and from number 1, is reported as successful, and is lost: the record read
  afterwards is the old one.
\<close>

lemma corrupt_newest_loses_data:
  assumes "env_ok env" "find_valid_ftl_cfg base st = Some (a, n)" "region_ok base n"
    and "newest_corrupt base n (flash_mem st) i"
    and j: "newest base n (FLASH_SectorErase (base + EFTL_PAGE_SIZE * i) (flash_mem st)) j"
      "j \<noteq> 0" "1 < page_num base (flash_mem st) j"
    and "offset + size' \<le> 4076" "base \<noteq> NV_FLASH_FACTORY_BASE" "\<not> own_nv_copy base ptr" "\<not> offtime env"
    and "size' \<le> length bytes" "\<not> ftl_direct_read (base + offset) size'"
  shows "\<exists>st1 st2. xy_ftl_read (Suc (Suc fuel)) env temp0 (base + offset) ptr data size' st = Some (XY_ERR, data, st1) \<and>
    xy_ftl_write (Suc (Suc fuel)) env buf0 base offset ptr bytes size' st = Some (XY_OK, st2) \<and>
    stored base n (flash_mem st2) = Some (payload (page_at base (flash_mem st) j))"
proof -
  let ?fl = "FLASH_SectorErase (base + EFTL_PAGE_SIZE * i) (flash_mem st)"
  let ?zero = "replicate EFTL_PAGE_SIZE 0"
  let ?p = "next_page offset (take size' bytes) ?zero"
  let ?fl2 = "store_sector base ?p ?fl"
  have n: "0 < n" using assms(3) by (simp add: region_ok_def)
  have ptr: "readable (heap_aligned env)" using assms(1) by (simp add: env_ok_def readable_def)
  note ch = xy_choose_corrupt [OF assms(1-3) ptr assms(4)]
  have off: "(base + offset) mod EFTL_PAGE_SIZE = offset"
    using assms(3,8) mod_add_left_eq [of base EFTL_PAGE_SIZE offset]
    by (simp add: region_ok_def EFTL_PAGE_SIZE_def)
  have al: "base + offset - (base + offset) mod EFTL_PAGE_SIZE = base" by (simp only: off)
  have le: "size' \<le> XY_FTL_AVAILABLE_SIZE" "base + offset + size' \<le> base + EFTL_CSM_OFFSET"
    using assms(8) by (simp_all add: XY_FTL_AVAILABLE_SIZE_def EFTL_CSM_OFFSET_def)
  have rd: "xy_ftl_read (Suc (Suc fuel)) env temp0 (base + offset) ptr data size' st = Some (XY_ERR, data, st\<lparr>flash_mem := ?fl\<rparr>)"
    unfolding xy_ftl_read_def Let_def off al
    using le assms(9,11,13) ch by simp
  have fit: "offset + length (take size' bytes) \<le> 4076" using assms(8,12) by simp
  have facts: "length ?p = EFTL_PAGE_SIZE" "buf_word ?p 0 = EFTL_MAGIC_NUM"
      "buf_word ?p EFTL_WRITE_NUM_OFFSET = next_num (buf_word ?zero EFTL_WRITE_NUM_OFFSET)"
    using fit by (simp_all add: next_page_facts)
  have "buf_word ?zero EFTL_WRITE_NUM_OFFSET = 0"
    by (simp add: buf_word_def EFTL_PAGE_SIZE_def EFTL_WRITE_NUM_OFFSET_def word_of_bytes_def)
  then have num: "buf_word ?p EFTL_WRITE_NUM_OFFSET = 1" using facts(3) by (simp add: next_num_def)
  have pa: "page_at base ?fl2 l = (if l = 0 then ?p else page_at base ?fl l)" for l
    using page_at_stored [OF facts(1), of base 0 ?fl l] by simp
  have magic: "EFTL_PAGE_OFFSET_ADDR base 0 0 ?fl2 = EFTL_MAGIC_NUM"
    by (subst page_word) (simp_all add: pa facts(2), simp add: EFTL_PAGE_SIZE_def)
  have wr: "xy_flash_write env base (heap_aligned env) ?p ?fl = Some (XY_OK, ?fl2)"
    using xy_flash_write_page [OF assms(1,3) n facts(1)] by simp
  have w: "xy_ftl_write (Suc (Suc fuel)) env buf0 base offset ptr bytes size' st = Some (XY_OK, st\<lparr>flash_mem := ?fl2\<rparr>)"
    unfolding xy_ftl_write_def
    using assms(8-11) ch wr magic by (simp add: Let_def XY_FTL_AVAILABLE_SIZE_def)
  have pn: "page_num base ?fl2 l = (if l = 0 then 1 else page_num base ?fl l)" for l
    by (simp add: page_num_buf pa num)
  have ji: "j \<noteq> i" using j(1) by (auto simp: newest_def page_valid_erased)
  then have "1 < page_num base ?fl j" using j(3) by (simp add: page_num_erased)
  then have "current base n ?fl2 = Some j"
    using j(1,2) unfolding newest_def
    by (intro current_unique) (auto simp: page_valid_buf pn pa)
  then have "stored base n ?fl2 = Some (payload (page_at base (flash_mem st) j))"
    using j(2) ji by (simp add: stored_def pa page_erased)
  then show ?thesis using rd w by simp
qed

text \<open>A region whose page 2, the newest, is damaged, and whose page 1 holds the record before it.\<close>

definition demo_corrupt :: flash where
  "demo_corrupt = (\<lambda>x. if x \<in> {demo_base + 4096, demo_base + 4097, demo_base + 4098, demo_base + 4099,
       demo_base + 8192, demo_base + 8193, demo_base + 8194, demo_base + 8195} then 0x5A
     else if x = demo_base + 8180 then 2 else if x = demo_base + 12276 then 3 else 0)"

lemma demo_corrupt_pages:
  "page_num demo_base demo_corrupt 0 = 0" "page_num demo_base demo_corrupt 1 = 2" "page_num demo_base demo_corrupt 2 = 3"
  "page_valid demo_base demo_corrupt 1" "page_valid demo_base demo_corrupt 2"
  by (simp_all add: page_num_def page_valid_def EFTL_PAGE_OFFSET_ADDR_def demo_corrupt_def demo_base_def Let_def
      EFTL_PAGE_SIZE_def EFTL_WRITE_NUM_OFFSET_def EFTL_MAGIC_NUM_def word_of_bytes_def)

lemma less3: "(i :: nat) < 3 \<longleftrightarrow> i = 0 \<or> i = 1 \<or> i = 2"
  by auto

lemma demo_corrupt_newest: "newest_corrupt demo_base 3 demo_corrupt 2"
proof -
  have "buf_word (page_at demo_base demo_corrupt 2) EFTL_CSM_OFFSET = 0"
    by (simp add: buf_word_def page_at_def EFTL_CSM_OFFSET_def EFTL_PAGE_SIZE_def demo_corrupt_def demo_base_def
        word_of_bytes_def)
  then have "\<not> page_sound (page_at demo_base demo_corrupt 2)"
    using xy_chksum_not_0 by (metis page_sound_def)
  then show ?thesis
    using demo_corrupt_pages page_valid_pos [of demo_base demo_corrupt 0]
    by (auto simp: newest_corrupt_def newest_def less3)
qed

lemma demo_corrupt_next:
  "newest demo_base 3 (FLASH_SectorErase (demo_base + EFTL_PAGE_SIZE * 2) demo_corrupt) 1"
  using demo_corrupt_pages page_valid_pos [of demo_base demo_corrupt 0]
  by (auto simp: newest_def page_valid_erased page_num_erased less3)

section \<open>A bad checksum on a low battery\<close>

lemma newest_scan_again:
  assumes "newest base n fl i"
  shows "ftl_scan base fl [0..<n] (page_num base fl i) None = (page_num base fl i, Some i)"
proof -
  obtain mx vp where r: "ftl_scan base fl [0..<n] (page_num base fl i) None = (mx, vp)" by fastforce
  have "vp \<noteq> None" using ftl_scan_result [OF r] assms by (auto simp: newest_def)
  then obtain j where j: "vp = Some j" "j < n" "page_valid base fl j" "mx = page_num base fl j" "page_num base fl i \<le> mx"
    using ftl_scan_result [OF r] by auto
  then have "j = i" using assms by (auto simp: newest_def not_le dest: leD)
  then show ?thesis using r j by simp
qed

lemma choose_loop_low_battery:
  assumes "low_vBat env" "region_ok base n" "readable ptr" "newest_corrupt base n fl i" "mx = 0 \<or> mx = page_num base fl i"
  shows "choose_loop fuel env base n ptr True mx buf fl = None"
  using assms(5)
proof (induction fuel arbitrary: mx buf)
  case 0
  then show ?case by simp
next
  case (Suc fuel)
  have nw: "newest base n fl i" "i < n" "\<not> page_sound (page_at base fl i)"
    using assms(4) by (simp_all add: newest_corrupt_def newest_def)
  have "ftl_scan base fl [0..<n] mx None = (page_num base fl i, Some i)"
    using Suc.prems newest_corrupt_scan [OF assms(4)] newest_scan_again [OF nw(1)] by auto
  from choose_loop_round [OF assms(2,3) this nw(2)] Suc.IH [of "page_num base fl i" "page_at base fl i"]
  show ?case using assms(1) nw(3) by (simp add: xy_flash_erase_def Let_def del: choose_loop.simps)
qed

text \<open>
  Code bug: when the battery is low, \<open>xy_flash_erase\<close> refuses to erase and
  \<open>xy_choose_valid_ftl\<close> does not look at its result. A current page with a bad checksum is then
  chosen again in every round, and a read of the region never returns, whatever the number of rounds.
\<close>

lemma low_battery_read_hangs:
  assumes "low_vBat env" "find_valid_ftl_cfg base st = Some (a, n)" "region_ok base n"
    and "newest_corrupt base n (flash_mem st) i" "in_sram (heap_aligned env)" "readable ptr"
    and "offset + size' \<le> 4076" "\<not> offtime env"
  shows "\<forall>fuel. xy_ftl_read fuel env temp0 (base + offset) ptr data size' st = None"
proof
  fix fuel
  have off: "(base + offset) mod EFTL_PAGE_SIZE = offset"
    using assms(3,7) mod_add_left_eq [of base EFTL_PAGE_SIZE offset]
    by (simp add: region_ok_def EFTL_PAGE_SIZE_def)
  have al: "base + offset - (base + offset) mod EFTL_PAGE_SIZE = base" by (simp only: off)
  have "xy_choose_valid_ftl fuel env base p True buf st = None" if "readable p" for p buf
    using assms(2) choose_loop_low_battery [OF assms(1,3) that assms(4), of 0 fuel buf]
    by (simp add: xy_choose_valid_ftl_def)
  then show "xy_ftl_read fuel env temp0 (base + offset) ptr data size' st = None"
    unfolding xy_ftl_read_def Let_def off al
    using assms(5,6,8) by (auto simp: xy_assert_def readable_def)
qed

section \<open>The end of the write numbers\<close>

lemma other_next_sector:
  assumes "2 \<le> n" "current base n fl = Some i"
  shows "next_sector base n fl \<noteq> i"
proof (cases "i + 1 = n")
  case True
  then show ?thesis using assms by (simp add: next_sector_def)
next
  case False
  then have "i + 1 < n" using current_Some [OF assms(2)] by linarith
  then show ?thesis using assms by (simp add: next_sector_def)
qed

text \<open>
  Code bug: after the write number \<open>0xFFFFFFFE\<close> a page is stored with number \<open>0xFFFFFFFF\<close>, which the
  search takes for an erased sector. The write returns \<open>XY_OK\<close>, and the record stays what it was.
\<close>

lemma last_write_number_loses_data:
  assumes "env_ok env" "find_valid_ftl_cfg base st = Some (a, n)" "region_ok base n" "2 \<le> n"
    and "store_ok 0 base n (flash_mem st)" "newest base n (flash_mem st) i"
    and "page_num base (flash_mem st) i = 0xFFFFFFFE"
    and "offset + size' \<le> 4076" "\<not> (offtime env \<and> base = NV_FLASH_NET_BASE)"
    and "length (write_data base ptr size' bytes) = size'"
  shows "\<exists>st'. xy_ftl_write (Suc fuel) env buf0 base offset ptr bytes size' st = Some (XY_OK, st') \<and>
    stored base n (flash_mem st') = stored base n (flash_mem st)"
proof -
  let ?fl = "flash_mem st" and ?data = "write_data base ptr size' bytes"
  let ?nxt = "next_sector base n ?fl"
  let ?p = "next_page offset ?data (record_page base n ?fl)"
  let ?fl' = "store_sector (base + EFTL_PAGE_SIZE * ?nxt) ?p ?fl"
  have cur: "current base n ?fl = Some i" by (rule newest_current [OF assms(6)])
  have ne: "?nxt \<noteq> i" by (rule other_next_sector [OF assms(4) cur])
  have fit: "offset + length ?data \<le> 4076" using assms(8,10) by simp
  have lp: "length ?p = EFTL_PAGE_SIZE" using fit by (simp add: next_page_facts)
  have "buf_word ?p EFTL_WRITE_NUM_OFFSET = next_num (page_num base ?fl i)"
    using fit cur by (simp add: next_page_facts page_num_buf) (simp add: record_page_def)
  then have num: "buf_word ?p EFTL_WRITE_NUM_OFFSET = 0xFFFFFFFF" using assms(7) by (simp add: next_num_def)
  note pa = page_at_stored [OF lp, of base ?nxt ?fl]
  have "current base n ?fl' = Some i"
    using assms(6) ne unfolding newest_def
    by (intro current_unique) (auto simp: page_valid_buf page_num_buf pa num split: if_splits)
  then have "stored base n ?fl' = stored base n ?fl" using cur ne by (simp add: stored_def pa)
  then show ?thesis using xy_ftl_write_result [OF assms(1-3,5,8-10), of fuel buf0] by auto
qed

text \<open>A region whose only page has the last write number.\<close>

definition demo_last_page :: "u8 list" where
  "demo_last_page = next_page 10 [1, 2, 3]
     (patch EFTL_WRITE_NUM_OFFSET (bytes_of_word 0xFFFFFFFD) (replicate EFTL_PAGE_SIZE 0))"

definition demo_last :: flash where
  "demo_last = store_sector demo_base demo_last_page blank"

lemma demo_last_facts:
  "newest demo_base 3 demo_last 0" "page_num demo_base demo_last 0 = 0xFFFFFFFE" "store_ok 0 demo_base 3 demo_last"
proof -
  let ?b = "patch EFTL_WRITE_NUM_OFFSET (bytes_of_word 0xFFFFFFFD) (replicate EFTL_PAGE_SIZE 0)"
  have lb: "length ?b = EFTL_PAGE_SIZE" by (simp add: EFTL_PAGE_SIZE_def EFTL_WRITE_NUM_OFFSET_def)
  have "buf_word ?b EFTL_WRITE_NUM_OFFSET = 0xFFFFFFFD"
    by (rule buf_word_patch_word) (simp add: EFTL_PAGE_SIZE_def EFTL_WRITE_NUM_OFFSET_def)
  then have p: "length demo_last_page = EFTL_PAGE_SIZE" "buf_word demo_last_page 0 = EFTL_MAGIC_NUM"
    "buf_word demo_last_page EFTL_WRITE_NUM_OFFSET = 0xFFFFFFFE" "page_sound demo_last_page"
    using next_page_facts [OF lb, of 10 "[1, 2, 3]"] by (simp_all add: demo_last_page_def next_num_def)
  have pa: "page_at demo_base demo_last j = (if j = 0 then demo_last_page else page_at demo_base blank j)" for j
    using page_at_stored [OF p(1), of demo_base 0 blank j] by (simp add: demo_last_def)
  show num: "page_num demo_base demo_last 0 = 0xFFFFFFFE" by (simp add: page_num_buf pa p)
  have "page_valid demo_base demo_last j \<longleftrightarrow> j = 0" if "j < 3" for j
    using current_None_invalid [OF blank_current that] p by (auto simp: page_valid_buf page_num_buf pa)
  then show "newest demo_base 3 demo_last 0" by (auto simp: newest_def)
  then show "store_ok 0 demo_base 3 demo_last"
    using p num by (simp add: newest_current store_ok_def record_page_def pa num_used_def)
qed

section \<open>Loss of power during a write\<close>

text \<open>
  A sector is erased and then programmed from its first byte. Where the power fails, it holds an
  erased prefix of the old contents, or a prefix of the new page in an erased sector.
\<close>

definition cut_erase :: "nat \<Rightarrow> nat \<Rightarrow> flash \<Rightarrow> flash" where
  "cut_erase s k fl = (\<lambda>x. if s \<le> x \<and> x < s + k then 0xFF else fl x)"

definition cut_program :: "nat \<Rightarrow> u8 list \<Rightarrow> nat \<Rightarrow> flash \<Rightarrow> flash" where
  "cut_program s page k fl = FLASH_WriteData s (take k page) (FLASH_SectorErase s fl)"

text \<open>\<open>fl'\<close> lies between \<open>fl\<close> and \<open>fl1\<close>, which differ in one sector.\<close>

definition interrupted :: "nat \<Rightarrow> nat \<Rightarrow> flash \<Rightarrow> flash \<Rightarrow> flash \<Rightarrow> bool" where
  "interrupted base n fl fl1 fl' \<longleftrightarrow>
     (\<exists>i < n. \<exists>k \<le> EFTL_PAGE_SIZE.
        fl1 = store_sector (base + EFTL_PAGE_SIZE * i) (page_at base fl1 i) fl \<and>
        (fl' = cut_erase (base + EFTL_PAGE_SIZE * i) k fl \<or>
         fl' = cut_program (base + EFTL_PAGE_SIZE * i) (page_at base fl1 i) k fl))"

definition cut_page :: "nat \<Rightarrow> u8 list \<Rightarrow> u8 list" where
  "cut_page k page = take k page @ replicate (EFTL_PAGE_SIZE - k) 0xFF"

lemma cut_page_nth: "length page = EFTL_PAGE_SIZE \<Longrightarrow> k \<le> EFTL_PAGE_SIZE \<Longrightarrow> x < EFTL_PAGE_SIZE \<Longrightarrow>
    cut_page k page ! x = (if x < k then page ! x else 0xFF)"
  by (simp add: cut_page_def nth_append)

lemma length_cut_page [simp]: "length page = EFTL_PAGE_SIZE \<Longrightarrow> k \<le> EFTL_PAGE_SIZE \<Longrightarrow> length (cut_page k page) = EFTL_PAGE_SIZE"
  by (simp add: cut_page_def)

lemma cut_program_store:
  assumes "length page = EFTL_PAGE_SIZE" "k \<le> EFTL_PAGE_SIZE"
  shows "cut_program s page k fl = store_sector s (cut_page k page) fl"
  using assms by (intro ext) (auto simp: cut_program_def FLASH_WriteData_def FLASH_SectorErase_def store_sector_def cut_page_nth)

lemma cut_erase_store:
  assumes "k \<le> EFTL_PAGE_SIZE"
  shows "cut_erase s k fl = store_sector s (replicate k 0xFF @ drop k (flash_read s EFTL_PAGE_SIZE fl)) fl"
  using assms by (intro ext) (auto simp: cut_erase_def store_sector_def nth_append)

lemma magic_first_byte: "buf_word p 0 = EFTL_MAGIC_NUM \<Longrightarrow> p ! 0 = 0x5A"
proof -
  have "word_of_bytes 0x5A 0x5A 0x5A 0x5A = EFTL_MAGIC_NUM" by (simp add: word_of_bytes_def EFTL_MAGIC_NUM_def)
  then have m: "bytes_of_word EFTL_MAGIC_NUM = [0x5A, 0x5A, 0x5A, 0x5A]" using bytes_of_word_of_bytes by metis
  assume "buf_word p 0 = EFTL_MAGIC_NUM"
  then have "bytes_of_word (buf_word p 0) = [0x5A, 0x5A, 0x5A, 0x5A]" by (simp only: m)
  then show ?thesis unfolding buf_word_def bytes_of_word_of_bytes by simp
qed

text \<open>An incomplete write number is not smaller than the complete one.\<close>

lemma cut_number:
  assumes "length page = EFTL_PAGE_SIZE" "k \<le> EFTL_PAGE_SIZE"
  shows "buf_word page EFTL_WRITE_NUM_OFFSET \<le> buf_word (cut_page k page) EFTL_WRITE_NUM_OFFSET"
proof -
  have b: "unat (page ! x) \<le> unat (cut_page k page ! x)" if "x < EFTL_PAGE_SIZE" for x
  proof -
    have "unat (page ! x) < 256" using unsigned_less [of "page ! x", where ?'a = nat] by simp
    then show ?thesis using assms that by (simp add: cut_page_nth)
  qed
  have o: "EFTL_WRITE_NUM_OFFSET + 3 < EFTL_PAGE_SIZE" by (simp add: EFTL_PAGE_SIZE_def EFTL_WRITE_NUM_OFFSET_def)
  show ?thesis
    unfolding word_le_nat_alt buf_word_def unat_word_of_bytes
    using o by (intro add_mono mult_le_mono2 b) simp_all
qed

lemma cut_number_none:
  assumes "length page = EFTL_PAGE_SIZE" "k \<le> EFTL_WRITE_NUM_OFFSET"
  shows "buf_word (cut_page k page) EFTL_WRITE_NUM_OFFSET = 0xFFFFFFFF"
  using assms by (simp add: buf_word_def cut_page_nth EFTL_PAGE_SIZE_def EFTL_WRITE_NUM_OFFSET_def)

lemma cut_page_complete:
  assumes "length page = EFTL_PAGE_SIZE" "EFTL_WRITE_NUM_OFFSET < k" "k \<le> EFTL_PAGE_SIZE"
  shows "payload (cut_page k page) = payload page" "page_sound (cut_page k page) = page_sound page"
    "buf_word (cut_page k page) 0 = buf_word page 0"
proof -
  note sizes = EFTL_PAGE_SIZE_def EFTL_WRITE_NUM_OFFSET_def EFTL_CSM_OFFSET_def
  have nth: "cut_page k page ! x = page ! x" if "x < k" for x
    using assms that by (simp add: cut_page_nth)
  show "payload (cut_page k page) = payload page"
    using assms by (intro nth_equalityI) (auto simp: payload_nth nth sizes)
  have "take EFTL_CSM_OFFSET (cut_page k page) = take EFTL_CSM_OFFSET page"
    using assms by (simp add: cut_page_def sizes min_def)
  then show "page_sound (cut_page k page) = page_sound page"
    using assms by (simp add: page_sound_def buf_word_def nth sizes)
  show "buf_word (cut_page k page) 0 = buf_word page 0"
    using assms by (simp add: buf_word_def nth sizes)
qed

text \<open>
  A region in which the sector \<open>s\<close>, not the current one, was replaced: either it holds no valid page
  and the current page is the same, or it holds the newest one.
\<close>

lemma current_iff: "current base n fl = Some i \<longleftrightarrow>
    i < n \<and> page_valid base fl i \<and>
    (\<forall>j < n. page_valid base fl j \<longrightarrow> page_num base fl j \<le> page_num base fl i \<and> (i < j \<longrightarrow> page_num base fl j < page_num base fl i))"
proof (induction n)
  case 0
  then show ?case by (simp add: current_def)
next
  case (Suc n)
  have app: "ftl_scan base fl (xs @ ys) mx vp = (case ftl_scan base fl xs mx vp of (m, v) \<Rightarrow> ftl_scan base fl ys m v)"
    for xs ys mx vp by (induction xs arbitrary: mx vp) auto
  show ?case
  proof (cases "current base n fl")
    case None
    have "current base (Suc n) fl = (if page_valid base fl n then Some n else None)"
      using current_None [OF None] by (simp add: current_def app)
    then show ?thesis using current_None_invalid [OF None] by (auto simp: less_Suc_eq)
  next
    case (Some l)
    note l = current_Some [OF Some]
    have step: "current base (Suc n) fl = (if page_valid base fl n \<and> page_num base fl l \<le> page_num base fl n then Some n else Some l)"
      using l by (simp add: current_def app)
    show ?thesis
    proof (cases "page_valid base fl n \<and> page_num base fl l \<le> page_num base fl n")
      case True
      then have "current base (Suc n) fl = Some n" using step by simp
      moreover have "page_num base fl j \<le> page_num base fl n" if "j < n" "page_valid base fl j" for j
        using that True l by (meson order_trans)
      ultimately show ?thesis using True by (auto simp: less_Suc_eq dest: leD)
    next
      case False
      then have "current base (Suc n) fl = current base n fl" unfolding step Some by (rule if_not_P)
      then show ?thesis using False Suc.IH l Some by (auto simp: less_Suc_eq not_le dest: leD intro: less_imp_le)
    qed
  qed
qed

lemma stored_without_sector:
  assumes "\<And>j. j \<noteq> s \<Longrightarrow> page_at base fl' j = page_at base fl j" "\<not> page_valid base fl' s"
    and "current base n fl \<noteq> Some s" "current base n fl = None \<Longrightarrow> \<not> page_valid base fl s"
  shows "current base n fl' = current base n fl" "stored base n fl' = stored base n fl"
proof -
  have pn: "j \<noteq> s \<Longrightarrow> page_num base fl' j = page_num base fl j" for j
    by (simp add: page_num_buf assms(1))
  have pv: "page_valid base fl' j \<longleftrightarrow> j \<noteq> s \<and> page_valid base fl j" for j
    using assms(2) by (cases "j = s") (simp_all add: page_valid_buf page_num_buf assms(1))
  show c: "current base n fl' = current base n fl"
  proof (cases "current base n fl")
    case None
    have "current base n fl' \<noteq> Some i" for i using current_None_invalid [OF None] by (auto simp: current_iff pv)
    then show ?thesis using None by (cases "current base n fl'") auto
  next
    case (Some i)
    then have "i \<noteq> s" using assms(3) by simp
    then have "current base n fl' = Some i" using Some by (auto simp: current_iff pv pn)
    then show ?thesis using Some by simp
  qed
  show "stored base n fl' = stored base n fl"
    unfolding stored_def c using assms(1,3) by (cases "current base n fl") auto
qed

lemma page_at_changed:
  assumes "length page = EFTL_PAGE_SIZE" "fl' = store_sector (base + EFTL_PAGE_SIZE * s) page fl"
  shows "j \<noteq> s \<Longrightarrow> page_at base fl' j = page_at base fl j" "page_at base fl' s = page"
  using page_at_stored [OF assms(1), of base s fl] assms(2) by simp_all

lemma cut_erase_cases:
  assumes "k \<le> EFTL_PAGE_SIZE" "fl' = cut_erase (base + EFTL_PAGE_SIZE * s) k fl"
  shows "fl' = fl \<or> (\<forall>j. j \<noteq> s \<longrightarrow> page_at base fl' j = page_at base fl j) \<and> \<not> page_valid base fl' s"
proof (cases "k = 0")
  case True
  have "cut_erase x 0 fl = fl" for x by (rule ext) (auto simp: cut_erase_def)
  then show ?thesis using assms(2) True by simp
next
  case False
  let ?page = "replicate k 0xFF @ drop k (flash_read (base + EFTL_PAGE_SIZE * s) EFTL_PAGE_SIZE fl)"
  have l: "length ?page = EFTL_PAGE_SIZE" using assms(1) by simp
  note pa = page_at_changed [OF l assms(2) [unfolded cut_erase_store [OF assms(1)]]]
  have "?page ! 0 = 0xFF" using False by (simp add: nth_append)
  then have "buf_word ?page 0 \<noteq> EFTL_MAGIC_NUM" using magic_first_byte [of ?page] by auto
  then show ?thesis using pa by (simp add: page_valid_buf)
qed

lemma cut_program_cases:
  assumes ok: "store_ok (Suc m) base n fl" and fit: "offset + length data \<le> 4076" and n: "0 < n"
    and k: "k \<le> EFTL_PAGE_SIZE"
  defines "s \<equiv> next_sector base n fl" and "page \<equiv> next_page offset data (record_page base n fl)"
  assumes fl': "fl' = cut_program (base + EFTL_PAGE_SIZE * s) page k fl"
  shows "(\<forall>j. j \<noteq> s \<longrightarrow> page_at base fl' j = page_at base fl j) \<and>
    (\<not> page_valid base fl' s \<or>
     current base n fl' = Some s \<and> page_sound (page_at base fl' s) \<and> payload (page_at base fl' s) = payload page)"
proof -
  have lr: "length (record_page base n fl) = EFTL_PAGE_SIZE" by simp
  note facts = next_page_facts [OF lr fit, folded page_def]
  note num = next_num_newest [OF ok, folded facts(4)]
  have lc: "length (cut_page k page) = EFTL_PAGE_SIZE" using facts(1) k by simp
  have st: "fl' = store_sector (base + EFTL_PAGE_SIZE * s) (cut_page k page) fl"
    using fl' cut_program_store [OF facts(1) k] by simp
  note pa = page_at_changed [OF lc st]
  show ?thesis
  proof (cases "page_valid base fl' s")
    case False
    then show ?thesis using pa by simp
  next
    case True
    have "buf_word (cut_page k page) EFTL_WRITE_NUM_OFFSET \<noteq> 0xFFFFFFFF"
      using True pa by (simp add: page_valid_buf page_num_buf)
    then have whole: "EFTL_WRITE_NUM_OFFSET < k" using cut_number_none [OF facts(1)] by (meson not_le)
    note eqs = cut_page_complete [OF facts(1) whole k]
    have "page_num base fl j < page_num base fl' s" if "j < n" "page_valid base fl j" for j
      using num(3) [OF that] cut_number [OF facts(1) k] pa(2) by (simp add: page_num_buf)
    moreover have "page_num base fl' j = page_num base fl j \<and> page_valid base fl' j = page_valid base fl j" if "j \<noteq> s" for j
      using pa(1) [OF that] by (simp add: page_valid_buf page_num_buf)
    ultimately have "current base n fl' = Some s"
      using True next_sector_less [OF n, of base fl] by (intro current_unique) (simp_all add: s_def)
    then show ?thesis using pa eqs facts(3) by simp
  qed
qed

lemma changed_sector_unique:
  assumes "fl1 = store_sector (base + EFTL_PAGE_SIZE * s) p fl" "fl1 = store_sector (base + EFTL_PAGE_SIZE * i) q fl" "fl1 \<noteq> fl"
  shows "i = s"
proof (rule ccontr)
  assume ne: "i \<noteq> s"
  obtain x where x: "fl1 x \<noteq> fl x" using assms(3) by blast
  then have "base + EFTL_PAGE_SIZE * s \<le> x \<and> x < base + EFTL_PAGE_SIZE * s + EFTL_PAGE_SIZE"
    "base + EFTL_PAGE_SIZE * i \<le> x \<and> x < base + EFTL_PAGE_SIZE * i + EFTL_PAGE_SIZE"
    using assms(1,2) by (metis store_sector_simps(2))+
  then have d: "x = base + EFTL_PAGE_SIZE * s + (x - (base + EFTL_PAGE_SIZE * s))" "x - (base + EFTL_PAGE_SIZE * s) < EFTL_PAGE_SIZE"
    and i: "base + EFTL_PAGE_SIZE * i \<le> x \<and> x < base + EFTL_PAGE_SIZE * i + EFTL_PAGE_SIZE"
    by linarith+
  show False using other_sector [OF ne [symmetric] d(2), of base] i unfolding d(1) [symmetric] by blast
qed


text \<open>The first write to an erased region, cut off in the middle of the write number.\<close>

lemma demo_flash_write:
  "xy_ftl_write 1 demo_env [] demo_base 10 0x20001000 [1, 2, 3] 3 (demo_st blank) = Some (XY_OK, demo_st demo_flash)"
proof -
  have "next_sector demo_base 3 blank = 0" by (simp add: next_sector_def blank_current)
  moreover have "(demo_st blank)\<lparr>flash_mem := fl\<rparr> = demo_st fl" for fl by (simp add: demo_st_def)
  ultimately show ?thesis
    using xy_ftl_write_result [of demo_env demo_base "demo_st blank" demo_base 3 5 10 3 "0x20001000" "[1, 2, 3]" 0 "[]"]
    by (simp add: demo_facts demo_write_data blank_ok blank_current blank_record demo_flash_def)
qed


end
