(* ===== verification/Atc_Check.thy ===== *)
theory Atc_Check
  imports XY_Utils
begin

text \<open>
  The checkers of command parameters of the protocol-stack adapter
  (\<^verbatim>\<open>APPLIB/xy_ps/atc_ps/src/atc_ps_com.c\<close>): each reads one parameter of a command line that ends in a
  carriage return, says which character stopped it, and stores the value or the characters. Lines
  are memories and pointers into them indices. What a function stores through a pointer it was
  given is part of its result; a value it leaves alone on some path is passed in. \<open>None\<close> is a loop
  that does not end (its 8-bit counter wraps) or leaves the buffer.
\<close>

unbundle bit_operations_syntax

section \<open>Result codes and characters\<close>

datatype param_result = D_ATC_PARAM_OK | D_ATC_PARAM_EMPTY | D_ATC_PARAM_ERROR | D_ATC_PARAM_SYNTAX_ERROR

datatype stop_char = D_ATC_STOP_CHAR_CR | D_ATC_STOP_CHAR_KANMA | D_ATC_STOP_CHAR_SEMICOLON | D_ATC_STOP_CHAR_STR

datatype command_result =
  D_ATC_COMMAND_OK | D_ATC_COMMAND_PARAMETER_ERROR | D_ATC_COMMAND_SYNTAX_ERROR | D_ATC_COMMAND_TOO_MANY_PARAMETERS

abbreviation SEMICOLON :: char where "SEMICOLON \<equiv> CHR 0x3B"
abbreviation MINUS :: char where "MINUS \<equiv> CHR 0x2D"

text \<open>The outputs of a number checker.\<close>

record 'v num_par =
  pLength :: u8
  pBinaryData :: 'v
  pStopStrInf :: stop_char

definition slice :: "memory \<Rightarrow> nat \<Rightarrow> nat \<Rightarrow> string" where
  "slice m p n = map (\<lambda>i. peek m (p + i)) [0..<n]"

section \<open>Digits to numbers\<close>

text \<open>
  The digit loops; \<open>z\<close> allows zeros in front. The sum wraps at the width of its variable.
\<close>

fun dec_loop :: "bool \<Rightarrow> nat \<Rightarrow> 'a::len word \<Rightarrow> string \<Rightarrow> 'a word option" where
  "dec_loop z i num [] = Some num"
| "dec_loop z i num (c # cs) =
     (if isdigit c then
        (if \<not> z \<and> num = 0 \<and> i \<noteq> 0 then None
         else dec_loop z (Suc i) (num * 10 + of_nat (code c - 48)) cs)
      else None)"

definition AtcAp_UlongToBinary :: "memory \<Rightarrow> nat \<Rightarrow> u8 \<Rightarrow> bool \<Rightarrow> u32 option" where
  "AtcAp_UlongToBinary m p ucLength ucAllowZeroStartFlg =
     dec_loop ucAllowZeroStartFlg 0 0 (slice m p (unat ucLength))"

text \<open>A leading minus sign needs a digit behind it.\<close>

definition split_sign :: "memory \<Rightarrow> nat \<Rightarrow> nat \<Rightarrow> (bool \<times> string) option" where
  "split_sign m p n =
     (if peek m p = MINUS then (if n < 2 then None else Some (True, slice m (p + 1) (n - 1)))
      else Some (False, slice m p n))"

definition ATC_ShortToBinary :: "memory \<Rightarrow> nat \<Rightarrow> u8 \<Rightarrow> u16 option" where
  "ATC_ShortToBinary m p ucLength = do {
     (neg, cs) \<leftarrow> split_sign m p (unat ucLength);
     usNum \<leftarrow> dec_loop True 0 0 cs;
     Some (if neg then - usNum else usNum)
   }"

definition ATC_UshortToBinary :: "memory \<Rightarrow> nat \<Rightarrow> u8 \<Rightarrow> u16 option" where
  "ATC_UshortToBinary m p ucLength = do {
     (neg, cs) \<leftarrow> split_sign m p (unat ucLength);
     usNum \<leftarrow> dec_loop True 0 0 cs;
     Some (if neg then - usNum else usNum)
   }"

definition ATC_CharToBinary :: "memory \<Rightarrow> nat \<Rightarrow> u8 \<Rightarrow> bool \<Rightarrow> u8 option" where
  "ATC_CharToBinary m p ucLength ucSignedFlg = do {
     (neg, cs) \<leftarrow> split_sign m p (unat ucLength);
     ulTemp \<leftarrow> (dec_loop False 0 0 cs :: u32 option);
     if \<not> ucSignedFlg \<and> (neg \<or> ulTemp > 255) then None
     else if ucSignedFlg \<and> (neg \<and> ulTemp > 128 \<or> \<not> neg \<and> ulTemp > 127) then None
     else Some (if neg then - ucast ulTemp else ucast ulTemp)
   }"

fun hex_loop :: "u16 \<Rightarrow> string \<Rightarrow> u16 option" where
  "hex_loop usNum [] = Some usNum"
| "hex_loop usNum (c # cs) =
     (case hex_nibble c of None \<Rightarrow> None | Some h \<Rightarrow> hex_loop (usNum * 16 + ucast h) cs)"

definition ATC_HexToBinary :: "memory \<Rightarrow> nat \<Rightarrow> u8 \<Rightarrow> u16 option" where
  "ATC_HexToBinary m p ucLength = hex_loop 0 (slice m p (unat ucLength))"

section \<open>Decimal parameters\<close>

definition empty_stop :: "char \<Rightarrow> stop_char option" where
  "empty_stop c =
     (if c = CR then Some D_ATC_STOP_CHAR_CR
      else if c = SEMICOLON then Some D_ATC_STOP_CHAR_SEMICOLON
      else if c = COMMA then Some D_ATC_STOP_CHAR_KANMA
      else None)"

text \<open>
  The counting loop: how many characters belong to the number, and what stopped it. The counter has
  8 bits; past 255 it starts over on characters it has seen and never stops.
\<close>

function num_end :: "memory \<Rightarrow> nat \<Rightarrow> nat \<Rightarrow> nat \<Rightarrow> (stop_char \<times> nat) option" where
  "num_end m p uiFigure ucCount =
     (if 256 \<le> ucCount then None
      else
        let c = peek m (p + ucCount) in
        case empty_stop c of
          Some s \<Rightarrow> Some (s, ucCount)
        | None \<Rightarrow>
            if \<not> isdigit c \<and> c \<noteq> MINUS then Some (D_ATC_STOP_CHAR_STR, ucCount)
            else if uiFigure \<le> ucCount then Some (D_ATC_STOP_CHAR_STR, ucCount)
            else num_end m p uiFigure (ucCount + 1))"
  by pat_completeness auto
termination
  by (relation "measure (\<lambda>(m, p, f, n). 256 - n)") auto

declare num_end.simps [simp del]

text \<open>
  The body the three number checkers share, with the conversion and the result of its failure.
\<close>

definition check_number ::
    "(memory \<Rightarrow> nat \<Rightarrow> u8 \<Rightarrow> 'v option) \<Rightarrow> param_result \<Rightarrow> memory \<Rightarrow> nat \<Rightarrow> nat \<Rightarrow> 'v::zero num_par \<Rightarrow>
     (param_result \<times> 'v num_par) option" where
  "check_number conv failure m p uiFigure out =
     (case empty_stop (peek m p) of
        Some s \<Rightarrow> Some (D_ATC_PARAM_EMPTY, out\<lparr>pLength := 0, pBinaryData := 0, pStopStrInf := s\<rparr>)
      | None \<Rightarrow>
          if \<not> isdigit (peek m p) \<and> peek m p \<noteq> MINUS
          then Some (D_ATC_PARAM_EMPTY, out\<lparr>pLength := 0, pBinaryData := 0, pStopStrInf := D_ATC_STOP_CHAR_STR\<rparr>)
          else do {
            (stop, ucCount) \<leftarrow> num_end m p uiFigure 1;
            let out1 = out\<lparr>pLength := 0, pBinaryData := 0, pStopStrInf := stop\<rparr>;
            Some (case conv m p (of_nat ucCount) of
                Some v \<Rightarrow> (D_ATC_PARAM_OK, out1\<lparr>pLength := of_nat ucCount, pBinaryData := v\<rparr>)
              | None \<Rightarrow> (failure, out1))
          })"

definition ATC_CheckLongNumParameter ::
    "memory \<Rightarrow> nat \<Rightarrow> nat \<Rightarrow> bool \<Rightarrow> u32 num_par \<Rightarrow> (param_result \<times> u32 num_par) option" where
  "ATC_CheckLongNumParameter m p uiFigure ucAllowZeroStartFlg =
     check_number (\<lambda>m p n. AtcAp_UlongToBinary m p n ucAllowZeroStartFlg) D_ATC_PARAM_ERROR m p uiFigure"

definition ATC_CheckNumParameter ::
    "memory \<Rightarrow> nat \<Rightarrow> nat \<Rightarrow> u8 num_par \<Rightarrow> (param_result \<times> u8 num_par) option" where
  "ATC_CheckNumParameter m p uiFigure =
     check_number (\<lambda>m p n. ATC_CharToBinary m p n False) D_ATC_PARAM_ERROR m p uiFigure"

definition ATC_CheckUSNumParameter ::
    "memory \<Rightarrow> nat \<Rightarrow> nat \<Rightarrow> u16 num_par \<Rightarrow> (param_result \<times> u16 num_par) option" where
  "ATC_CheckUSNumParameter m p uiFigure =
     check_number ATC_UshortToBinary D_ATC_PARAM_SYNTAX_ERROR m p uiFigure"

text \<open>
  What the two readers of a decimal parameter do with its result: \<open>accept\<close> is the bounds check. The
  stored value, if any, the offset afterwards and the result code; \<open>stop0\<close> and \<open>v0\<close> stand for what the
  local variables hold at first.
\<close>

definition get_decimal ::
    "(u32 \<Rightarrow> bool) \<Rightarrow> param_result \<times> u32 num_par \<Rightarrow> u16 \<Rightarrow> bool \<Rightarrow> bool \<Rightarrow> command_result \<times> u32 option \<times> u16" where
  "get_decimal accept res offset ucOptFlag ucLastParameter =
     (let (ucParResult, par) = res;
          off1 = offset + ucast (pLength par);
          stored = (if ucParResult = D_ATC_PARAM_OK \<and> accept (pBinaryData par) then Some (pBinaryData par) else None);
          r = (case ucParResult of
                 D_ATC_PARAM_OK \<Rightarrow> if accept (pBinaryData par) then D_ATC_COMMAND_OK else D_ATC_COMMAND_PARAMETER_ERROR
               | D_ATC_PARAM_EMPTY \<Rightarrow> if \<not> ucOptFlag then D_ATC_COMMAND_SYNTAX_ERROR else D_ATC_COMMAND_OK
               | D_ATC_PARAM_SYNTAX_ERROR \<Rightarrow> D_ATC_COMMAND_SYNTAX_ERROR
               | D_ATC_PARAM_ERROR \<Rightarrow> D_ATC_COMMAND_PARAMETER_ERROR)
      in if pStopStrInf par \<noteq> D_ATC_STOP_CHAR_CR \<and> r = D_ATC_COMMAND_OK then
           (if pStopStrInf par = D_ATC_STOP_CHAR_KANMA then
              (if ucLastParameter then (D_ATC_COMMAND_TOO_MANY_PARAMETERS, stored, off1)
               else (D_ATC_COMMAND_OK, stored, off1 + 1))
            else (D_ATC_COMMAND_SYNTAX_ERROR, stored, off1))
         else (r, stored, off1))"

definition no_par :: "u32 \<Rightarrow> stop_char \<Rightarrow> u32 num_par" where
  "no_par v0 stop0 = \<lparr>pLength = 0, pBinaryData = v0, pStopStrInf = stop0\<rparr>"

definition ATC_GetDecimalParameterByte ::
    "u32 \<Rightarrow> stop_char \<Rightarrow> memory \<Rightarrow> u16 \<Rightarrow> nat \<Rightarrow> u8 \<Rightarrow> u8 \<Rightarrow> bool \<Rightarrow> bool \<Rightarrow>
     (command_result \<times> u8 option \<times> u16) option" where
  "ATC_GetDecimalParameterByte v0 stop0 m offset uiFigure ucMin ucMax ucOptFlag ucLastParameter = do {
     res \<leftarrow> ATC_CheckLongNumParameter m (unat offset) uiFigure False (no_par v0 stop0);
     let (r, v, off) = get_decimal (\<lambda>v. ucast ucMin \<le> v \<and> v \<le> ucast ucMax \<and> v \<le> 255) res offset ucOptFlag ucLastParameter;
     Some (r, map_option ucast v, off)
   }"

definition ATC_GetDecimalParameterLong ::
    "u32 \<Rightarrow> stop_char \<Rightarrow> memory \<Rightarrow> u16 \<Rightarrow> nat \<Rightarrow> u32 \<Rightarrow> u32 \<Rightarrow> bool \<Rightarrow> bool \<Rightarrow> bool \<Rightarrow>
     (command_result \<times> u32 option \<times> u16) option" where
  "ATC_GetDecimalParameterLong v0 stop0 m offset uiFigure ulMin ulMax ucOptFlag ucLastParameter ucAllowZeroStartFlg = do {
     res \<leftarrow> ATC_CheckLongNumParameter m (unat offset) uiFigure ucAllowZeroStartFlg (no_par v0 stop0);
     Some (get_decimal (\<lambda>v. ulMin \<le> v \<and> v \<le> ulMax) res offset ucOptFlag ucLastParameter)
   }"

section \<open>Hexadecimal parameters\<close>

text \<open>
  The loops that replace hexadecimal digits by their values in the line itself: up to a comma or
  carriage return, or to a character that is no digit (\<open>Inr\<close>). They return the number of digits.
\<close>

function hex_in_place :: "memory \<Rightarrow> nat \<Rightarrow> nat \<Rightarrow> (stop_char \<times> nat + nat) \<times> memory" where
  "hex_in_place m p i =
     (let c = peek m (p + i) in
      if c = COMMA then (Inl (D_ATC_STOP_CHAR_KANMA, i), m)
      else if c = CR then (Inl (D_ATC_STOP_CHAR_CR, i), m)
      else
        case hex_nibble c of
          None \<Rightarrow> (Inr i, m)
        | Some h \<Rightarrow> hex_in_place (m[p + i := char_of (unat h)]) p (i + 1))"
  by pat_completeness auto
termination
proof (relation "measure (\<lambda>(m, p, i). length m - (p + i))", simp, clarify)
  fix m :: memory and p i h
  assume "hex_nibble (peek m (p + i)) = Some h"
  then have "p + i < length m" by (cases "p + i < length m") (auto simp: peek_def hex_nibble_def code_def)
  then show "((m[p + i := char_of (unat h)], p, i + 1), m, p, i) \<in> measure (\<lambda>(m, p, i). length m - (p + i))"
    by simp
qed

declare hex_in_place.simps [simp del]

definition ATC_CheckHexParameter ::
    "memory \<Rightarrow> nat \<Rightarrow> nat \<Rightarrow> u32 num_par \<Rightarrow> param_result \<times> u32 num_par \<times> memory" where
  "ATC_CheckHexParameter m p uiFigure out =
     (case empty_stop (peek m p) of
        Some s \<Rightarrow> (D_ATC_PARAM_EMPTY, out\<lparr>pLength := 0, pBinaryData := 0, pStopStrInf := s\<rparr>, m)
      | None \<Rightarrow>
          let ucOffset = (if peek m p = CHR ''0'' \<and> (peek m (p + 1) = CHR ''x'' \<or> peek m (p + 1) = CHR ''X'') then 2 else 0);
              (r, m1) = hex_in_place m (p + ucOffset) 0
          in case r of
               Inr _ \<Rightarrow> (D_ATC_PARAM_SYNTAX_ERROR, out\<lparr>pStopStrInf := D_ATC_STOP_CHAR_STR\<rparr>, m1)
             | Inl (stop, n) \<Rightarrow>
                 let i = (of_nat n :: u8); out1 = out\<lparr>pStopStrInf := stop\<rparr> in
                 if uiFigure < unat i \<or> ucOffset \<noteq> 0 \<and> i = 0 then (D_ATC_PARAM_ERROR, out1, m1)
                 else
                   let len = i + of_nat ucOffset;
                       v = foldl (\<lambda>a k. a * 16 + of_nat (code (peek m1 (p + k + ucOffset)))) 0 [0..<unat len - ucOffset]
                   in (D_ATC_PARAM_OK, out1\<lparr>pLength := len, pBinaryData := v\<rparr>, m1))"

text \<open>
  \<open>ATC_CheckHexNumParameter\<close> counts up to the next separator as long as the first character is a
  digit; when it is not, the loop ends in its first round, and without a value for the stop
  character if more than one character was allowed.
\<close>

function hex_num_end :: "memory \<Rightarrow> nat \<Rightarrow> nat \<Rightarrow> nat \<Rightarrow> (stop_char option \<times> nat) option" where
  "hex_num_end m p uiFigure ucCount =
     (if 256 \<le> ucCount then None
      else
        case empty_stop (peek m (p + ucCount)) of
          Some s \<Rightarrow> Some (Some s, ucCount)
        | None \<Rightarrow>
            if hex_nibble (peek m p) \<noteq> None then hex_num_end m p uiFigure (ucCount + 1)
            else if uiFigure \<le> ucCount then Some (Some D_ATC_STOP_CHAR_STR, ucCount)
            else Some (None, ucCount))"
  by pat_completeness auto
termination
  by (relation "measure (\<lambda>(m, p, f, n). 256 - n)") auto

declare hex_num_end.simps [simp del]

definition hex_number ::
    "memory \<Rightarrow> nat \<Rightarrow> nat \<Rightarrow> u16 num_par \<Rightarrow> (param_result \<times> u16 num_par) option" where
  "hex_number m q uiFigure out = do {
     (stop, ucCount) \<leftarrow> hex_num_end m q uiFigure 1;
     let out1 = out\<lparr>pLength := 0, pBinaryData := 0,
                    pStopStrInf := (case stop of None \<Rightarrow> pStopStrInf out | Some s \<Rightarrow> s)\<rparr>;
     Some (case ATC_HexToBinary m q (of_nat ucCount) of
         Some v \<Rightarrow> (D_ATC_PARAM_OK, out1\<lparr>pLength := of_nat ucCount, pBinaryData := v\<rparr>)
       | None \<Rightarrow> (D_ATC_PARAM_SYNTAX_ERROR, out1))
   }"

definition ATC_CheckHexNumParameter ::
    "memory \<Rightarrow> nat \<Rightarrow> nat \<Rightarrow> u16 num_par \<Rightarrow> (param_result \<times> u16 num_par) option" where
  "ATC_CheckHexNumParameter m p uiFigure out =
     (let c = peek m p; no_data = out\<lparr>pLength := 0, pBinaryData := 0\<rparr> in
      if c = CR then Some (D_ATC_PARAM_EMPTY, no_data\<lparr>pStopStrInf := D_ATC_STOP_CHAR_CR\<rparr>)
      else if c = SEMICOLON then Some (D_ATC_PARAM_EMPTY, no_data\<lparr>pStopStrInf := D_ATC_STOP_CHAR_SEMICOLON\<rparr>)
      else if c = COMMA then Some (D_ATC_PARAM_EMPTY, no_data\<lparr>pStopStrInf := D_ATC_STOP_CHAR_STR\<rparr>)
      else if c = CHR ''0'' \<and> (peek m (p + 1) = CHR ''x'' \<or> peek m (p + 1) = CHR ''X'')
      then hex_number m (p + 2) uiFigure out
      else if hex_nibble c \<noteq> None then hex_number m p uiFigure out
      else if hex_nibble (peek m (p + 2)) \<noteq> None \<and> hex_nibble (peek m (p + 3)) \<noteq> None
      then Some (case ATC_HexToBinary m (p + 2) 2 of
          Some v \<Rightarrow> (D_ATC_PARAM_OK, out\<lparr>pLength := 4, pBinaryData := v\<rparr>)
        | None \<Rightarrow> (D_ATC_PARAM_SYNTAX_ERROR, out\<lparr>pBinaryData := 0\<rparr>))
      else Some (D_ATC_PARAM_SYNTAX_ERROR, no_data\<lparr>pStopStrInf := D_ATC_STOP_CHAR_STR\<rparr>))"

section \<open>String parameters\<close>

text \<open>The outputs of a string checker; \<open>sp_ParaStr\<close> is what it stores from \<^verbatim>\<open>pParaStr[0]\<close> on.\<close>

record 'l str_par =
  sp_Length :: 'l
  sp_StrLength :: 'l
  sp_ParaStr :: string
  sp_StopStrInf :: stop_char

definition stop_at :: "char \<Rightarrow> stop_char" where
  "stop_at c = (case empty_stop c of Some s \<Rightarrow> s | None \<Rightarrow> D_ATC_STOP_CHAR_STR)"

text \<open>\<^verbatim>\<open>for (; i <= limit; i++) if (P) break;\<close> and the value of \<open>i\<close> afterwards.\<close>

function scan_stop :: "(char \<Rightarrow> bool) \<Rightarrow> memory \<Rightarrow> nat \<Rightarrow> nat \<Rightarrow> nat \<Rightarrow> nat" where
  "scan_stop P m p limit i =
     (if limit < i then i else if P (peek m (p + i)) then i else scan_stop P m p limit (i + 1))"
  by pat_completeness auto
termination
  by (relation "measure (\<lambda>(P, m, p, limit, i). limit + 1 - i)") auto

declare scan_stop.simps [simp del]

definition ATC_CheckStrParameter ::
    "memory \<Rightarrow> nat \<Rightarrow> nat \<Rightarrow> u8 str_par \<Rightarrow> param_result \<times> u8 str_par" where
  "ATC_CheckStrParameter m p iFigure out =
     (let out0 = out\<lparr>sp_Length := 0, sp_StrLength := 0\<rparr> in
      case empty_stop (peek m p) of
        Some s \<Rightarrow> (D_ATC_PARAM_EMPTY, out0\<lparr>sp_ParaStr := [NUL], sp_StopStrInf := s\<rparr>)
      | None \<Rightarrow>
          if peek m p = QUOTE then
            let i = scan_stop (\<lambda>c. c = COMMA \<or> c = CR) m p (iFigure + 1) 1 in
            if i < 2 \<or> iFigure + 2 < i then (D_ATC_PARAM_ERROR, out0)
            else if peek m (p + i - 1) \<noteq> QUOTE \<or> (peek m (p + i) \<noteq> COMMA \<and> peek m (p + i) \<noteq> CR)
            then (D_ATC_PARAM_ERROR, out0)
            else
              let len = (of_nat i :: u8)
              in (D_ATC_PARAM_OK, out0\<lparr>sp_StrLength := of_nat (i - 2), sp_ParaStr := slice m (p + 1) (i - 2),
                   sp_Length := len, sp_StopStrInf := stop_at (peek m (p + unat len))\<rparr>)
          else
            let i = scan_stop (\<lambda>c. c = CR \<or> c = COMMA) m p iFigure 1 in
            if iFigure < i then (D_ATC_PARAM_ERROR, out0)
            else (D_ATC_PARAM_OK, out0\<lparr>sp_StrLength := of_nat i, sp_ParaStr := slice m p i,
                   sp_Length := of_nat i, sp_StopStrInf := stop_at (peek m (p + i))\<rparr>))"

definition ATC_GetStrParameter ::
    "stop_char \<Rightarrow> memory \<Rightarrow> u16 \<Rightarrow> nat \<Rightarrow> bool \<Rightarrow> bool \<Rightarrow> param_result \<times> u8 \<times> string \<times> u16" where
  "ATC_GetStrParameter stop0 m offset usMaxLen ucOptFlg ucLastParameter =
     (let (r, out) = ATC_CheckStrParameter m (unat offset) usMaxLen
            \<lparr>sp_Length = 0, sp_StrLength = 0, sp_ParaStr = [], sp_StopStrInf = stop0\<rparr>;
          off1 = offset + ucast (sp_Length out)
      in if r = D_ATC_PARAM_ERROR \<or> r = D_ATC_PARAM_SYNTAX_ERROR then (r, sp_StrLength out, sp_ParaStr out, offset)
         else if \<not> ucOptFlg \<and> (r = D_ATC_PARAM_EMPTY \<or> sp_StrLength out = 0)
         then (D_ATC_PARAM_ERROR, sp_StrLength out, sp_ParaStr out, offset)
         else if sp_StopStrInf out \<noteq> D_ATC_STOP_CHAR_CR \<and> ucLastParameter
         then (D_ATC_PARAM_ERROR, sp_StrLength out, sp_ParaStr out, off1)
         else (D_ATC_PARAM_OK, sp_StrLength out, sp_ParaStr out,
               if sp_StopStrInf out = D_ATC_STOP_CHAR_KANMA then off1 + 1 else off1))"

definition ATC_ChkStrPara ::
    "memory \<Rightarrow> nat \<Rightarrow> nat \<Rightarrow> u16 str_par \<Rightarrow> param_result \<times> u16 str_par" where
  "ATC_ChkStrPara m p iFigure out =
     (case empty_stop (peek m p) of
        Some s \<Rightarrow> (D_ATC_PARAM_EMPTY, out\<lparr>sp_ParaStr := [NUL], sp_StopStrInf := s\<rparr>)
      | None \<Rightarrow>
          let i = scan_stop (\<lambda>c. c = CR \<or> c = COMMA) m p (iFigure - 1) 1 in
          if i = iFigure then (D_ATC_PARAM_EMPTY, out\<lparr>sp_ParaStr := [NUL], sp_StopStrInf := D_ATC_STOP_CHAR_STR\<rparr>)
          else (D_ATC_PARAM_OK, out\<lparr>sp_StrLength := of_nat i, sp_ParaStr := slice m p i @ [NUL],
                 sp_StopStrInf := (if i < iFigure then stop_at (peek m (p + i)) else D_ATC_STOP_CHAR_STR)\<rparr>))"

definition ATC_CheckUSStrParameter ::
    "memory \<Rightarrow> nat \<Rightarrow> nat \<Rightarrow> u16 str_par \<Rightarrow> param_result \<times> u16 str_par" where
  "ATC_CheckUSStrParameter m p iFigure out =
     (let out0 = out\<lparr>sp_Length := 0\<rparr> in
      case empty_stop (peek m p) of
        Some s \<Rightarrow> (D_ATC_PARAM_EMPTY, out0\<lparr>sp_ParaStr := [NUL], sp_StopStrInf := s\<rparr>)
      | None \<Rightarrow>
          if peek m p = QUOTE then
            let i = scan_stop (\<lambda>c. c = QUOTE \<or> c = CR) m p (iFigure + 1) 1 in
            if i \<le> iFigure + 1 \<and> peek m (p + i) = CR
            then (D_ATC_PARAM_SYNTAX_ERROR, out0\<lparr>sp_StopStrInf := D_ATC_STOP_CHAR_CR\<rparr>)
            else if iFigure + 1 < i then (D_ATC_PARAM_ERROR, out0)
            else
              let len = (of_nat (i + 1) :: u16)
              in (D_ATC_PARAM_OK, out0\<lparr>sp_StrLength := of_nat (i - 1), sp_ParaStr := slice m (p + 1) (i - 1) @ [NUL],
                   sp_Length := len, sp_StopStrInf := stop_at (peek m (p + unat len))\<rparr>)
          else
            let i = scan_stop (\<lambda>c. c = CR \<or> c = COMMA) m p iFigure 1 in
            if iFigure < i then (D_ATC_PARAM_EMPTY, out0\<lparr>sp_ParaStr := [NUL], sp_StopStrInf := D_ATC_STOP_CHAR_STR\<rparr>)
            else (D_ATC_PARAM_OK, out0\<lparr>sp_StrLength := of_nat i, sp_ParaStr := slice m p i @ [NUL],
                   sp_Length := of_nat i, sp_StopStrInf := stop_at (peek m (p + i))\<rparr>))"

section \<open>Strings of hexadecimal bytes\<close>

text \<open>
  Removing the quotes: the characters move one place down, and the character behind the closing
  quote takes the place of the last one. \<open>False\<close> is a comma or carriage return inside the quotes.
\<close>

function quote_shift :: "memory \<Rightarrow> nat \<Rightarrow> nat \<Rightarrow> (bool \<times> memory) option" where
  "quote_shift m p i =
     (if length m \<le> p + i then None
      else
        let c = peek m (p + i) in
        if c = QUOTE then Some (True, m[p + i - 1 := peek m (p + i + 1)])
        else if c = COMMA \<or> c = CR then Some (False, m)
        else quote_shift (m[p + i - 1 := c]) p (i + 1))"
  by pat_completeness auto
termination
  by (relation "measure (\<lambda>(m, p, i). length m - (p + i))") auto

declare quote_shift.simps [simp del]

text \<open>\<open>sp_Length\<close> is the number of bytes, \<open>sp_StrLength\<close> the number of characters passed over.\<close>

definition hex_bytes :: "memory \<Rightarrow> nat \<Rightarrow> nat \<Rightarrow> string" where
  "hex_bytes m p n =
     map (\<lambda>k. char_of ((code (peek m (p + 2 * k)) * 16 + code (peek m (p + 2 * k + 1))) mod 256)) [0..<n]"

definition check_hex_digits ::
    "memory \<Rightarrow> nat \<Rightarrow> nat \<Rightarrow> bool \<Rightarrow> u16 str_par \<Rightarrow> param_result \<times> u16 str_par \<times> memory" where
  "check_hex_digits m p iFigure ucQuotationFlg out =
     (let (r, m1) = hex_in_place m p 0 in
      case r of
        Inr _ \<Rightarrow> (D_ATC_PARAM_ERROR, out\<lparr>sp_StopStrInf := D_ATC_STOP_CHAR_STR\<rparr>, m1)
      | Inl (_, i) \<Rightarrow>
          if iFigure < i \<or> odd i then (D_ATC_PARAM_ERROR, out, m1)
          else
            let len = (of_nat (if ucQuotationFlg then i + 2 else i) :: u16)
            in (D_ATC_PARAM_OK, out\<lparr>sp_StrLength := len, sp_ParaStr := hex_bytes m1 p (i div 2),
                  sp_Length := of_nat (i div 2), sp_StopStrInf := stop_at (peek m1 (p + unat len))\<rparr>, m1))"

definition ATC_CheckHexStrParameter ::
    "memory \<Rightarrow> nat \<Rightarrow> nat \<Rightarrow> u16 str_par \<Rightarrow> (param_result \<times> u16 str_par \<times> memory) option" where
  "ATC_CheckHexStrParameter m p iFigure out =
     (let out0 = out\<lparr>sp_StrLength := 0\<rparr> in
      case empty_stop (peek m p) of
        Some s \<Rightarrow> Some (D_ATC_PARAM_EMPTY, out0\<lparr>sp_StopStrInf := s\<rparr>, m)
      | None \<Rightarrow>
          if peek m p = QUOTE then do {
            (closed, m1) \<leftarrow> quote_shift m p 1;
            Some (if closed then check_hex_digits m1 p iFigure True out0 else (D_ATC_PARAM_ERROR, out0, m1))
          }
          else Some (check_hex_digits m p iFigure False out0))"

definition ATC_GetHexStrParameter ::
    "stop_char \<Rightarrow> memory \<Rightarrow> u16 \<Rightarrow> nat \<Rightarrow> bool \<Rightarrow> bool \<Rightarrow> (param_result \<times> u16 \<times> string \<times> u16 \<times> memory) option" where
  "ATC_GetHexStrParameter stop0 m offset usMaxLen ucOptFlg ucLastParameter = do {
     (r, out, m1) \<leftarrow> ATC_CheckHexStrParameter m (unat offset) usMaxLen
         \<lparr>sp_Length = 0, sp_StrLength = 0, sp_ParaStr = [], sp_StopStrInf = stop0\<rparr>;
     Some (if r = D_ATC_PARAM_ERROR \<or> \<not> ucOptFlg \<and> sp_Length out = 0 \<or>
              ucLastParameter \<and> sp_StopStrInf out \<noteq> D_ATC_STOP_CHAR_CR
           then (D_ATC_PARAM_ERROR, sp_Length out, sp_ParaStr out, offset, m1)
           else (D_ATC_PARAM_OK, sp_Length out, sp_ParaStr out,
                 offset + (if sp_StopStrInf out = D_ATC_STOP_CHAR_KANMA then sp_StrLength out + 1 else sp_StrLength out), m1))
   }"

section \<open>Small helpers\<close>

definition ATC_GetStrLen :: "memory \<Rightarrow> nat option \<Rightarrow> nat" where
  "ATC_GetStrLen m pStr = (case pStr of None \<Rightarrow> 0 | Some p \<Rightarrow> strlen m p)"

definition ATC_Strncpy :: "string \<Rightarrow> memory \<Rightarrow> nat \<Rightarrow> nat \<Rightarrow> string" where
  "ATC_Strncpy dst m p usCount = slice m p usCount @ drop usCount dst"

definition ATC_PassWordStrCheck :: "memory \<Rightarrow> nat \<Rightarrow> string \<Rightarrow> bool \<times> string" where
  "ATC_PassWordStrCheck m p event =
     (if list_all isdigit (cstr m p) then (True, ATC_Strncpy event m p (strlen m p)) else (False, event))"

definition ATC_ConvertErrCode2Str :: "(u16 \<times> string) list \<Rightarrow> nat \<Rightarrow> u8 \<Rightarrow> string" where
  "ATC_ConvertErrCode2Str pErrTab size' ucErrCode =
     (case find (\<lambda>(usErrCode, _). ucast ucErrCode = usErrCode) (take size' pErrTab) of
        None \<Rightarrow> ''unknown'' | Some (_, pCmeErrorText) \<Rightarrow> pCmeErrorText)"

text \<open>Printing bytes in hexadecimal; a value that is no nibble prints nothing.\<close>

definition hex_asc :: "u8 \<Rightarrow> string" where
  "hex_asc n =
     (if 0x0A \<le> n \<and> n \<le> 0x0F then [char_of (unat (n - 0x0A + 65))]
      else if n \<le> 0x09 then [char_of (unat (n + 0x30))]
      else [])"

definition AtcAp_HexToAsc :: "u8 list \<Rightarrow> string" where
  "AtcAp_HexToAsc pInputData = concat (map (\<lambda>b. hex_asc (drop_bit 4 b) @ hex_asc (b AND 0x0F)) pInputData)"

end
