(* ===== verification/Atc_Check_Spec.thy ===== *)
theory Atc_Check_Spec
  imports Atc_Check
begin

text \<open>
  What the parameter checkers of the protocol-stack adapter accept. A decimal parameter of up to nine
  digits is stored exactly if the line holds its canonical digits and a proper separator; with ten
  digits the 32-bit sum wraps. Bytes printed in hexadecimal are read back, with and without quotes.
\<close>

section \<open>Lines\<close>

lemma slice_append:
  "length pre = p \<Longrightarrow> slice (pre @ s @ rest) p (length s) = s"
  by (rule nth_equalityI) (auto simp: slice_def peek_def nth_append)

lemma length_slice [simp]: "length (slice m p n) = n"
  by (simp add: slice_def)

lemma slice_nth: "i < n \<Longrightarrow> slice m p n ! i = peek m (p + i)"
  by (simp add: slice_def)

lemma slice_Suc: "slice m p (Suc n) = peek m p # slice m (p + 1) n"
  by (rule nth_equalityI) (auto simp: slice_nth nth_Cons split: nat.split)

lemma peek_append: "length pre = p \<Longrightarrow> peek (pre @ c # rest) p = c"
  by (auto simp: peek_def)

lemma empty_stop_digit [simp]: "isdigit c \<Longrightarrow> empty_stop c = None"
  by (auto simp: empty_stop_def isdigit_def code_def)

lemma empty_stop_simps [simp]:
  "empty_stop CR = Some D_ATC_STOP_CHAR_CR" "empty_stop COMMA = Some D_ATC_STOP_CHAR_KANMA"
  "empty_stop MINUS = None" "empty_stop QUOTE = None"
  by (simp_all add: empty_stop_def)

lemma empty_stop_cases:
  "empty_stop c = Some D_ATC_STOP_CHAR_CR \<longleftrightarrow> c = CR"
  "empty_stop c = Some D_ATC_STOP_CHAR_KANMA \<longleftrightarrow> c = COMMA"
  "empty_stop c \<noteq> Some D_ATC_STOP_CHAR_STR"
  by (auto simp: empty_stop_def)

section \<open>Digits\<close>

lemma dec_loop_append:
  "dec_loop z i num (xs @ ys) =
     (case dec_loop z i num xs of None \<Rightarrow> None | Some n \<Rightarrow> dec_loop z (i + length xs) n ys)"
  by (induction xs arbitrary: i num) (auto split: option.split)

lemma dec_digits_bound: "n < 10 ^ length (dec_digits n)"
proof (induction n rule: dec_digits.induct)
  case (1 n)
  show ?case
  proof (cases "n < 10")
    case True
    then show ?thesis by (simp add: dec_digits.simps [of n])
  next
    case False
    then have "n div 10 < 10 ^ length (dec_digits (n div 10))" using 1 by simp
    then have "n < 10 * 10 ^ length (dec_digits (n div 10))" by simp
    then show ?thesis using False by (simp add: dec_digits.simps [of n])
  qed
qed

lemma dec_digits_snoc: "0 < n \<Longrightarrow> d < 10 \<Longrightarrow> dec_digits (10 * n + d) = dec_digits n @ [digit_char d]"
  by (subst dec_digits.simps) simp

lemma digit_char_code: "isdigit c \<Longrightarrow> digit_char (code c - 48) = c"
  unfolding isdigit_def digit_char_def code_def by (simp add: char_of_nat)

lemma length_dec_digits_pos: "0 < length (dec_digits n)"
  by simp

text \<open>Canonical digits are accepted and give the number at the width of the sum.\<close>

lemma dec_loop_digits:
  assumes "n div 10 < 2 ^ LENGTH('a)"
  shows "dec_loop False 0 (0 :: 'a::len word) (dec_digits n) = Some (of_nat n)"
  using assms
proof (induction n rule: dec_digits.induct)
  case (1 n)
  show ?case
  proof (cases "n < 10")
    case True
    then show ?thesis by (simp add: dec_digits.simps [of n] isdigit_def code_digit_char)
  next
    case False
    have "n div 10 div 10 < 2 ^ LENGTH('a)" using 1(2) by (meson div_le_dividend le_less_trans)
    then have ih: "dec_loop False 0 (0 :: 'a word) (dec_digits (n div 10)) = Some (of_nat (n div 10))"
      using 1(1) False by simp
    have "(of_nat (n div 10) :: 'a word) \<noteq> 0"
      using False 1(2) by (metis div_greater_zero_iff not_le of_nat_inverse unat_0 gr_implies_not0 zero_less_numeral)
    moreover have "(of_nat (n div 10) * 10 + of_nat (n mod 10) :: 'a word) = of_nat n"
      by (metis div_mult_mod_eq of_nat_add of_nat_mult of_nat_numeral)
    ultimately show ?thesis
      using False by (subst dec_digits.simps) (simp add: dec_loop_append ih isdigit_def code_digit_char)
  qed
qed

text \<open>Whatever is accepted without wrapping is canonical.\<close>

lemma dec_loop_canonical_from:
  assumes "dec_loop False (length ps) num cs = Some v" "ps = dec_digits (unat num)"
    and "length ps + length cs \<le> 9"
  shows "ps @ cs = dec_digits (unat (v :: u32))"
  using assms
proof (induction cs arbitrary: ps num)
  case Nil
  then show ?case by simp
next
  case (Cons c cs)
  then have c: "isdigit c" "num \<noteq> 0" by (auto split: if_splits)
  have d: "code c - 48 < 10" using c(1) by (auto simp: isdigit_def)
  have "length ps \<le> 8" using Cons.prems(3) by simp
  then have "(10 :: nat) ^ length ps \<le> 10 ^ 8" by (rule power_increasing) simp
  then have small: "unat num < 100000000" using dec_digits_bound [of "unat num"] Cons.prems(2) by simp
  have "unat (num * 10) = unat num * 10" using small by (simp add: unat_mult_lem [THEN iffD1])
  moreover have "unat (of_nat (code c - 48) :: u32) = code c - 48" using d by (simp add: unat_of_nat)
  ultimately have u: "unat (num * 10 + of_nat (code c - 48)) = 10 * unat num + (code c - 48)"
    using small d by (simp add: unat_add_lem [THEN iffD1])
  have "0 < unat num" using c(2) by (simp add: unat_gt_0)
  then have ps: "ps @ [c] = dec_digits (unat (num * 10 + of_nat (code c - 48)))"
    unfolding u using dec_digits_snoc [OF _ d] Cons.prems(2) digit_char_code [OF c(1)] by simp
  have "dec_loop False (length (ps @ [c])) (num * 10 + of_nat (code c - 48)) cs = Some v"
    using Cons.prems(1) c by (auto split: if_splits)
  from Cons.IH [OF this ps] show ?case using Cons.prems(3) by simp
qed

lemma dec_loop_canonical:
  assumes "dec_loop False 0 0 cs = Some v" "cs \<noteq> []" "length cs \<le> 9"
  shows "cs = dec_digits (unat (v :: u32))"
proof -
  obtain c cs' where cs: "cs = c # cs'" using assms(2) by (cases cs) auto
  then have c: "isdigit c" using assms(1) by (auto split: if_splits)
  then have d: "code c - 48 < 10" by (auto simp: isdigit_def)
  then have u: "unat (of_nat (code c - 48) :: u32) = code c - 48" by (simp add: unat_of_nat)
  have eq: "[c] = dec_digits (unat (of_nat (code c - 48) :: u32))"
    unfolding u using d digit_char_code [OF c] by (simp add: dec_digits.simps)
  have "dec_loop False (length [c]) (of_nat (code c - 48)) cs' = Some v"
    using assms(1) cs by (auto split: if_splits)
  from dec_loop_canonical_from [OF this eq] show ?thesis using assms(3) cs by simp
qed

section \<open>Decimal parameters\<close>

text \<open>Where a number that is stopped by a comma or carriage return ends.\<close>

lemma num_end_Some:
  "num_end m p figure k = Some (s, n) \<Longrightarrow> k \<le> n \<and> n < 256 \<and> stop_at (peek m (p + n)) = s \<and>
     (\<forall>j. k \<le> j \<and> j < n \<longrightarrow> (isdigit (peek m (p + j)) \<or> peek m (p + j) = MINUS) \<and> j < figure)"
proof (induction m p figure k rule: num_end.induct)
  case (1 m p figure k)
  from "1.prems" have k: "k < 256" by (subst (asm) num_end.simps) (auto split: if_splits)
  let ?c = "peek m (p + k)"
  show ?case
  proof (cases "empty_stop ?c = None \<and> (isdigit ?c \<or> ?c = MINUS) \<and> k < figure")
    case True
    then have r: "num_end m p figure (k + 1) = Some (s, n)"
      using "1.prems" k by (subst (asm) num_end.simps) (auto simp: Let_def split: if_splits)
    from True k "1.IH" [OF _ refl] r have ih: "k + 1 \<le> n \<and> n < 256 \<and> stop_at (peek m (p + n)) = s \<and>
       (\<forall>j. k + 1 \<le> j \<and> j < n \<longrightarrow> (isdigit (peek m (p + j)) \<or> peek m (p + j) = MINUS) \<and> j < figure)" by auto
    have "j = k \<or> k + 1 \<le> j" if "k \<le> j" for j using that by linarith
    then show ?thesis using ih True by (auto simp del: One_nat_def)
  next
    case False
    then show ?thesis using "1.prems" k
      by (auto simp: num_end.simps [of m p figure k] Let_def stop_at_def split: option.splits if_splits)
  qed
qed

lemma num_end_digits:
  assumes "\<And>j. k \<le> j \<Longrightarrow> j < n \<Longrightarrow> isdigit (peek m (p + j))" "empty_stop (peek m (p + n)) = Some s"
    and "k \<le> n" "n \<le> figure" "n < 256"
  shows "num_end m p figure k = Some (s, n)"
  using assms
proof (induction "n - k" arbitrary: k)
  case 0
  then show ?case by (simp add: num_end.simps [of m p figure k] Let_def)
next
  case (Suc d)
  then have "k < n" by simp
  then have "isdigit (peek m (p + k))" using Suc.prems(1) by simp
  moreover have "num_end m p figure (k + 1) = Some (s, n)"
    using Suc \<open>k < n\<close> by (intro Suc.hyps(1)) auto
  ultimately show ?case using \<open>k < n\<close> Suc.prems by (simp add: num_end.simps [of m p figure k] Let_def)
qed

text \<open>The line holds the canonical digits of \<open>v\<close> at \<open>p\<close>.\<close>

definition digits_at :: "memory \<Rightarrow> nat \<Rightarrow> nat \<Rightarrow> bool" where
  "digits_at m p v \<longleftrightarrow> slice m p (length (dec_digits v)) = dec_digits v"

lemma digits_at_isdigit: "digits_at m p v \<Longrightarrow> j < length (dec_digits v) \<Longrightarrow> isdigit (peek m (p + j))"
  unfolding digits_at_def using dec_digits_isdigit [OF nth_mem, of j v] slice_nth [of j "length (dec_digits v)" m p] by simp

lemma isdigit_not_minus: "isdigit c \<Longrightarrow> c \<noteq> MINUS"
  by (auto simp: isdigit_def code_def)

text \<open>What the number checker makes of canonical digits, at any number of digits.\<close>

lemma check_long_digits:
  assumes d: "digits_at m p v" and s: "empty_stop (peek m (p + length (dec_digits v))) = Some s"
    and l: "length (dec_digits v) \<le> figure" "length (dec_digits v) < 256" "v div 10 < 2 ^ 32"
  shows "ATC_CheckLongNumParameter m p figure False out =
    Some (D_ATC_PARAM_OK, out\<lparr>pLength := of_nat (length (dec_digits v)), pBinaryData := of_nat v, pStopStrInf := s\<rparr>)"
proof -
  let ?n = "length (dec_digits v)"
  have n: "1 \<le> ?n" using length_dec_digits_pos [of v] by linarith
  have c0: "isdigit (peek m p)" using digits_at_isdigit [OF d, of 0] n by simp
  have e: "num_end m p figure 1 = Some (s, ?n)"
    using digits_at_isdigit [OF d] s n l by (intro num_end_digits) auto
  have "AtcAp_UlongToBinary m p (of_nat ?n) False = Some (of_nat v)"
    using d l dec_loop_digits [where 'a = 32, of v] by (simp add: AtcAp_UlongToBinary_def unat_of_nat digits_at_def)
  then show ?thesis using c0 e by (simp add: ATC_CheckLongNumParameter_def check_number_def Let_def)
qed

lemma check_long_sound:
  assumes "ATC_CheckLongNumParameter m p figure False out = Some (D_ATC_PARAM_OK, par)" "1 \<le> figure" "figure \<le> 9"
  shows "digits_at m p (unat (pBinaryData par)) \<and> length (dec_digits (unat (pBinaryData par))) \<le> figure \<and>
    pLength par = of_nat (length (dec_digits (unat (pBinaryData par)))) \<and>
    pStopStrInf par = stop_at (peek m (p + length (dec_digits (unat (pBinaryData par)))))"
proof -
  obtain n where n: "num_end m p figure 1 = Some (pStopStrInf par, n)"
      "AtcAp_UlongToBinary m p (of_nat n) False = Some (pBinaryData par)" "pLength par = of_nat n"
    using assms(1) by (auto simp: ATC_CheckLongNumParameter_def check_number_def Let_def bind_eq_Some_conv split: option.splits if_splits)
  note e = num_end_Some [OF n(1)]
  have "n \<le> figure"
  proof (rule ccontr)
    assume "\<not> n \<le> figure"
    then have "1 \<le> n - 1 \<and> n - 1 < n" "\<not> n - 1 < figure" using assms(2) by auto
    then show False using e by blast
  qed
  then have sm: "n < 256" "n \<le> 9" using assms(3) by simp_all
  have "dec_loop False 0 0 (slice m p n) = Some (pBinaryData par)"
    using n(2) sm by (simp add: AtcAp_UlongToBinary_def unat_of_nat)
  then have "slice m p n = dec_digits (unat (pBinaryData par))"
    using e sm by (intro dec_loop_canonical) (auto simp: length_0_conv [symmetric] simp del: length_0_conv)
  moreover from this have "length (dec_digits (unat (pBinaryData par))) = n" by (metis length_slice)
  ultimately show ?thesis using e n(3) \<open>n \<le> figure\<close> by (simp add: digits_at_def)
qed

definition after_digits :: "memory \<Rightarrow> u16 \<Rightarrow> nat \<Rightarrow> char" where
  "after_digits m off v = peek m (unat off + length (dec_digits v))"

definition past_digits :: "memory \<Rightarrow> u16 \<Rightarrow> nat \<Rightarrow> u16" where
  "past_digits m off v = off + of_nat (length (dec_digits v)) + (if after_digits m off v = COMMA then 1 else 0)"

lemma get_decimal_OK:
  "get_decimal accept (r, par) off opt final = (D_ATC_COMMAND_OK, Some v, off') \<longleftrightarrow>
     r = D_ATC_PARAM_OK \<and> v = pBinaryData par \<and> accept v \<and>
     (pStopStrInf par = D_ATC_STOP_CHAR_CR \<and> off' = off + ucast (pLength par) \<or>
      pStopStrInf par = D_ATC_STOP_CHAR_KANMA \<and> \<not> final \<and> off' = off + ucast (pLength par) + 1)"
  by (cases r; cases "pStopStrInf par") (auto simp: get_decimal_def Let_def)

lemma stop_at_CR: "stop_at c = D_ATC_STOP_CHAR_CR \<longleftrightarrow> c = CR"
  and stop_at_KANMA: "stop_at c = D_ATC_STOP_CHAR_KANMA \<longleftrightarrow> c = COMMA"
  by (auto simp: stop_at_def empty_stop_def)

lemma ucast_len: "n < 256 \<Longrightarrow> (ucast (of_nat n :: u8) :: u16) = of_nat n"
  by (rule word_unat_eq_iff [THEN iffD2]) (simp add: unsigned_ucast_eq unat_of_nat take_bit_nat_eq_self)

text \<open>
  C17: With room for at most nine digits, the reader of a decimal parameter is exact: it succeeds and stores
  \<open>v\<close> if and only if the line holds the canonical digits of \<open>v\<close> in at most that many characters, followed
  by a carriage return or, when more parameters may follow, by a comma, and \<open>v\<close> lies within the
  bounds; the offset then points behind the parameter and its comma.
\<close>

theorem decimal_parameter_exact:
  assumes "1 \<le> figure" "figure \<le> 9"
  shows "ATC_GetDecimalParameterLong v0 stop0 m off figure lo hi opt final False = Some (D_ATC_COMMAND_OK, Some v, off') \<longleftrightarrow>
    digits_at m (unat off) (unat v) \<and> length (dec_digits (unat v)) \<le> figure \<and> lo \<le> v \<and> v \<le> hi \<and>
    (after_digits m off (unat v) = CR \<or> after_digits m off (unat v) = COMMA \<and> \<not> final) \<and>
    off' = past_digits m off (unat v)"
proof
  assume "ATC_GetDecimalParameterLong v0 stop0 m off figure lo hi opt final False = Some (D_ATC_COMMAND_OK, Some v, off')"
  then obtain r par where
    res: "ATC_CheckLongNumParameter m (unat off) figure False (no_par v0 stop0) = Some (r, par)"
    and g: "get_decimal (\<lambda>v. lo \<le> v \<and> v \<le> hi) (r, par) off opt final = (D_ATC_COMMAND_OK, Some v, off')"
    by (auto simp: ATC_GetDecimalParameterLong_def bind_eq_Some_conv)
  note g = g [unfolded get_decimal_OK]
  have "ATC_CheckLongNumParameter m (unat off) figure False (no_par v0 stop0) = Some (D_ATC_PARAM_OK, par)"
    using res g by simp
  note s = check_long_sound [OF this assms]
  show "digits_at m (unat off) (unat v) \<and> length (dec_digits (unat v)) \<le> figure \<and> lo \<le> v \<and> v \<le> hi \<and>
    (after_digits m off (unat v) = CR \<or> after_digits m off (unat v) = COMMA \<and> \<not> final) \<and> off' = past_digits m off (unat v)"
    using s g assms by (auto simp: stop_at_CR stop_at_KANMA after_digits_def past_digits_def ucast_len)
next
  assume a: "digits_at m (unat off) (unat v) \<and> length (dec_digits (unat v)) \<le> figure \<and> lo \<le> v \<and> v \<le> hi \<and>
    (after_digits m off (unat v) = CR \<or> after_digits m off (unat v) = COMMA \<and> \<not> final) \<and> off' = past_digits m off (unat v)"
  then obtain s where s: "empty_stop (peek m (unat off + length (dec_digits (unat v)))) = Some s"
      "s = D_ATC_STOP_CHAR_CR \<and> after_digits m off (unat v) = CR \<or>
       s = D_ATC_STOP_CHAR_KANMA \<and> after_digits m off (unat v) = COMMA \<and> \<not> final"
    by (auto simp: after_digits_def)
  have "unat v div 10 < 2 ^ 32"
    using unsigned_less [of v, where ?'a = nat] by (intro le_less_trans [OF div_le_dividend]) simp
  with check_long_digits [OF _ s(1), of figure "no_par v0 stop0"] a assms
  have "ATC_CheckLongNumParameter m (unat off) figure False (no_par v0 stop0) =
      Some (D_ATC_PARAM_OK, no_par v0 stop0\<lparr>pLength := of_nat (length (dec_digits (unat v))), pBinaryData := v, pStopStrInf := s\<rparr>)"
    by simp
  then show "ATC_GetDecimalParameterLong v0 stop0 m off figure lo hi opt final False = Some (D_ATC_COMMAND_OK, Some v, off')"
    using a s(2) assms by (auto simp: ATC_GetDecimalParameterLong_def get_decimal_OK past_digits_def ucast_len)
qed

text \<open>The line \<^verbatim>\<open>42,7<CR>\<close>.\<close>

lemma dec_digits_42: "dec_digits 42 = ''42''"
  by (simp add: dec_digits.simps digit_char_def char_of_def bit_Suc_0_iff)

theorem decimal_parameter_exact_witness:
  "ATC_GetDecimalParameterLong 0 D_ATC_STOP_CHAR_CR (''42,7'' @ [CR]) 0 5 0 65535 True False False =
     Some (D_ATC_COMMAND_OK, Some 42, 3)"
proof -
  have "digits_at (''42,7'' @ [CR]) 0 42 \<and> after_digits (''42,7'' @ [CR]) 0 42 = COMMA \<and> past_digits (''42,7'' @ [CR]) 0 42 = 3"
    by (simp add: digits_at_def after_digits_def past_digits_def dec_digits_42 slice_def peek_def)
  then show ?thesis
    using decimal_parameter_exact [of 5 0 D_ATC_STOP_CHAR_CR "''42,7'' @ [CR]" 0 0 65535 True False 42 3]
    by (simp add: dec_digits_42)
qed

text \<open>
  With room for ten digits or more the sum can exceed 32 bits, and the reader accepts it modulo
  $2^{32}$: the start frequency of \<^verbatim>\<open>AT+NPOPB\<close>, declared with ten digits and the bound 262143, can be
  given as \<^verbatim>\<open>4294967297\<close> and is stored as 1.
\<close>

lemma ten_digit_parameter_wraps:
  assumes "10 \<le> figure" "n < 10000000000" "digits_at m (unat off) n" "length (dec_digits n) \<le> 10"
    and "lo \<le> word_of_nat n" "word_of_nat n \<le> hi" "after_digits m off n = CR"
  shows "ATC_GetDecimalParameterLong v0 stop0 m off figure lo hi opt final False =
    Some (D_ATC_COMMAND_OK, Some (word_of_nat (n mod 4294967296)), past_digits m off n)"
proof -
  have "empty_stop (peek m (unat off + length (dec_digits n))) = Some D_ATC_STOP_CHAR_CR"
    using assms(7) by (simp add: after_digits_def)
  from check_long_digits [OF assms(3) this, of figure "no_par v0 stop0"] assms
  have "ATC_CheckLongNumParameter m (unat off) figure False (no_par v0 stop0) =
      Some (D_ATC_PARAM_OK, no_par v0 stop0\<lparr>pLength := of_nat (length (dec_digits n)), pBinaryData := of_nat n, pStopStrInf := D_ATC_STOP_CHAR_CR\<rparr>)"
    by (simp add: less_mult_imp_div_less)
  moreover have "(word_of_nat (n mod 4294967296) :: u32) = word_of_nat n"
    by (rule word_unat_eq_iff [THEN iffD2]) (simp add: unat_of_nat)
  ultimately show ?thesis
    using assms(4-7) by (auto simp: ATC_GetDecimalParameterLong_def get_decimal_OK past_digits_def ucast_len)
qed

section \<open>Bytes in hexadecimal\<close>

lemma hex_asc_tab: "unat n < 16 \<Longrightarrow> hex_asc n = [hex_tab ! unat n]"
proof -
  have "list_all (\<lambda>i. hex_asc (of_nat i) = [hex_tab ! i]) [0..<16]" by code_simp
  moreover have "of_nat (unat n) = n" by simp
  ultimately show "unat n < 16 \<Longrightarrow> ?thesis" by (simp only: list_all_iff) (metis atLeastLessThan_upt atLeastLessThan_iff zero_le)
qed

lemma AtcAp_HexToAsc_pairs: "AtcAp_HexToAsc data = concat (map hex_pair data)"
  by (simp add: AtcAp_HexToAsc_def hex_pair_def [abs_def] hex_asc_tab unat_nibbles)

lemma length_HexToAsc [simp]: "length (AtcAp_HexToAsc data) = 2 * length data"
  by (simp add: AtcAp_HexToAsc_pairs)

lemma HexToAsc_nth:
  "k < length data \<Longrightarrow> AtcAp_HexToAsc data ! (2 * k) = hex_tab ! unat (drop_bit 4 (data ! k)) \<and>
     AtcAp_HexToAsc data ! (2 * k + 1) = hex_tab ! unat (data ! k AND 0x0F)"
proof (induction data arbitrary: k)
  case (Cons b data)
  then show ?case by (cases k) (simp_all add: AtcAp_HexToAsc_pairs hex_pair_def)
qed simp

definition nib :: "char \<Rightarrow> char" where
  "nib c = char_of (unat (the (hex_nibble c)))"

lemma HexToAsc_digits: "list_all (\<lambda>c. hex_nibble c \<noteq> None) (AtcAp_HexToAsc data)"
  by (induction data) (simp_all add: AtcAp_HexToAsc_pairs hex_pair_def hex_nibble_tab unat_nibbles)

lemma hex_nibble_seps [simp]: "hex_nibble COMMA = None" "hex_nibble CR = None" "hex_nibble QUOTE = None"
  by (simp_all add: hex_nibble_def code_def)

lemma hex_in_place_digits:
  assumes "list_all (\<lambda>c. hex_nibble c \<noteq> None) ds" "length pre = p + i" "t = CR \<or> t = COMMA"
  shows "hex_in_place (pre @ ds @ t # rest) p i = (Inl (stop_at t, i + length ds), pre @ map nib ds @ t # rest)"
  using assms
proof (induction ds arbitrary: pre i)
  case Nil
  then show ?case by (subst hex_in_place.simps) (auto simp: peek_append stop_at_def)
next
  case (Cons c ds)
  have c: "hex_nibble c \<noteq> None" using Cons.prems(1) by simp
  then have ne: "c \<noteq> COMMA" "c \<noteq> CR" by auto
  have pk: "peek (pre @ (c # ds) @ t # rest) (p + i) = c" using Cons.prems(2) by (simp add: peek_append)
  have up: "(pre @ (c # ds) @ t # rest)[p + i := nib c] = (pre @ [nib c]) @ ds @ t # rest"
    using Cons.prems(2) by (simp add: list_update_append)
  have ih: "hex_in_place ((pre @ [nib c]) @ ds @ t # rest) p (i + 1) =
      (Inl (stop_at t, i + 1 + length ds), (pre @ [nib c]) @ map nib ds @ t # rest)"
    using Cons.prems by (intro Cons.IH) auto
  from c obtain h where h: "hex_nibble c = Some h" by blast
  show ?case
    using ih ne up h by (subst hex_in_place.simps) (simp add: pk [simplified] nib_def Let_def)
qed

lemma quote_shift_digits:
  assumes "list_all (\<lambda>c. hex_nibble c \<noteq> None) ds" "length pre = p + i" "1 \<le> i" "pre = pre0 @ [x]"
  shows "quote_shift (pre @ ds @ QUOTE # t # rest) p i = Some (True, pre0 @ ds @ t # QUOTE # t # rest)"
  using assms
proof (induction ds arbitrary: pre pre0 x i)
  case Nil
  have "peek (pre0 @ x # QUOTE # t # rest) (Suc (p + i)) = t" using Nil.prems by (auto simp: peek_def nth_append)
  moreover have "peek (pre0 @ x # QUOTE # t # rest) (p + i) = QUOTE" using Nil.prems by (auto simp: peek_def nth_append)
  moreover have "p + i - Suc 0 = length pre0" using Nil.prems by simp
  ultimately show ?case using Nil.prems
    by (subst quote_shift.simps) (simp add: Let_def list_update_append)
next
  case (Cons c ds)
  have c: "c \<noteq> COMMA" "c \<noteq> CR" "c \<noteq> QUOTE" using Cons.prems(1) by auto
  have pk: "peek (pre0 @ x # c # ds @ QUOTE # t # rest) (p + i) = c" using Cons.prems by (auto simp: peek_def nth_append)
  have up: "(pre0 @ x # c # ds @ QUOTE # t # rest)[p + i - Suc 0 := c] = (pre0 @ [c, c]) @ ds @ QUOTE # t # rest"
    using Cons.prems by (auto simp: list_update_append)
  have "quote_shift ((pre0 @ [c, c]) @ ds @ QUOTE # t # rest) p (i + 1) = Some (True, (pre0 @ [c]) @ ds @ t # QUOTE # t # rest)"
    using Cons.prems by (intro Cons.IH) auto
  then show ?case
    using Cons.prems c up by (subst quote_shift.simps) (simp add: Let_def pk)
qed

lemma join_nibbles: "(unat (drop_bit 4 (b :: u8)) * 16 + unat (b AND 0x0F)) mod 256 = unat b"
proof -
  have "unat b < 256" by (rule byte_less)
  moreover have "unat (drop_bit 4 b) = unat b div 16" by (simp add: drop_bit_eq_div unat_div)
  moreover have "unat (b AND 0x0F) = unat b mod 16"
  proof -
    have "b AND 0x0F = take_bit 4 b" by (simp add: take_bit_eq_mask mask_eq_exp_minus_1)
    then show ?thesis by (simp add: take_bit_eq_mod unat_mod)
  qed
  ultimately show ?thesis by (simp add: div_mult_mod_eq)
qed

lemma nib_tab: "i < 16 \<Longrightarrow> code (nib (hex_tab ! i)) = i"
  by (simp add: nib_def hex_nibble_tab code_char_of unat_of_nat)

lemma hex_bytes_digits:
  assumes "length pre = p"
  shows "hex_bytes (pre @ map nib (AtcAp_HexToAsc data) @ rest) p (length data) = map (\<lambda>b. char_of (unat b)) data"
proof (rule nth_equalityI)
  fix k
  assume "k < length (hex_bytes (pre @ map nib (AtcAp_HexToAsc data) @ rest) p (length data))"
  then have k: "k < length data" by (simp add: hex_bytes_def)
  have pk: "peek (pre @ map nib (AtcAp_HexToAsc data) @ rest) (p + j) = nib (AtcAp_HexToAsc data ! j)" if "j < 2 * length data" for j
    using assms that by (auto simp: peek_def nth_append)
  show "hex_bytes (pre @ map nib (AtcAp_HexToAsc data) @ rest) p (length data) ! k = map (\<lambda>b. char_of (unat b)) data ! k"
    using k HexToAsc_nth [OF k] pk [of "2 * k"] pk [of "2 * k + 1"]
    by (simp add: hex_bytes_def add.assoc [symmetric] nib_tab unat_nibbles join_nibbles byte_less)
qed (simp add: hex_bytes_def)

lemma check_hex_digits_text:
  assumes "length pre = p" "t = CR \<or> t = COMMA" "2 * length data \<le> figure" "2 * length data + 2 < 65536"
    and "q \<Longrightarrow> rest = QUOTE # t # rest'"
  shows "\<exists>m'. check_hex_digits (pre @ AtcAp_HexToAsc data @ t # rest) p figure q out =
    (D_ATC_PARAM_OK, out\<lparr>sp_StrLength := of_nat ((if q then 2 * length data + 2 else 2 * length data)),
       sp_ParaStr := map (\<lambda>b. char_of (unat b)) data, sp_Length := of_nat (length data), sp_StopStrInf := stop_at t\<rparr>, m')"
proof -
  let ?m1 = "pre @ map nib (AtcAp_HexToAsc data) @ t # rest"
  have h: "hex_in_place (pre @ AtcAp_HexToAsc data @ t # rest) p 0 = (Inl (stop_at t, 2 * length data), ?m1)"
    using hex_in_place_digits [OF HexToAsc_digits, of pre p 0 t data rest] assms(1,2) by simp
  have l: "unat (of_nat ((if q then 2 * length data + 2 else 2 * length data)) :: u16) = (if q then 2 * length data + 2 else 2 * length data)"
    using assms(4) by (simp only: unat_of_nat) simp
  have "peek ?m1 (p + ((if q then 2 * length data + 2 else 2 * length data))) = t"
    using assms(1,5) by (auto simp: peek_def nth_append)
  then show ?thesis
    using h l assms(3) hex_bytes_digits [OF assms(1), of data "t # rest"]
    by (auto simp: check_hex_digits_def Let_def simp del: of_nat_add of_nat_mult)
qed

text \<open>
  C18: Bytes printed by \<^verbatim>\<open>AtcAp_HexToAsc\<close>, bare or in quotes, are read back by the reader of hexadecimal
  parameters byte for byte, as far as they fit the number of digits allowed, and the offset moves behind
  the parameter and its comma, although the reader rewrites the line in place.
\<close>

theorem hex_string_parameter_roundtrip:
  assumes "length pre = unat off" "t = CR \<or> t = COMMA \<and> \<not> final" "data \<noteq> []"
    and "2 * length data \<le> figure" "2 * length data + 3 < 65536"
  shows "\<exists>m'. ATC_GetHexStrParameter stop0
      (pre @ (if q then QUOTE # AtcAp_HexToAsc data @ [QUOTE] else AtcAp_HexToAsc data) @ t # rest) off figure opt final =
    Some (D_ATC_PARAM_OK, of_nat (length data), map (\<lambda>b. char_of (unat b)) data,
      off + of_nat (2 * length data + (if q then 2 else 0) + (if t = COMMA then 1 else 0)), m')"
proof -
  let ?h = "AtcAp_HexToAsc data"
  let ?m = "pre @ (if q then QUOTE # ?h @ [QUOTE] else ?h) @ t # rest"
  let ?out = "\<lparr>sp_Length = 0, sp_StrLength = 0, sp_ParaStr = [], sp_StopStrInf = stop0\<rparr> :: u16 str_par"
  have t: "t = CR \<or> t = COMMA" using assms(2) by blast
  obtain b data' where "data = b # data'" using assms(3) by (cases data) auto
  then obtain c cs where cs: "?h = c # cs" by (simp add: AtcAp_HexToAsc_pairs hex_pair_def)
  have hc: "hex_nibble c \<noteq> None" using HexToAsc_digits [of data] cs by simp
  then have ne: "c \<noteq> COMMA" "c \<noteq> CR" "c \<noteq> QUOTE" "c \<noteq> SEMICOLON" by (auto simp: hex_nibble_def code_def split: if_splits)
  have l: "2 * length data + 2 < 65536" using assms(5) by simp
  obtain m' where r: "ATC_CheckHexStrParameter ?m (unat off) figure ?out =
     Some (D_ATC_PARAM_OK, ?out\<lparr>sp_StrLength := of_nat (if q then 2 * length data + 2 else 2 * length data),
       sp_ParaStr := map (\<lambda>b. char_of (unat b)) data, sp_Length := of_nat (length data), sp_StopStrInf := stop_at t\<rparr>, m')"
  proof (cases q)
    case True
    have pk: "peek ?m (unat off) = QUOTE" using True assms(1) by (simp add: peek_append)
    have "quote_shift ?m (unat off) 1 = Some (True, pre @ ?h @ t # QUOTE # t # rest)"
      using True quote_shift_digits [OF HexToAsc_digits, of "pre @ [QUOTE]" "unat off" 1 pre QUOTE data t rest] assms(1) by simp
    with True pk check_hex_digits_text [OF assms(1) t assms(4) l, of True "QUOTE # t # rest" rest ?out] that
    show thesis by (auto simp: ATC_CheckHexStrParameter_def)
  next
    case False
    have pk: "peek ?m (unat off) = c" using False assms(1) cs by (simp add: peek_append)
    have "empty_stop c = None" using ne by (simp add: empty_stop_def)
    with False pk ne check_hex_digits_text [OF assms(1) t assms(4) l, of False rest rest ?out] that
    show thesis by (auto simp: ATC_CheckHexStrParameter_def)
  qed
  have "(of_nat (length data) :: u16) \<noteq> 0"
  proof
    assume "(of_nat (length data) :: u16) = 0"
    then have "unat (of_nat (length data) :: u16) = 0" by simp
    then show False using assms(3,5) by (simp add: unat_of_nat)
  qed
  then show ?thesis
    using r assms(2) by (auto simp: ATC_GetHexStrParameter_def stop_at_def)
qed

theorem hex_string_parameter_roundtrip_witness:
  "\<exists>m'. ATC_GetHexStrParameter D_ATC_STOP_CHAR_STR
      (QUOTE # AtcAp_HexToAsc [0xAB, 0x05] @ [QUOTE, COMMA, CHR ''1'', CR]) 0 8 False False =
    Some (D_ATC_PARAM_OK, 2, [char_of (0xAB :: nat), char_of (5 :: nat)], 7, m')"
  using hex_string_parameter_roundtrip [of "[]" 0 COMMA False "[0xAB, 0x05]" 8 D_ATC_STOP_CHAR_STR True "''1'' @ [CR]" False]
  by simp

section \<open>Strings\<close>

lemma scan_stop_bounds: "i \<le> scan_stop P m p limit i \<and> (i \<le> limit + 1 \<longrightarrow> scan_stop P m p limit i \<le> limit + 1)"
proof (induction P m p limit i rule: scan_stop.induct)
  case (1 P m p limit i)
  then show ?case by (subst (1 2) scan_stop.simps) auto
qed

lemma scan_stop_first:
  assumes "\<And>j. i \<le> j \<Longrightarrow> j < n \<Longrightarrow> \<not> P (peek m (p + j))" "n \<le> limit \<Longrightarrow> P (peek m (p + n))"
    and "i \<le> n" "n \<le> limit + 1"
  shows "scan_stop P m p limit i = n"
  using assms
proof (induction "n - i" arbitrary: i)
  case 0
  then show ?case by (subst scan_stop.simps) auto
next
  case (Suc d)
  then have "i < n" by simp
  then have "scan_stop P m p limit (i + 1) = n" using Suc by (intro Suc.hyps(1)) auto
  then show ?case using Suc.prems \<open>i < n\<close> by (subst scan_stop.simps) auto
qed

text \<open>
  The reader of a string parameter never stores more characters than the length its caller gives it
  (one NUL when the parameter is empty), whatever the line contains.
\<close>

lemma string_parameter_bounded:
  "length (fst (snd (snd (ATC_GetStrParameter stop0 m off max_len opt final)))) \<le> max 1 max_len"
proof -
  let ?out = "\<lparr>sp_Length = 0, sp_StrLength = 0, sp_ParaStr = [], sp_StopStrInf = stop0\<rparr> :: u8 str_par"
  have "length (sp_ParaStr (snd (ATC_CheckStrParameter m p k out))) \<le> max 1 k" if "sp_ParaStr out = []" for p k out
    using that by (auto simp: ATC_CheckStrParameter_def Let_def split: option.splits)
  then have "length (sp_ParaStr (snd (ATC_CheckStrParameter m (unat off) max_len ?out))) \<le> max 1 max_len" by simp
  then show ?thesis by (auto simp: ATC_GetStrParameter_def Let_def split: prod.splits)
qed

lemma check_str_quoted:
  assumes m: "m = pre @ QUOTE # str @ QUOTE # t # rest" "length pre = p"
    and clean: "COMMA \<notin> set str" "CR \<notin> set str" "t = CR \<or> t = COMMA"
    and len: "length str \<le> max_len" "length str < 254"
  shows "ATC_CheckStrParameter m p max_len out =
      (D_ATC_PARAM_OK, out\<lparr>sp_Length := of_nat (length str + 2), sp_StrLength := of_nat (length str), sp_ParaStr := str,
         sp_StopStrInf := stop_at t\<rparr>)"
proof -
  let ?n = "length str + 2"
  have pk: "peek m (p + j) = (QUOTE # str @ QUOTE # t # rest) ! j" if "j \<le> ?n" for j
    using that m by (auto simp: peek_def nth_append)
  have mid: "peek m (p + j) \<noteq> COMMA \<and> peek m (p + j) \<noteq> CR" if "1 \<le> j" "j < ?n" for j
  proof (cases "j = length str + 1")
    case True
    then show ?thesis using pk [of j] by (simp add: nth_append)
  next
    case False
    then have j: "j - 1 < length str" using that by simp
    have "peek m (p + j) = str ! (j - 1)" using pk [of j] that j by (simp add: nth_append)
    then show ?thesis using nth_mem [OF j] clean by metis
  qed
  have sc: "scan_stop (\<lambda>c. c = COMMA \<or> c = CR) m p (max_len + 1) 1 = ?n"
    using mid pk [of ?n] clean len by (intro scan_stop_first) (auto simp: nth_append)
  have q: "peek m p = QUOTE" "peek m (p + ?n - 1) = QUOTE" "peek m (p + ?n) = t"
    using pk [of 0] pk [of "length str + 1"] pk [of ?n] by (simp_all add: nth_append)
  have sl: "slice m (p + 1) (length str) = str"
    using slice_append [of "pre @ [QUOTE]" "p + 1" str "QUOTE # t # rest"] m by simp
  have l: "unat (of_nat ?n :: u8) = ?n" using len by (simp only: unat_of_nat) simp
  show ?thesis
    unfolding ATC_CheckStrParameter_def Let_def sc using q sl l clean len by (auto simp del: of_nat_add)
qed

text \<open>
  A quoted text without commas and carriage returns, of at most the allowed length, is stored exactly,
  with its length, and the offset moves behind it and its comma.
\<close>

lemma quoted_parameter_exact:
  assumes "m = pre @ QUOTE # str @ QUOTE # t # rest" "length pre = unat off"
    and "COMMA \<notin> set str" "CR \<notin> set str" "t = CR \<or> t = COMMA \<and> \<not> final"
    and "length str \<le> max_len" "length str < 254" "opt \<or> str \<noteq> []"
  shows "ATC_GetStrParameter stop0 m off max_len opt final =
    (D_ATC_PARAM_OK, of_nat (length str), str, off + of_nat (length str + 2 + (if t = COMMA then 1 else 0)))"
proof -
  have t: "t = CR \<or> t = COMMA" using assms(5) by blast
  have u: "(ucast (of_nat (length str + 2) :: u8) :: u16) = of_nat (length str + 2)" by (rule ucast_len) (use assms(7) in simp)
  have "opt \<or> (of_nat (length str) :: u8) \<noteq> 0"
  proof (cases opt)
    case False
    then have "0 < length str" "length str < 256" using assms(7,8) by auto
    then have "unat (of_nat (length str) :: u8) \<noteq> 0" by (simp only: unat_of_nat) simp
    then show ?thesis by auto
  qed simp
  then show ?thesis
    using check_str_quoted [OF assms(1,2,3,4) t assms(6,7)] u assms(5)
    by (auto simp: ATC_GetStrParameter_def Let_def stop_at_def)
qed

end
