(* ===== verification/Atc_Time.thy ===== *)
theory Atc_Time
  imports XY_Utils
begin

text \<open>
  Network time in the protocol-stack adapter: \<^verbatim>\<open>AtcAp_ConvertTimeZone\<close> of
  \<^verbatim>\<open>APPLIB/xy_ps/atc_ps/src/atc_ps_com.c\<close> turns the universal time a network sends (seven bytes,
  decimal digits with their nibbles swapped, years from 2000) and its time zone (quarters of an hour)
  into local time, in place.
\<close>

unbundle bit_operations_syntax

section \<open>The conversion\<close>

definition AtcAp_RevertHexToDecimal :: "u8 \<Rightarrow> u8" where
  "AtcAp_RevertHexToDecimal ucHex = (ucHex AND 0x0F) * 10 + drop_bit 4 (ucHex AND 0xF0)"

definition ATC_MonthDayTbl :: "nat list list" where
  "ATC_MonthDayTbl =
     [[31, 28, 31, 30, 31, 30, 31, 31, 30, 31, 30, 31],
      [31, 29, 31, 30, 31, 30, 31, 31, 30, 31, 30, 31]]"

definition month_days :: "bool \<Rightarrow> nat \<Rightarrow> nat" where
  "month_days leap i = ATC_MonthDayTbl ! (if leap then 1 else 0) ! i"

text \<open>The minutes of the years before, as the source counts them.\<close>

definition year_base :: "nat \<Rightarrow> nat" where
  "year_base y = (y * 365 + y div 4) * 24 * 60"

text \<open>What both directions do when the year changes: it is counted with the days of the old one.\<close>

definition change_year :: "u8 \<Rightarrow> bool \<Rightarrow> u32 \<Rightarrow> u8 \<times> bool \<times> u32" where
  "change_year ucYear leap t =
     (if ucYear mod 4 = 0 then (ucYear, True, t + 60 * 24)
      else if leap then (ucYear, False, t - 60 * 24)
      else (ucYear, leap, t))"

definition apply_zone :: "bool \<Rightarrow> u8 \<Rightarrow> u8 \<Rightarrow> bool \<Rightarrow> u32 \<Rightarrow> u8 \<times> bool \<times> u32" where
  "apply_zone negative offset ucYear leap t =
     (if \<not> negative then
        let t1 = t + of_nat (unat offset * 15) in
        if t1 > of_nat (((unat ucYear + 1) * 365 + unat ucYear div 4) * 24 * 60)
        then change_year (ucYear + 1) leap t1 else (ucYear, leap, t1)
      else
        let t1 = t - of_nat (unat offset * 15) in
        if t1 < of_nat (year_base (unat ucYear)) then change_year (ucYear - 1) leap t1 else (ucYear, leap, t1))"

text \<open>The loop over the months; past the last one the index is 12.\<close>

fun zone_month_loop :: "bool \<Rightarrow> u16 \<Rightarrow> nat list \<Rightarrow> nat \<times> u16" where
  "zone_month_loop leap usDay [] = (12, usDay)"
| "zone_month_loop leap usDay (i # is) =
     (if usDay > of_nat (month_days leap i) then zone_month_loop leap (usDay - of_nat (month_days leap i)) is
      else (i, usDay))"

text \<open>\<open>None\<close>: a month beyond the table. The result is the seven bytes afterwards.\<close>

definition AtcAp_ConvertTimeZone :: "u8 list \<Rightarrow> u8 \<Rightarrow> u8 list option" where
  "AtcAp_ConvertTimeZone p ucDayLightTime =
     (let ucYear = AtcAp_RevertHexToDecimal (p ! 0);
          ucMonth = AtcAp_RevertHexToDecimal (p ! 1);
          usDay = (ucast (AtcAp_RevertHexToDecimal (p ! 2)) :: u16);
          ucHour = AtcAp_RevertHexToDecimal (p ! 3);
          ucMinute = AtcAp_RevertHexToDecimal (p ! 4);
          ucSecond = AtcAp_RevertHexToDecimal (p ! 5);
          offset = (p ! 6 AND 0x07) * 10 + drop_bit 4 (p ! 6 AND 0xF0) + ucDayLightTime * 4;
          leap0 = (ucYear mod 4 = 0);
          t0 = (of_nat (year_base (unat ucYear)) :: u32);
          t1 = foldl (\<lambda>t i. t + of_nat (month_days leap0 i * 24 * 60)) t0 [0..<unat ucMonth - 1];
          t2 = t1 + of_int ((int (unat usDay) - 1) * 60 * 24) + of_nat (unat ucHour * 60) + of_nat (unat ucMinute);
          (year, leap, t3) = apply_zone (p ! 6 AND 0x08 \<noteq> 0) offset ucYear leap0 t2;
          t4 = t3 - of_nat (year_base (unat year));
          day = (ucast (t4 div (60 * 24) + 1) :: u16);
          before = (of_int ((int (unat day) - 1) * 60 * 24) :: u32);
          (i, dom) = zone_month_loop leap day [0..<12];
          t5 = t4 - before
      in if 13 < unat ucMonth then None
         else Some [year, of_nat (i + 1), ucast dom, ucast (t5 div 60), ucast (t5 mod 60), ucSecond, 0])"

section \<open>Calendar time\<close>

text \<open>Days before a month in a year, and minutes since the beginning of the year 2000.\<close>

definition days_before :: "bool \<Rightarrow> nat \<Rightarrow> nat" where
  "days_before leap n = sum_list (map (month_days leap) [0..<n])"

definition minute_of_year :: "nat \<Rightarrow> nat \<Rightarrow> nat \<Rightarrow> nat \<Rightarrow> nat \<Rightarrow> nat" where
  "minute_of_year y mon d h mi = (days_before (y mod 4 = 0) (mon - 1) + (d - 1)) * 1440 + h * 60 + mi"

definition atc_year_start :: "nat \<Rightarrow> nat" where
  "atc_year_start y = (365 * y + (y + 3) div 4) * 1440"

definition minutes :: "nat \<Rightarrow> nat \<Rightarrow> nat \<Rightarrow> nat \<Rightarrow> nat \<Rightarrow> nat" where
  "minutes y mon d h mi = atc_year_start y + minute_of_year y mon d h mi"

definition valid_time :: "nat \<Rightarrow> nat \<Rightarrow> nat \<Rightarrow> nat \<Rightarrow> nat \<Rightarrow> bool" where
  "valid_time y mon d h mi \<longleftrightarrow> 1 \<le> mon \<and> mon \<le> 12 \<and> 1 \<le> d \<and> d \<le> month_days (y mod 4 = 0) (mon - 1) \<and> h < 24 \<and> mi < 60"

text \<open>A number below 100 as the network sends it, and the zone byte.\<close>

definition swapped :: "nat \<Rightarrow> u8" where
  "swapped v = of_nat (v div 10 + 16 * (v mod 10))"

definition zone_byte :: "bool \<Rightarrow> nat \<Rightarrow> u8" where
  "zone_byte negative q = of_nat (q div 10 + (if negative then 8 else 0) + 16 * (q mod 10))"

definition year_days :: "nat \<Rightarrow> nat" where
  "year_days y = 365 + (if y mod 4 = 0 then 1 else 0)"

lemma month_less_cases: "(i :: nat) < 12 \<longleftrightarrow> i = 0 \<or> i = 1 \<or> i = 2 \<or> i = 3 \<or> i = 4 \<or> i = 5 \<or> i = 6 \<or>
    i = 7 \<or> i = 8 \<or> i = 9 \<or> i = 10 \<or> i = 11"
  by presburger

lemma days_before_Suc [simp]: "days_before leap (Suc n) = days_before leap n + month_days leap n"
  by (simp add: days_before_def)

lemma days_before_0 [simp]: "days_before leap 0 = 0"
  by (simp add: days_before_def)

lemma days_before_12: "days_before leap 12 = (if leap then 366 else 365)"
  by (simp add: days_before_def month_days_def ATC_MonthDayTbl_def upt_rec)

lemma month_days_bounds: "i < 12 \<Longrightarrow> 28 \<le> month_days leap i \<and> month_days leap i \<le> 31"
  by (auto simp: month_less_cases month_days_def ATC_MonthDayTbl_def)

lemma days_before_mono: "i \<le> j \<Longrightarrow> days_before leap i \<le> days_before leap j"
  by (induction j) (auto simp: le_Suc_eq)

lemma minute_of_year_bound:
  assumes "valid_time y mon d h mi"
  shows "minute_of_year y mon d h mi < year_days y * 1440"
proof -
  obtain k where k: "mon = Suc k" "k < 12" using assms by (cases mon) (auto simp: valid_time_def)
  have "days_before (y mod 4 = 0) (Suc k) \<le> days_before (y mod 4 = 0) 12" using k(2) by (intro days_before_mono) simp
  then have "days_before (y mod 4 = 0) k + month_days (y mod 4 = 0) k \<le> year_days y"
    by (cases "y mod 4 = 0") (simp_all add: days_before_12 year_days_def)
  then have "(days_before (y mod 4 = 0) (mon - 1) + (d - 1)) + 1 \<le> year_days y"
    using assms k(1) by (auto simp: valid_time_def)
  then have "((days_before (y mod 4 = 0) (mon - 1) + (d - 1)) + 1) * 1440 \<le> year_days y * 1440" by (rule mult_le_mono1)
  then show ?thesis using assms by (auto simp: minute_of_year_def valid_time_def algebra_simps)
qed

lemma atc_year_start_Suc: "atc_year_start (Suc y) = atc_year_start y + year_days y * 1440"
proof -
  have "(Suc y + 3) div 4 = (y + 3) div 4 + (if y mod 4 = 0 then 1 else 0)" by (simp add: div_Suc mod_Suc) presburger
  then show ?thesis by (simp add: atc_year_start_def year_days_def algebra_simps)
qed

lemma year_base_start: "year_base y + (if y mod 4 = 0 then 0 else 1440) = atc_year_start y"
proof -
  have "(y + 3) div 4 = y div 4 + (if y mod 4 = 0 then 0 else 1)" by presburger
  then show ?thesis by (simp add: year_base_def atc_year_start_def algebra_simps)
qed

section \<open>The steps of the conversion\<close>

lemma revert_swapped:
  assumes "v < 100"
  shows "AtcAp_RevertHexToDecimal (swapped v) = of_nat v"
proof -
  have "list_all (\<lambda>v. AtcAp_RevertHexToDecimal (swapped v) = of_nat v) [0..<100]" by code_simp
  then show ?thesis using assms by (simp add: list_all_iff)
qed

lemma zone_byte_offset:
  assumes "q < 80"
  shows "(zone_byte neg q AND 0x07) * 10 + drop_bit 4 (zone_byte neg q AND 0xF0) = of_nat q"
    and "(zone_byte neg q AND 0x08 \<noteq> 0) = neg"
proof -
  have "list_all (\<lambda>q. \<forall>neg \<in> {True, False}. (zone_byte neg q AND 0x07) * 10 + drop_bit 4 (zone_byte neg q AND 0xF0) = of_nat q \<and>
      (zone_byte neg q AND 0x08 \<noteq> 0) = neg) [0..<80]" by code_simp
  then show "(zone_byte neg q AND 0x07) * 10 + drop_bit 4 (zone_byte neg q AND 0xF0) = of_nat q"
    "(zone_byte neg q AND 0x08 \<noteq> 0) = neg" using assms by (cases neg; auto simp: list_all_iff)+
qed

text \<open>The minutes since 2000 in the source's count, before the zone is applied.\<close>

lemma month_sum:
  "foldl (\<lambda>t i. t + of_nat (month_days leap i * 24 * 60)) (of_nat a :: u32) [0..<n] = of_nat (a + days_before leap n * 1440)"
  by (induction n) (simp_all add: algebra_simps)

lemma zone_month_loop_finds:
  assumes "k < 12" "1 \<le> d" "d \<le> month_days leap k" "i \<le> k"
  shows "zone_month_loop leap (of_nat (days_before leap k - days_before leap i + d)) [i..<12] = (k, of_nat d)"
  using assms(4)
proof (induction "k - i" arbitrary: i)
  case 0
  then have "i = k" by simp
  then show ?case
    using assms month_days_bounds [OF assms(1), of leap]
    by (simp add: upt_rec [of k] word_less_nat_alt unat_of_nat)
next
  case (Suc n)
  then have i: "i < k" "i < 12" using assms(1) by simp_all
  have le: "days_before leap (Suc i) \<le> days_before leap k" using i by (intro days_before_mono) simp
  have b: "days_before leap k \<le> 366" "month_days leap i \<le> 31"
    using days_before_mono [of k 12 leap] assms(1) month_days_bounds [OF i(2)] by (auto simp: days_before_12 split: if_splits)
  have d: "d \<le> 31" using assms(3) month_days_bounds [OF assms(1), of leap] by simp
  let ?x = "days_before leap k - days_before leap i + d"
  have x: "?x = month_days leap i + (days_before leap k - days_before leap (Suc i) + d)" using le by simp
  have "?x \<le> 400" using b(1) d by linarith
  then have "unat (of_nat ?x :: u16) = ?x" by (simp only: unat_of_nat) (rule mod_less, simp)
  moreover have "unat (of_nat (month_days leap i) :: u16) = month_days leap i"
    using b(2) by (simp only: unat_of_nat) (rule mod_less, simp)
  ultimately have "of_nat (month_days leap i) < (of_nat ?x :: u16)"
    unfolding word_less_nat_alt using x assms(2) by linarith
  moreover have "of_nat ?x - of_nat (month_days leap i) = (of_nat (days_before leap k - days_before leap (Suc i) + d) :: u16)"
    unfolding x by simp
  ultimately show ?case
    using Suc.hyps(1) [of "Suc i"] Suc.hyps(2) i by (simp add: upt_rec [of i] del: days_before_Suc of_nat_add)
qed

lemma ucast_of_nat_16: "(ucast (of_nat n :: u32) :: u16) = of_nat n"
  by (simp add: word_unat_eq_iff unsigned_ucast_eq unat_of_nat take_bit_eq_mod mod_mod_cancel)

text \<open>The last part: from the minutes of the year to the date and time.\<close>

definition finish :: "u8 \<Rightarrow> bool \<Rightarrow> u32 \<Rightarrow> u8 list" where
  "finish year leap t4 =
     (let day = (ucast (t4 div (60 * 24) + 1) :: u16);
          before = (of_int ((int (unat day) - 1) * 60 * 24) :: u32);
          (i, dom) = zone_month_loop leap day [0..<12];
          t5 = t4 - before
      in [year, of_nat (i + 1), ucast dom, ucast (t5 div 60), ucast (t5 mod 60)])"

lemma finish_time:
  assumes "valid_time y mon d h mi" "leap = (y mod 4 = 0)"
  shows "finish yr leap (of_nat (minute_of_year y mon d h mi)) = [yr, of_nat mon, of_nat d, of_nat h, of_nat mi]"
proof -
  obtain k where k: "mon = Suc k" "k < 12" using assms by (cases mon) (auto simp: valid_time_def)
  have v: "1 \<le> d" "d \<le> month_days leap k" "h < 24" "mi < 60" using assms k by (simp_all add: valid_time_def)
  let ?doy = "days_before leap k + (d - 1)" and ?r = "h * 60 + mi"
  have m: "minute_of_year y mon d h mi = ?doy * 1440 + ?r" using k assms(2) by (simp add: minute_of_year_def)
  have r: "?r < 1440" using v by simp
  have doy: "?doy \<le> 396"
    using days_before_mono [of k 12 leap] k(2) month_days_bounds [OF k(2), of leap] v by (auto simp: days_before_12 split: if_splits)
  have u: "unat (of_nat (?doy * 1440 + ?r) :: u32) = ?doy * 1440 + ?r" using doy r by (simp only: unat_of_nat) simp
  have div: "(?doy * 1440 + ?r) div 1440 = ?doy" using r by simp
  have day: "ucast ((of_nat (?doy * 1440 + ?r) :: u32) div (60 * 24) + 1) = (of_nat (?doy + 1) :: u16)"
  proof -
    have "unat ((of_nat (?doy * 1440 + ?r) :: u32) div 1440) = ?doy" using u div by (simp only: unat_div) simp
    moreover have "unat (of_nat ?doy :: u32) = ?doy" using doy by (simp only: unat_of_nat) (rule mod_less, simp)
    ultimately have "(of_nat (?doy * 1440 + ?r) :: u32) div 1440 = of_nat ?doy" by (simp only: word_unat_eq_iff)
    then have "(of_nat (?doy * 1440 + ?r) :: u32) div (60 * 24) + 1 = of_nat (?doy + 1)" by simp
    then show ?thesis by (simp only: ucast_of_nat_16)
  qed
  have "unat (of_nat (?doy + 1) :: u16) = ?doy + 1" using doy by (simp only: unat_of_nat) simp
  then have before: "(of_int ((int (unat (of_nat (?doy + 1) :: u16)) - 1) * 60 * 24) :: u32) = of_nat (?doy * 1440)"
    by simp
  have rest: "(of_nat (?doy * 1440 + ?r) :: u32) - of_nat (?doy * 1440) = of_nat ?r" by simp
  have ur: "unat (of_nat ?r :: u32) = ?r" using r by (simp only: unat_of_nat) simp
  have hm: "(ucast ((of_nat ?r :: u32) div 60) :: u8) = of_nat h" "(ucast ((of_nat ?r :: u32) mod 60) :: u8) = of_nat mi"
  proof -
    have "unat ((of_nat ?r :: u32) div 60) = h" "unat ((of_nat ?r :: u32) mod 60) = mi"
      using ur v by (simp_all only: unat_div unat_mod) simp_all
    then show "(ucast ((of_nat ?r :: u32) div 60) :: u8) = of_nat h" "(ucast ((of_nat ?r :: u32) mod 60) :: u8) = of_nat mi"
      by (simp_all only: word_unat_eq_iff unsigned_ucast_eq unat_of_nat) (simp_all add: take_bit_eq_mod)
  qed
  have ml: "zone_month_loop leap (of_nat (?doy + 1)) [0..<12] = (k, of_nat d)"
    using zone_month_loop_finds [OF k(2) v(1,2), of 0] v(1) by simp
  have dom: "(ucast (of_nat d :: u16) :: u8) = of_nat d"
    using v(2) month_days_bounds [OF k(2), of leap]
    by (simp only: word_unat_eq_iff unsigned_ucast_eq unat_of_nat) (simp add: take_bit_eq_mod)
  show ?thesis
    unfolding finish_def m day before rest Let_def ml
    using hm dom k(1) by simp
qed

section \<open>Applying the zone\<close>

lemma year_base_Suc: "year_base (Suc y) = year_base y + 525600 + (if Suc y mod 4 = 0 then 1440 else 0)"
proof -
  have "Suc y div 4 = y div 4 + (if Suc y mod 4 = 0 then 1 else 0)" by presburger
  then show ?thesis by (simp add: year_base_def algebra_simps)
qed

lemma year_base_less: "y \<le> 100 \<Longrightarrow> year_base y < 100000000"
proof -
  assume y: "y \<le> 100"
  then have "y * 365 + y div 4 \<le> 36525" by linarith
  then have "(y * 365 + y div 4) * 24 * 60 \<le> 36525 * 24 * 60" by (intro mult_le_mono1)
  then show ?thesis by (simp add: year_base_def)
qed

text \<open>Local time as the code computes it: the year \<open>Y\<close> and the minute \<open>M'\<close> of it.\<close>

definition shifted :: "bool \<Rightarrow> nat \<Rightarrow> nat \<Rightarrow> nat \<Rightarrow> nat \<Rightarrow> nat \<Rightarrow> bool" where
  "shifted neg z y M Y M' \<longleftrightarrow>
     M' < year_days Y * 1440 \<and>
     (if neg then atc_year_start y + M = atc_year_start Y + M' + z else atc_year_start y + M + z = atc_year_start Y + M')"

lemma atc_year_start_mono: "a \<le> b \<Longrightarrow> atc_year_start a \<le> atc_year_start b"
  by (induction b) (auto simp: le_Suc_eq atc_year_start_Suc)

lemma shifted_cases:
  assumes "shifted neg z y M Y M'" "M < year_days y * 1440" "z \<le> 1440"
  shows "Y = y \<and> (if neg then M = M' + z else M' = M + z) \<or>
    \<not> neg \<and> Y = Suc y \<and> M + z = M' + year_days y * 1440 \<or>
    neg \<and> y = Suc Y \<and> M + year_days Y * 1440 = M' + z"
proof -
  have d: "365 \<le> year_days x" for x by (simp add: year_days_def)
  consider "Y = y" | "Y = Suc y" | "y = Suc Y" | "Suc (Suc y) \<le> Y" | "Suc (Suc Y) \<le> y" by linarith
  then show ?thesis
  proof cases
    case 4
    from atc_year_start_mono [OF this] have "atc_year_start y + year_days y * 1440 + year_days (Suc y) * 1440 \<le> atc_year_start Y"
      by (simp add: atc_year_start_Suc)
    then show ?thesis using assms d [of "Suc y"] by (auto simp: shifted_def split: if_splits)
  next
    case 5
    from atc_year_start_mono [OF this] have "atc_year_start Y + year_days Y * 1440 + year_days (Suc Y) * 1440 \<le> atc_year_start y"
      by (simp add: atc_year_start_Suc)
    then show ?thesis using assms d [of "Suc Y"] by (auto simp: shifted_def split: if_splits)
  next
    case 2
    then show ?thesis using assms by (auto simp: shifted_def atc_year_start_Suc split: if_splits)
  next
    case 3
    then show ?thesis using assms by (auto simp: shifted_def atc_year_start_Suc split: if_splits)
  next
    case 1
    then show ?thesis using assms by (auto simp: shifted_def split: if_splits)
  qed
qed

text \<open>
  The two moments the code gets wrong: local time on the last day of a leap year after midnight, and the
  very first minute of a year after a common one, both with a zone east of Greenwich.
\<close>

definition year_end_fault :: "bool \<Rightarrow> nat \<Rightarrow> nat \<Rightarrow> nat \<Rightarrow> bool" where
  "year_end_fault neg y Y M' \<longleftrightarrow> \<not> neg \<and>
     (Y = y \<and> y mod 4 = 0 \<and> 525600 < M' \<or> Y = Suc y \<and> y mod 4 \<noteq> 0 \<and> M' = 0)"

lemma word_mod_4: "x \<le> 100 \<Longrightarrow> (of_nat x :: u8) mod 4 = 0 \<longleftrightarrow> x mod 4 = 0"
proof -
  assume "x \<le> 100"
  then have "unat ((of_nat x :: u8) mod 4) = x mod 4" by (simp add: unat_mod unat_of_nat)
  then show ?thesis by (metis unat_0 unat_eq_zero)
qed

lemma year_forward:
  assumes "Y = Suc y" "M + z = M' + year_days y * 1440" "y \<le> 98"
  shows "change_year (of_nat y + 1) (y mod 4 = 0) (of_nat (year_base y + (M + z))) =
    (of_nat Y, Y mod 4 = 0, of_nat (year_base Y + M'))"
proof -
  have y1: "(of_nat y + 1 :: u8) = of_nat Y" using assms(1) by simp
  have m: "(of_nat Y :: u8) mod 4 = 0 \<longleftrightarrow> Y mod 4 = 0" using assms(1,3) by (intro word_mod_4) simp
  consider (to) "Y mod 4 = 0" "y mod 4 \<noteq> 0" | (off) "Y mod 4 \<noteq> 0" "y mod 4 = 0" | (none) "Y mod 4 \<noteq> 0" "y mod 4 \<noteq> 0"
    using assms(1) by (cases "Y mod 4 = 0"; cases "y mod 4 = 0") (simp_all add: mod_Suc)
  then show ?thesis
  proof cases
    case to
    then have "year_base Y + M' = year_base y + (M + z) + 1440"
      using assms(1,2) by (simp add: year_base_Suc year_days_def)
    then show ?thesis using to unfolding change_year_def y1 m by (simp del: of_nat_add) simp
  next
    case off
    then have e: "year_base y + (M + z) = year_base Y + M' + 1440"
      using assms(1,2) by (simp add: year_base_Suc year_days_def)
    show ?thesis using off unfolding change_year_def y1 m e by simp
  next
    case none
    then have e: "year_base y + (M + z) = year_base Y + M'"
      using assms(1,2) by (simp add: year_base_Suc year_days_def)
    show ?thesis using none unfolding change_year_def y1 m e by simp
  qed
qed

lemma year_back:
  assumes "y = Suc Y" "M + year_days Y * 1440 = M' + z" "y \<le> 98" "1 \<le> y" "z \<le> 1440"
  shows "change_year (of_nat y - 1) (y mod 4 = 0) (of_nat (year_base y + M - z)) =
    (of_nat Y, Y mod 4 = 0, of_nat (year_base Y + M'))"
proof -
  have y1: "(of_nat y - 1 :: u8) = of_nat Y" using assms(1) by simp
  have m: "(of_nat Y :: u8) mod 4 = 0 \<longleftrightarrow> Y mod 4 = 0" using assms(1,3) by (intro word_mod_4) simp
  consider (to) "Y mod 4 = 0" "y mod 4 \<noteq> 0" | (off) "Y mod 4 \<noteq> 0" "y mod 4 = 0" | (none) "Y mod 4 \<noteq> 0" "y mod 4 \<noteq> 0"
    using assms(1) by (cases "Y mod 4 = 0"; cases "y mod 4 = 0") (simp_all add: mod_Suc)
  then show ?thesis
  proof cases
    case to
    then have "year_base Y + M' = year_base y + M - z + 1440"
      using assms(1,2,5) by (simp add: year_base_Suc year_days_def)
    then show ?thesis using to unfolding change_year_def y1 m by (simp del: of_nat_add) simp
  next
    case off
    then have e: "year_base y + M - z = year_base Y + M' + 1440"
      using assms(1,2,5) by (simp add: year_base_Suc year_days_def)
    show ?thesis using off unfolding change_year_def y1 m e by simp
  next
    case none
    then have e: "year_base y + M - z = year_base Y + M'"
      using assms(1,2,5) by (simp add: year_base_Suc year_days_def)
    show ?thesis using none unfolding change_year_def y1 m e by simp
  qed
qed

lemma apply_zone_shifted:
  assumes "shifted neg z y M Y M'" "M < year_days y * 1440" "z = 15 * off" "off \<le> 96" "1 \<le> y" "y \<le> 98"
    and "\<not> year_end_fault neg y Y M'"
  shows "apply_zone neg (of_nat off) (of_nat y) (y mod 4 = 0) (of_nat (year_base y + M)) =
    (of_nat Y, Y mod 4 = 0, of_nat (year_base Y + M'))"
proof -
  have z: "z \<le> 1440" using assms(3,4) by simp
  have uoff: "unat (of_nat off :: u8) = off" using assms(4) by (simp add: unat_of_nat)
  have uy: "unat (of_nat y :: u8) = y" using assms(6) by (simp add: unat_of_nat)
  have off: "unat (of_nat off :: u8) * 15 = z" using uoff assms(3) by simp
  have yd: "year_days x * 1440 = 525600 + (if x mod 4 = 0 then 1440 else 0)" for x by (simp add: year_days_def)
  have M: "M < 528000" using assms(2) yd [of y] by (simp split: if_splits)
  have base: "year_base y < 100000000" "525600 \<le> year_base y" using assms(5,6) year_base_less by (simp_all add: year_base_def)
  have thr: "((unat (of_nat y :: u8) + 1) * 365 + unat (of_nat y :: u8) div 4) * 24 * 60 = year_base y + 525600"
    unfolding uy year_base_def by simp
  from shifted_cases [OF assms(1,2) z] consider
      "\<not> neg" "Y = y" "M' = M + z" | "neg" "Y = y" "M = M' + z"
    | "\<not> neg" "Y = Suc y" "M + z = M' + year_days y * 1440" | "neg" "y = Suc Y" "M + year_days Y * 1440 = M' + z"
    by (metis (full_types))
  then show ?thesis
  proof cases
    case 1
    have "M' < year_days y * 1440" using assms(1) 1 by (simp add: shifted_def)
    moreover have "\<not> (y mod 4 = 0 \<and> 525600 < M')" using assms(7) 1 by (simp add: year_end_fault_def)
    ultimately have "M' \<le> 525600" using yd [of y] by (cases "y mod 4 = 0") simp_all
    then have "\<not> (of_nat (year_base y + 525600) :: u32) < of_nat (year_base y + M')"
      using base by (subst u32_less_of_nat) simp_all
    moreover have "(of_nat (year_base y + M) + of_nat z :: u32) = of_nat (year_base y + M')" using 1 by simp
    ultimately show ?thesis using 1 by (simp only: apply_zone_def off thr Let_def) simp
  next
    case 2
    have "\<not> (of_nat (year_base y + M') :: u32) < of_nat (year_base y)"
      using base 2 M by (subst u32_less_of_nat) simp_all
    moreover have "(of_nat (year_base y + M) - of_nat z :: u32) = of_nat (year_base y + M')" using 2 by simp
    ultimately show ?thesis using 2 by (simp only: apply_zone_def off uy Let_def) simp
  next
    case 3
    have "\<not> (y mod 4 \<noteq> 0 \<and> M' = 0)" using assms(7) 3 by (simp add: year_end_fault_def)
    then have "525600 < M + z" using 3(3) yd [of y] by (cases "y mod 4 = 0") simp_all
    then have "(of_nat (year_base y + 525600) :: u32) < of_nat (year_base y + (M + z))"
      using base M z by (subst u32_less_of_nat) simp_all
    moreover have "(of_nat (year_base y + M) + of_nat z :: u32) = of_nat (year_base y + (M + z))" by simp
    moreover have "change_year (of_nat y + 1) (y mod 4 = 0) (of_nat (year_base y + (M + z))) =
        (of_nat Y, Y mod 4 = 0, of_nat (year_base Y + M'))"
      by (rule year_forward [OF 3(2,3) assms(6)])
    ultimately show ?thesis using 3 by (simp only: apply_zone_def off thr Let_def) simp
  next
    case 4
    have lt: "M < z" using 4(3) assms(1) by (simp add: shifted_def)
    have "(of_nat (year_base y + M - z) :: u32) < of_nat (year_base y)"
      using base lt M z by (subst u32_less_of_nat) simp_all
    moreover have sub: "(of_nat (year_base y + M) - of_nat z :: u32) = of_nat (year_base y + M - z)"
      using base z by (simp add: of_nat_diff)
    moreover have "change_year (of_nat y - 1) (y mod 4 = 0) (of_nat (year_base y + M - z)) =
        (of_nat Y, Y mod 4 = 0, of_nat (year_base Y + M'))"
      by (rule year_back [OF 4(2,3)]) (use assms(5,6) M z in simp_all)
    ultimately show ?thesis using 4(1) by (simp only: apply_zone_def off uy Let_def) (simp del: of_nat_add)
  qed
qed

section \<open>The conversion as a whole\<close>

text \<open>The steps put together: the zone is applied to the minutes, the rest is \<open>finish\<close>.\<close>

lemma convert_steps:
  assumes "valid_time y mon d h mi" "s < 100" "q < 80" "q + 4 * dl \<le> 96" "y \<le> 98"
    and "apply_zone neg (of_nat (q + 4 * dl)) (of_nat y) (y mod 4 = 0) (of_nat (year_base y + minute_of_year y mon d h mi)) =
      (yr, leap, t)"
  shows "AtcAp_ConvertTimeZone [swapped y, swapped mon, swapped d, swapped h, swapped mi, swapped s, zone_byte neg q] (of_nat dl) =
    Some (finish yr leap (t - of_nat (year_base (unat yr))) @ [of_nat s, 0])"
proof -
  obtain k where k: "mon = Suc k" "k < 12" using assms by (cases mon) (auto simp: valid_time_def)
  have v: "1 \<le> d" "d \<le> 31" "h < 24" "mi < 60"
    using assms(1) k month_days_bounds [OF k(2), of "y mod 4 = 0"] by (simp_all add: valid_time_def)
  have r: "AtcAp_RevertHexToDecimal (swapped y) = of_nat y" "AtcAp_RevertHexToDecimal (swapped mon) = of_nat mon"
    "AtcAp_RevertHexToDecimal (swapped d) = of_nat d" "AtcAp_RevertHexToDecimal (swapped h) = of_nat h"
    "AtcAp_RevertHexToDecimal (swapped mi) = of_nat mi" "AtcAp_RevertHexToDecimal (swapped s) = of_nat s"
    using assms k v by (simp_all only: revert_swapped)
  have m12: "mon \<le> 12" using k by simp
  have u: "unat (of_nat y :: u8) = y" "unat (of_nat mon :: u8) = mon" "unat (of_nat h :: u8) = h" "unat (of_nat mi :: u8) = mi"
    "unat (ucast (of_nat d :: u8) :: u16) = d"
    using assms(5) m12 v by (simp_all add: unat_of_nat unsigned_ucast_eq take_bit_eq_mod)
  have leap: "(of_nat y :: u8) mod 4 = 0 \<longleftrightarrow> y mod 4 = 0" using assms(5) by (intro word_mod_4) simp
  have off: "(zone_byte neg q AND 0x07) * 10 + drop_bit 4 (zone_byte neg q AND 0xF0) + of_nat dl * 4 = of_nat (q + 4 * dl)"
    unfolding zone_byte_offset [OF assms(3)] by (simp add: algebra_simps)
  have t2: "(of_nat (year_base y + days_before (y mod 4 = 0) (mon - 1) * 1440) :: u32) + of_int ((int d - 1) * 60 * 24) +
      of_nat (h * 60) + of_nat mi = of_nat (year_base y + minute_of_year y mon d h mi)"
    using v(1) by (simp add: minute_of_year_def of_nat_diff algebra_simps)
  have m13: "\<not> 13 < mon" using k by simp
  have nth: "[a, b, c, e, f, g, x] ! 0 = a" "[a, b, c, e, f, g, x] ! 1 = b" "[a, b, c, e, f, g, x] ! 2 = c"
    "[a, b, c, e, f, g, x] ! 3 = e" "[a, b, c, e, f, g, x] ! 4 = f" "[a, b, c, e, f, g, x] ! 5 = g"
    "[a, b, c, e, f, g, x] ! 6 = x" for a b c e f g x :: u8 by simp_all
  show ?thesis
    unfolding AtcAp_ConvertTimeZone_def finish_def Let_def
    by (simp only: nth r u leap month_sum off zone_byte_offset(2) [OF assms(3)] t2 assms(6) m13
        if_False split_beta prod.sel append.simps)
qed

lemma zone_month_loop_beyond:
  assumes "days_before leap 12 - days_before leap i < unat day" "i \<le> 12"
  shows "fst (zone_month_loop leap day [i..<12]) = 12"
  using assms
proof (induction "12 - i" arbitrary: i day)
  case 0
  then show ?case by simp
next
  case (Suc n)
  then have i: "i < 12" by simp
  have md: "unat (of_nat (month_days leap i) :: u16) = month_days leap i"
    using month_days_bounds [OF i, of leap] by (simp add: unat_of_nat)
  have le: "days_before leap (Suc i) \<le> days_before leap 12" using i by (intro days_before_mono) simp
  then have lt: "month_days leap i < unat day" using Suc.prems(1) by simp
  then have gt: "of_nat (month_days leap i) < day" by (simp add: word_less_nat_alt md)
  then have "unat (day - of_nat (month_days leap i)) = unat day - month_days leap i"
    by (simp add: unat_sub word_le_nat_alt md lt less_imp_le)
  then have "days_before leap 12 - days_before leap (Suc i) < unat (day - of_nat (month_days leap i))"
    using Suc.prems(1) le lt by simp
  then show ?case using Suc.hyps(1) [of "Suc i"] Suc.hyps(2) i gt by (simp add: upt_rec [of i] del: days_before_Suc)
qed

lemma minus_day:
  assumes "0 < k" "k < 1440"
  shows "365 < unat (ucast ((- of_nat k :: u32) div (60 * 24) + 1) :: u16)"
proof -
  have k: "unat (of_nat k :: u32) = k" using assms by (simp only: unat_of_nat) simp
  have "unat (- of_nat k :: u32) = 4294967296 - k"
    using assms k unat_sub_if' [of 0 "of_nat k :: u32"] by simp
  then have "unat ((- of_nat k :: u32) div 1440) = (4294967296 - k) div 1440" by (simp add: unat_div)
  moreover have "4294967296 - k = (1696 - k) + 2982615 * 1440" using assms by simp
  then have "(4294967296 - k) div 1440 = 2982615 + (1696 - k) div 1440"
    by (simp only: div_mult_self1)
  moreover have "(1696 - k) div 1440 = 0 \<or> (1696 - k) div 1440 = 1" by linarith
  ultimately have "(- of_nat k :: u32) div 1440 = 2982616 \<or> (- of_nat k :: u32) div 1440 = 2982615"
    by (auto simp: word_unat_eq_iff)
  then show ?thesis by auto
qed

lemma apply_zone_fault:
  assumes "shifted False z y M Y M'" "M < year_days y * 1440" "z = 15 * off" "off \<le> 96" "1 \<le> y" "y \<le> 98"
    and "year_end_fault False y Y M'"
  shows "\<exists>yr t. apply_zone False (of_nat off) (of_nat y) (y mod 4 = 0) (of_nat (year_base y + M)) = (yr, False, t) \<and>
    365 < unat (ucast ((t - of_nat (year_base (unat yr))) div (60 * 24) + 1) :: u16)"
proof -
  have z: "z \<le> 1440" using assms(3,4) by simp
  have uoff: "unat (of_nat off :: u8) = off" using assms(4) by (simp add: unat_of_nat)
  have uy: "unat (of_nat y :: u8) = y" using assms(6) by (simp add: unat_of_nat)
  have off: "unat (of_nat off :: u8) * 15 = z" using uoff assms(3) by simp
  have base: "year_base y < 100000000" using assms(6) year_base_less by simp
  have thr: "((unat (of_nat y :: u8) + 1) * 365 + unat (of_nat y :: u8) div 4) * 24 * 60 = year_base y + 525600"
    unfolding uy year_base_def by simp
  have sum: "(of_nat (year_base y + M) + of_nat z :: u32) = of_nat (year_base y + (M + z))" by simp
  from assms(7) consider (late) "Y = y" "y mod 4 = 0" "525600 < M'" | (midnight) "Y = Suc y" "y mod 4 \<noteq> 0" "M' = 0"
    by (auto simp: year_end_fault_def)
  then show ?thesis
  proof cases
    case late
    have M': "M' < 527040" "M + z = M'" using late assms(1) by (simp_all add: shifted_def year_days_def)
    then have "(of_nat (year_base y + 525600) :: u32) < of_nat (year_base y + (M + z))"
      using base late by (subst u32_less_of_nat) simp_all
    moreover have y1: "(of_nat y + 1 :: u8) = of_nat (Suc y)" by simp
    have "(of_nat (Suc y) :: u8) mod 4 \<noteq> 0" using late(2) assms(6) by (subst word_mod_4) (simp_all add: mod_Suc)
    then have "change_year (of_nat y + 1) True (of_nat (year_base y + (M + z))) =
        (of_nat (Suc y), False, of_nat (year_base y + M') - 1440)"
      unfolding y1 change_year_def M'(2) by simp
    ultimately have az: "apply_zone False (of_nat off) (of_nat y) (y mod 4 = 0) (of_nat (year_base y + M)) =
        (of_nat (Suc y), False, of_nat (year_base y + M') - 1440)"
      using late(2) by (simp only: apply_zone_def off thr Let_def sum) (simp del: of_nat_add of_nat_Suc)
    have us: "unat (of_nat (Suc y) :: u8) = Suc y" using assms(6) by (simp only: unat_of_nat) simp
    have base': "year_base (Suc y) = year_base y + 525600" using late(2) by (simp add: year_base_Suc mod_Suc)
    have neg: "(of_nat (year_base y + M') - 1440 :: u32) - of_nat (year_base (unat (of_nat (Suc y) :: u8))) =
        - of_nat (527040 - M')"
      unfolding us base' using M'(1) by (simp add: of_nat_diff)
    have "365 < unat (ucast ((- of_nat (527040 - M') :: u32) div (60 * 24) + 1) :: u16)"
      using late M' by (intro minus_day) simp_all
    then show ?thesis using az neg by metis
  next
    case midnight
    have Mz: "M + z = 525600" using midnight assms(1) by (simp add: shifted_def atc_year_start_Suc year_days_def)
    have "\<not> (of_nat (year_base y + 525600) :: u32) < of_nat (year_base y + (M + z))"
      unfolding Mz by simp
    then have az: "apply_zone False (of_nat off) (of_nat y) (y mod 4 = 0) (of_nat (year_base y + M)) =
        (of_nat y, False, of_nat (year_base y + 525600))"
      using midnight(2) by (simp only: apply_zone_def off thr Let_def sum Mz) (simp del: of_nat_add)
    have diff: "(of_nat (year_base y + 525600) :: u32) - of_nat (year_base (unat (of_nat y :: u8))) = 525600"
      unfolding uy by simp
    have "365 < unat (ucast ((525600 :: u32) div (60 * 24) + 1) :: u16)" by code_simp
    then show ?thesis using az diff by metis
  qed
qed

lemma days_before_11: "days_before leap 11 = (if leap then 335 else 334)"
  by (simp add: days_before_def month_days_def ATC_MonthDayTbl_def upt_rec)

lemmas time_eval = valid_time_def minutes_def atc_year_start_def minute_of_year_def days_before_11 month_days_def
  ATC_MonthDayTbl_def year_end_fault_def

text \<open>
  C16: Local time is right: for a time of the years 2001 to 2098 and a zone with daylight saving of at most
  a day, the bytes afterwards are the calendar time \<open>15 * (q + 4 * dl)\<close> minutes later (or earlier, for a
  negative zone), whatever months and years the shift crosses, except in the two cases of
  \<open>year_end_fault\<close>.
\<close>

theorem convert_time_zone_correct:
  assumes "valid_time y mon d h mi" "valid_time Y Mon D H Mi" "s < 100" "q < 80" "q + 4 * dl \<le> 96" "1 \<le> y" "y \<le> 98"
    and "if neg then minutes y mon d h mi = minutes Y Mon D H Mi + 15 * (q + 4 * dl)
      else minutes y mon d h mi + 15 * (q + 4 * dl) = minutes Y Mon D H Mi"
    and "\<not> year_end_fault neg y Y (minute_of_year Y Mon D H Mi)"
  shows "AtcAp_ConvertTimeZone [swapped y, swapped mon, swapped d, swapped h, swapped mi, swapped s, zone_byte neg q] (of_nat dl) =
    Some [of_nat Y, of_nat Mon, of_nat D, of_nat H, of_nat Mi, of_nat s, 0]"
proof -
  let ?z = "15 * (q + 4 * dl)" and ?M = "minute_of_year y mon d h mi" and ?M' = "minute_of_year Y Mon D H Mi"
  note bound = minute_of_year_bound [OF assms(1)] and bound' = minute_of_year_bound [OF assms(2)]
  have sh: "shifted neg ?z y ?M Y ?M'"
    using assms(8) bound' unfolding shifted_def minutes_def by (cases neg) simp_all
  have "?z \<le> 1440" using assms(5) by simp
  from shifted_cases [OF sh bound this] have "Y \<le> 99" using assms(7) by auto
  then have Y: "unat (of_nat Y :: u8) = Y" by (simp add: unat_of_nat)
  show ?thesis
    using convert_steps [OF assms(1,3-5,7) apply_zone_shifted [OF sh bound refl assms(5-7,9)]]
    by (simp add: Y finish_time [OF assms(2) refl])
qed

theorem convert_time_zone_correct_witness:
  "AtcAp_ConvertTimeZone [swapped 23, swapped 12, swapped 31, swapped 16, swapped 1, swapped 59, zone_byte False 32] (of_nat 0) =
     Some [of_nat 24, of_nat 1, of_nat 1, of_nat 0, of_nat 1, of_nat 59, 0]"
  by (rule convert_time_zone_correct) (simp_all add: time_eval)

text \<open>
  In those two cases the month byte afterwards is 13: on the last day of a leap year the year is counted
  on too early, in the first minute of a year after a common one not at all.
\<close>

lemma year_end_month_13:
  assumes "valid_time y mon d h mi" "valid_time Y Mon D H Mi" "s < 100" "q < 80" "q + 4 * dl \<le> 96" "1 \<le> y" "y \<le> 98"
    and "minutes y mon d h mi + 15 * (q + 4 * dl) = minutes Y Mon D H Mi"
    and "year_end_fault False y Y (minute_of_year Y Mon D H Mi)"
  shows "map_option (\<lambda>p. p ! 1)
     (AtcAp_ConvertTimeZone [swapped y, swapped mon, swapped d, swapped h, swapped mi, swapped s, zone_byte False q] (of_nat dl)) =
    Some 13"
proof -
  let ?z = "15 * (q + 4 * dl)" and ?M = "minute_of_year y mon d h mi" and ?M' = "minute_of_year Y Mon D H Mi"
  note bound = minute_of_year_bound [OF assms(1)] and bound' = minute_of_year_bound [OF assms(2)]
  have sh: "shifted False ?z y ?M Y ?M'"
    using assms(8) bound' unfolding shifted_def minutes_def by simp
  have z: "?z \<le> 1440" using assms(5) by simp
  obtain yr t where az: "apply_zone False (of_nat (q + 4 * dl)) (of_nat y) (y mod 4 = 0) (of_nat (year_base y + ?M)) = (yr, False, t)"
    and day: "365 < unat (ucast ((t - of_nat (year_base (unat yr))) div (60 * 24) + 1) :: u16)"
    using apply_zone_fault [OF sh bound refl assms(5-7,9)] by blast
  have "fst (zone_month_loop False (ucast ((t - of_nat (year_base (unat yr))) div (60 * 24) + 1)) [0..<12]) = 12"
    using zone_month_loop_beyond [of False 0] day by (simp add: days_before_12)
  then show ?thesis
    unfolding convert_steps [OF assms(1,3-5,7) az] finish_def Let_def by (simp add: split_beta)
qed

end
