(* ===== verification/Passthrough.thy ===== *)
theory Passthrough
  imports At_Params At_Com
begin

text \<open>
  Transparent transmission over the AT port (\<^verbatim>\<open>SYSAPP/system/src/xy_passthrough.c\<close>,
  \<^verbatim>\<open>SYSAPP/at_cmd/src/at_passthrough.c\<close>). While a hook is set, what the UART task receives is not
  parsed as commands. Two hooks exist: \<^verbatim>\<open>rcvd_passthr_stream_proc\<close> posts each piece of data, with the
  mode of that moment, to the queue of the passthrough task, which handles it later;
  \<^verbatim>\<open>cloud_rcvd_passthr_proc\<close> handles it in place. Effects on the outside are a list of events, in
  order. \<open>None\<close> is a failed assertion or a write outside the receive buffer.
\<close>

section \<open>State\<close>

datatype passthrogh_app_type = APP_INVILAD | APP_SOCKET | APP_COAP | APP_MQTT | APP_TENCENT

datatype xy_passthrough_type =
  PASSTHR_INVALID | PASSTHR_NORMAL_PPP | PASSTHR_FIXED_LENGTH | PASSTHR_SOCKET_PPP | PASSTHR_SMS
| PASSTHR_CLOUD_FIXED_LENGTH | PASSTHR_CLOUD_UNFIXED_LEN | PASSTHR_MAX

datatype data_proc = rcvd_passthr_stream_proc | cloud_rcvd_passthr_proc

datatype passthr_event =
  App_Proc string | Ppp_Hook string | Fixed_Hook string | Sms_Req string
| Ext_Rsp string | Ext_Err | Dsp_Err | Sock_Send string | Standby_Lock | Standby_Unlock

text \<open>
  \<open>recv_len\<close> has 16 bits. The callback \<^verbatim>\<open>proc\<close> and its argument are those of the application. Of a socket given
  as the argument only \<^verbatim>\<open>zero_flag\<close> matters, which says that an empty piece was sent; \<open>app_sets_zero\<close> says
  for which data the callback sets it.
\<close>

record app_passthr_info =
  app_type :: passthrogh_app_type
  recv_len :: u16
  max_len :: u32
  app_proc :: "(string \<Rightarrow> xy_ret) option"
  callback_ret :: xy_ret
  app_sets_zero :: "string \<Rightarrow> bool"
  app_zero_flag :: bool

text \<open>The open socket of the socket mode; the list holds data for its sender task.\<close>

record passthr_socket_ctx =
  sock_fd :: int
  hook_cache :: "data_proc option"
  quit :: bool
  data_list :: "string list"

text \<open>\<open>behind\<close> is what memory holds after the received data.\<close>

record passthr_state =
  g_passthr_mode :: xy_passthrough_type
  g_at_passthr_hook :: "data_proc option"
  g_app_passthr :: app_passthr_info
  passthr_rcv_buff :: "memory option"
  ppp_tail_buff :: memory
  ppp_rcvd_tail_len :: nat
  passthr_rcvd_len :: u32
  passthr_fixed_buff_len :: u32
  passthr_dynmic_buff_len :: u32
  passthr_timer :: bool
  passthr_msg_q :: "(xy_passthrough_type \<times> string) list"
  g_socket_passthr_ctx :: "passthr_socket_ctx option"
  behind :: memory
  events :: "passthr_event list"

abbreviation PASSTHR_MAX_LEN :: nat where "PASSTHR_MAX_LEN \<equiv> 128"
abbreviation AT_DATA_MAX_LEN :: u32 where "AT_DATA_MAX_LEN \<equiv> 4000"
abbreviation PASSTHR_CTRLZ :: char where "PASSTHR_CTRLZ \<equiv> CHR 0x1A"
abbreviation PASSTHR_ESC :: char where "PASSTHR_ESC \<equiv> CHR 0x1B"
abbreviation PPP_QUIT_SYMBOL :: string where "PPP_QUIT_SYMBOL \<equiv> ''+++''"

definition emit :: "passthr_event \<Rightarrow> passthr_state \<Rightarrow> passthr_state" where
  "emit e st = st\<lparr>events := events st @ [e]\<rparr>"

definition zalloc :: "nat \<Rightarrow> memory" where
  "zalloc n = replicate n NUL"

definition memcpy :: "memory \<Rightarrow> nat \<Rightarrow> string \<Rightarrow> memory" where
  "memcpy m p s = take p m @ s @ drop (p + length s) m"

text \<open>\<^verbatim>\<open>memcpy(passthr_rcv_buff + passthr_rcvd_len, ...)\<close>: a write outside the buffer is undefined.\<close>

definition put_rcvd :: "string \<Rightarrow> passthr_state \<Rightarrow> passthr_state option" where
  "put_rcvd s st =
     (case passthr_rcv_buff st of
        None \<Rightarrow> None
      | Some m \<Rightarrow>
          if unat (passthr_rcvd_len st) + length s \<le> length m
          then Some (st\<lparr>passthr_rcv_buff := Some (memcpy m (unat (passthr_rcvd_len st)) s)\<rparr>)
          else None)"

definition rcvd_data :: "nat \<Rightarrow> passthr_state \<Rightarrow> string" where
  "rcvd_data n st = (case passthr_rcv_buff st of None \<Rightarrow> [] | Some m \<Rightarrow> take n m)"

section \<open>The quit symbol\<close>

text \<open>
  \<open>find_ppp_quit_symbol\<close> keeps the last pluses of the stream in \<^verbatim>\<open>ppp_tail_buff\<close>. The argument \<open>m\<close> is the
  memory from \<^verbatim>\<open>buf\<close> on, of which \<open>data_len\<close> bytes were received: \<^verbatim>\<open>strstr\<close> does not stop there.
\<close>

definition ppp_scan :: "memory \<Rightarrow> nat \<Rightarrow> nat \<Rightarrow> bool \<times> memory \<times> nat" where
  "ppp_scan m data_len tail_len =
     (if data_len \<ge> 3 then
        if take 3 (drop (data_len - 3) m) = PPP_QUIT_SYMBOL then (True, zalloc 4, 0)
        else if strstr m 0 PPP_QUIT_SYMBOL \<noteq> None then (True, zalloc 4, 0)
        else if take 2 (drop (data_len - 2) m) = ''++'' then (False, memcpy (zalloc 4) 0 ''++'', 2)
        else if peek m (data_len - 1) = CHR ''+'' then (False, memcpy (zalloc 4) 0 ''+'', 1)
        else (False, zalloc 4, tail_len)
      else (False, memcpy (zalloc 4) 0 (take data_len m), data_len))"

definition find_ppp_quit_symbol :: "memory \<Rightarrow> nat \<Rightarrow> memory \<Rightarrow> nat \<Rightarrow> bool \<times> memory \<times> nat" where
  "find_ppp_quit_symbol m data_len tail0 tail_len =
     (let tail1 = memcpy tail0 tail_len (take (if 3 - tail_len \<ge> data_len then data_len else 3 - tail_len) m) in
      if cstr tail1 0 = PPP_QUIT_SYMBOL then (True, zalloc 4, 0)
      else if strlen tail1 0 = 1 \<and> peek tail1 0 = CHR ''+'' then (False, tail1, 1)
      else if strlen tail1 0 = 2 \<and> cstr tail1 0 = ''++'' then (False, tail1, 2)
      else ppp_scan m data_len tail_len)"

definition ppp_quit :: "string \<Rightarrow> passthr_state \<Rightarrow> bool \<times> passthr_state" where
  "ppp_quit buf st =
     (let (found, tail, n) = find_ppp_quit_symbol (buf @ behind st) (length buf) (ppp_tail_buff st) (ppp_rcvd_tail_len st)
      in (found, st\<lparr>ppp_tail_buff := tail, ppp_rcvd_tail_len := n\<rparr>))"

section \<open>Entering and leaving\<close>

definition restore_passthr_hook :: "passthr_state \<Rightarrow> passthr_state" where
  "restore_passthr_hook st =
     st\<lparr>g_socket_passthr_ctx := map_option (hook_cache_update (\<lambda>_. g_at_passthr_hook st)) (g_socket_passthr_ctx st)\<rparr>"

definition exit_response :: "passthr_state \<Rightarrow> passthr_state" where
  "exit_response st =
     (if app_type (g_app_passthr st) \<noteq> APP_INVILAD then
        (if callback_ret (g_app_passthr st) = XY_OK then
           if app_type (g_app_passthr st) = APP_SOCKET \<and> app_zero_flag (g_app_passthr st)
           then emit (Ext_Rsp (CR # LF # ''OK'' @ [CR, LF, CR, LF] @ ''SEND OK'' @ [CR, LF]))
                  (st\<lparr>g_app_passthr := (g_app_passthr st)\<lparr>app_zero_flag := False\<rparr>\<rparr>)
           else emit (Ext_Rsp (CR # LF # ''OK'' @ [CR, LF])) st
         else emit Ext_Err st)
      else if g_passthr_mode st \<noteq> PASSTHR_SMS
      then emit (Ext_Rsp (CR # LF # ''NO CARRIER'' @ [CR, LF, CR, LF] @ ''OK'' @ [CR, LF])) st
      else st)"

definition xy_exitPassthroughMode :: "passthr_state \<Rightarrow> passthr_state" where
  "xy_exitPassthroughMode st =
     (if g_passthr_mode st = PASSTHR_INVALID then st
      else
        let st1 = st\<lparr>passthr_rcv_buff := None, passthr_rcvd_len := 0, passthr_fixed_buff_len := 0,
                     passthr_dynmic_buff_len := 0\<rparr>;
            st2 = (if g_passthr_mode st = PASSTHR_SOCKET_PPP then restore_passthr_hook st1 else st1);
            st3 = st2\<lparr>g_at_passthr_hook := None\<rparr>;
            st4 = (if g_passthr_mode st = PASSTHR_SOCKET_PPP \<or> g_passthr_mode st = PASSTHR_NORMAL_PPP
                   then st3\<lparr>ppp_tail_buff := zalloc 4, ppp_rcvd_tail_len := 0\<rparr> else st3);
            st5 = emit Standby_Unlock (st4\<lparr>passthr_timer := False\<rparr>);
            st6 = exit_response st5
        in st6\<lparr>g_app_passthr := (g_app_passthr st6)\<lparr>app_type := APP_INVILAD, app_proc := None\<rparr>,
               g_passthr_mode := PASSTHR_INVALID\<rparr>)"

definition passthr_timeout_callback :: "passthr_state \<Rightarrow> passthr_state" where
  "passthr_timeout_callback st = xy_exitPassthroughMode (emit (Ext_Rsp (CR # LF # ''Timeout'' @ [CR, LF])) st)"

definition xy_enterPassthroughMode :: "xy_passthrough_type \<Rightarrow> u32 \<Rightarrow> data_proc option \<Rightarrow> passthr_state \<Rightarrow> passthr_state option" where
  "xy_enterPassthroughMode mode rcv_len func st = do {
     xy_assert (func \<noteq> None \<and> passthr_rcv_buff st = None \<and> mode \<noteq> PASSTHR_INVALID \<and> mode \<noteq> PASSTHR_MAX);
     let st1 = st\<lparr>g_passthr_mode := mode, passthr_rcv_buff := None\<rparr>;
     let st2 = (if mode = PASSTHR_CLOUD_FIXED_LENGTH
                then st1\<lparr>passthr_rcv_buff := Some (zalloc (unat (rcv_len + 1)))\<rparr>
                else if mode = PASSTHR_FIXED_LENGTH
                then st1\<lparr>passthr_rcv_buff := Some (zalloc (unat (rcv_len + 1))), passthr_timer := True\<rparr>
                else st1);
     Some (emit Standby_Lock
       (st2\<lparr>passthr_fixed_buff_len := rcv_len, passthr_rcvd_len := 0, g_at_passthr_hook := func\<rparr>))
   }"

definition into_Passthr_Mode :: "app_passthr_info \<Rightarrow> passthr_state \<Rightarrow> (xy_ret \<times> passthr_state) option" where
  "into_Passthr_Mode app_passthr st =
     (let st1 = st\<lparr>g_app_passthr := app_passthr\<rparr> in
      if app_type app_passthr = APP_INVILAD \<or> app_proc app_passthr = None then Some (XY_ERR, st1)
      else map_option (Pair XY_OK)
        (if recv_len app_passthr = 0
         then xy_enterPassthroughMode PASSTHR_CLOUD_UNFIXED_LEN 0 (Some cloud_rcvd_passthr_proc) st1
         else xy_enterPassthroughMode PASSTHR_CLOUD_FIXED_LENGTH (ucast (recv_len app_passthr))
                (Some cloud_rcvd_passthr_proc) st1))"

section \<open>Cloud services\<close>

text \<open>The callback of the application; its result decides the response.\<close>

definition call_app :: "string \<Rightarrow> passthr_state \<Rightarrow> passthr_state option" where
  "call_app s st =
     (case app_proc (g_app_passthr st) of
        None \<Rightarrow> None
      | Some proc \<Rightarrow> Some ((emit (App_Proc s) st)\<lparr>g_app_passthr := (g_app_passthr st)\<lparr>callback_ret := proc s,
           app_zero_flag := app_zero_flag (g_app_passthr st) \<or> app_sets_zero (g_app_passthr st) s\<rparr>\<rparr>))"

text \<open>A socket leaves the mode by itself when its task has sent the data.\<close>

definition app_done :: "passthr_state \<Rightarrow> passthr_state" where
  "app_done st = (if app_type (g_app_passthr st) = APP_SOCKET then st else xy_exitPassthroughMode st)"

text \<open>\<open>fifo_empty\<close> is the answer of \<^verbatim>\<open>check_channel_fifo\<close>: nothing more has arrived for a while.\<close>

definition cloud_fixed_len_data_proc :: "bool \<Rightarrow> string \<Rightarrow> passthr_state \<Rightarrow> passthr_state option" where
  "cloud_fixed_len_data_proc fifo_empty buf st =
     (let n = (of_nat (length buf) :: u32) in
      if passthr_rcvd_len st + n < passthr_fixed_buff_len st then do {
        st1 \<leftarrow> put_rcvd buf st;
        Some (st1\<lparr>passthr_rcvd_len := passthr_rcvd_len st1 + n\<rparr>)
      }
      else do {
        st1 \<leftarrow> (if passthr_rcvd_len st < passthr_fixed_buff_len st then do {
                  st1 \<leftarrow> put_rcvd (take (unat (passthr_fixed_buff_len st - passthr_rcvd_len st)) buf) st;
                  Some (st1\<lparr>passthr_rcvd_len := passthr_fixed_buff_len st1\<rparr>)
                }
                else Some st);
        if \<not> fifo_empty then Some st1
        else do {
          st2 \<leftarrow> call_app (rcvd_data (unat (passthr_fixed_buff_len st1)) st1) st1;
          Some (app_done st2)
        }
      })"

text \<open>The growing buffer of the modes without a length, by one step of 128 bytes.\<close>

definition grow_rcvd :: "string \<Rightarrow> passthr_state \<Rightarrow> passthr_state option" where
  "grow_rcvd buf st =
     (let n = (of_nat (length buf) :: u32);
          st1 = (if passthr_rcv_buff st = None
                 then st\<lparr>passthr_rcv_buff := Some (zalloc PASSTHR_MAX_LEN), passthr_dynmic_buff_len := of_nat PASSTHR_MAX_LEN\<rparr>
                 else st);
          st2 = (if passthr_dynmic_buff_len st1 < passthr_rcvd_len st1 + n
                 then st1\<lparr>passthr_rcv_buff :=
                            Some (memcpy (zalloc (unat (passthr_dynmic_buff_len st1 + of_nat PASSTHR_MAX_LEN))) 0
                                    (rcvd_data (unat (passthr_rcvd_len st1)) st1)),
                          passthr_dynmic_buff_len := passthr_dynmic_buff_len st1 + of_nat PASSTHR_MAX_LEN\<rparr>
                 else st1)
      in do {
        st3 \<leftarrow> put_rcvd buf st2;
        Some (st3\<lparr>passthr_rcvd_len := passthr_rcvd_len st3 + n\<rparr>)
      })"

definition cloud_unfixed_len_data_proc :: "bool \<Rightarrow> string \<Rightarrow> passthr_state \<Rightarrow> passthr_state option" where
  "cloud_unfixed_len_data_proc fifo_empty buf st =
     (let lim = max_len (g_app_passthr st) in
      if lim = 0 then Some (xy_exitPassthroughMode st)
      else do {
        st1 \<leftarrow> grow_rcvd buf st;
        let rcvd = passthr_rcvd_len st1;
        if rcvd > AT_DATA_MAX_LEN then Some (xy_exitPassthroughMode st1)
        else if \<not> fifo_empty then Some st1
        else if rcvd > lim then map_option app_done (call_app (rcvd_data (unat lim) st1) st1)
        else if last buf = PASSTHR_CTRLZ then map_option app_done (call_app (rcvd_data (unat (rcvd - 1)) st1) st1)
        else if rcvd = lim then map_option app_done (call_app (rcvd_data (unat lim) st1) st1)
        else if last buf = PASSTHR_ESC then Some (xy_exitPassthroughMode st1)
        else Some st1
      })"

definition cloud_proc :: "bool \<Rightarrow> string \<Rightarrow> passthr_state \<Rightarrow> passthr_state option" where
  "cloud_proc fifo_empty buf st =
     (if buf = [] then Some st
      else case g_passthr_mode st of
             PASSTHR_CLOUD_FIXED_LENGTH \<Rightarrow> cloud_fixed_len_data_proc fifo_empty buf st
           | PASSTHR_CLOUD_UNFIXED_LEN \<Rightarrow> cloud_unfixed_len_data_proc fifo_empty buf st
           | _ \<Rightarrow> Some st)"

section \<open>The passthrough task\<close>

definition process_normal_ppp_data :: "string \<Rightarrow> passthr_state \<Rightarrow> passthr_state" where
  "process_normal_ppp_data buf st =
     (let (found, st1) = ppp_quit buf (st\<lparr>passthr_rcvd_len := passthr_rcvd_len st + of_nat (length buf)\<rparr>)
      in if found then xy_exitPassthroughMode st1 else emit (Ppp_Hook buf) st1)"

definition process_fixed_len_data :: "string \<Rightarrow> passthr_state \<Rightarrow> passthr_state option" where
  "process_fixed_len_data buf st =
     (let n = (of_nat (length buf) :: u32) in do {
        xy_assert (passthr_fixed_buff_len st = 0 \<or> passthr_rcvd_len st + n \<le> passthr_fixed_buff_len st);
        st1 \<leftarrow> put_rcvd buf st;
        let st2 = st1\<lparr>passthr_rcvd_len := passthr_rcvd_len st1 + n\<rparr>;
        Some (if passthr_fixed_buff_len st2 \<noteq> 0 \<and> passthr_rcvd_len st2 = passthr_fixed_buff_len st2
              then xy_exitPassthroughMode (emit (Fixed_Hook (rcvd_data (unat (passthr_rcvd_len st2)) st2)) st2)
              else st2)
      })"

definition process_sms_data :: "bool \<Rightarrow> string \<Rightarrow> passthr_state \<Rightarrow> passthr_state option" where
  "process_sms_data dsp_loaded buf st = do {
     st1 \<leftarrow> grow_rcvd buf st;
     Some (if \<not> dsp_loaded then xy_exitPassthroughMode (emit Dsp_Err st1)
           else if last buf = PASSTHR_CTRLZ \<or> last buf = PASSTHR_ESC
           then xy_exitPassthroughMode (emit (Sms_Req (rcvd_data (unat (passthr_rcvd_len st1)) st1)) st1)
           else st1)
   }"

definition add_uplink_data_to_list :: "string \<Rightarrow> passthr_state \<Rightarrow> passthr_state option" where
  "add_uplink_data_to_list s st =
     (case g_socket_passthr_ctx st of
        None \<Rightarrow> None
      | Some ctx \<Rightarrow> Some (st\<lparr>g_socket_passthr_ctx := Some (ctx\<lparr>data_list := data_list ctx @ [s]\<rparr>)\<rparr>))"

definition process_socket_ppp_data :: "bool \<Rightarrow> string \<Rightarrow> passthr_state \<Rightarrow> passthr_state option" where
  "process_socket_ppp_data fifo_empty buf st =
     (let (found, st1) = ppp_quit buf st in
      if found then Some (xy_exitPassthroughMode st1)
      else do {
        st2 \<leftarrow> grow_rcvd buf st1;
        if fifo_empty then do {
          st3 \<leftarrow> add_uplink_data_to_list (rcvd_data (unat (passthr_rcvd_len st2)) st2) st2;
          Some (st3\<lparr>passthr_rcv_buff := None, passthr_rcvd_len := 0, passthr_dynmic_buff_len := 0\<rparr>)
        }
        else Some st2
      })"

text \<open>One message of the queue.\<close>

definition passthrough_process :: "bool \<Rightarrow> bool \<Rightarrow> passthr_state \<Rightarrow> passthr_state option" where
  "passthrough_process fifo_empty dsp_loaded st =
     (case passthr_msg_q st of
        [] \<Rightarrow> Some st
      | (msg_id, data) # q \<Rightarrow>
          let st1 = st\<lparr>passthr_msg_q := q\<rparr> in
          (case msg_id of
             PASSTHR_NORMAL_PPP \<Rightarrow> Some (process_normal_ppp_data data st1)
           | PASSTHR_FIXED_LENGTH \<Rightarrow> process_fixed_len_data data st1
           | PASSTHR_SOCKET_PPP \<Rightarrow> process_socket_ppp_data fifo_empty data st1
           | PASSTHR_SMS \<Rightarrow> process_sms_data dsp_loaded data st1
           | _ \<Rightarrow> Some st1))"

definition stream_proc :: "string \<Rightarrow> passthr_state \<Rightarrow> passthr_state" where
  "stream_proc buf st =
     (if buf = [] then st else st\<lparr>passthr_msg_q := passthr_msg_q st @ [(g_passthr_mode st, buf)]\<rparr>)"

text \<open>What the UART task does with received data while a hook is set.\<close>

definition passthr_rcv :: "bool \<Rightarrow> string \<Rightarrow> passthr_state \<Rightarrow> passthr_state option" where
  "passthr_rcv fifo_empty buf st =
     (case g_at_passthr_hook st of
        None \<Rightarrow> Some st
      | Some rcvd_passthr_stream_proc \<Rightarrow> Some (stream_proc buf st)
      | Some cloud_rcvd_passthr_proc \<Rightarrow> cloud_proc fifo_empty buf st)"

text \<open>The sender of the socket mode.\<close>

definition send_uplink_data :: "passthr_state \<Rightarrow> passthr_state" where
  "send_uplink_data st =
     (case g_socket_passthr_ctx st of
        None \<Rightarrow> st
      | Some ctx \<Rightarrow> (fold (\<lambda>s. emit (Sock_Send s)) (data_list ctx) st)\<lparr>g_socket_passthr_ctx := Some (ctx\<lparr>data_list := []\<rparr>)\<rparr>)"

definition delete_passthr_socket_ctx :: "passthr_state \<Rightarrow> passthr_state" where
  "delete_passthr_socket_ctx st = st\<lparr>g_socket_passthr_ctx := None\<rparr>"

section \<open>Commands\<close>

definition at_ATO_req :: "at_req_type \<Rightarrow> passthr_state \<Rightarrow> (at_rsp \<times> passthr_state) option" where
  "at_ATO_req g_req_type st =
     (if g_req_type \<noteq> AT_CMD_ACTIVE then Some (Err_rsp ATERR_PARAM_INVALID, st)
      else
        (case g_socket_passthr_ctx st of
           Some ctx \<Rightarrow>
             if hook_cache ctx \<noteq> None \<and> 0 \<le> sock_fd ctx
             then map_option (Pair (Rsp (CR # LF # ''OK'' @ [CR, LF, CR, LF] @ ''CONNECT'' @ [CR, LF])))
                    (xy_enterPassthroughMode PASSTHR_SOCKET_PPP 0 (hook_cache ctx) st)
             else Some (Rsp (CR # LF # ''NO CARRIER'' @ [CR, LF, CR, LF] @ ''OK'' @ [CR, LF]), st)
         | None \<Rightarrow> Some (Rsp (CR # LF # ''NO CARRIER'' @ [CR, LF, CR, LF] @ ''OK'' @ [CR, LF]), st)))"

definition at_ATD_req :: "at_req_type \<Rightarrow> memory \<Rightarrow> nat \<Rightarrow> passthr_state \<Rightarrow> (at_rsp \<times> passthr_state) option" where
  "at_ATD_req g_req_type m at_buf st =
     (if g_req_type \<noteq> AT_CMD_ACTIVE then Some (No_rsp, st)
      else if at_strnstr m at_buf ''*98'' 3 \<noteq> None \<or> at_strnstr m at_buf ''*99'' 3 \<noteq> None
      then map_option (Pair (Rsp (CR # LF # ''OK'' @ [CR, LF, CR, LF] @ ''CONNECTING'' @ [CR, LF])))
             (xy_enterPassthroughMode PASSTHR_NORMAL_PPP 0 (Some rcvd_passthr_stream_proc) st)
      else Some (Err_rsp ATERR_PARAM_INVALID, st))"

definition at_TRANSPARENTDEMO_req :: "at_req_type \<Rightarrow> memory \<Rightarrow> nat \<Rightarrow> passthr_state \<Rightarrow> (at_rsp \<times> passthr_state) option" where
  "at_TRANSPARENTDEMO_req g_req_type m at_buf st =
     (if g_req_type \<noteq> AT_CMD_REQ then Some (Err_rsp ATERR_PARAM_INVALID, st)
      else
        (case at_parse_param ''%d'' m at_buf of
           None \<Rightarrow> None
         | Some (r, ap, m') \<Rightarrow>
             if r \<noteq> AT_OK then Some (Err_rsp ATERR_PARAM_INVALID, st)
             else map_option (Pair (Rsp (CR # LF # ''OK'' @ [CR, LF, CR, LF] @ ''CONNECT'' @ [CR, LF])))
                    (xy_enterPassthroughMode PASSTHR_FIXED_LENGTH (word_of_int (int_dest ap 0 0))
                       (Some rcvd_passthr_stream_proc) st)))"

text \<open>The prompt is sent whether the mode was entered or not; the response follows later.\<close>

definition at_CLOUDPASSTHR_req ::
    "(string \<Rightarrow> xy_ret) \<Rightarrow> at_req_type \<Rightarrow> memory \<Rightarrow> nat \<Rightarrow> passthr_state \<Rightarrow> (at_rsp \<times> passthr_state) option" where
  "at_CLOUDPASSTHR_req cloud_passthr_proc g_req_type m at_buf st =
     (if g_req_type \<noteq> AT_CMD_REQ then Some (Err_rsp ATERR_PARAM_INVALID, st)
      else
        (case at_parse_param ''%d'' m at_buf of
           None \<Rightarrow> None
         | Some (r, ap, m') \<Rightarrow>
             if r \<noteq> AT_OK then Some (Err_rsp ATERR_PARAM_INVALID, st)
             else
               (case into_Passthr_Mode
                  \<lparr>app_type = APP_COAP, recv_len = word_of_int (int_dest ap 0 0), max_len = 0,
                   app_proc = Some cloud_passthr_proc, callback_ret = XY_OK,
                   app_sets_zero = (\<lambda>_. False), app_zero_flag = False\<rparr> st of
                  None \<Rightarrow> None
                | Some (_, st1) \<Rightarrow> Some (No_rsp, emit (Ext_Rsp (CR # LF # ''>'')) st1))))"

end
