(* ===== verification/Passthrough_Quit.thy ===== *)
theory Passthrough_Quit
  imports Passthrough
begin

text \<open>
  The quit symbol of the stream modes: whether \<^verbatim>\<open>find_ppp_quit_symbol\<close>
  (\<^verbatim>\<open>SYSAPP/system/src/xy_passthrough.c\<close>) finds it does not depend on how the stream is cut into
  pieces, and the exceptions to that.
\<close>

section \<open>The quit symbol in a stream\<close>

abbreviation PLUS :: char where "PLUS \<equiv> CHR ''+''"

definition has_quit :: "string \<Rightarrow> bool" where
  "has_quit s \<longleftrightarrow> (\<exists>a b. s = a @ PPP_QUIT_SYMBOL @ b)"

lemma take_3_quit: "take 3 s = PPP_QUIT_SYMBOL \<longleftrightarrow> (\<exists>b. s = PPP_QUIT_SYMBOL @ b)"
  by (cases s; cases "tl s"; cases "tl (tl s)") (auto simp: numeral_3_eq_3)

lemma has_quit_Cons: "has_quit (x # s) \<longleftrightarrow> take 3 (x # s) = PPP_QUIT_SYMBOL \<or> has_quit s"
  unfolding has_quit_def take_3_quit by (auto simp: Cons_eq_append_conv)

lemma has_quit_Nil [simp]: "\<not> has_quit []"
  by (simp add: has_quit_def)

lemma find_sub_quit: "find_sub PPP_QUIT_SYMBOL s \<noteq> None \<longleftrightarrow> has_quit s"
  by (induction s) (auto simp: has_quit_Cons numeral_3_eq_3)

text \<open>The pluses at the end of a stream without the symbol: none, one, or two.\<close>

definition ends1 :: "string \<Rightarrow> bool" where
  "ends1 s \<longleftrightarrow> s \<noteq> [] \<and> last s = PLUS"

definition ends2 :: "string \<Rightarrow> bool" where
  "ends2 s \<longleftrightarrow> (\<exists>a. s = a @ ''++'')"

lemma ends2_ends1: "ends2 s \<Longrightarrow> ends1 s"
  by (auto simp: ends1_def ends2_def)

lemma has_quit_append: 
  "has_quit (s @ c) \<longleftrightarrow> has_quit s \<or> has_quit c \<or> ends2 s \<and> take 1 c = ''+'' \<or> ends1 s \<and> take 2 c = ''++''"
proof (induction s)
  case Nil
  then show ?case by (simp add: ends1_def ends2_def)
next
  case (Cons x s)
  have e2: "ends2 (x # s) \<longleftrightarrow> x # s = ''++'' \<or> ends2 s"
    by (auto simp: ends2_def Cons_eq_append_conv)
  consider "s = []" | y where "s = [y]" | y z r where "s = y # z # r"
    by (metis neq_Nil_conv)
  then show ?case
  proof cases
    case 1
    then show ?thesis by (cases c; cases "tl c") (auto simp: has_quit_Cons e2 ends1_def ends2_def numeral_3_eq_3 numeral_2_eq_2)
  next
    case 2
    then show ?thesis using Cons.IH
      by (cases c) (auto simp: has_quit_Cons e2 ends1_def ends2_def numeral_3_eq_3 numeral_2_eq_2)
  next
    case 3
    then have "take 3 ((x # s) @ c) = take 3 (x # s)" "ends1 (x # s) = ends1 s" "x # s \<noteq> ''++''"
      by (simp_all add: ends1_def numeral_3_eq_3)
    moreover have "(x # s) @ c = x # (s @ c)" by simp
    ultimately have "has_quit ((x # s) @ c) \<longleftrightarrow> take 3 (x # s) = PPP_QUIT_SYMBOL \<or> has_quit (s @ c)"
      using has_quit_Cons by metis
    then show ?thesis using Cons.IH e2 \<open>ends1 (x # s) = ends1 s\<close> \<open>x # s \<noteq> ''++''\<close> has_quit_Cons [of x s] by blast
  qed
qed

definition pad :: "string \<Rightarrow> memory" where
  "pad t = t @ zalloc (4 - length t)"

lemma cstr_pad: "NUL \<notin> set t \<Longrightarrow> length t < 4 \<Longrightarrow> cstr (pad t) 0 = t"
  by (auto simp: cstr_def pad_def zalloc_def takeWhile_append takeWhile_eq_all_conv)

lemma memcpy_pad: "length t + length u \<le> 4 \<Longrightarrow> memcpy (pad t) (length t) u = pad (t @ u)"
  by (simp add: memcpy_def pad_def zalloc_def)

lemma memcpy_zalloc: "length u \<le> 4 \<Longrightarrow> memcpy (zalloc 4) 0 u = pad u"
  by (simp add: memcpy_def pad_def zalloc_def)

text \<open>What the tail buffer holds after a stream that has no quit symbol.\<close>

definition tail_ok :: "string \<Rightarrow> memory \<Rightarrow> nat \<Rightarrow> bool" where
  "tail_ok s tail n \<longleftrightarrow>
     (if ends2 s then tail = pad ''++'' \<and> n = 2
      else if ends1 s then tail = pad ''+'' \<and> n = 1
      else n \<le> 2 \<and> (tail = pad [] \<or> (\<exists>t. tail = pad t \<and> length t = n \<and> t \<noteq> [] \<and> NUL \<notin> set t \<and> last t \<noteq> PLUS)))"

text \<open>A piece of data the detector handles, and memory that does not continue it.\<close>

definition chunk_ok :: "string \<Rightarrow> bool" where
  "chunk_ok c \<longleftrightarrow> c \<noteq> [] \<and> NUL \<notin> set c \<and> \<not> (length c = 2 \<and> c ! 0 \<noteq> PLUS \<and> c ! 1 = PLUS)"

definition ends_here :: "memory \<Rightarrow> bool" where
  "ends_here bh \<longleftrightarrow> bh = [] \<or> hd bh = NUL"

lemma cstr_chunk: "NUL \<notin> set c \<Longrightarrow> ends_here bh \<Longrightarrow> cstr (c @ bh) 0 = c"
  by (cases bh) (auto simp: cstr_def ends_here_def takeWhile_append takeWhile_eq_all_conv)

lemma ends2_drop: "2 \<le> length c \<Longrightarrow> drop (length c - 2) c = ''++'' \<longleftrightarrow> ends2 c"
proof
  assume "drop (length c - 2) c = ''++''"
  then have "c = take (length c - 2) c @ ''++''" by (metis append_take_drop_id)
  then show "ends2 c" unfolding ends2_def by blast
next
  assume "ends2 c"
  then show "drop (length c - 2) c = ''++''" by (auto simp: ends2_def)
qed

lemma ppp_scan_ok:
  assumes "chunk_ok c" "ends_here bh" "n \<le> 2"
  shows "\<exists>tail n'. ppp_scan (c @ bh) (length c) n = (has_quit c, tail, n') \<and> (\<not> has_quit c \<longrightarrow> tail_ok c tail n')"
proof (cases "3 \<le> length c")
  case True
  have q: "strstr (c @ bh) 0 PPP_QUIT_SYMBOL \<noteq> None \<longleftrightarrow> has_quit c"
    using assms cstr_chunk [of c bh] find_sub_quit [of c] by (simp add: strstr_def chunk_ok_def)
  have d3: "take 3 (drop (length c - 3) (c @ bh)) = drop (length c - 3) c"
    and d2: "take 2 (drop (length c - 2) (c @ bh)) = drop (length c - 2) c" using True by simp_all
  have p1: "peek (c @ bh) (length c - 1) = last c" using True
    by (cases c) (auto simp: peek_def nth_append last_conv_nth)
  have e3: "drop (length c - 3) c = PPP_QUIT_SYMBOL \<Longrightarrow> has_quit c"
    unfolding has_quit_def by (metis append_take_drop_id append_Nil2)
  have "c \<noteq> []" using True by auto
  then show ?thesis
    using True assms(3) ends2_drop [of c] e3
    unfolding ppp_scan_def q d3 d2 p1
    by (auto simp: tail_ok_def ends1_def memcpy_zalloc pad_def [of "[]"])
next
  case False
  have len: "length c = 1 \<or> length c = 2" using assms(1) False
    by (cases c; cases "tl c"; cases "tl (tl c)") (auto simp: chunk_ok_def)
  have nq: "\<not> has_quit c" using len by (auto simp: has_quit_def)
  have t: "take (length c) (c @ bh) = c" by simp
  have "tail_ok c (pad c) (length c)"
    using assms(1) len
    by (cases c; cases "tl c") (auto simp: tail_ok_def chunk_ok_def ends1_def ends2_def Cons_eq_append_conv)
  then show ?thesis using False nq len by (auto simp: ppp_scan_def t memcpy_zalloc)
qed

text \<open>One piece of data.\<close>

lemma tail_ok_cases:
  assumes "tail_ok s tail n"
  obtains (two) "ends2 s" "tail = pad ''++''" "n = 2"
  | (one) "ends1 s" "\<not> ends2 s" "tail = pad ''+''" "n = 1"
  | (zero) "\<not> ends1 s" "n \<le> 2" "tail = pad []"
  | (plain) t where "\<not> ends1 s" "tail = pad t" "length t = n" "n \<le> 2" "t \<noteq> []" "NUL \<notin> set t" "last t \<noteq> PLUS"
  using assms ends2_ends1 [of s] unfolding tail_ok_def by (auto split: if_splits)

lemma tail_ok_append:
  assumes "tail_ok c tail n" "c \<noteq> []" "\<not> (ends1 s \<and> c = ''+'')"
  shows "tail_ok (s @ c) tail n"
proof -
  have "ends1 (s @ c) = ends1 c" using assms(2) by (simp add: ends1_def)
  moreover have "ends2 (s @ c) = ends2 c"
    using assms(2,3) by (cases c; cases "tl c") (auto simp: ends2_def ends1_def append_eq_append_conv2 Cons_eq_append_conv
        append_eq_Cons_conv)
  ultimately show ?thesis using assms(1) by (simp add: tail_ok_def)
qed

lemma take_upto: "take (if 3 - n \<ge> length c then length c else 3 - n) (c @ bh) = take (3 - n) c"
  by simp

lemma find_ppp_cases:
  assumes "memcpy tail n (take (3 - n) c) = pad u" "NUL \<notin> set u" "length u < 4"
  shows "find_ppp_quit_symbol (c @ bh) (length c) tail n =
    (if u = PPP_QUIT_SYMBOL then (True, zalloc 4, 0)
     else if u = ''+'' then (False, pad ''+'', 1)
     else if u = ''++'' then (False, pad ''++'', 2)
     else ppp_scan (c @ bh) (length c) n)"
proof -
  have cs: "cstr (pad u) 0 = u" using assms by (intro cstr_pad)
  have pk: "u \<noteq> [] \<Longrightarrow> peek (pad u) 0 = hd u" by (cases u) (simp_all add: peek_def pad_def)
  have "length u = 1 \<and> hd u = PLUS \<longleftrightarrow> u = ''+''" by (cases u) auto
  then show ?thesis
    unfolding find_ppp_quit_symbol_def take_upto assms(1) Let_def strlen_def cs using pk
    by (cases "u = []") auto
qed

lemma find_ppp_step:
  assumes "chunk_ok c" "ends_here bh" "\<not> has_quit s" "tail_ok s tail n"
  shows "\<exists>tail' n'. find_ppp_quit_symbol (c @ bh) (length c) tail n = (has_quit (s @ c), tail', n') \<and>
    (\<not> has_quit (s @ c) \<longrightarrow> tail_ok (s @ c) tail' n')"
proof -
  have c: "c \<noteq> []" "NUL \<notin> set c" using assms(1) by (simp_all add: chunk_ok_def)
  have n2: "n \<le> 2" using assms(4) by (cases rule: tail_ok_cases) simp_all
  from ppp_scan_ok [OF assms(1,2) n2] obtain tail' n' where
    scan: "ppp_scan (c @ bh) (length c) n = (has_quit c, tail', n')" "\<not> has_quit c \<Longrightarrow> tail_ok c tail' n'" by auto
  have go_on: ?thesis if "find_ppp_quit_symbol (c @ bh) (length c) tail n = ppp_scan (c @ bh) (length c) n"
    "\<not> (ends2 s \<and> take 1 c = ''+'')" "\<not> (ends1 s \<and> take 2 c = ''++'')" "\<not> (ends1 s \<and> c = ''+'')"
    using that scan c assms(3) tail_ok_append [of c tail' n' s] by (auto simp: has_quit_append)
  from assms(4) show ?thesis
  proof (cases rule: tail_ok_cases)
    case two
    have t1: "memcpy tail n (take (3 - n) c) = pad (''++'' @ take 1 c)"
      using two memcpy_pad [of "''++''" "take 1 c"] by (simp add: numeral_2_eq_2)
    note find = find_ppp_cases [OF t1, of bh]
    have u: "NUL \<notin> set (''++'' @ take 1 c)" "length (''++'' @ take 1 c) < 4" "take 1 c \<noteq> []"
      using c in_set_takeD [of NUL 1 c] by auto
    show ?thesis
    proof (cases "take 1 c = ''+''")
      case True
      then show ?thesis using find u two by (simp add: has_quit_append)
    next
      case False
      moreover have "take 2 c \<noteq> ''++''" "c \<noteq> ''+''" using False by (cases c; auto)+
      ultimately show ?thesis using find u by (intro go_on) auto
    qed
  next
    case one
    have t1: "memcpy tail n (take (3 - n) c) = pad (''+'' @ take 2 c)"
      using one memcpy_pad [of "''+''" "take 2 c"] by (simp add: numeral_2_eq_2)
    note find = find_ppp_cases [OF t1, of bh]
    have u: "NUL \<notin> set (''+'' @ take 2 c)" "length (''+'' @ take 2 c) < 4" "take 2 c \<noteq> []"
      using c in_set_takeD [of NUL 2 c] by auto
    consider "take 2 c = ''++''" | "c = ''+''" | "take 2 c \<noteq> ''++''" "c \<noteq> ''+''" by auto
    then show ?thesis
    proof cases
      case 1
      then show ?thesis using find u one by (simp add: has_quit_append)
    next
      case 2
      then have e: "ends2 (s @ c)" using one
        by (metis append_butlast_last_id append_assoc append_Cons append_Nil ends1_def ends2_def)
      have "\<not> has_quit c" using 2 by (auto simp: has_quit_def)
      then have "\<not> has_quit (s @ c)" using 2 one assms(3) by (simp add: has_quit_append)
      then show ?thesis using find u 2 e by (simp add: tail_ok_def)
    next
      case 3
      have "take 2 c \<noteq> ''+''" using 3 by (cases c; cases "tl c") (auto simp: numeral_2_eq_2)
      then show ?thesis using 3 find u one by (intro go_on) auto
    qed
  next
    case zero
    have ns: "\<not> ends2 s" using zero ends2_ends1 by blast
    show ?thesis
    proof (cases "n = 0")
      case True
      have t1: "memcpy tail n (take (3 - n) c) = pad (take 3 c)" using zero True memcpy_pad [of "[]" "take 3 c"] by simp
      note find = find_ppp_cases [OF t1, of bh]
      have u: "NUL \<notin> set (take 3 c)" "length (take 3 c) < 4" using c in_set_takeD [of NUL 3 c] by auto
      have short: "\<not> has_quit ''+''" "\<not> has_quit ''++''" by (auto simp: has_quit_def)
      have t3: "take 3 c = ''+'' \<longleftrightarrow> c = ''+''" "take 3 c = ''++'' \<longleftrightarrow> c = ''++''"
        by (cases c; cases "tl c"; cases "tl (tl c)"; simp add: numeral_3_eq_3)+
      consider "take 3 c = PPP_QUIT_SYMBOL" | "c = ''+''" | "c = ''++''" | "take 3 c \<noteq> PPP_QUIT_SYMBOL" "c \<noteq> ''+''" "c \<noteq> ''++''"
        by auto
      then show ?thesis
      proof cases
        case 1
        then have "has_quit (s @ c)" using take_3_quit [of c] has_quit_append [of s c] by (auto simp: has_quit_def)
        then show ?thesis using find u 1 by simp
      next
        case 2
        then show ?thesis using find u zero ns assms(3) short by (simp add: has_quit_append tail_ok_def) (auto simp: ends1_def ends2_def)
      next
        case 3
        then show ?thesis using find u zero ns assms(3) short by (simp add: has_quit_append tail_ok_def) (auto simp: ends2_def)
      next
        case 4
        then show ?thesis using find u t3 zero ns by (intro go_on) auto
      qed
    next
      case False
      have "memcpy tail n (take (3 - n) c) ! 0 = NUL"
        using zero False by (cases n) (simp_all add: memcpy_def pad_def zalloc_def)
      then have "cstr (memcpy tail n (take (3 - n) c)) 0 = []"
        using zero False by (cases n) (simp_all add: cstr_def memcpy_def pad_def zalloc_def)
      then have "find_ppp_quit_symbol (c @ bh) (length c) tail n = ppp_scan (c @ bh) (length c) n"
        by (simp only: find_ppp_quit_symbol_def take_upto strlen_def Let_def) simp
      then show ?thesis using zero ns by (intro go_on) simp_all
    qed
  next
    case (plain t)
    have ns: "\<not> ends2 s" using plain ends2_ends1 by blast
    have t1: "memcpy tail n (take (3 - n) c) = pad (t @ take (3 - n) c)" using plain memcpy_pad [of t "take (3 - n) c"] by simp
    note find = find_ppp_cases [OF t1, of bh]
    have u: "NUL \<notin> set (t @ take (3 - n) c)" "length (t @ take (3 - n) c) < 4"
      using c plain in_set_takeD [of NUL "3 - n" c] by auto
    have "t @ take (3 - n) c \<noteq> replicate k PLUS" for k
    proof
      assume eq: "t @ take (3 - n) c = replicate k PLUS"
      have "set (replicate k PLUS) \<subseteq> {PLUS}" by (auto simp: in_set_replicate)
      then have "set t \<subseteq> {PLUS}" unfolding eq [symmetric] by simp
      moreover have "last t \<in> set t" using plain by (intro last_in_set) simp
      ultimately have "last t = PLUS" by blast
      then show False using plain by simp
    qed
    from this [of 1] this [of 2] this [of 3] have "t @ take (3 - n) c \<noteq> ''+''" "t @ take (3 - n) c \<noteq> ''++''"
      "t @ take (3 - n) c \<noteq> PPP_QUIT_SYMBOL" by (simp_all add: numeral_2_eq_2 numeral_3_eq_3)
    then show ?thesis using plain find u ns by (intro go_on) auto
  qed
qed

text \<open>The detector on a whole stream, piece by piece, until it reports the symbol.\<close>

fun detects :: "string list \<Rightarrow> passthr_state \<Rightarrow> bool" where
  "detects [] st = False"
| "detects (c # cs) st = (let (found, st1) = ppp_quit c st in found \<or> detects cs st1)"

definition fresh_tail :: "passthr_state \<Rightarrow> bool" where
  "fresh_tail st \<longleftrightarrow> ppp_tail_buff st = zalloc 4 \<and> ppp_rcvd_tail_len st = 0"

lemma ppp_quit_step:
  assumes "chunk_ok c" "ends_here (behind st)" "\<not> has_quit s" "tail_ok s (ppp_tail_buff st) (ppp_rcvd_tail_len st)"
  shows "\<exists>st1. ppp_quit c st = (has_quit (s @ c), st1) \<and> behind st1 = behind st \<and>
    (\<not> has_quit (s @ c) \<longrightarrow> tail_ok (s @ c) (ppp_tail_buff st1) (ppp_rcvd_tail_len st1)) \<and>
    (\<exists>t n. st1 = st\<lparr>ppp_tail_buff := t, ppp_rcvd_tail_len := n\<rparr>)"
proof -
  from find_ppp_step [OF assms] obtain t n where
    "find_ppp_quit_symbol (c @ behind st) (length c) (ppp_tail_buff st) (ppp_rcvd_tail_len st) = (has_quit (s @ c), t, n)"
    "\<not> has_quit (s @ c) \<longrightarrow> tail_ok (s @ c) t n" by auto
  then show ?thesis by (auto simp: ppp_quit_def)
qed

lemma has_quit_prefix: "has_quit s \<Longrightarrow> has_quit (s @ c)"
  by (simp add: has_quit_append)

lemma detects_stream:
  assumes "\<forall>c \<in> set cs. chunk_ok c" "ends_here (behind st)" "\<not> has_quit s"
    "tail_ok s (ppp_tail_buff st) (ppp_rcvd_tail_len st)"
  shows "detects cs st \<longleftrightarrow> has_quit (s @ concat cs)"
  using assms
proof (induction cs arbitrary: s st)
  case Nil
  then show ?case by simp
next
  case (Cons c cs)
  from ppp_quit_step [of c st s] Cons.prems obtain st1 where
    st1: "ppp_quit c st = (has_quit (s @ c), st1)" "behind st1 = behind st"
    "\<not> has_quit (s @ c) \<longrightarrow> tail_ok (s @ c) (ppp_tail_buff st1) (ppp_rcvd_tail_len st1)" by auto
  show ?case
  proof (cases "has_quit (s @ c)")
    case True
    then show ?thesis using st1(1) has_quit_prefix [OF True, of "concat cs"] by simp
  next
    case False
    then show ?thesis using Cons.IH [of st1 "s @ c"] Cons.prems st1 by simp
  qed
qed

lemma fresh_tail_ok: "fresh_tail st \<Longrightarrow> tail_ok [] (ppp_tail_buff st) (ppp_rcvd_tail_len st)"
  by (simp add: fresh_tail_def tail_ok_def ends1_def ends2_def pad_def)


definition demo_passthr :: passthr_state where
  "demo_passthr = \<lparr>g_passthr_mode = PASSTHR_INVALID, g_at_passthr_hook = None,
     g_app_passthr = \<lparr>app_type = APP_INVILAD, recv_len = 0, max_len = 0, app_proc = None, callback_ret = XY_OK,
       app_sets_zero = (\<lambda>_. False), app_zero_flag = False\<rparr>,
     passthr_rcv_buff = None, ppp_tail_buff = zalloc 4, ppp_rcvd_tail_len = 0, passthr_rcvd_len = 0,
     passthr_fixed_buff_len = 0, passthr_dynmic_buff_len = 0, passthr_timer = False, passthr_msg_q = [],
     g_socket_passthr_ctx = None, behind = [], events = []\<rparr>"


text \<open>
  The exceptions are real: a symbol that begins in the second of two characters is missed, and after
  a lone plus a piece that begins with plus and NUL makes the next plus end the mode though three pluses were never
  sent in a row.
\<close>

lemma ppp_quit_misjudged:
  assumes "fresh_tail st"
  shows "\<not> detects [''a+'', ''++''] st \<and> has_quit (concat [''a+'', ''++'']) \<and>
    detects [''+'', ''+'' @ NUL # ''b'', ''+c''] st \<and> \<not> has_quit (concat [''+'', ''+'' @ NUL # ''b'', ''+c''])"
  using assms
  by (simp_all add: fresh_tail_def ppp_quit_def find_ppp_quit_symbol_def ppp_scan_def memcpy_def zalloc_def cstr_def strlen_def
      has_quit_Cons numeral_3_eq_3 numeral_2_eq_2 Let_def peek_def)

end
