(* ===== verification/Passthrough_Spec.thy ===== *)
theory Passthrough_Spec
  imports Passthrough_Quit
begin

text \<open>
  What the services on top of the transparent mode (\<^verbatim>\<open>SYSAPP/system/src/xy_passthrough.c\<close>) are given:
  exactly the announced number of bytes, or the bytes up to the end mark, once, whatever the pieces; and the
  growing receive buffer these modes share.
\<close>

section \<open>Services\<close>

text \<open>The pieces the UART task hands over, each with the answer of \<^verbatim>\<open>check_channel_fifo\<close> after it.\<close>

fun feed :: "(bool \<times> string) list \<Rightarrow> passthr_state \<Rightarrow> passthr_state option" where
  "feed [] st = Some st"
| "feed ((e, c) # cs) st = (case passthr_rcv e c st of None \<Rightarrow> None | Some st1 \<Rightarrow> feed cs st1)"

lemma feed_append: "feed (xs @ ys) st = (case feed xs st of None \<Rightarrow> None | Some st1 \<Rightarrow> feed ys st1)"
  by (induction xs arbitrary: st) (auto split: option.splits)

abbreviation received :: "(bool \<times> string) list \<Rightarrow> string" where
  "received cs \<equiv> concat (map snd cs)"

text \<open>The service is still waiting: at no pause had \<open>N\<close> bytes arrived.\<close>

fun waiting :: "nat \<Rightarrow> nat \<Rightarrow> (bool \<times> string) list \<Rightarrow> bool" where
  "waiting N k [] = True"
| "waiting N k ((e, c) # cs) = ((e \<longrightarrow> k + length c < N) \<and> waiting N (k + length c) cs)"

definition uart_piece :: "string \<Rightarrow> bool" where
  "uart_piece c \<longleftrightarrow> c \<noteq> [] \<and> length c \<le> 100"

definition fixed_at :: "nat \<Rightarrow> string \<Rightarrow> passthr_state \<Rightarrow> bool" where
  "fixed_at N data st \<longleftrightarrow>
     g_passthr_mode st = PASSTHR_CLOUD_FIXED_LENGTH \<and> g_at_passthr_hook st = Some cloud_rcvd_passthr_proc \<and>
     passthr_fixed_buff_len st = of_nat N \<and> passthr_rcvd_len st = of_nat (length (take N data)) \<and>
     (\<exists>m. passthr_rcv_buff st = Some m \<and> length m = N + 1 \<and> take (length (take N data)) m = take N data)"

lemma memcpy_at:
  assumes "take k m = xs" "k = length xs" "k + length s \<le> length m"
  shows "length (memcpy m k s) = length m" "take (k + length s) (memcpy m k s) = xs @ s"
  using assms by (simp_all add: memcpy_def)

lemma fixed_piece:
  assumes "fixed_at N data st" "uart_piece c" "0 < N" "N \<le> 65535"
  shows "\<exists>st1. fixed_at N (data @ c) st1 \<and> g_app_passthr st1 = g_app_passthr st \<and> events st1 = events st \<and>
    passthr_rcv e c st =
      (if e \<and> N \<le> length (data @ c) then map_option app_done (call_app (take N (data @ c)) st1) else Some st1)"
proof -
  let ?k = "length (take N data)"
  from assms(1) obtain m where st: "g_passthr_mode st = PASSTHR_CLOUD_FIXED_LENGTH"
    "g_at_passthr_hook st = Some cloud_rcvd_passthr_proc" "passthr_fixed_buff_len st = of_nat N"
    "passthr_rcvd_len st = of_nat ?k" "passthr_rcv_buff st = Some m" "length m = N + 1" "take ?k m = take N data"
    by (auto simp: fixed_at_def)
  have c: "c \<noteq> []" "length c \<le> 100" using assms(2) by (simp_all add: uart_piece_def)
  have k: "?k \<le> N" "unat (of_nat ?k :: u32) = ?k" using assms(4) by (simp_all add: unat_u32_of_nat)
  have less: "passthr_rcvd_len st + of_nat (length c) < passthr_fixed_buff_len st \<longleftrightarrow> ?k + length c < N"
    unfolding st(3,4) of_nat_add [symmetric] using k(1) c(2) assms(4) by (intro u32_less_of_nat) simp_all
  have less0: "passthr_rcvd_len st < passthr_fixed_buff_len st \<longleftrightarrow> ?k < N"
    unfolding st(3,4) using k(1) assms(4) by (intro u32_less_of_nat) simp_all
  have rcv: "passthr_rcv e c st = cloud_fixed_len_data_proc e c st"
    using st(1,2) c(1) by (simp add: passthr_rcv_def cloud_proc_def)
  show ?thesis
  proof (cases "?k + length c < N")
    case True
    then have d: "length data < N" "take N data = data" "take N (data @ c) = data @ c" by simp_all
    let ?st1 = "st\<lparr>passthr_rcv_buff := Some (memcpy m (length data) c), passthr_rcvd_len := of_nat (length (data @ c))\<rparr>"
    have "put_rcvd c st = Some (st\<lparr>passthr_rcv_buff := Some (memcpy m (length data) c)\<rparr>)"
      using st k d True by (simp add: put_rcvd_def)
    then have "passthr_rcv e c st = Some ?st1"
      using True less st(4) d by (simp add: rcv cloud_fixed_len_data_proc_def)
    moreover have "fixed_at N (data @ c) ?st1"
      using st d True memcpy_at [of "length data" m data c] by (simp add: fixed_at_def)
    ultimately show ?thesis using True d by (intro exI [of _ ?st1]) simp
  next
    case False
    have "\<exists>st1. (if passthr_rcvd_len st < passthr_fixed_buff_len st then do {
                  st1 \<leftarrow> put_rcvd (take (unat (passthr_fixed_buff_len st - passthr_rcvd_len st)) c) st;
                  Some (st1\<lparr>passthr_rcvd_len := passthr_fixed_buff_len st1\<rparr>)
                }
                else Some st) = Some st1 \<and> fixed_at N (data @ c) st1 \<and> g_app_passthr st1 = g_app_passthr st \<and> events st1 = events st"
    proof (cases "?k < N")
      case True
      then have d: "length data < N" "take N data = data" by simp_all
      have u: "unat (passthr_fixed_buff_len st - passthr_rcvd_len st) = N - length data"
        unfolding st(3,4) using d assms(4) by (simp add: of_nat_diff [symmetric] unat_u32_of_nat del: of_nat_diff)
      let ?c = "take (N - length data) c"
      let ?st1 = "st\<lparr>passthr_rcv_buff := Some (memcpy m (length data) ?c), passthr_rcvd_len := of_nat N\<rparr>"
      have len: "length data + length ?c = N" using d False by simp
      then have "put_rcvd ?c st = Some (st\<lparr>passthr_rcv_buff := Some (memcpy m (length data) ?c)\<rparr>)"
        using st k d by (simp add: put_rcvd_def)
      moreover have "fixed_at N (data @ c) ?st1"
        using st d len memcpy_at [of "length data" m data ?c] False by (simp add: fixed_at_def)
      ultimately show ?thesis unfolding u using True less0 d st(3) by (intro exI [of _ ?st1]) simp
    next
      case False
      then have "N \<le> length data" by simp
      then have "fixed_at N (data @ c) st" using assms(1) by (simp add: fixed_at_def)
      then show ?thesis using False less0 by simp
    qed
    then obtain st1 where st1: "fixed_at N (data @ c) st1" "g_app_passthr st1 = g_app_passthr st" "events st1 = events st"
      and step: "cloud_fixed_len_data_proc e c st =
        (if \<not> e then Some st1 else do {
          st2 \<leftarrow> call_app (rcvd_data (unat (passthr_fixed_buff_len st1)) st1) st1;
          Some (app_done st2)
        })"
      using False less by (auto simp: cloud_fixed_len_data_proc_def)
    have N: "N \<le> length (data @ c)" using False by (cases "N \<le> length data") simp_all
    then have "length (take N (data @ c)) = N" by simp
    with st1(1) obtain m1 where "passthr_rcv_buff st1 = Some m1" "take N m1 = take N (data @ c)"
      "passthr_fixed_buff_len st1 = of_nat N" unfolding fixed_at_def by metis
    then have "rcvd_data (unat (passthr_fixed_buff_len st1)) st1 = take N (data @ c)"
      using assms(4) by (simp add: rcvd_data_def unat_u32_of_nat)
    then have "passthr_rcv e c st = (if e then map_option app_done (call_app (take N (data @ c)) st1) else Some st1)"
      unfolding rcv step by (cases "call_app (take N (data @ c)) st1") auto
    then show ?thesis using st1 N by auto
  qed
qed

lemma call_app_Some:
  "app_proc (g_app_passthr st) = Some proc \<Longrightarrow>
     call_app s st = Some ((emit (App_Proc s) st)\<lparr>g_app_passthr := (g_app_passthr st)\<lparr>callback_ret := proc s,
       app_zero_flag := app_zero_flag (g_app_passthr st) \<or> app_sets_zero (g_app_passthr st) s\<rparr>\<rparr>)"
  by (simp add: call_app_def)

text \<open>How a service's answer ends the mode.\<close>

definition outcome :: "xy_ret \<Rightarrow> passthr_event" where
  "outcome r = (if r = XY_OK then Ext_Rsp (CR # LF # ''OK'' @ [CR, LF]) else Ext_Err)"

lemma exit_response_app:
  assumes "app_type (g_app_passthr st) \<noteq> APP_INVILAD" and "app_type (g_app_passthr st) \<noteq> APP_SOCKET"
  shows "exit_response st = emit (outcome (callback_ret (g_app_passthr st))) st"
  using assms by (simp add: exit_response_def outcome_def)

lemma emit_fields:
  "events (emit e st) = events st @ [e]" "g_app_passthr (emit e st) = g_app_passthr st"
  "g_passthr_mode (emit e st) = g_passthr_mode st" "g_at_passthr_hook (emit e st) = g_at_passthr_hook st"
  "passthr_rcv_buff (emit e st) = passthr_rcv_buff st"
  by (simp_all add: emit_def)

lemma exit_cloud:
  assumes "g_passthr_mode st = PASSTHR_CLOUD_FIXED_LENGTH \<or> g_passthr_mode st = PASSTHR_CLOUD_UNFIXED_LEN"
    and "app_type (g_app_passthr st) \<noteq> APP_INVILAD" and "app_type (g_app_passthr st) \<noteq> APP_SOCKET"
  shows "g_passthr_mode (xy_exitPassthroughMode st) = PASSTHR_INVALID"
    and "g_at_passthr_hook (xy_exitPassthroughMode st) = None"
    and "passthr_rcv_buff (xy_exitPassthroughMode st) = None"
    and "events (xy_exitPassthroughMode st) = events st @ [Standby_Unlock, outcome (callback_ret (g_app_passthr st))]"
  using assms by (auto simp: xy_exitPassthroughMode_def exit_response_app emit_fields)

lemma app_ends_mode:
  assumes "g_passthr_mode st = PASSTHR_CLOUD_FIXED_LENGTH \<or> g_passthr_mode st = PASSTHR_CLOUD_UNFIXED_LEN"
    "app_proc (g_app_passthr st) = Some proc" "app_type (g_app_passthr st) \<noteq> APP_INVILAD" "app_type (g_app_passthr st) \<noteq> APP_SOCKET"
  shows "\<exists>st1. map_option app_done (call_app s st) = Some st1 \<and> g_passthr_mode st1 = PASSTHR_INVALID \<and>
    g_at_passthr_hook st1 = None \<and> passthr_rcv_buff st1 = None \<and>
    events st1 = events st @ [App_Proc s, Standby_Unlock, outcome (proc s)]"
proof -
  define st0 where "st0 = (emit (App_Proc s) st)\<lparr>g_app_passthr := (g_app_passthr st)\<lparr>callback_ret := proc s,
       app_zero_flag := app_zero_flag (g_app_passthr st) \<or> app_sets_zero (g_app_passthr st) s\<rparr>\<rparr>"
  have call: "call_app s st = Some st0" using call_app_Some [OF assms(2)] by (simp add: st0_def)
  have st0: "g_passthr_mode st0 = g_passthr_mode st" "app_type (g_app_passthr st0) = app_type (g_app_passthr st)"
    "callback_ret (g_app_passthr st0) = proc s" "events st0 = events st @ [App_Proc s]"
    by (simp_all add: st0_def emit_fields)
  then have "app_done st0 = xy_exitPassthroughMode st0" using assms(4) by (simp add: app_done_def)
  then show ?thesis using call exit_cloud [of st0] st0 assms(1,3,4) by simp
qed

lemma feed_waiting:
  assumes "fixed_at N data st" "\<forall>(e, c) \<in> set cs. uart_piece c" "0 < N" "N \<le> 65535" "waiting N (length data) cs"
  shows "\<exists>st1. feed cs st = Some st1 \<and> fixed_at N (data @ received cs) st1 \<and> g_app_passthr st1 = g_app_passthr st \<and>
    events st1 = events st"
  using assms
proof (induction cs arbitrary: data st)
  case Nil
  then show ?case by simp
next
  case (Cons ec cs)
  obtain e c where ec: "ec = (e, c)" by (cases ec)
  from Cons.prems have c: "uart_piece c" "e \<longrightarrow> length data + length c < N" "waiting N (length (data @ c)) cs"
    by (simp_all add: ec)
  from fixed_piece [OF Cons.prems(1) c(1) Cons.prems(3,4), of e] c(2) obtain st1 where
    st1: "passthr_rcv e c st = Some st1" "fixed_at N (data @ c) st1" "g_app_passthr st1 = g_app_passthr st" "events st1 = events st"
    by (auto split: if_splits)
  from Cons.IH [OF st1(2) _ Cons.prems(3,4) c(3)] Cons.prems(2) show ?case by (simp add: ec st1)
qed

lemma u16_bound: "unat (w :: u16) < 65536"
  using unsigned_less [of w] by simp

lemma u16_succ: "n < 65536 \<Longrightarrow> n + 1 < (4294967296 :: nat)"
  by simp

lemma into_fixed:
  assumes "into_Passthr_Mode info st0 = Some (XY_OK, st)" "recv_len info \<noteq> 0"
  shows "fixed_at (unat (recv_len info)) [] st" "g_app_passthr st = info"
proof -
  have "(ucast (recv_len info) + 1 :: u32) = of_nat (unat (recv_len info) + 1)" by simp
  from arg_cong [OF this, of unat] have "unat (ucast (recv_len info) + 1 :: u32) = unat (recv_len info) + 1"
    unfolding unat_u32_of_nat [OF u16_succ [OF u16_bound]] .
  moreover have "st = emit Standby_Lock (st0\<lparr>g_app_passthr := info, g_passthr_mode := PASSTHR_CLOUD_FIXED_LENGTH,
      passthr_rcv_buff := Some (zalloc (unat (ucast (recv_len info) + 1 :: u32))), passthr_fixed_buff_len := ucast (recv_len info),
      passthr_rcvd_len := 0, g_at_passthr_hook := Some cloud_rcvd_passthr_proc\<rparr>)"
    using assms by (auto simp: into_Passthr_Mode_def xy_enterPassthroughMode_def Let_def split: if_splits option.splits bind_splits)
  ultimately show "fixed_at (unat (recv_len info)) [] st" "g_app_passthr st = info"
    by (simp_all add: fixed_at_def emit_def zalloc_def)
qed



section \<open>Growing buffers\<close>

text \<open>A buffer that holds \<open>data\<close> and grows by 128 bytes, more than a piece can bring.\<close>

definition grown :: "string \<Rightarrow> passthr_state \<Rightarrow> bool" where
  "grown data st \<longleftrightarrow>
     passthr_rcvd_len st = of_nat (length data) \<and>
     (passthr_rcv_buff st = None \<and> data = [] \<or>
      (\<exists>m. passthr_rcv_buff st = Some m \<and> passthr_dynmic_buff_len st = of_nat (length m) \<and>
         length data \<le> length m \<and> length m \<le> length data + 128 \<and> take (length data) m = data))"

lemma grow_rcvd_ok:
  assumes "grown data st" "uart_piece c" "length data < 2000000000"
  shows "\<exists>b d st1. grow_rcvd c st = Some st1 \<and> grown (data @ c) st1 \<and>
    st1 = st\<lparr>passthr_rcv_buff := b, passthr_rcvd_len := of_nat (length (data @ c)), passthr_dynmic_buff_len := d\<rparr>"
proof -
  have c: "length c \<le> 100" using assms(2) by (simp add: uart_piece_def)
  define m where "m = (case passthr_rcv_buff st of None \<Rightarrow> zalloc 128 | Some m \<Rightarrow> m)"
  define st1 where "st1 = st\<lparr>passthr_rcv_buff := Some m, passthr_dynmic_buff_len := of_nat (length m)\<rparr>"
  have m: "length data \<le> length m" "length m \<le> length data + 128" "take (length data) m = data"
    and rl: "passthr_rcvd_len st = of_nat (length data)"
    using assms(1) by (auto simp: grown_def m_def zalloc_def)
  have s1: "(if passthr_rcv_buff st = None
      then st\<lparr>passthr_rcv_buff := Some (zalloc PASSTHR_MAX_LEN), passthr_dynmic_buff_len := of_nat PASSTHR_MAX_LEN\<rparr> else st) = st1"
    using assms(1) by (auto simp: grown_def st1_def m_def zalloc_def)
  have ulen: "unat (of_nat (length data) :: u32) = length data" using assms(3) by (intro unat_u32_of_nat) simp
  define m2 where "m2 = (if length m < length data + length c then memcpy (zalloc (length m + 128)) 0 data else m)"
  have m2: "length data + length c \<le> length m2" "length m2 \<le> length data + length c + 128" "take (length data) m2 = data"
    using m c by (auto simp: m2_def memcpy_def zalloc_def)
  have less: "passthr_dynmic_buff_len st1 < passthr_rcvd_len st1 + of_nat (length c) \<longleftrightarrow> length m < length data + length c"
    unfolding st1_def using rl m(2) c assms(3) u32_less_of_nat [of "length m" "length data + length c"] by simp
  have up: "unat (passthr_dynmic_buff_len st1 + of_nat PASSTHR_MAX_LEN) = length m + 128"
    using m(2) assms(3) unat_u32_of_nat [of "length m + 128"] by (simp add: st1_def)
  have s2: "(if passthr_dynmic_buff_len st1 < passthr_rcvd_len st1 + of_nat (length c)
      then st1\<lparr>passthr_rcv_buff := Some (memcpy (zalloc (unat (passthr_dynmic_buff_len st1 + of_nat PASSTHR_MAX_LEN))) 0
                  (rcvd_data (unat (passthr_rcvd_len st1)) st1)),
               passthr_dynmic_buff_len := passthr_dynmic_buff_len st1 + of_nat PASSTHR_MAX_LEN\<rparr>
      else st1) = st1\<lparr>passthr_rcv_buff := Some m2, passthr_dynmic_buff_len := of_nat (length m2)\<rparr>"
    unfolding less up using rl m ulen
    by (auto simp: st1_def m2_def rcvd_data_def memcpy_def zalloc_def)
  let ?st = "st\<lparr>passthr_rcv_buff := Some (memcpy m2 (length data) c), passthr_rcvd_len := of_nat (length (data @ c)),
      passthr_dynmic_buff_len := of_nat (length m2)\<rparr>"
  have "grow_rcvd c st = Some ?st"
    unfolding grow_rcvd_def Let_def s1 s2 using m2(1) rl ulen by (simp add: put_rcvd_def st1_def)
  moreover have "grown (data @ c) ?st"
    using m2 memcpy_at [of "length data" m2 data c] by (simp add: grown_def)
  ultimately show ?thesis by blast
qed

definition unfixed_at :: "string \<Rightarrow> passthr_state \<Rightarrow> bool" where
  "unfixed_at data st \<longleftrightarrow>
     g_passthr_mode st = PASSTHR_CLOUD_UNFIXED_LEN \<and> g_at_passthr_hook st = Some cloud_rcvd_passthr_proc \<and> grown data st"

lemma into_unfixed:
  assumes "into_Passthr_Mode info st0 = Some (XY_OK, st)" "recv_len info = 0"
  shows "unfixed_at [] st" "g_app_passthr st = info"
proof -
  have "passthr_rcv_buff st0 = None \<and> st = emit Standby_Lock (st0\<lparr>g_app_passthr := info, g_passthr_mode := PASSTHR_CLOUD_UNFIXED_LEN,
      passthr_rcv_buff := None, passthr_fixed_buff_len := 0, passthr_rcvd_len := 0,
      g_at_passthr_hook := Some cloud_rcvd_passthr_proc\<rparr>)"
    using assms by (auto simp: into_Passthr_Mode_def xy_enterPassthroughMode_def Let_def split: if_splits option.splits bind_splits)
  then show "unfixed_at [] st" "g_app_passthr st = info" by (simp_all add: unfixed_at_def grown_def emit_def)
qed

text \<open>What one piece does once the buffer has taken it.\<close>

lemma unfixed_piece:
  assumes "unfixed_at data st" "uart_piece c" "length data \<le> 4000" "max_len (g_app_passthr st) \<noteq> 0"
  shows "\<exists>st1. unfixed_at (data @ c) st1 \<and> g_app_passthr st1 = g_app_passthr st \<and> events st1 = events st \<and>
    passthr_rcv e c st =
      (let N = unat (max_len (g_app_passthr st)); all = data @ c in
       if 4000 < length all then Some (xy_exitPassthroughMode st1)
       else if \<not> e then Some st1
       else if N < length all then map_option app_done (call_app (take N all) st1)
       else if last c = PASSTHR_CTRLZ then map_option app_done (call_app (butlast all) st1)
       else if length all = N then map_option app_done (call_app all st1)
       else if last c = PASSTHR_ESC then Some (xy_exitPassthroughMode st1)
       else Some st1)"
proof -
  have c: "c \<noteq> []" "length c \<le> 100" using assms(2) by (simp_all add: uart_piece_def)
  from assms(1) have st: "g_passthr_mode st = PASSTHR_CLOUD_UNFIXED_LEN" "g_at_passthr_hook st = Some cloud_rcvd_passthr_proc"
    "grown data st" by (simp_all add: unfixed_at_def)
  from grow_rcvd_ok [OF st(3) assms(2)] assms(3) obtain st1 where
    st1: "grow_rcvd c st = Some st1" "grown (data @ c) st1" "g_passthr_mode st1 = g_passthr_mode st"
    "g_at_passthr_hook st1 = g_at_passthr_hook st" "g_app_passthr st1 = g_app_passthr st" "events st1 = events st"
    by auto
  let ?all = "data @ c" and ?lim = "max_len (g_app_passthr st)"
  have len: "length ?all \<le> 4100" using assms(3) c by simp
  have rl: "passthr_rcvd_len st1 = of_nat (length ?all)" using st1(2) by (simp add: grown_def)
  have urc: "unat (passthr_rcvd_len st1) = length ?all" unfolding rl using len by (intro unat_u32_of_nat) simp
  have big: "AT_DATA_MAX_LEN < passthr_rcvd_len st1 \<longleftrightarrow> 4000 < length ?all"
    using urc by (simp add: word_less_nat_alt)
  have lim: "?lim < passthr_rcvd_len st1 \<longleftrightarrow> unat ?lim < length ?all"
    and eq: "passthr_rcvd_len st1 = ?lim \<longleftrightarrow> length ?all = unat ?lim"
    using urc by (simp_all add: word_less_nat_alt word_unat_eq_iff)
  have data: "rcvd_data n st1 = take n ?all" if "n \<le> length ?all" for n
  proof -
    from st1(2) c obtain m where m: "passthr_rcv_buff st1 = Some m" "take (length ?all) m = ?all"
      by (auto simp: grown_def)
    have "take n m = take n (take (length ?all) m)" using that by (simp only: take_take min_absorb1)
    also have "\<dots> = take n ?all" by (simp only: m(2))
    finally show ?thesis using m by (simp add: rcvd_data_def)
  qed
  have pred: "unat (passthr_rcvd_len st1 - 1) = length ?all - 1"
    using urc c by (metis add_gr_0 length_append length_greater_0_conv unat_gt_0 unat_minus_one less_numeral_extra(3))
  have but: "rcvd_data (unat (passthr_rcvd_len st1 - 1)) st1 = butlast ?all"
    unfolding pred using data [of "length ?all - 1"] by (simp add: butlast_conv_take)
  have "passthr_rcv e c st = cloud_unfixed_len_data_proc e c st"
    using st c by (simp add: passthr_rcv_def cloud_proc_def)
  also have "\<dots> =
      (let N = unat ?lim; all = data @ c in
       if 4000 < length all then Some (xy_exitPassthroughMode st1)
       else if \<not> e then Some st1
       else if N < length all then map_option app_done (call_app (take N all) st1)
       else if last c = PASSTHR_CTRLZ then map_option app_done (call_app (butlast all) st1)
       else if length all = N then map_option app_done (call_app all st1)
       else if last c = PASSTHR_ESC then Some (xy_exitPassthroughMode st1)
       else Some st1)"
    using assms(4) data [of "unat ?lim"]
    by (simp add: cloud_unfixed_len_data_proc_def st1(1) big lim eq but Let_def)
  finally show ?thesis using st1 st by (intro exI [of _ st1]) (simp add: unfixed_at_def)
qed

lemma feed_unfixed:
  assumes "unfixed_at data st" "\<forall>(e, c) \<in> set cs. uart_piece c \<and> \<not> e" "length (data @ received cs) \<le> 4000"
    and "max_len (g_app_passthr st) \<noteq> 0"
  shows "\<exists>st1. feed cs st = Some st1 \<and> unfixed_at (data @ received cs) st1 \<and> g_app_passthr st1 = g_app_passthr st \<and>
    events st1 = events st"
  using assms
proof (induction cs arbitrary: data st)
  case Nil
  then show ?case by simp
next
  case (Cons ec cs)
  obtain e c where ec: "ec = (e, c)" by (cases ec)
  from Cons.prems have c: "uart_piece c" "\<not> e" "length data \<le> 4000" "length (data @ c) \<le> 4000" by (simp_all add: ec)
  from unfixed_piece [OF Cons.prems(1) c(1,3) Cons.prems(4), of e] c(2,4) obtain st1 where
    st1: "passthr_rcv e c st = Some st1" "unfixed_at (data @ c) st1" "g_app_passthr st1 = g_app_passthr st" "events st1 = events st"
    by auto
  have "\<exists>st2. feed cs st1 = Some st2 \<and> unfixed_at ((data @ c) @ received cs) st2 \<and> g_app_passthr st2 = g_app_passthr st1 \<and>
    events st2 = events st1"
    using Cons.prems st1(3) by (intro Cons.IH [OF st1(2)]) (simp_all add: ec)
  then show ?case by (simp add: ec st1)
qed


text \<open>
  More than 4000 bytes without a pause are dropped, and the sender is told what the application set up
  as the result, \<^verbatim>\<open>OK\<close> by default, though its callback never ran.
\<close>

lemma cloud_oversize_acknowledged:
  assumes "into_Passthr_Mode info st0 = Some (XY_OK, st)" "recv_len info = 0" "max_len info \<noteq> 0" "app_type info \<noteq> APP_SOCKET"
    and "\<forall>(e, p) \<in> set cs. uart_piece p \<and> \<not> e" "uart_piece c" "length (received cs) \<le> 4000" "4000 < length (received cs @ c)"
  shows "\<exists>st1. feed (cs @ [(e, c)]) st = Some st1 \<and> g_passthr_mode st1 = PASSTHR_INVALID \<and>
    events st1 = events st @ [Standby_Unlock, outcome (callback_ret info)]"
proof -
  note start = into_unfixed [OF assms(1,2)]
  from feed_unfixed [OF start(1) assms(5)] assms(3,7) start(2) obtain st1 where
    st1: "feed cs st = Some st1" "unfixed_at (received cs) st1" "g_app_passthr st1 = info" "events st1 = events st" by auto
  from unfixed_piece [OF st1(2) assms(6,7), of e] assms(3,8) st1(3) obtain st2 where
    st2: "unfixed_at (received cs @ c) st2" "g_app_passthr st2 = info" "events st2 = events st"
      "passthr_rcv e c st1 = Some (xy_exitPassthroughMode st2)"
    using st1(4) by auto
  have "app_type info \<noteq> APP_INVILAD" using assms(1) by (auto simp: into_Passthr_Mode_def Let_def)
  then show ?thesis using st2 st1 assms(4)
    by (simp add: feed_append unfixed_at_def xy_exitPassthroughMode_def exit_response_def outcome_def emit_def Let_def)
qed


lemma received_blocks: "received (replicate n (e, c)) = concat (replicate n c)"
  by (induction n) simp_all

lemma length_blocks: "length (concat (replicate n c)) = n * length c"
  by (induction n) simp_all

end
