(* ===== verification/Passthrough_Run.thy ===== *)
theory Passthrough_Run
  imports Passthrough_Spec
begin

text \<open>
  Runs of the transparent mode (\<^verbatim>\<open>SYSAPP/system/src/xy_passthrough.c\<close>): the stream of the socket mode,
  data that arrives after the mode it was meant for, and the invariant of every interleaving of the receiver, the
  task, the commands and the network.
\<close>

section \<open>The socket mode\<close>

text \<open>The passthrough task on the messages of the socket mode, each with the state of the FIFO after it.\<close>

fun socket_run :: "(bool \<times> string) list \<Rightarrow> passthr_state \<Rightarrow> passthr_state option" where
  "socket_run [] st = Some st"
| "socket_run ((e, c) # cs) st = (case process_socket_ppp_data e c st of None \<Rightarrow> None | Some st1 \<Rightarrow> socket_run cs st1)"

definition uplink :: "passthr_state \<Rightarrow> string list" where
  "uplink st = (case g_socket_passthr_ctx st of None \<Rightarrow> [] | Some ctx \<Rightarrow> data_list ctx)"

lemma socket_piece:
  assumes "grown data st" "uart_piece c" "chunk_ok c" "ends_here (behind st)" "\<not> has_quit (s @ c)"
    "tail_ok s (ppp_tail_buff st) (ppp_rcvd_tail_len st)" "length data < 2000000000" "g_socket_passthr_ctx st \<noteq> None"
  shows "\<exists>st1. process_socket_ppp_data e c st = Some st1 \<and> grown (if e then [] else data @ c) st1 \<and>
    behind st1 = behind st \<and> tail_ok (s @ c) (ppp_tail_buff st1) (ppp_rcvd_tail_len st1) \<and>
    g_socket_passthr_ctx st1 \<noteq> None \<and> g_passthr_mode st1 = g_passthr_mode st \<and>
    uplink st1 = (if e then uplink st @ [data @ c] else uplink st)"
proof -
  have nq: "\<not> has_quit s" using assms(5) has_quit_prefix by blast
  from ppp_quit_step [OF assms(3,4) nq assms(6)] assms(5) obtain st1 t n where
    st1: "ppp_quit c st = (False, st1)" "st1 = st\<lparr>ppp_tail_buff := t, ppp_rcvd_tail_len := n\<rparr>" "tail_ok (s @ c) t n"
    by auto
  have "grown data st1" using assms(1) st1(2) by (simp add: grown_def)
  from grow_rcvd_ok [OF this assms(2,7)] obtain b d st2 where
    st2: "grow_rcvd c st1 = Some st2" "grown (data @ c) st2"
    "st2 = st1\<lparr>passthr_rcv_buff := b, passthr_rcvd_len := of_nat (length (data @ c)), passthr_dynmic_buff_len := d\<rparr>"
    by auto
  have c: "c \<noteq> []" "length c \<le> 100" using assms(2) by (simp_all add: uart_piece_def)
  then have "unat (of_nat (length (data @ c)) :: u32) = length (data @ c)" using assms(7) by (intro unat_u32_of_nat) simp
  then have "rcvd_data (unat (passthr_rcvd_len st2)) st2 = data @ c"
    using st2(2) c by (auto simp: grown_def rcvd_data_def)
  moreover obtain ctx where "g_socket_passthr_ctx st = Some ctx" using assms(8) by auto
  ultimately show ?thesis
    using st1 st2 by (auto simp: process_socket_ppp_data_def add_uplink_data_to_list_def uplink_def grown_def)
qed

lemma socket_stream:
  assumes "grown data st" "\<forall>(e, c) \<in> set cs. uart_piece c \<and> chunk_ok c" "ends_here (behind st)"
    "\<not> has_quit (s @ received cs)" "tail_ok s (ppp_tail_buff st) (ppp_rcvd_tail_len st)"
    "length (data @ received cs) < 2000000000" "g_socket_passthr_ctx st \<noteq> None"
  shows "\<exists>st1 new rest. socket_run cs st = Some st1 \<and> uplink st1 = uplink st @ new \<and> grown rest st1 \<and>
    g_passthr_mode st1 = g_passthr_mode st \<and> concat new @ rest = data @ received cs \<and>
    (cs \<noteq> [] \<longrightarrow> fst (last cs) \<longrightarrow> rest = [])"
  using assms
proof (induction cs arbitrary: data s st)
  case Nil
  then show ?case by (intro exI [of _ st] exI [of _ "[]"] exI [of _ data]) simp
next
  case (Cons ec cs)
  obtain e c where ec: "ec = (e, c)" by (cases ec)
  have nq: "\<not> has_quit (s @ c)" using Cons.prems(4) has_quit_prefix [of "s @ c" "received cs"] by (auto simp: ec)
  from Cons.prems have c: "uart_piece c" "chunk_ok c" "length data < 2000000000" by (simp_all add: ec)
  from socket_piece [OF Cons.prems(1) c(1,2) Cons.prems(3) nq Cons.prems(5) c(3) Cons.prems(7), of e] obtain st1 where
    st1: "process_socket_ppp_data e c st = Some st1" "grown (if e then [] else data @ c) st1" "behind st1 = behind st"
    "tail_ok (s @ c) (ppp_tail_buff st1) (ppp_rcvd_tail_len st1)" "g_socket_passthr_ctx st1 \<noteq> None"
    "g_passthr_mode st1 = g_passthr_mode st" "uplink st1 = (if e then uplink st @ [data @ c] else uplink st)"
    by blast
  have ps: "\<forall>(e, c) \<in> set cs. uart_piece c \<and> chunk_ok c" "ends_here (behind st1)" "\<not> has_quit ((s @ c) @ received cs)"
    "length ((if e then [] else data @ c) @ received cs) < 2000000000"
    using Cons.prems st1(3) by (simp_all add: ec split: if_splits)
  from Cons.IH [OF st1(2) ps(1-3) st1(4) ps(4) st1(5)] obtain st2 new rest where
    st2: "socket_run cs st1 = Some st2" "uplink st2 = uplink st1 @ new" "grown rest st2" "g_passthr_mode st2 = g_passthr_mode st1"
    "concat new @ rest = (if e then [] else data @ c) @ received cs" "cs \<noteq> [] \<longrightarrow> fst (last cs) \<longrightarrow> rest = []"
    by blast
  show ?case
  proof (cases e)
    case True
    then show ?thesis using st1 st2
      by (intro exI [of _ st2] exI [of _ "(data @ c) # new"] exI [of _ rest]) (auto simp: ec)
  next
    case False
    then show ?thesis using st1 st2
      by (intro exI [of _ st2] exI [of _ new] exI [of _ rest]) (auto simp: ec)
  qed
qed



section \<open>Data that arrives too late\<close>

text \<open>
  The UART task runs at a higher priority than the passthrough task, so data can be queued behind the piece that completes
  a transmission; the hook is only cleared when that piece is handled.
\<close>

definition two_pieces :: "string \<Rightarrow> string \<Rightarrow> passthr_state \<Rightarrow> passthr_state option" where
  "two_pieces c1 c2 st = do {
     st1 \<leftarrow> passthr_rcv True c1 st;
     st2 \<leftarrow> passthr_rcv True c2 st1;
     st3 \<leftarrow> passthrough_process True True st2;
     passthrough_process True True st3
   }"

text \<open>
  Surplus data in the fixed-length mode stops the chip: behind a complete transmission it is copied
  through the freed buffer pointer, and a piece longer than what is still missing fails an assertion.
\<close>

lemma fixed_length_surplus_faults:
  assumes "xy_enterPassthroughMode PASSTHR_FIXED_LENGTH (of_nat n) (Some rcvd_passthr_stream_proc) st0 = Some st"
    and "passthr_msg_q st0 = []" "0 < n" "n < 1000000" "uart_piece c1" "uart_piece c2" "n \<le> length c1"
  shows "two_pieces c1 c2 st = None"
proof -
  have c: "c1 \<noteq> []" "c2 \<noteq> []" "length c1 \<le> 100" using assms(5,6) by (simp_all add: uart_piece_def)
  have n0: "(of_nat n :: u32) \<noteq> 0" "unat (of_nat n :: u32) = n"
    using assms(3,4) unat_u32_of_nat [of n] by auto
  have st: "g_at_passthr_hook st = Some rcvd_passthr_stream_proc" "g_passthr_mode st = PASSTHR_FIXED_LENGTH"
    "passthr_msg_q st = []" "passthr_fixed_buff_len st = of_nat n" "passthr_rcvd_len st = 0"
    using assms(1,2) by (auto simp: xy_enterPassthroughMode_def emit_def split: bind_splits)
  let ?q = "st\<lparr>passthr_msg_q := [(PASSTHR_FIXED_LENGTH, c1), (PASSTHR_FIXED_LENGTH, c2)]\<rparr>"
  have q: "two_pieces c1 c2 st = Option.bind (passthrough_process True True ?q) (passthrough_process True True)"
    using st c by (simp add: two_pieces_def passthr_rcv_def stream_proc_def)
  show ?thesis
  proof (cases "n = length c1")
    case True
    show ?thesis unfolding q using st c n0 True
      by (auto simp: passthrough_process_def process_fixed_len_data_def put_rcvd_def xy_exitPassthroughMode_def exit_response_def
          emit_def Let_def split: option.splits bind_splits)
  next
    case False
    then have "\<not> (of_nat (length c1) :: u32) \<le> of_nat n"
      using assms(4,7) c(3) u32_less_of_nat [of n "length c1"] by (simp add: linorder_not_le)
    then show ?thesis unfolding q using st n0 by (simp add: passthrough_process_def process_fixed_len_data_def)
  qed
qed

text \<open>
  Text behind the end of a short message is kept in a buffer nobody frees: the mode is left, but the
  next request to enter one, of whatever kind, fails its assertion.
\<close>

lemma sms_surplus_blocks:
  assumes "xy_enterPassthroughMode PASSTHR_SMS 0 (Some rcvd_passthr_stream_proc) st0 = Some st" "passthr_msg_q st0 = []"
    and "uart_piece c1" "uart_piece c2" "last c1 = PASSTHR_CTRLZ"
  shows "\<exists>st2. two_pieces c1 c2 st = Some st2 \<and> g_passthr_mode st2 = PASSTHR_INVALID \<and>
    (\<forall>mode n f. xy_enterPassthroughMode mode n f st2 = None)"
proof -
  have c: "c1 \<noteq> []" "c2 \<noteq> []" "length c1 \<le> 100" using assms(3,4) by (simp_all add: uart_piece_def)
  have st: "g_at_passthr_hook st = Some rcvd_passthr_stream_proc" "g_passthr_mode st = PASSTHR_SMS"
    "passthr_msg_q st = []" "grown [] st"
    using assms(1,2) by (auto simp: xy_enterPassthroughMode_def emit_def grown_def split: bind_splits)
  let ?q1 = "st\<lparr>passthr_msg_q := [(PASSTHR_SMS, c2)]\<rparr>"
  have q: "two_pieces c1 c2 st = Option.bind (process_sms_data True c1 ?q1) (passthrough_process True True)"
  proof -
    have "passthrough_process True True (st\<lparr>passthr_msg_q := [(PASSTHR_SMS, c1), (PASSTHR_SMS, c2)]\<rparr>) = process_sms_data True c1 ?q1"
      by (simp add: passthrough_process_def)
    then show ?thesis using st c by (simp add: two_pieces_def passthr_rcv_def stream_proc_def)
  qed
  have "grown [] ?q1" using st(4) by (simp add: grown_def)
  from grow_rcvd_ok [OF this assms(3)] obtain st1 where
    st1: "grow_rcvd c1 ?q1 = Some st1" "g_passthr_mode st1 = PASSTHR_SMS" "passthr_msg_q st1 = [(PASSTHR_SMS, c2)]"
    using st by auto
  define st2 where "st2 = xy_exitPassthroughMode (emit (Sms_Req (rcvd_data (unat (passthr_rcvd_len st1)) st1)) st1)"
  have st2: "g_passthr_mode st2 = PASSTHR_INVALID" "passthr_msg_q st2 = [(PASSTHR_SMS, c2)]" "grown [] st2"
    using st1(2,3) by (simp_all add: st2_def xy_exitPassthroughMode_def exit_response_def emit_def grown_def Let_def)
  have first: "process_sms_data True c1 ?q1 = Some st2"
    using st1(1) assms(5) by (simp add: process_sms_data_def st2_def)
  let ?q2 = "st2\<lparr>passthr_msg_q := []\<rparr>"
  have "grown [] ?q2" using st2(3) by (simp add: grown_def)
  from grow_rcvd_ok [OF this assms(4)] obtain st3 where
    st3: "grow_rcvd c2 ?q2 = Some st3" "g_passthr_mode st3 = PASSTHR_INVALID" "grown c2 st3" using st2 by auto
  have idle: "xy_exitPassthroughMode (emit e st3) = emit e st3" for e using st3(2) by (simp add: xy_exitPassthroughMode_def emit_def)
  obtain st4 where st4: "process_sms_data True c2 ?q2 = Some st4" "g_passthr_mode st4 = PASSTHR_INVALID"
    "passthr_rcv_buff st4 = passthr_rcv_buff st3"
    using st3 idle by (auto simp: process_sms_data_def) (simp add: emit_def)
  obtain b where "passthr_rcv_buff st4 = Some b" using st4(3) st3(3) c by (auto simp: grown_def)
  then have "\<forall>mode n f. xy_enterPassthroughMode mode n f st4 = None" by (simp add: xy_enterPassthroughMode_def)
  moreover have "passthrough_process True True st2 = Some st4" using st4(1) st2(2) by (simp add: passthrough_process_def)
  ultimately show ?thesis unfolding q first using st4(2) by simp
qed

section \<open>Every run\<close>

text \<open>
  The steps of the whole component. A mode is entered by an AT command, and AT commands are only read while no
  hook is set; the socket's task and the network may end it at any time.
\<close>

inductive passthr_step :: "passthr_state \<Rightarrow> passthr_state \<Rightarrow> bool" where
  enter: "g_at_passthr_hook st = None \<Longrightarrow> xy_enterPassthroughMode mode n f st = Some st1 \<Longrightarrow> passthr_step st st1"
| into: "g_at_passthr_hook st = None \<Longrightarrow> into_Passthr_Mode info st = Some (r, st1) \<Longrightarrow> passthr_step st st1"
| resume: "g_at_passthr_hook st = None \<Longrightarrow> at_ATO_req req st = Some (rsp, st1) \<Longrightarrow> passthr_step st st1"
| rcv: "passthr_rcv e c st = Some st1 \<Longrightarrow> passthr_step st st1"
| task: "passthrough_process e d st = Some st1 \<Longrightarrow> passthr_step st st1"
| leave: "passthr_step st (xy_exitPassthroughMode st)"
| timeout: "passthr_step st (passthr_timeout_callback st)"
| sender: "passthr_step st (send_uplink_data st)"
| closed: "passthr_step st (delete_passthr_socket_ctx st)"

inductive passthr_reachable :: "passthr_state \<Rightarrow> passthr_state \<Rightarrow> bool" for st0 where
  start: "passthr_reachable st0 st0"
| step: "passthr_reachable st0 st \<Longrightarrow> passthr_step st st1 \<Longrightarrow> passthr_reachable st0 st1"

text \<open>The hook is set in a mode and only then, and the standby lock is taken once more than it is given back.\<close>

definition lock_balance :: "passthr_state \<Rightarrow> int" where
  "lock_balance st = int (count_list (events st) Standby_Lock) - int (count_list (events st) Standby_Unlock)"

definition passthr_inv :: "passthr_state \<Rightarrow> bool" where
  "passthr_inv st \<longleftrightarrow>
     (g_at_passthr_hook st = None \<longleftrightarrow> g_passthr_mode st = PASSTHR_INVALID) \<and>
     lock_balance st = (if g_passthr_mode st = PASSTHR_INVALID then 0 else 1)"

text \<open>What an operation that neither enters nor leaves a mode keeps.\<close>

definition same_mode :: "passthr_state \<Rightarrow> passthr_state \<Rightarrow> bool" where
  "same_mode st st1 \<longleftrightarrow> g_passthr_mode st1 = g_passthr_mode st \<and> g_at_passthr_hook st1 = g_at_passthr_hook st \<and>
     lock_balance st1 = lock_balance st"

lemma same_mode_inv: "same_mode st st1 \<Longrightarrow> passthr_inv st \<Longrightarrow> passthr_inv st1"
  by (simp add: same_mode_def passthr_inv_def)

lemma same_mode_trans: "same_mode st st1 \<Longrightarrow> same_mode st1 st2 \<Longrightarrow> same_mode st st2"
  by (simp add: same_mode_def)

lemma put_rcvd_mode: "put_rcvd s st = Some st1 \<Longrightarrow> same_mode st st1"
  by (auto simp: put_rcvd_def same_mode_def lock_balance_def split: option.splits if_splits)

lemma grow_rcvd_mode: "grow_rcvd c st = Some st1 \<Longrightarrow> same_mode st st1"
  by (auto simp: grow_rcvd_def put_rcvd_def same_mode_def lock_balance_def Let_def split: option.splits if_splits bind_splits)

lemma call_app_mode: "call_app s st = Some st1 \<Longrightarrow> same_mode st st1"
  by (auto simp: call_app_def same_mode_def lock_balance_def emit_def split: option.splits)

lemma emit_mode: "e \<noteq> Standby_Lock \<Longrightarrow> e \<noteq> Standby_Unlock \<Longrightarrow> same_mode st (emit e st)"
  by (simp add: same_mode_def lock_balance_def emit_def)

lemma ppp_quit_mode: "ppp_quit c st = (b, st1) \<Longrightarrow> same_mode st st1"
  by (auto simp: ppp_quit_def same_mode_def lock_balance_def split: prod.splits)

lemma exit_inv: "passthr_inv st \<Longrightarrow> passthr_inv (xy_exitPassthroughMode st)"
  by (auto simp: xy_exitPassthroughMode_def passthr_inv_def lock_balance_def exit_response_def restore_passthr_hook_def emit_def Let_def)

lemma app_done_inv: "passthr_inv st \<Longrightarrow> passthr_inv (app_done st)"
  by (simp add: app_done_def exit_inv)

lemma enter_inv: "passthr_inv st \<Longrightarrow> g_at_passthr_hook st = None \<Longrightarrow> xy_enterPassthroughMode mode n f st = Some st1 \<Longrightarrow> passthr_inv st1"
  by (auto simp: xy_enterPassthroughMode_def passthr_inv_def lock_balance_def emit_def Let_def split: bind_splits if_splits)

lemma set_fields_mode [simp]:
  "same_mode st (st\<lparr>passthr_rcvd_len := n\<rparr>)" "same_mode st (st\<lparr>passthr_msg_q := q\<rparr>)"
  "same_mode st (st\<lparr>g_socket_passthr_ctx := x\<rparr>)" "same_mode st (st\<lparr>g_app_passthr := a\<rparr>)"
  "same_mode st (st\<lparr>passthr_rcv_buff := b, passthr_rcvd_len := n, passthr_dynmic_buff_len := d\<rparr>)"
  by (simp_all add: same_mode_def lock_balance_def)

lemma put_len_inv:
  assumes "passthr_inv st" "put_rcvd s st = Some st1"
  shows "passthr_inv (st1\<lparr>passthr_rcvd_len := n\<rparr>)"
  using assms put_rcvd_mode same_mode_inv set_fields_mode(1) by blast

lemma finish_inv: "passthr_inv st \<Longrightarrow> map_option app_done (call_app s st) = Some st1 \<Longrightarrow> passthr_inv st1"
  using app_done_inv same_mode_inv [OF call_app_mode] by auto

lemma cloud_fixed_inv:
  assumes "passthr_inv st" "cloud_fixed_len_data_proc e c st = Some st1"
  shows "passthr_inv st1"
proof -
  have done_inv: "passthr_inv st1"
    if "passthr_inv st2" "(if \<not> e then Some st2 else do {
          st3 \<leftarrow> call_app (rcvd_data (unat (passthr_fixed_buff_len st2)) st2) st2; Some (app_done st3) }) = Some st1" for st2
    using that app_done_inv same_mode_inv [OF call_app_mode]
    by (cases e; cases "call_app (rcvd_data (unat (passthr_fixed_buff_len st2)) st2) st2") auto
  consider "passthr_rcvd_len st + of_nat (length c) < passthr_fixed_buff_len st"
    | "\<not> passthr_rcvd_len st + of_nat (length c) < passthr_fixed_buff_len st" "passthr_rcvd_len st < passthr_fixed_buff_len st"
    | "\<not> passthr_rcvd_len st + of_nat (length c) < passthr_fixed_buff_len st" "\<not> passthr_rcvd_len st < passthr_fixed_buff_len st"
    by blast
  then show ?thesis
  proof cases
    case 1
    then show ?thesis using assms put_len_inv by (auto simp: cloud_fixed_len_data_proc_def Let_def split: bind_splits)
  next
    case 2
    let ?p = "put_rcvd (take (unat (passthr_fixed_buff_len st - passthr_rcvd_len st)) c) st"
    show ?thesis
    proof (cases ?p)
      case None
      then show ?thesis using assms(2) 2 by (simp add: cloud_fixed_len_data_proc_def Let_def)
    next
      case (Some q)
      show ?thesis
        by (rule done_inv [of "q\<lparr>passthr_rcvd_len := passthr_fixed_buff_len q\<rparr>"])
          (use assms(2) 2 Some put_len_inv [OF assms(1) Some] in
            \<open>simp_all only: cloud_fixed_len_data_proc_def Let_def if_False if_True Option.bind.bind_lunit\<close>)
    qed
  next
    case 3
    show ?thesis
      by (rule done_inv [OF assms(1)])
        (use assms(2) 3 in \<open>simp only: cloud_fixed_len_data_proc_def Let_def if_False Option.bind.bind_lunit\<close>)
  qed
qed

lemma cloud_unfixed_inv:
  assumes "passthr_inv st" "cloud_unfixed_len_data_proc e c st = Some st1"
  shows "passthr_inv st1"
proof (cases "max_len (g_app_passthr st) = 0 \<or> grow_rcvd c st = None")
  case True
  then show ?thesis using assms exit_inv [OF assms(1)] by (auto simp: cloud_unfixed_len_data_proc_def Let_def split: if_splits)
next
  case False
  then obtain st2 where g: "grow_rcvd c st = Some st2" and nz: "max_len (g_app_passthr st) \<noteq> 0" by auto
  have i2: "passthr_inv st2" using same_mode_inv [OF grow_rcvd_mode [OF g] assms(1)] .
  show ?thesis
    using assms(2) i2 exit_inv [OF i2] finish_inv [OF i2, of _ st1] unfolding cloud_unfixed_len_data_proc_def g Let_def
    by (simp only: nz if_False Option.bind.bind_lunit split: if_splits) (simp_all only: option.inject)
qed

lemma cloud_inv: "passthr_inv st \<Longrightarrow> cloud_proc e c st = Some st1 \<Longrightarrow> passthr_inv st1"
  by (simp only: cloud_proc_def split: if_splits xy_passthrough_type.splits)
    (simp_all only: option.inject, (erule (1) cloud_fixed_inv | erule (1) cloud_unfixed_inv | simp)+)

lemma stream_inv: "passthr_inv st \<Longrightarrow> passthr_inv (stream_proc c st)"
  by (simp add: stream_proc_def same_mode_inv [OF set_fields_mode(2)])

lemma rcv_inv:
  assumes "passthr_inv st" "passthr_rcv e c st = Some st1"
  shows "passthr_inv st1"
proof (cases "g_at_passthr_hook st")
  case None
  then show ?thesis using assms by (simp add: passthr_rcv_def)
next
  case (Some h)
  then show ?thesis using assms cloud_inv [OF assms(1), of e c st1] stream_inv [OF assms(1), of c]
    by (cases h) (simp_all add: passthr_rcv_def)
qed

lemma normal_inv:
  assumes "passthr_inv st"
  shows "passthr_inv (process_normal_ppp_data c st)"
proof -
  let ?s = "st\<lparr>passthr_rcvd_len := passthr_rcvd_len st + of_nat (length c)\<rparr>"
  obtain b st2 where q: "ppp_quit c ?s = (b, st2)" by (cases "ppp_quit c ?s")
  have i2: "passthr_inv st2" using same_mode_inv [OF ppp_quit_mode [OF q]] same_mode_inv [OF set_fields_mode(1) assms] by blast
  have "passthr_inv (emit (Ppp_Hook c) st2)" using same_mode_inv [OF emit_mode i2] by simp
  then show ?thesis using exit_inv [OF i2] q by (simp add: process_normal_ppp_data_def)
qed

lemma fixed_inv:
  assumes "passthr_inv st" "process_fixed_len_data c st = Some st1"
  shows "passthr_inv st1"
proof -
  obtain q where q: "put_rcvd c st = Some q"
    using assms(2) by (auto simp: process_fixed_len_data_def Let_def split: bind_splits)
  let ?s = "q\<lparr>passthr_rcvd_len := passthr_rcvd_len q + of_nat (length c)\<rparr>"
  have i: "passthr_inv ?s" using put_len_inv [OF assms(1) q] .
  have "passthr_inv (emit (Fixed_Hook s) ?s)" for s using same_mode_inv [OF emit_mode i] by simp
  then show ?thesis using assms(2) q i exit_inv
    by (simp add: process_fixed_len_data_def Let_def split: bind_splits if_splits) blast+
qed

lemma sms_inv:
  assumes "passthr_inv st" "process_sms_data d c st = Some st1"
  shows "passthr_inv st1"
proof -
  obtain q where q: "grow_rcvd c st = Some q" using assms(2) by (auto simp: process_sms_data_def split: bind_splits)
  have i: "passthr_inv q" using same_mode_inv [OF grow_rcvd_mode [OF q] assms(1)] .
  have "passthr_inv (emit Dsp_Err q)" "passthr_inv (emit (Sms_Req s) q)" for s using same_mode_inv [OF emit_mode i] by simp_all
  then show ?thesis using assms(2) q i exit_inv by (auto simp: process_sms_data_def split: if_splits)
qed

lemma socket_inv:
  assumes "passthr_inv st" "process_socket_ppp_data e c st = Some st1"
  shows "passthr_inv st1"
proof -
  obtain b st2 where q: "ppp_quit c st = (b, st2)" by (cases "ppp_quit c st")
  have i2: "passthr_inv st2" using same_mode_inv [OF ppp_quit_mode [OF q] assms(1)] .
  show ?thesis
  proof (cases b)
    case True
    then show ?thesis using assms(2) q exit_inv [OF i2] by (simp add: process_socket_ppp_data_def)
  next
    case False
    then obtain st3 where g: "grow_rcvd c st2 = Some st3"
      using assms(2) q by (auto simp: process_socket_ppp_data_def split: bind_splits)
    have i3: "passthr_inv st3" using same_mode_inv [OF grow_rcvd_mode [OF g] i2] .
    have i4: "passthr_inv (st3\<lparr>g_socket_passthr_ctx := x, passthr_rcv_buff := None, passthr_rcvd_len := 0, passthr_dynmic_buff_len := 0\<rparr>)" for x
      using i3 by (simp add: passthr_inv_def lock_balance_def)
    show ?thesis using assms(2) q False g i3 i4
      by (cases "g_socket_passthr_ctx st3") (simp_all add: process_socket_ppp_data_def add_uplink_data_to_list_def split: if_splits, blast+)
  qed
qed

lemma task_inv:
  assumes "passthr_inv st" "passthrough_process e d st = Some st1"
  shows "passthr_inv st1"
proof (cases "passthr_msg_q st")
  case Nil
  then show ?thesis using assms by (simp add: passthrough_process_def)
next
  case (Cons x q)
  obtain mode c where x: "x = (mode, c)" by (cases x)
  let ?s = "st\<lparr>passthr_msg_q := q\<rparr>"
  have i: "passthr_inv ?s" using same_mode_inv [OF set_fields_mode(2) assms(1)] .
  show ?thesis
    using assms(2) i normal_inv [OF i, of c] fixed_inv [OF i, of c st1] sms_inv [OF i, of d c st1] socket_inv [OF i, of e c st1]
    by (cases mode) (simp_all add: passthrough_process_def Cons x)
qed

lemma send_fold: "same_mode st (fold (\<lambda>s. emit (Sock_Send s)) xs st)"
proof (induction xs arbitrary: st)
  case Nil
  then show ?case by (simp add: same_mode_def)
next
  case (Cons x xs)
  then show ?case using same_mode_trans [OF emit_mode [of "Sock_Send x" st]] by simp
qed

lemma passthr_step_inv:
  assumes "passthr_step st st1" "passthr_inv st"
  shows "passthr_inv st1"
  using assms(1)
proof (cases rule: passthr_step.cases)
  case (enter mode n f)
  then show ?thesis using enter_inv assms(2) by blast
next
  case (into info r)
  have a: "passthr_inv (st\<lparr>g_app_passthr := info\<rparr>)" using same_mode_inv [OF set_fields_mode(4) assms(2)] .
  show ?thesis using into a enter_inv [OF a]
    by (auto simp: into_Passthr_Mode_def Let_def split: if_splits)
next
  case (resume req rsp)
  then show ?thesis using assms(2) enter_inv
    by (auto simp: at_ATO_req_def split: option.splits if_splits)
next
  case (rcv e c)
  then show ?thesis using rcv_inv assms(2) by blast
next
  case (task e d)
  then show ?thesis using task_inv assms(2) by blast
next
  case leave
  then show ?thesis using exit_inv assms(2) by simp
next
  case timeout
  then show ?thesis using exit_inv [OF same_mode_inv [OF emit_mode assms(2)]] by (simp add: passthr_timeout_callback_def)
next
  case sender
  then show ?thesis
    using assms(2) same_mode_inv [OF send_fold] same_mode_inv [OF set_fields_mode(3)]
    by (auto simp: send_uplink_data_def split: option.splits)
next
  case closed
  then show ?thesis using same_mode_inv [OF set_fields_mode(3) assms(2)] by (simp add: delete_passthr_socket_ctx_def)
qed

text \<open>
  C23: In every run, whatever the order of received data, task steps, commands and terminations, the standby lock
  is held exactly while a mode is active, by one count, and the hook is set exactly then.
\<close>

theorem passthr_standby_balanced:
  assumes "passthr_reachable st0 st" "g_passthr_mode st0 = PASSTHR_INVALID" "g_at_passthr_hook st0 = None" "events st0 = []"
  shows "count_list (events st) Standby_Lock =
      count_list (events st) Standby_Unlock + (if g_passthr_mode st = PASSTHR_INVALID then 0 else 1) \<and>
    (g_at_passthr_hook st = None \<longleftrightarrow> g_passthr_mode st = PASSTHR_INVALID)"
proof -
  have "passthr_inv st0" using assms(2-4) by (simp add: passthr_inv_def lock_balance_def)
  with assms(1) have "passthr_inv st" by (induction rule: passthr_reachable.induct) (auto intro: passthr_step_inv)
  then show ?thesis by (auto simp: passthr_inv_def lock_balance_def split: if_splits)
qed

theorem passthr_standby_balanced_witness:
  "count_list (events (the (xy_enterPassthroughMode PASSTHR_NORMAL_PPP 0 (Some rcvd_passthr_stream_proc) demo_passthr))) Standby_Lock =
   count_list (events (the (xy_enterPassthroughMode PASSTHR_NORMAL_PPP 0 (Some rcvd_passthr_stream_proc) demo_passthr))) Standby_Unlock + 1"
proof -
  obtain st where st: "xy_enterPassthroughMode PASSTHR_NORMAL_PPP 0 (Some rcvd_passthr_stream_proc) demo_passthr = Some st"
    "g_passthr_mode st = PASSTHR_NORMAL_PPP"
    by (simp add: xy_enterPassthroughMode_def demo_passthr_def emit_def)
  have "passthr_reachable demo_passthr st"
    by (rule passthr_reachable.step [OF passthr_reachable.start enter [OF _ st(1)]]) (simp add: demo_passthr_def)
  from passthr_standby_balanced [OF this] st(2) show ?thesis unfolding st(1) by (simp add: demo_passthr_def)
qed

end
