(* ===== verification/At_Farps.thy ===== *)
theory At_Farps
  imports Work_Lock At_Com Passthrough
begin

text \<open>
  How AT command lines are put together from what the UART delivers
  (\<^verbatim>\<open>SYSAPP/at_ctrl/src/at_farps_channel.c\<close>). The receiver task hands over pieces of at most 100 bytes; they
  are collected in the buffer of the UART's context until a carriage return arrives, checked, and posted line by line
  to the AT control task. The context's \<^verbatim>\<open>error_no\<close> and \<^verbatim>\<open>process_state\<close> are the fields
  \<open>uart_error_no\<close> and \<open>uart_processing\<close> of the standby state; of its \<^verbatim>\<open>state\<close> the bit
  \<^verbatim>\<open>RCV_REQ_NOW\<close> is kept. \<open>None\<close> is a failed assertion, a memory access outside the buffer, or a loop that does
  not end. Debug output (\<^verbatim>\<open>+DBGINFO\<close>) is left out.
\<close>

section \<open>State\<close>

datatype farps_event =
  To_atctl string | Err_to_peripheral at_err | Low_vbat_urc | Echo string

record farps_ctx =
  g_farps_rcv_mem :: "memory option"
  g_have_rcved_len :: nat
  g_rcv_buf_len :: nat
  rcv_req_now :: bool
  uart :: standby_state
  locks :: wl_state
  farps_out :: "farps_event list"

text \<open>Settings and circumstances the receiver consults.\<close>

record farps_cfg =
  standby_nv :: standby_cfg
  g_FOTAing_flag :: bool
  low_vBat :: bool
  g_need_offtime :: bool
  g_Echo_mode :: bool
  operation_ver :: bool

abbreviation AT_CMD_MAX_LEN :: nat where "AT_CMD_MAX_LEN \<equiv> 128"
abbreviation AT_DATA_LIMIT :: nat where "AT_DATA_LIMIT \<equiv> 4000"

abbreviation is_blank :: "char \<Rightarrow> bool" where
  "is_blank c \<equiv> c = CR \<or> c = LF \<or> c = NUL"

definition report :: "farps_event \<Rightarrow> farps_ctx \<Rightarrow> farps_ctx" where
  "report e ctx = ctx\<lparr>farps_out := farps_out ctx @ [e]\<rparr>"

text \<open>\<^verbatim>\<open>AT_ERR_TO_PERIPHERAL\<close>: the error is remembered and written to the port at once.\<close>

definition at_err_to_peripheral :: "at_err \<Rightarrow> farps_ctx \<Rightarrow> farps_ctx" where
  "at_err_to_peripheral e ctx = report (Err_to_peripheral e) (ctx\<lparr>uart := (uart ctx)\<lparr>uart_error_no := e\<rparr>\<rparr>)"

text \<open>
  \<open>memchr\<close> looks at the bytes one after the other and may only leave the object it searches after it has
  found the character. The outer \<open>None\<close> is that fault, the inner one a character not found.
\<close>

definition memchr :: "memory \<Rightarrow> nat \<Rightarrow> char \<Rightarrow> nat \<Rightarrow> nat option option" where
  "memchr m p c n =
     (case index_of c (take n (drop p m)) of
        Some i \<Rightarrow> Some (Some (p + i))
      | None \<Rightarrow> if n = 0 \<or> p + n \<le> length m then Some None else None)"

text \<open>A string copied over the bytes from \<open>p\<close> on.\<close>

definition overwrite :: "memory \<Rightarrow> nat \<Rightarrow> string \<Rightarrow> memory" where
  "overwrite m p s = take p m @ s @ drop (p + length s) m"

section \<open>The buffer\<close>

text \<open>
  A buffer that has grown beyond 5000 bytes and is all zeroes, as the sum of its first 1250 words, means that the
  receive pin is pulled down; its contents are forgotten.
\<close>

definition word_at :: "memory \<Rightarrow> nat \<Rightarrow> u32" where
  "word_at m i = of_nat (code (peek m (4 * i)) + 256 * code (peek m (4 * i + 1)) +
     65536 * code (peek m (4 * i + 2)) + 16777216 * code (peek m (4 * i + 3)))"

definition all_zero :: "memory \<Rightarrow> bool" where
  "all_zero m = (sum_list (map (word_at m) [0..<1250]) < 255)"

definition realloc_farps_rcv_mem :: "nat \<Rightarrow> farps_ctx \<Rightarrow> farps_ctx option" where
  "realloc_farps_rcv_mem len ctx =
     (case g_farps_rcv_mem ctx of
        None \<Rightarrow> None
      | Some m \<Rightarrow>
          let (n, have_len) = (if len > 5000 + AT_CMD_MAX_LEN \<and> all_zero m then (AT_CMD_MAX_LEN, 0)
                              else (len, g_have_rcved_len ctx))
          in if have_len \<le> n \<and> have_len \<le> length m
             then Some (ctx\<lparr>g_farps_rcv_mem := Some (overwrite (zalloc n) 0 (take have_len m)),
                            g_have_rcved_len := have_len, g_rcv_buf_len := n\<rparr>)
             else None)"

text \<open>The text after leading blanks is \<^verbatim>\<open>AT+XDSEND=\<close>.\<close>

definition find_xdsend_cmd :: "memory \<Rightarrow> bool" where
  "find_xdsend_cmd m =
     (let p = skip_ptr (\<lambda>c. c = CR \<or> c = LF) m 0
      in map (peek m) [p..<p + length ''AT+XDSEND=''] = ''AT+XDSEND='')"

text \<open>
  The check before a line is taken from the buffer. Blanks in front are dropped by moving the rest forward, and the
  end of the line is searched again.
\<close>

definition first_text :: "memory \<Rightarrow> nat \<Rightarrow> nat" where
  "first_text m have_len = length (takeWhile is_blank (take have_len m))"

definition starts_AT :: "memory \<Rightarrow> nat \<Rightarrow> bool" where
  "starts_AT m k \<longleftrightarrow> peek m k \<in> {CHR ''A'', CHR ''a''} \<and> peek m (k + 1) \<in> {CHR ''T'', CHR ''t''}"

definition clean_range :: "memory \<Rightarrow> nat \<Rightarrow> nat \<Rightarrow> bool" where
  "clean_range m k have_len \<longleftrightarrow>
     (\<forall>i \<in> set [k..<have_len]. is_at_char (peek m i) \<or> peek m i = NUL \<and> i = have_len - 1)"

definition atstr_is_dirty :: "nat option \<Rightarrow> farps_ctx \<Rightarrow> (bool \<times> nat option \<times> farps_ctx) option" where
  "atstr_is_dirty pchr ctx =
     (case g_farps_rcv_mem ctx of
        None \<Rightarrow> None
      | Some m \<Rightarrow>
          let have_len = g_have_rcved_len ctx; k = first_text m have_len in
          if k = have_len then Some (False, pchr, ctx)
          else if \<not> starts_AT m k then Some (True, pchr, ctx)
          else if \<not> clean_range m k have_len then Some (True, pchr, ctx)
          else if k \<noteq> 0 then
            let n = strlen m k; m1 = overwrite m 0 (cstr m k @ [NUL]) in
            map_option (\<lambda>p. (False, p, ctx\<lparr>g_farps_rcv_mem := Some m1, g_have_rcved_len := n\<rparr>)) (memchr m1 0 CR n)
          else Some (False, pchr, ctx))"

text \<open>
  Behind the line just handled, blanks are skipped and what follows moves to the front. The copy ends at a NUL that
  is not inside the received bytes.
\<close>

definition refresh_end :: "memory \<Rightarrow> nat \<Rightarrow> nat \<Rightarrow> nat" where
  "refresh_end m p have_len = max p have_len + strlen m (max p have_len)"

definition refresh_store_atcmd :: "nat \<Rightarrow> farps_ctx \<Rightarrow> farps_ctx option" where
  "refresh_store_atcmd pchr ctx =
     (case g_farps_rcv_mem ctx of
        None \<Rightarrow> None
      | Some m \<Rightarrow>
          let have_len = g_have_rcved_len ctx;
              p = pchr + length (takeWhile is_blank (drop pchr (take have_len m)));
              q = refresh_end m p have_len
          in if q < length m
             then Some (ctx\<lparr>g_farps_rcv_mem := Some (overwrite m 0 (take (q - p) (drop p m) @ [NUL])),
                            g_have_rcved_len := q - p\<rparr>)
             else None)"

section \<open>One line\<close>

text \<open>
  The line at the front of the buffer, \<open>data_len\<close> bytes with its carriage return. The last byte serves as the
  end of the string while the line is examined.
\<close>

definition post_line :: "memory \<Rightarrow> nat \<Rightarrow> nat \<Rightarrow> farps_ctx \<Rightarrow> farps_ctx" where
  "post_line m at_str data_len ctx =
     report (To_atctl (take (data_len - at_str) (drop at_str (m[data_len - 1 := CR]))))
       (ctx\<lparr>g_farps_rcv_mem := Some (m[data_len - 1 := CR])\<rparr>)"

definition conv_check :: "memory \<Rightarrow> nat \<Rightarrow> nat \<Rightarrow> farps_ctx \<Rightarrow> farps_ctx" where
  "conv_check m at_str data_len ctx =
     (case vary_to_uppercase (Some (cstr m at_str)) of
        (True, Some s) \<Rightarrow>
          post_line (overwrite m at_str s) at_str data_len
            (ctx\<lparr>rcv_req_now := True, uart := (uart ctx)\<lparr>uart_processing := True\<rparr>\<rparr>)
      | _ \<Rightarrow> (at_err_to_peripheral ATERR_NOT_ALLOWED ctx)\<lparr>g_farps_rcv_mem := Some m\<rparr>)"

definition has_prefix :: "string \<Rightarrow> string \<Rightarrow> bool" where
  "has_prefix pre s \<longleftrightarrow> at_strncasecmp (Some s) (Some pre) (int (length pre)) = 0"

definition single_atcmd_proc :: "farps_cfg \<Rightarrow> nat \<Rightarrow> farps_ctx \<Rightarrow> (xy_ret \<times> farps_ctx) option" where
  "single_atcmd_proc cfg data_len ctx =
     (case g_farps_rcv_mem ctx of
        None \<Rightarrow> None
      | Some m \<Rightarrow>
          (case find_first_print_char m 0 data_len of
             None \<Rightarrow> Some (XY_ERR, ctx)
           | Some at_str \<Rightarrow>
               if has_prefix ''AT+XDSEND='' (cstr m at_str) then Some (XY_OK, post_line m at_str data_len ctx)
               else
                 let m1 = m[data_len - 1 := NUL]; ctx1 = ctx\<lparr>g_farps_rcv_mem := Some m1\<rparr>; s = cstr m1 at_str in do {
                   xy_assert (at_strcasecmp (Some s) (Some ''AT+ASSERT'') \<noteq> 0);
                   if has_prefix ''AT+FASTOFF'' s \<or> has_prefix ''AT+CPOF'' s
                   then Some (XY_OK, conv_check m1 at_str data_len ctx1)
                   else if g_FOTAing_flag cfg
                   then Some (XY_ERR, (at_err_to_peripheral ATERR_DOING_FOTA ctx1)
                                         \<lparr>g_farps_rcv_mem := Some (m1[data_len - 1 := CR])\<rparr>)
                   else
                     let ctx2 = (if low_vBat cfg then report Low_vbat_urc ctx1 else ctx1) in
                     if g_need_offtime cfg \<and> \<not> has_prefix ''AT+OFFTIME'' s
                     then Some (XY_ERR, at_err_to_peripheral ATERR_NEED_OFFTIME ctx2)
                     else if rcv_req_now ctx2 \<and> \<not> is_critical_req s
                     then Some (XY_ERR, (at_err_to_peripheral ATERR_CHANNEL_BUSY ctx2)
                                           \<lparr>g_farps_rcv_mem := Some (m1[data_len - 1 := CR])\<rparr>)
                     else Some (XY_OK, conv_check m1 at_str data_len ctx2)
                 }))"

section \<open>The receiver\<close>

definition drop_buffer :: "farps_ctx \<Rightarrow> farps_ctx" where
  "drop_buffer ctx = ctx\<lparr>g_farps_rcv_mem := None, g_have_rcved_len := 0, g_rcv_buf_len := 0\<rparr>"

definition standby_timer :: "farps_cfg \<Rightarrow> farps_ctx \<Rightarrow> farps_ctx" where
  "standby_timer cfg ctx = ctx\<lparr>uart := start_at_standby_timer (standby_nv cfg) (uart ctx)\<rparr>"

text \<open>What is done with a line whose end is at \<open>p\<close>, up to the next look for a line.\<close>

definition take_line :: "farps_cfg \<Rightarrow> nat \<Rightarrow> farps_ctx \<Rightarrow> farps_ctx option" where
  "take_line cfg p ctx = do {
     m \<leftarrow> g_farps_rcv_mem ctx;
     let ctx1 = ctx\<lparr>locks := set_lock_by_MCU_at (operation_ver cfg) (locks ctx)\<rparr>;
     let ctx2 = (if g_Echo_mode cfg then report (Echo (take (g_have_rcved_len ctx) m)) ctx1 else ctx1);
     (_, ctx3) \<leftarrow> single_atcmd_proc cfg (p + 1) ctx2;
     refresh_store_atcmd p ctx3
   }"

text \<open>No line is complete. \<open>fifo_empty\<close> is the answer of \<^verbatim>\<open>check_channel_fifo\<close>: nothing more is coming.\<close>

definition no_line :: "farps_cfg \<Rightarrow> bool \<Rightarrow> farps_ctx \<Rightarrow> farps_ctx option" where
  "no_line cfg fifo_empty ctx = do {
     m \<leftarrow> g_farps_rcv_mem ctx;
     if \<not> fifo_empty then Some ctx
     else if cstr m 0 \<noteq> [LF] \<and> cstr m 0 \<noteq> []
     then Some (drop_buffer (standby_timer cfg (at_err_to_peripheral ATERR_DROP_MORE ctx)))
     else Some (drop_buffer ctx)
   }"

partial_function (option) proc_again ::
    "farps_cfg \<Rightarrow> bool \<Rightarrow> nat \<Rightarrow> nat \<Rightarrow> farps_ctx \<Rightarrow> farps_ctx option" where
  "proc_again cfg fifo_empty datalen_offset data_len ctx = do {
     m \<leftarrow> g_farps_rcv_mem ctx;
     found \<leftarrow> memchr m datalen_offset CR data_len;
     (case found of
        None \<Rightarrow> no_line cfg fifo_empty ctx
      | Some p0 \<Rightarrow> do {
          (dirty, pchr, ctx1) \<leftarrow> (if find_xdsend_cmd m then Some (False, Some p0, ctx) else atstr_is_dirty (Some p0) ctx);
          if dirty then Some (drop_buffer (standby_timer cfg (at_err_to_peripheral ATERR_DROP_MORE ctx1)))
          else if g_have_rcved_len ctx1 > AT_DATA_LIMIT
          then Some (drop_buffer (at_err_to_peripheral ATERR_PARAM_INVALID ctx1))
          else
            (case pchr of
               None \<Rightarrow> proc_again cfg fifo_empty datalen_offset data_len ctx1
             | Some p \<Rightarrow> do {
                 ctx2 \<leftarrow> take_line cfg p ctx1;
                 if g_have_rcved_len ctx2 = 0 then Some (drop_buffer ctx2)
                 else proc_again cfg fifo_empty 0 (g_have_rcved_len ctx2) ctx2
               })
        })
   }"

definition store_piece :: "string \<Rightarrow> farps_ctx \<Rightarrow> farps_ctx option" where
  "store_piece buf ctx = do {
     let ctx1 = (if g_farps_rcv_mem ctx = None
                 then ctx\<lparr>g_farps_rcv_mem := Some (zalloc AT_CMD_MAX_LEN), g_rcv_buf_len := AT_CMD_MAX_LEN\<rparr> else ctx);
     ctx2 \<leftarrow> (if g_rcv_buf_len ctx1 < g_have_rcved_len ctx1 + length buf + 1
              then realloc_farps_rcv_mem (g_rcv_buf_len ctx1 + AT_CMD_MAX_LEN) ctx1 else Some ctx1);
     m \<leftarrow> g_farps_rcv_mem ctx2;
     let n = g_have_rcved_len ctx2 + length buf;
     if n < length m
     then Some (ctx2\<lparr>g_farps_rcv_mem := Some (overwrite m (g_have_rcved_len ctx2) (buf @ [NUL])), g_have_rcved_len := n\<rparr>)
     else None
   }"

definition at_recv_line :: "farps_cfg \<Rightarrow> bool \<Rightarrow> string \<Rightarrow> farps_ctx \<Rightarrow> farps_ctx option" where
  "at_recv_line cfg fifo_empty buf ctx = do {
     let ctx1 = ctx\<lparr>uart := at_standby_set (standby_nv cfg) (uart ctx)\<rparr>;
     ctx2 \<leftarrow> store_piece buf ctx1;
     proc_again cfg fifo_empty (g_have_rcved_len ctx) (length buf) ctx2
   }"

text \<open>While a hook is set, the piece is data of a transparent transmission.\<close>

definition at_recv_from_uart ::
    "farps_cfg \<Rightarrow> bool \<Rightarrow> string \<Rightarrow> passthr_state \<times> farps_ctx \<Rightarrow> (passthr_state \<times> farps_ctx) option" where
  "at_recv_from_uart cfg fifo_empty buf s =
     (if g_at_passthr_hook (fst s) \<noteq> None
      then map_option (\<lambda>pst. (pst, snd s)) (passthr_rcv fifo_empty buf (fst s))
      else map_option (Pair (fst s)) (at_recv_line cfg fifo_empty buf (snd s)))"

end
