(* ===== verification/At_Farps_Lines.thy ===== *)
theory At_Farps_Lines
  imports At_Farps
begin

text \<open>
  One line of the receive buffer of \<^verbatim>\<open>at_farps_channel.c\<close>: how a stream falls into lines, what a line does, given
  as text, and that the operations on the buffer do just this.
\<close>

section \<open>Lines of a stream\<close>

fun to_lines :: "string \<Rightarrow> string list \<times> string" where
  "to_lines [] = ([], [])"
| "to_lines (x # xs) =
     (let (ls, r) = to_lines xs in
      if x = CR then ([] # ls, r) else case ls of [] \<Rightarrow> ([], x # r) | l # ls' \<Rightarrow> ((x # l) # ls', r))"

abbreviation strip :: "string \<Rightarrow> string" where
  "strip l \<equiv> dropWhile (\<lambda>c. c = LF) l"

lemma to_lines_no_CR: "CR \<notin> set s \<Longrightarrow> to_lines s = ([], s)"
  by (induction s) auto

lemma to_lines_line: "CR \<notin> set l \<Longrightarrow> to_lines (l @ CR # s) = (l # fst (to_lines s), snd (to_lines s))"
  by (induction l) (auto split: prod.splits)

lemma to_lines_append: "to_lines (s @ s') =
   (let (ls, r) = to_lines s; (ls', r') = to_lines (r @ s') in (ls @ ls', r'))"
proof (induction s)
  case Nil
  then show ?case by (simp split: prod.splits)
next
  case (Cons x s)
  obtain ls r where a: "to_lines s = (ls, r)" by (cases "to_lines s")
  obtain ls' r' where b: "to_lines (r @ s') = (ls', r')" by (cases "to_lines (r @ s')")
  have c: "to_lines (s @ s') = (ls @ ls', r')" using Cons.IH by (simp add: a b)
  show ?case
  proof (cases "x \<noteq> CR \<and> ls = []")
    case True
    then show ?thesis using a b c by (simp split: list.splits)
  next
    case False
    then show ?thesis using a b c by (auto split: list.splits)
  qed
qed

lemma to_lines_lines: "CR \<in> set s \<Longrightarrow>
  \<exists>l s'. s = l @ CR # s' \<and> CR \<notin> set l \<and> to_lines s = (l # fst (to_lines s'), snd (to_lines s'))"
  using split_list_first [of CR s] to_lines_line by metis

lemma no_lines:
  assumes "fst (to_lines s) = []"
  shows "snd (to_lines s) = s"
proof (cases "CR \<in> set s")
  case True
  from to_lines_lines [OF this] show ?thesis using assms by auto
next
  case False
  then show ?thesis by (simp add: to_lines_no_CR)
qed

lemma to_lines_LF: "set g \<subseteq> {LF} \<Longrightarrow> to_lines (g @ s) =
   (case fst (to_lines s) of [] \<Rightarrow> ([], g @ s) | l # ls \<Rightarrow> ((g @ l) # ls, snd (to_lines s)))"
proof (cases "CR \<in> set s")
  case True
  assume g: "set g \<subseteq> {LF}"
  from to_lines_lines [OF True] obtain l s' where
    s: "s = l @ CR # s'" "CR \<notin> set l" "to_lines s = (l # fst (to_lines s'), snd (to_lines s'))" by blast
  have "CR \<notin> set (g @ l)" using g s(2) by auto
  from to_lines_line [OF this, of s'] have "to_lines (g @ s) = ((g @ l) # fst (to_lines s'), snd (to_lines s'))" by (simp add: s(1))
  then show ?thesis using s(3) by simp
next
  case False
  assume g: "set g \<subseteq> {LF}"
  have "CR \<notin> set (g @ s)" using g False by auto
  then show ?thesis using to_lines_no_CR [OF False] by (simp add: to_lines_no_CR)
qed

lemma strip_split: "\<exists>g. l = g @ strip l \<and> set g \<subseteq> {LF}"
  by (rule exI [of _ "takeWhile (\<lambda>c. c = LF) l"]) (auto dest: set_takeWhileD)

lemma strip_append_LF: "set g \<subseteq> {LF} \<Longrightarrow> strip (g @ l) = strip l"
  by (auto simp: dropWhile_append)

section \<open>What a line does\<close>

text \<open>
  The effect of one line, given as text: the lock taken on behalf of the MCU, and whether the line is
  posted to the control task, refused, or stops the chip.
\<close>

record line_view =
  busy :: bool
  mcu_locks :: wl_state
  posted :: "farps_event list"

definition view :: "farps_ctx \<Rightarrow> line_view" where
  "view ctx = \<lparr>busy = rcv_req_now ctx, mcu_locks = locks ctx, posted = farps_out ctx\<rparr>"

definition post :: "farps_event \<Rightarrow> line_view \<Rightarrow> line_view" where
  "post e v = v\<lparr>posted := posted v @ [e]\<rparr>"

definition accept :: "string \<Rightarrow> line_view \<Rightarrow> line_view" where
  "accept l v = post (To_atctl (upper_loop l @ [CR])) (v\<lparr>busy := True\<rparr>)"

definition decide :: "farps_cfg \<Rightarrow> string \<Rightarrow> line_view \<Rightarrow> line_view option" where
  "decide cfg l v =
     (if has_prefix ''AT+XDSEND='' l then Some (post (To_atctl (l @ [CR])) v)
      else if at_strcasecmp (Some l) (Some ''AT+ASSERT'') = 0 then None
      else if has_prefix ''AT+FASTOFF'' l \<or> has_prefix ''AT+CPOF'' l then Some (accept l v)
      else if g_FOTAing_flag cfg then Some (post (Err_to_peripheral ATERR_DOING_FOTA) v)
      else
        let v1 = (if low_vBat cfg then post Low_vbat_urc v else v) in
        if g_need_offtime cfg \<and> \<not> has_prefix ''AT+OFFTIME'' l then Some (post (Err_to_peripheral ATERR_NEED_OFFTIME) v1)
        else if busy v1 \<and> \<not> is_critical_req l then Some (post (Err_to_peripheral ATERR_CHANNEL_BUSY) v1)
        else Some (accept l v1))"

definition serve :: "farps_cfg \<Rightarrow> string \<Rightarrow> line_view \<Rightarrow> line_view option" where
  "serve cfg l v = decide cfg l (v\<lparr>mcu_locks := set_lock_by_MCU_at (operation_ver cfg) (mcu_locks v)\<rparr>)"

fun serve_lines :: "farps_cfg \<Rightarrow> string list \<Rightarrow> line_view \<Rightarrow> line_view option" where
  "serve_lines cfg [] v = Some v"
| "serve_lines cfg (l # ls) v = (case serve cfg (strip l) v of None \<Rightarrow> None | Some v1 \<Rightarrow> serve_lines cfg ls v1)"

lemma serve_lines_append:
  "serve_lines cfg (xs @ ys) v = (case serve_lines cfg xs v of None \<Rightarrow> None | Some v1 \<Rightarrow> serve_lines cfg ys v1)"
  by (induction xs arbitrary: v) (auto split: option.splits)

text \<open>A line of printable characters that begins with \<^verbatim>\<open>AT\<close>.\<close>

definition at_text :: "string \<Rightarrow> bool" where
  "at_text l \<longleftrightarrow> starts_AT l 0 \<and> (\<forall>c \<in> set l. is_at_char c \<and> c \<noteq> CR)"

definition wf_stream :: "string \<Rightarrow> bool" where
  "wf_stream s \<longleftrightarrow> (\<forall>c \<in> set s. is_at_char c) \<and> (\<forall>l \<in> set (fst (to_lines s)). at_text (strip l))"


section \<open>The buffer holds a text\<close>

definition stored :: "string \<Rightarrow> farps_ctx \<Rightarrow> bool" where
  "stored s ctx \<longleftrightarrow> (\<exists>t. g_farps_rcv_mem ctx = Some (s @ NUL # t) \<and> g_have_rcved_len ctx = length s \<and>
     g_rcv_buf_len ctx = length (s @ NUL # t)) \<and> g_rcv_buf_len ctx \<le> 4128"

definition no_buffer :: "farps_ctx \<Rightarrow> bool" where
  "no_buffer ctx \<longleftrightarrow> g_farps_rcv_mem ctx = None \<and> g_have_rcved_len ctx = 0 \<and> g_rcv_buf_len ctx = 0"

text \<open>Line feeds in front of an incomplete line may already be gone from the buffer.\<close>

definition pending :: "string \<Rightarrow> farps_ctx \<Rightarrow> bool" where
  "pending p ctx \<longleftrightarrow> (\<exists>g s. p = g @ s \<and> set g \<subseteq> {LF} \<and> (s = [] \<and> no_buffer ctx \<or> stored s ctx))"

lemma overwrite_append: "length s = length a \<Longrightarrow> overwrite (b @ a @ c) (length b) s = b @ s @ c"
  by (simp add: overwrite_def)

lemma overwrite_front: "overwrite m 0 s = s @ drop (length s) m"
  by (simp add: overwrite_def)

lemma length_overwrite_front: "length s \<le> length m \<Longrightarrow> length (overwrite m 0 s) = length m"
  by (simp add: overwrite_def)

lemma drop_buffer_no_buffer [simp]: "no_buffer (drop_buffer ctx)" "view (drop_buffer ctx) = view ctx"
  by (simp_all add: drop_buffer_def no_buffer_def view_def)

lemma at_char_not_NUL: "is_at_char c \<Longrightarrow> c \<noteq> NUL"
  by (auto simp: is_at_char_def code_def)

lemma zalloc_Suc: "zalloc (Suc n) = NUL # zalloc n"
  by (simp add: zalloc_def)

lemma drop_zalloc: "drop k (zalloc n) = zalloc (n - k)"
  by (simp add: zalloc_def)

lemma length_zalloc [simp]: "length (zalloc n) = n"
  by (simp add: zalloc_def)

lemma storedI: "g_farps_rcv_mem ctx = Some m \<Longrightarrow> m = s @ NUL # t \<Longrightarrow> g_have_rcved_len ctx = length s \<Longrightarrow>
    g_rcv_buf_len ctx = length m \<Longrightarrow> g_rcv_buf_len ctx \<le> 4128 \<Longrightarrow> stored s ctx"
  by (auto simp: stored_def)

lemma realloc_stored:
  assumes "stored s ctx" "g_rcv_buf_len ctx \<le> 4000"
  shows "\<exists>ctx2. realloc_farps_rcv_mem (g_rcv_buf_len ctx + AT_CMD_MAX_LEN) ctx = Some ctx2 \<and> stored s ctx2 \<and>
    view ctx2 = view ctx \<and> g_rcv_buf_len ctx2 = g_rcv_buf_len ctx + AT_CMD_MAX_LEN"
proof -
  obtain t where t: "g_farps_rcv_mem ctx = Some (s @ NUL # t)" "g_have_rcved_len ctx = length s"
    "g_rcv_buf_len ctx = length (s @ NUL # t)" using assms(1) by (auto simp: stored_def)
  let ?n = "length (s @ NUL # t) + AT_CMD_MAX_LEN"
  let ?c = "ctx\<lparr>g_farps_rcv_mem := Some (overwrite (zalloc ?n) 0 s), g_have_rcved_len := length s, g_rcv_buf_len := ?n\<rparr>"
  have r: "realloc_farps_rcv_mem (g_rcv_buf_len ctx + AT_CMD_MAX_LEN) ctx = Some ?c"
    using assms(2) t by (simp add: realloc_farps_rcv_mem_def)
  have "overwrite (zalloc ?n) 0 s = s @ NUL # zalloc (?n - length s - 1)"
    by (simp add: overwrite_front drop_zalloc zalloc_Suc [symmetric])
  then have "stored s ?c" using assms(2) t by (intro storedI) auto
  then show ?thesis using r t by (auto simp: view_def)
qed

lemma write_stored:
  assumes "stored s ctx" "g_farps_rcv_mem ctx = Some m" "length s + length c < length m"
  shows "stored (s @ c) (ctx\<lparr>g_farps_rcv_mem := Some (overwrite m (length s) (c @ [NUL])), g_have_rcved_len := length s + length c\<rparr>)"
proof -
  obtain t where t: "m = s @ NUL # t" "g_rcv_buf_len ctx = length m" "g_rcv_buf_len ctx \<le> 4128"
    using assms(1,2) by (auto simp: stored_def)
  have "overwrite m (length s) (c @ [NUL]) = (s @ c) @ NUL # drop (length s + length c + 1) m"
    using t(1) by (simp add: overwrite_def)
  moreover have "length (overwrite m (length s) (c @ [NUL])) = length m" using assms(3) t(1) by (simp add: overwrite_def)
  ultimately show ?thesis using t by (intro storedI) auto
qed

lemma store_piece_stored:
  assumes "stored s ctx \<or> s = [] \<and> no_buffer ctx" "length c \<le> 100" "length s + length c \<le> 3999"
  shows "\<exists>ctx2. store_piece c ctx = Some ctx2 \<and> stored (s @ c) ctx2 \<and> view ctx2 = view ctx"
proof -
  let ?c1 = "if g_farps_rcv_mem ctx = None
     then ctx\<lparr>g_farps_rcv_mem := Some (zalloc AT_CMD_MAX_LEN), g_rcv_buf_len := AT_CMD_MAX_LEN\<rparr> else ctx"
  have c1: "stored s ?c1" "view ?c1 = view ctx"
    using assms(1) zalloc_Suc [of 127] by (auto simp: no_buffer_def view_def stored_def)
  then obtain m where m: "g_farps_rcv_mem ?c1 = Some m" "g_have_rcved_len ?c1 = length s" "g_rcv_buf_len ?c1 = length m"
    "length s < length m" by (auto simp: stored_def)
  have "\<exists>ctx2 m2. (if g_rcv_buf_len ?c1 < g_have_rcved_len ?c1 + length c + 1
       then realloc_farps_rcv_mem (g_rcv_buf_len ?c1 + AT_CMD_MAX_LEN) ?c1 else Some ?c1) = Some ctx2 \<and>
     stored s ctx2 \<and> view ctx2 = view ctx \<and> g_farps_rcv_mem ctx2 = Some m2 \<and> g_have_rcved_len ctx2 = length s \<and>
     length s + length c < length m2"
  proof (cases "length m < length s + length c + 1")
    case True
    then have "g_rcv_buf_len ?c1 \<le> 4000" using m(3) assms(3) by simp
    from realloc_stored [OF c1(1) this] obtain ctx2 where r:
      "realloc_farps_rcv_mem (g_rcv_buf_len ?c1 + AT_CMD_MAX_LEN) ?c1 = Some ctx2" "stored s ctx2" "view ctx2 = view ?c1"
      "g_rcv_buf_len ctx2 = g_rcv_buf_len ?c1 + AT_CMD_MAX_LEN" by blast
    obtain m2 where "g_farps_rcv_mem ctx2 = Some m2" "g_have_rcved_len ctx2 = length s" "g_rcv_buf_len ctx2 = length m2"
      using r(2) by (auto simp: stored_def)
    then show ?thesis using r True m c1(2) assms(2) by (simp del: if_split) 
  next
    case False
    then show ?thesis using m c1 by (simp del: if_split)
  qed
  then obtain ctx2 m2 where g: "(if g_rcv_buf_len ?c1 < g_have_rcved_len ?c1 + length c + 1
       then realloc_farps_rcv_mem (g_rcv_buf_len ?c1 + AT_CMD_MAX_LEN) ?c1 else Some ?c1) = Some ctx2"
     "stored s ctx2" "view ctx2 = view ctx" "g_farps_rcv_mem ctx2 = Some m2" "g_have_rcved_len ctx2 = length s"
     "length s + length c < length m2" by blast
  have "store_piece c ctx = Some (ctx2\<lparr>g_farps_rcv_mem := Some (overwrite m2 (length s) (c @ [NUL])), g_have_rcved_len := length s + length c\<rparr>)"
    unfolding store_piece_def Let_def g(1) using g(4-6) by simp
  then show ?thesis using write_stored [OF g(2,4,6)] g(3) by (auto simp: view_def)
qed

section \<open>One line of the buffer\<close>

lemma lower_code_eq: "lower_code c = 13 \<longleftrightarrow> c = CR" "lower_code c = 0 \<longleftrightarrow> c = NUL"
proof -
  have "code CR = 13" "code NUL = 0" by (simp_all add: code_def)
  then show "lower_code c = 13 \<longleftrightarrow> c = CR" "lower_code c = 0 \<longleftrightarrow> c = NUL"
    using code_inj [of c CR] code_inj [of c NUL] by (auto simp: lower_code_def isupper_def)
qed

lemma strncase_CR:
  assumes "CR \<notin> set pre" "NUL \<notin> set pre" "pre \<noteq> []"
  shows "strncase_loop (l @ CR # x) pre (length pre) = 0 \<longleftrightarrow> strncase_loop l pre (length pre) = 0"
  using assms
proof (induction pre arbitrary: l)
  case Nil
  then show ?case by simp
next
  case (Cons a pre)
  show ?case
  proof (cases l)
    case Nil
    then show ?thesis using Cons.prems lower_code_eq [of a] lower_code_eq [of CR] by auto
  next
    case (Cons b l')
    show ?thesis
    proof (cases "pre = []")
      case True
      then show ?thesis using Cons by simp
    next
      case False
      have ih: "strncase_loop (l' @ CR # x) pre (length pre) = 0 \<longleftrightarrow> strncase_loop l' pre (length pre) = 0"
        using Cons.IH Cons.prems False by simp
      show ?thesis using ih False unfolding local.Cons by (simp add: Let_def)
    qed
  qed
qed

lemma has_prefix_CR:
  assumes "CR \<notin> set pre" "NUL \<notin> set pre" "pre \<noteq> []"
  shows "has_prefix pre (l @ CR # x) \<longleftrightarrow> has_prefix pre l"
  using strncase_CR [OF assms, of l x] assms(3) by (simp add: has_prefix_def at_strncasecmp_def)

lemma first_print_at:
  assumes "\<forall>i < k. code (peek m i) < 33" "33 \<le> code (peek m k)" "code (peek m k) \<le> 125" "k < lim" "i \<le> k"
  shows "first_print m i lim = k"
  using assms(5)
proof (induction "k - i" arbitrary: i)
  case 0
  then show ?case using assms by (subst first_print.simps) auto
next
  case (Suc n)
  then have "i < k" by simp
  then show ?case using Suc assms by (subst first_print.simps) auto
qed

lemma starts_AT_code:
  assumes "starts_AT l 0"
  shows "33 \<le> code (l ! 0)" "code (l ! 0) \<le> 125" "2 \<le> length l" "\<not> is_blank (l ! 0)" "l \<noteq> []"
proof -
  have "2 \<le> length l"
    using assms by (cases l; cases "tl l") (auto simp: starts_AT_def peek_def split: if_splits)
  moreover from this have "l ! 0 \<in> {CHR ''A'', CHR ''a''}" using assms by (simp add: starts_AT_def peek_def split: if_splits)
  ultimately show "33 \<le> code (l ! 0)" "code (l ! 0) \<le> 125" "2 \<le> length l" "\<not> is_blank (l ! 0)" "l \<noteq> []"
    by (auto simp: code_def)
qed

lemma first_print_line:
  assumes "set g \<subseteq> {LF}" "at_text l"
  shows "find_first_print_char (g @ l @ CR # x) 0 (length g + length l + 1) = Some (length g)"
proof -
  have at: "33 \<le> code (l ! 0)" "code (l ! 0) \<le> 125" "l \<noteq> []" using starts_AT_code assms(2) by (auto simp: at_text_def)
  have "\<forall>i < length g. code (peek (g @ l @ CR # x) i) < 33"
  proof (intro allI impI)
    fix i assume i: "i < length g"
    then have "g ! i = LF" using assms(1) nth_mem by blast
    then show "code (peek (g @ l @ CR # x) i) < 33" using i by (simp add: peek_def nth_append code_def)
  qed
  moreover have "peek (g @ l @ CR # x) (length g) = l ! 0" using at(3) by (simp add: peek_def nth_append)
  ultimately have "first_print (g @ l @ CR # x) 0 (length g + length l + 1) = length g"
    using at by (intro first_print_at) auto
  then show ?thesis by (simp add: find_first_print_char_def)
qed

lemma length_upper_loop [simp]: "length (upper_loop l) = length l"
  by (induction l) auto

lemma post_line_at:
  assumes "length g + length l + 1 = n"
  shows "post_line (g @ l @ x # t) (length g) n ctx =
    report (To_atctl (l @ [CR])) (ctx\<lparr>g_farps_rcv_mem := Some (g @ l @ CR # t)\<rparr>)"
  unfolding post_line_def assms [symmetric] by (simp add: list_update_append)

lemma conv_check_at:
  assumes "NUL \<notin> set l" "length g + length l + 1 = n"
  shows "conv_check (g @ l @ NUL # t) (length g) n ctx =
    report (To_atctl (upper_loop l @ [CR])) (ctx\<lparr>rcv_req_now := True, uart := (uart ctx)\<lparr>uart_processing := True\<rparr>,
      g_farps_rcv_mem := Some (g @ upper_loop l @ CR # t)\<rparr>)"
proof -
  have "cstr (g @ l @ NUL # t) (length g) = l" using assms(1) by (simp add: cstr_of_append)
  moreover have "overwrite (g @ l @ NUL # t) (length g) (upper_loop l) = g @ upper_loop l @ NUL # t"
    by (simp add: overwrite_append)
  ultimately show ?thesis using assms(2) by (simp add: conv_check_def vary_to_uppercase_def post_line_at)
qed

text \<open>After a line its place in the buffer holds as many characters and a blank, the rest is as it was.\<close>

definition line_done :: "string \<Rightarrow> string \<Rightarrow> string \<Rightarrow> farps_ctx \<Rightarrow> farps_ctx \<Rightarrow> bool" where
  "line_done g l t ctx ctx1 \<longleftrightarrow>
     (\<exists>l1 x. g_farps_rcv_mem ctx1 = Some (g @ l1 @ x # t) \<and> length l1 = length l \<and> is_blank x) \<and>
     g_have_rcved_len ctx1 = g_have_rcved_len ctx \<and> g_rcv_buf_len ctx1 = g_rcv_buf_len ctx"

lemma single_atcmd_proc_line:
  assumes m: "g_farps_rcv_mem ctx = Some (g @ l @ CR # t)" and g: "set g \<subseteq> {LF}" and l: "at_text l"
  shows "case decide cfg l (view ctx) of
      None \<Rightarrow> single_atcmd_proc cfg (length g + length l + 1) ctx = None
    | Some v \<Rightarrow> \<exists>r ctx1. single_atcmd_proc cfg (length g + length l + 1) ctx = Some (r, ctx1) \<and> view ctx1 = v \<and>
        line_done g l t ctx ctx1"
proof -
  let ?n = "length g + length l + 1"
  have nul: "NUL \<notin> set l" using l at_char_not_NUL by (auto simp: at_text_def)
  have c: "cstr (g @ l @ CR # t) (length g) = l @ CR # takeWhile (\<lambda>c. c \<noteq> NUL) t"
    using nul by (auto simp: cstr_def takeWhile_append)
  have m1: "(g @ l @ CR # t)[?n - 1 := NUL] = g @ l @ NUL # t" by (simp add: list_update_append)
  have m2: "(g @ l @ NUL # t)[?n - 1 := CR] = g @ l @ CR # t" by (simp add: list_update_append)
  have s: "cstr (g @ l @ NUL # t) (length g) = l" using nul by (simp add: cstr_of_append)
  have x: "has_prefix ''AT+XDSEND='' (cstr (g @ l @ CR # t) (length g)) \<longleftrightarrow> has_prefix ''AT+XDSEND='' l"
    unfolding c by (rule has_prefix_CR) auto
  note step = single_atcmd_proc_def m option.case first_print_line [OF g l] x m1 s Let_def m2
  have d: "line_done g l t ctx (report (To_atctl (l @ [CR])) (ctx\<lparr>g_farps_rcv_mem := Some (g @ l @ CR # t)\<rparr>))"
    by (auto simp: line_done_def report_def)
  have u: "line_done g l t ctx (c1\<lparr>g_farps_rcv_mem := Some (g @ upper_loop l @ CR # t)\<rparr>)"
    "line_done g l t ctx (c1\<lparr>g_farps_rcv_mem := Some (g @ l @ CR # t)\<rparr>)"
    "line_done g l t ctx (c1\<lparr>g_farps_rcv_mem := Some (g @ l @ NUL # t)\<rparr>)"
    if "g_have_rcved_len c1 = g_have_rcved_len ctx" "g_rcv_buf_len c1 = g_rcv_buf_len ctx" for c1
    unfolding line_done_def using that length_upper_loop [of l] by (auto intro!: exI [of _ "upper_loop l"] exI [of _ CR])
  let ?c1 = "ctx\<lparr>g_farps_rcv_mem := Some (g @ l @ NUL # t)\<rparr>"
  let ?c2 = "if low_vBat cfg then report Low_vbat_urc ?c1 else ?c1"
  have conv: "view (conv_check (g @ l @ NUL # t) (length g) ?n c) = accept l (view c)"
    "g_have_rcved_len c = g_have_rcved_len ctx \<Longrightarrow> g_rcv_buf_len c = g_rcv_buf_len ctx \<Longrightarrow>
       line_done g l t ctx (conv_check (g @ l @ NUL # t) (length g) ?n c)" for c
    using conv_check_at [OF nul refl, of g t c] u(1) [of c]
    by (simp_all add: view_def accept_def post_def report_def line_done_def)
  have v2: "view ?c2 = (if low_vBat cfg then post Low_vbat_urc (view ctx) else view ctx)" "busy (view ctx) = rcv_req_now ctx"
    "rcv_req_now ?c2 = rcv_req_now ctx" "g_have_rcved_len ?c2 = g_have_rcved_len ctx" "g_rcv_buf_len ?c2 = g_rcv_buf_len ctx"
    "g_farps_rcv_mem ?c2 = Some (g @ l @ NUL # t)"
    by (simp_all add: view_def report_def post_def)
  have v1: "view ?c1 = view ctx" by (simp add: view_def)
  have e: "view (at_err_to_peripheral er c) = post (Err_to_peripheral er) (view c)"
    "view (c\<lparr>g_farps_rcv_mem := mm\<rparr>) = view c"
    "g_farps_rcv_mem (at_err_to_peripheral er c) = g_farps_rcv_mem c"
    "g_have_rcved_len (at_err_to_peripheral er c) = g_have_rcved_len c"
    "g_rcv_buf_len (at_err_to_peripheral er c) = g_rcv_buf_len c" for er c mm
    by (simp_all add: view_def post_def report_def at_err_to_peripheral_def)
  have plain: "c\<lparr>g_farps_rcv_mem := Some (g @ l @ NUL # t)\<rparr> = c" if "g_farps_rcv_mem c = Some (g @ l @ NUL # t)" for c :: farps_ctx
    using that by simp
  have lv: "busy (if low_vBat cfg then post Low_vbat_urc (view ctx) else view ctx) = rcv_req_now ctx"
    by (simp add: view_def post_def)
  consider "has_prefix ''AT+XDSEND='' l"
    | "\<not> has_prefix ''AT+XDSEND='' l" "at_strcasecmp (Some l) (Some ''AT+ASSERT'') = 0"
    | "\<not> has_prefix ''AT+XDSEND='' l" "at_strcasecmp (Some l) (Some ''AT+ASSERT'') \<noteq> 0"
      "has_prefix ''AT+FASTOFF'' l \<or> has_prefix ''AT+CPOF'' l"
    | "\<not> has_prefix ''AT+XDSEND='' l" "at_strcasecmp (Some l) (Some ''AT+ASSERT'') \<noteq> 0"
      "\<not> (has_prefix ''AT+FASTOFF'' l \<or> has_prefix ''AT+CPOF'' l)" "g_FOTAing_flag cfg"
    | "\<not> has_prefix ''AT+XDSEND='' l" "at_strcasecmp (Some l) (Some ''AT+ASSERT'') \<noteq> 0"
      "\<not> (has_prefix ''AT+FASTOFF'' l \<or> has_prefix ''AT+CPOF'' l)" "\<not> g_FOTAing_flag cfg"
    by blast
  then show ?thesis
  proof cases
    case 1
    have "view (report (To_atctl (l @ [CR])) (ctx\<lparr>g_farps_rcv_mem := Some (g @ l @ CR # t)\<rparr>)) = post (To_atctl (l @ [CR])) (view ctx)"
      by (simp add: view_def post_def report_def)
    then show ?thesis unfolding step decide_def using 1 d post_line_at [of g l ?n CR t ctx] by simp
  next
    case 2
    then show ?thesis unfolding step decide_def by simp
  next
    case 3
    then show ?thesis unfolding step decide_def using conv [of ?c1] v1 by simp
  next
    case 4
    then show ?thesis unfolding step decide_def using u(2) [of "at_err_to_peripheral ATERR_DOING_FOTA ?c1"] v1 by (simp add: e)
  next
    case 5
    let ?e = "at_err_to_peripheral ATERR_NEED_OFFTIME ?c2"
    have m5: "line_done g l t ctx ?e"
      using u(3) [of ?e] plain [of ?e] v2(4-6) by (simp only: e)
    have b5: "line_done g l t ctx ((at_err_to_peripheral ATERR_CHANNEL_BUSY ?c2)\<lparr>g_farps_rcv_mem := Some (g @ l @ CR # t)\<rparr>)"
      using u(2) [of "at_err_to_peripheral ATERR_CHANNEL_BUSY ?c2"] v2(4,5) by (simp only: e)
    have r: "single_atcmd_proc cfg ?n ctx =
        (if g_need_offtime cfg \<and> \<not> has_prefix ''AT+OFFTIME'' l then Some (XY_ERR, ?e)
         else if rcv_req_now ctx \<and> \<not> is_critical_req l
         then Some (XY_ERR, (at_err_to_peripheral ATERR_CHANNEL_BUSY ?c2)\<lparr>g_farps_rcv_mem := Some (g @ l @ CR # t)\<rparr>)
         else Some (XY_OK, conv_check (g @ l @ NUL # t) (length g) ?n ?c2))"
      unfolding step v2(3) using 5 by (simp only: if_False xy_assert_simps not_True_eq_False not_False_eq_True Option.bind.bind_lunit)
    have q: "decide cfg l (view ctx) =
        (if g_need_offtime cfg \<and> \<not> has_prefix ''AT+OFFTIME'' l then Some (post (Err_to_peripheral ATERR_NEED_OFFTIME) (view ?c2))
         else if rcv_req_now ctx \<and> \<not> is_critical_req l then Some (post (Err_to_peripheral ATERR_CHANNEL_BUSY) (view ?c2))
         else Some (accept l (view ?c2)))"
      unfolding decide_def Let_def lv v2(1) using 5 by (simp only: if_False)
    have w: "\<exists>r c. Some (a, d) = Some (r, c) \<and> view c = v \<and> line_done g l t ctx c"
      if "view d = v" "line_done g l t ctx d" for a d v using that by blast
    note n = w [OF e(1) [of ATERR_NEED_OFFTIME ?c2] m5] w [OF trans [OF e(2) e(1) [of ATERR_CHANNEL_BUSY ?c2]] b5]
      w [OF conv(1) conv(2) [OF v2(4,5)]]
    show ?thesis
    proof (cases "g_need_offtime cfg \<and> \<not> has_prefix ''AT+OFFTIME'' l")
      case True
      show ?thesis unfolding r q if_P [OF True] option.case by (rule n(1))
    next
      case nb: False
      show ?thesis
      proof (cases "rcv_req_now ctx \<and> \<not> is_critical_req l")
        case True
        show ?thesis unfolding r q if_not_P [OF nb] if_P [OF True] option.case by (rule n(2))
      next
        case False
        show ?thesis unfolding r q if_not_P [OF nb] if_not_P [OF False] option.case by (rule n(3))
      qed
    qed
  qed
qed

lemma refresh_line:
  assumes m: "g_farps_rcv_mem ctx = Some (a @ x # s @ NUL # u)" and x: "is_blank x"
    and n: "g_have_rcved_len ctx = length a + 1 + length s" "g_rcv_buf_len ctx = length (a @ x # s @ NUL # u)" "g_rcv_buf_len ctx \<le> 4128"
  shows "\<exists>ctx1. refresh_store_atcmd (length a) ctx = Some ctx1 \<and> stored (dropWhile is_blank s) ctx1 \<and> view ctx1 = view ctx"
proof -
  let ?m = "a @ x # s @ NUL # u" and ?k = "length (takeWhile is_blank s)"
  let ?p = "length a + length (takeWhile is_blank (drop (length a) (take (length a + 1 + length s) ?m)))"
  have p: "?p = length a + 1 + ?k" using x by simp
  have k: "?k \<le> length s" by (rule length_takeWhile_le)
  have "drop (length a + 1 + length s) ?m = NUL # u" by simp
  then have "strlen ?m (length a + 1 + length s) = 0" by (simp add: strlen_def cstr_def)
  then have q: "refresh_end ?m ?p (length a + 1 + length s) = length a + 1 + length s"
    unfolding p refresh_end_def using k by simp
  have e: "length a + 1 + length s - ?p = length (dropWhile is_blank s)"
    unfolding p using k by (simp add: dropWhile_eq_drop)
  have d: "take (length (dropWhile is_blank s)) (drop ?p ?m) = dropWhile is_blank s"
    unfolding e [symmetric] unfolding p using k by (simp add: dropWhile_eq_drop)
  let ?c = "ctx\<lparr>g_farps_rcv_mem := Some (overwrite ?m 0 (dropWhile is_blank s @ [NUL])),
    g_have_rcved_len := length (dropWhile is_blank s)\<rparr>"
  have r: "refresh_store_atcmd (length a) ctx = Some ?c"
    unfolding refresh_store_atcmd_def m option.case n(1) Let_def q d e by simp
  have l: "length (dropWhile is_blank s) \<le> length s" by (rule length_dropWhile_le)
  have "stored (dropWhile is_blank s) ?c"
  proof (rule storedI)
    show "overwrite ?m 0 (dropWhile is_blank s @ [NUL]) = dropWhile is_blank s @ NUL # drop (length (dropWhile is_blank s) + 1) ?m"
      by (simp add: overwrite_front)
    have "length (dropWhile is_blank s @ [NUL]) \<le> length ?m" using l by simp
    then have "length (overwrite ?m 0 (dropWhile is_blank s @ [NUL])) = length ?m" by (rule length_overwrite_front)
    then show "g_rcv_buf_len ?c = length (overwrite ?m 0 (dropWhile is_blank s @ [NUL]))" using n(2) by simp
  qed (use n(3) in simp_all)
  then show ?thesis using r by (auto simp: view_def)
qed

lemma take_line_stored:
  assumes m: "g_farps_rcv_mem ctx = Some (g @ l @ CR # s @ NUL # u)" and g: "set g \<subseteq> {LF}" and l: "at_text l"
    and n: "g_have_rcved_len ctx = length (g @ l @ CR # s)" "g_rcv_buf_len ctx = length (g @ l @ CR # s @ NUL # u)"
      "g_rcv_buf_len ctx \<le> 4128"
    and echo: "\<not> g_Echo_mode cfg"
  shows "case serve cfg l (view ctx) of
      None \<Rightarrow> take_line cfg (length g + length l) ctx = None
    | Some v \<Rightarrow> \<exists>ctx1. take_line cfg (length g + length l) ctx = Some ctx1 \<and> view ctx1 = v \<and> stored (dropWhile is_blank s) ctx1"
proof -
  let ?c = "ctx\<lparr>locks := set_lock_by_MCU_at (operation_ver cfg) (locks ctx)\<rparr>"
  have mc: "g_farps_rcv_mem ?c = Some (g @ l @ CR # s @ NUL # u)" using m by simp
  have t: "take_line cfg (length g + length l) ctx =
      Option.bind (single_atcmd_proc cfg (length g + length l + 1) ?c) (\<lambda>(_, c). refresh_store_atcmd (length g + length l) c)"
    using m echo by (simp add: take_line_def)
  have v: "serve cfg l (view ctx) = decide cfg l (view ?c)" by (simp add: serve_def view_def)
  note d = single_atcmd_proc_line [OF mc g l, of cfg]
  show ?thesis
  proof (cases "decide cfg l (view ?c)")
    case None
    then show ?thesis using d t v by simp
  next
    case (Some w)
    then obtain r c1 where c1: "single_atcmd_proc cfg (length g + length l + 1) ?c = Some (r, c1)" "view c1 = w"
      "line_done g l (s @ NUL # u) ?c c1" using d by auto
    then obtain l1 x where x: "g_farps_rcv_mem c1 = Some ((g @ l1) @ x # s @ NUL # u)" "length l1 = length l" "is_blank x"
      "g_have_rcved_len c1 = g_have_rcved_len ctx" "g_rcv_buf_len c1 = g_rcv_buf_len ctx" by (auto simp: line_done_def)
    from refresh_line [OF x(1,3)] x(2,4,5) n obtain c2 where
      "refresh_store_atcmd (length g + length l) c1 = Some c2" "stored (dropWhile is_blank s) c2" "view c2 = view c1"
      by auto
    then show ?thesis using t c1(1,2) v Some by auto
  qed
qed

end
