(* ===== verification/At_Farps_Spec.thy ===== *)
theory At_Farps_Spec
  imports At_Farps_Lines
begin

text \<open>
  The receiver in \<^verbatim>\<open>at_farps_channel.c\<close> as a whole: what it does with a stream of command lines depends on the
  lines alone, not on the pieces they arrive in; and two inputs for which that is not so.
\<close>

section \<open>The loop\<close>

lemma wf_LF:
  assumes "set g \<subseteq> {LF}"
  shows "wf_stream (g @ s) \<longleftrightarrow> wf_stream s"
proof -
  have lf: "is_at_char LF" by (simp add: is_at_char_def)
  show ?thesis
  proof (cases "fst (to_lines s)")
    case Nil
    then show ?thesis unfolding wf_stream_def to_lines_LF [OF assms] using assms lf by auto
  next
    case (Cons l ls)
    show ?thesis unfolding wf_stream_def to_lines_LF [OF assms] using assms lf strip_append_LF [OF assms, of l] Cons by auto
  qed
qed

lemma serve_LF: "set g \<subseteq> {LF} \<Longrightarrow> serve_lines cfg (fst (to_lines (g @ s))) = serve_lines cfg (fst (to_lines s))"
  by (cases "fst (to_lines s)") (simp_all add: to_lines_LF fun_eq_iff strip_append_LF)

lemma pending_LF:
  assumes "set g \<subseteq> {LF}" "pending (snd (to_lines s)) ctx"
  shows "pending (snd (to_lines (g @ s))) ctx"
proof (cases "fst (to_lines s)")
  case Nil
  then have "snd (to_lines s) = s" by (rule no_lines)
  then obtain g' s' where "s = g' @ s'" "set g' \<subseteq> {LF}" "s' = [] \<and> no_buffer ctx \<or> stored s' ctx"
    using assms(2) by (auto simp: pending_def)
  then have "pending (g @ s) ctx" unfolding pending_def using assms(1) by (intro exI [of _ "g @ g'"] exI [of _ s']) auto
  then show ?thesis using Nil assms(1) by (simp add: to_lines_LF)
next
  case (Cons l ls)
  then show ?thesis using assms by (simp add: to_lines_LF)
qed

lemma blank_LF:
  assumes "wf_stream s"
  shows "dropWhile is_blank s = strip s"
proof -
  obtain g where g: "s = g @ strip s" "set g \<subseteq> {LF}" using strip_split by blast
  have w: "wf_stream (strip s)" using assms g wf_LF by metis
  have "\<not> is_blank (hd (strip s))" if ne: "strip s \<noteq> []"
  proof -
    obtain x xs where x: "strip s = x # xs" using ne by (meson neq_Nil_conv)
    have "x \<noteq> LF" using hd_dropWhile [OF ne] unfolding x by simp
    moreover have "x \<noteq> NUL" using w x at_char_not_NUL by (auto simp: wf_stream_def)
    moreover have "x \<noteq> CR"
    proof
      assume "x = CR"
      then have "at_text []" using w x by (auto simp: wf_stream_def split: prod.splits)
      then show False by (simp add: at_text_def starts_AT_def peek_def)
    qed
    ultimately show ?thesis using x by simp
  qed
  then have a: "dropWhile is_blank (strip s) = strip s"
    by (cases "strip s = []") (simp_all only: dropWhile.simps(1) dropWhile_hd not_False_eq_True)
  have "dropWhile is_blank (g @ strip s) = dropWhile is_blank (strip s)" using g(2) by (intro dropWhile_append2) auto
  then show ?thesis using a g(1) by simp
qed

lemma index_of_first: "c \<notin> set a \<Longrightarrow> index_of c (a @ c # b) = Some (length a)"
  by (induction a) auto

lemma memchr_window:
  assumes "off + n = length s" "CR \<notin> set (take off s)"
  shows "CR \<notin> set s \<Longrightarrow> memchr (s @ NUL # t) off CR n = Some None"
    and "s = l @ CR # s' \<Longrightarrow> CR \<notin> set l \<Longrightarrow> memchr (s @ NUL # t) off CR n = Some (Some (length l))"
proof -
  have w: "take n (drop off (s @ NUL # t)) = drop off s" using assms(1) by simp
  show "memchr (s @ NUL # t) off CR n = Some None" if "CR \<notin> set s"
  proof -
    have "index_of CR (drop off s) = None" using that by (auto simp: index_of_None dest: in_set_dropD)
    then show ?thesis unfolding memchr_def w using assms(1) by simp
  qed
  show "memchr (s @ NUL # t) off CR n = Some (Some (length l))" if s: "s = l @ CR # s'" "CR \<notin> set l"
  proof -
    have o: "off \<le> length l"
    proof (rule ccontr)
      assume "\<not> off \<le> length l"
      then have "CR \<in> set (take off s)" using s(1) by (cases "off - length l") auto
      then show False using assms(2) by simp
    qed
    have "CR \<notin> set (drop off l)" using s(2) by (auto dest: in_set_dropD)
    then have "index_of CR (drop off s) = Some (length l - off)" using o s(1) by (simp add: index_of_first)
    then show ?thesis unfolding memchr_def w using o by simp
  qed
qed

lemma clean_stored:
  assumes "\<forall>c \<in> set s. is_at_char c"
  shows "clean_range (s @ t) k (length s)"
  using assms by (auto simp: clean_range_def peek_def nth_append)

lemma first_text_at:
  assumes "set g \<subseteq> {LF}" "starts_AT l 0"
  shows "first_text (g @ l @ x) (length g + length l + n) = length g" "starts_AT (g @ l @ x) (length g)"
proof -
  have l: "2 \<le> length l" "\<not> is_blank (l ! 0)" using starts_AT_code [OF assms(2)] by auto
  have "takeWhile is_blank (g @ y) = g @ takeWhile is_blank y" for y using assms(1) by (intro takeWhile_append2) auto
  moreover have "takeWhile is_blank (l @ y) = []" for y using l by (cases l) auto
  ultimately show "first_text (g @ l @ x) (length g + length l + n) = length g"
    by (simp add: first_text_def)
  show "starts_AT (g @ l @ x) (length g)"
    using assms(2) l by (auto simp: starts_AT_def peek_def nth_append)
qed

text \<open>The check of a line leaves it at the front of the buffer.\<close>

lemma dirty_line:
  assumes m: "g_farps_rcv_mem ctx = Some (g @ l @ CR # s @ NUL # u)" and g: "set g \<subseteq> {LF}" and l: "at_text l"
    and s: "\<forall>c \<in> set s. is_at_char c"
    and n: "g_have_rcved_len ctx = length (g @ l @ CR # s)" "g_rcv_buf_len ctx = length (g @ l @ CR # s @ NUL # u)"
  shows "\<exists>ctx1 u1. atstr_is_dirty (Some (length g + length l)) ctx = Some (False, Some (length l), ctx1) \<and>
    view ctx1 = view ctx \<and> g_farps_rcv_mem ctx1 = Some (l @ CR # s @ NUL # u1) \<and>
    g_have_rcved_len ctx1 = length (l @ CR # s) \<and> g_rcv_buf_len ctx1 = g_rcv_buf_len ctx \<and>
    g_rcv_buf_len ctx = length (l @ CR # s @ NUL # u1)"
proof -
  let ?s = "g @ l @ CR # s"
  have at: "starts_AT l 0" "l \<noteq> []" using l starts_AT_code by (auto simp: at_text_def)
  have lc: "CR \<notin> set l" "NUL \<notin> set l" "NUL \<notin> set s" using l s at_char_not_NUL by (auto simp: at_text_def)
  have cr: "is_at_char CR" "is_at_char LF" by (simp_all add: is_at_char_def)
  have "\<forall>c \<in> set ?s. is_at_char c" using s l g cr by (auto simp: at_text_def)
  from clean_stored [OF this, of "NUL # u" "length g"]
  have clean: "clean_range (g @ l @ CR # s @ NUL # u) (length g) (length ?s)" by simp
  have ft: "first_text (g @ l @ CR # s @ NUL # u) (length ?s) = length g" "starts_AT (g @ l @ CR # s @ NUL # u) (length g)"
    using first_text_at(1) [OF g at(1), of "CR # s @ NUL # u" "Suc (length s)"] first_text_at(2) [OF g at(1), of "CR # s @ NUL # u"] by (simp_all add: ac_simps)
  have ne: "length g \<noteq> length ?s" by simp
  show ?thesis
  proof (cases "g = []")
    case True
    then show ?thesis using m n ft clean ne unfolding atstr_is_dirty_def by simp
  next
    case False
    let ?n = "length (l @ CR # s)"
    have c: "cstr (g @ l @ CR # s @ NUL # u) (length g) = l @ CR # s"
      using cstr_of_append [of "l @ CR # s" g "length g" u] lc by simp
    let ?m1 = "overwrite (g @ l @ CR # s @ NUL # u) 0 ((l @ CR # s) @ [NUL])"
    have m1: "?m1 = l @ CR # s @ NUL # drop (?n + 1) (g @ l @ CR # s @ NUL # u)" by (simp add: overwrite_front)
    have "memchr ?m1 0 CR ?n = Some (Some (length l))"
      unfolding m1 using memchr_window(2) [of 0 ?n "l @ CR # s" l s] lc(1) by simp
    then have "atstr_is_dirty (Some (length g + length l)) ctx =
        Some (False, Some (length l), ctx\<lparr>g_farps_rcv_mem := Some ?m1, g_have_rcved_len := ?n\<rparr>)"
      unfolding atstr_is_dirty_def m option.case n(1) Let_def ft(1) strlen_def c using False ft(2) clean ne by simp
    moreover have "length ?m1 = length (g @ l @ CR # s @ NUL # u)" by (rule length_overwrite_front) simp
    ultimately show ?thesis unfolding m1 using n
      by (intro exI [of _ "ctx\<lparr>g_farps_rcv_mem := Some (l @ CR # s @ NUL # drop (?n + 1) (g @ l @ CR # s @ NUL # u)), g_have_rcved_len := ?n\<rparr>"]
          exI [of _ "drop (?n + 1) (g @ l @ CR # s @ NUL # u)"]) (simp add: view_def)
  qed
qed

text \<open>
  The loop over a buffer that holds the text \<open>s\<close> does what its lines do. The window that is searched first
  ends with the text and leaves out nothing but a part without an end of line.
\<close>

abbreviation quiet :: "string \<Rightarrow> bool" where
  "quiet r \<equiv> r = [] \<or> r = [LF]"

lemma no_line_stored:
  assumes "stored s ctx" "\<forall>c \<in> set s. is_at_char c" "fifo_empty \<Longrightarrow> quiet s"
  shows "\<exists>ctx1. no_line cfg fifo_empty ctx = Some ctx1 \<and> view ctx1 = view ctx \<and> pending s ctx1"
proof -
  obtain t where t: "g_farps_rcv_mem ctx = Some (s @ NUL # t)" using assms(1) by (auto simp: stored_def)
  have "NUL \<notin> set s" using assms(2) at_char_not_NUL by auto
  then have c: "cstr (s @ NUL # t) 0 = s" using cstr_of_append [of s "[]" 0 t] by simp
  show ?thesis
  proof (cases fifo_empty)
    case True
    then have "no_line cfg fifo_empty ctx = Some (drop_buffer ctx)" using assms(3) t c by (auto simp: no_line_def)
    moreover have "pending s (drop_buffer ctx)"
      unfolding pending_def using assms(3) [OF True] by (intro exI [of _ s] exI [of _ "[]"]) auto
    ultimately show ?thesis by auto
  next
    case False
    moreover have "pending s ctx" unfolding pending_def using assms(1) by (intro exI [of _ "[]"] exI [of _ s]) auto
    ultimately show ?thesis using t by (simp add: no_line_def)
  qed
qed

lemma found_line:
  assumes st: "stored s ctx" "s = g @ l @ CR # s'" "set g \<subseteq> {LF}" "at_text l" "\<forall>c \<in> set s'. is_at_char c" and echo: "\<not> g_Echo_mode cfg"
  shows "\<exists>p ctx1. (if find_xdsend_cmd (the (g_farps_rcv_mem ctx)) then Some (False, Some (length g + length l), ctx)
        else atstr_is_dirty (Some (length g + length l)) ctx) = Some (False, Some p, ctx1) \<and>
      g_have_rcved_len ctx1 \<le> length s \<and>
      (case serve cfg l (view ctx) of None \<Rightarrow> take_line cfg p ctx1 = None
       | Some v \<Rightarrow> \<exists>ctx2. take_line cfg p ctx1 = Some ctx2 \<and> view ctx2 = v \<and> stored (dropWhile is_blank s') ctx2)"
proof -
  obtain u where u: "g_farps_rcv_mem ctx = Some (g @ l @ CR # s' @ NUL # u)" "g_have_rcved_len ctx = length (g @ l @ CR # s')"
    "g_rcv_buf_len ctx = length (g @ l @ CR # s' @ NUL # u)" "g_rcv_buf_len ctx \<le> 4128"
    using st(1,2) by (auto simp: stored_def)
  show ?thesis
  proof (cases "find_xdsend_cmd (the (g_farps_rcv_mem ctx))")
    case True
    have "g_have_rcved_len ctx \<le> length s" using u(2) st(2) by simp
    then show ?thesis using take_line_stored [OF u(1) st(3,4) u(2-4) echo] True by auto
  next
    case False
    obtain ctx1 u1 where d: "atstr_is_dirty (Some (length g + length l)) ctx = Some (False, Some (length l), ctx1)"
      "view ctx1 = view ctx" "g_farps_rcv_mem ctx1 = Some (l @ CR # s' @ NUL # u1)"
      "g_have_rcved_len ctx1 = length (l @ CR # s')" "g_rcv_buf_len ctx1 = g_rcv_buf_len ctx"
      "g_rcv_buf_len ctx = length (l @ CR # s' @ NUL # u1)"
      using dirty_line [OF u(1) st(3,4,5) u(2,3)] by blast
    have "g_have_rcved_len ctx1 \<le> length s" using d(4) st(2) by simp
    then show ?thesis
      using take_line_stored [of ctx1 "[]" l s' u1 cfg, unfolded list.size(3) add_0] d u(4) st(4) echo False by auto
  qed
qed

lemma proc_again_lines:
  assumes "stored s ctx" "wf_stream s" "length s \<le> AT_DATA_LIMIT" "off + n = length s" "CR \<notin> set (take off s)"
    and "fifo_empty \<Longrightarrow> quiet (snd (to_lines s))" and echo: "\<not> g_Echo_mode cfg"
  shows "case serve_lines cfg (fst (to_lines s)) (view ctx) of
      None \<Rightarrow> proc_again cfg fifo_empty off n ctx = None
    | Some v \<Rightarrow> \<exists>ctx1. proc_again cfg fifo_empty off n ctx = Some ctx1 \<and> view ctx1 = v \<and> pending (snd (to_lines s)) ctx1"
  using assms(1-6)
proof (induction "length s" arbitrary: s ctx off n rule: less_induct)
  case less
  obtain t where t: "g_farps_rcv_mem ctx = Some (s @ NUL # t)" "g_have_rcved_len ctx = length s"
    using less.prems(1) by (auto simp: stored_def)
  show ?case
  proof (cases "CR \<in> set s")
    case False
    have "memchr (s @ NUL # t) off CR n = Some None" using memchr_window(1) [OF less.prems(4,5) False] .
    then have "proc_again cfg fifo_empty off n ctx = no_line cfg fifo_empty ctx"
      using t by (subst proc_again.simps) simp
    moreover have "\<forall>c \<in> set s. is_at_char c" using less.prems(2) by (simp add: wf_stream_def)
    ultimately show ?thesis using no_line_stored [OF less.prems(1), of fifo_empty cfg] less.prems(6) False
      by (simp add: to_lines_no_CR)
  next
    case True
    then obtain l s' where s: "s = l @ CR # s'" "CR \<notin> set l" "to_lines s = (l # fst (to_lines s'), snd (to_lines s'))"
      using to_lines_lines by blast
    obtain g where g: "l = g @ strip l" "set g \<subseteq> {LF}" using strip_split by blast
    have at: "at_text (strip l)" "\<forall>c \<in> set s'. is_at_char c" "wf_stream s'"
      using less.prems(2) s by (auto simp: wf_stream_def)
    have sg: "s = g @ strip l @ CR # s'" using s(1) g(1) by simp
    have lg: "length g + length (strip l) = length l" using g(1) by (metis length_append)
    have "memchr (s @ NUL # t) off CR n = Some (Some (length l))" using memchr_window(2) [OF less.prems(4,5) s(1,2)] .
    moreover obtain p ctx1 where f0: "(if find_xdsend_cmd (s @ NUL # t) then Some (False, Some (length l), ctx)
          else atstr_is_dirty (Some (length l)) ctx) = Some (False, Some p, ctx1) \<and>
        g_have_rcved_len ctx1 \<le> length s \<and>
        (case serve cfg (strip l) (view ctx) of None \<Rightarrow> take_line cfg p ctx1 = None
         | Some v \<Rightarrow> \<exists>ctx2. take_line cfg p ctx1 = Some ctx2 \<and> view ctx2 = v \<and> stored (dropWhile is_blank s') ctx2)"
      using found_line [OF less.prems(1) sg g(2) at(1,2) echo, unfolded t(1) option.sel lg] by (elim exE) (rule that)
    note f = f0 [THEN conjunct1] f0 [THEN conjunct2, THEN conjunct1] f0 [THEN conjunct2, THEN conjunct2]
    ultimately have step: "proc_again cfg fifo_empty off n ctx =
        Option.bind (take_line cfg p ctx1) (\<lambda>ctx2. if g_have_rcved_len ctx2 = 0 then Some (drop_buffer ctx2)
          else proc_again cfg fifo_empty 0 (g_have_rcved_len ctx2) ctx2)"
    proof -
      assume mc: "memchr (s @ NUL # t) off CR n = Some (Some (length l))"
      have le: "\<not> AT_DATA_LIMIT < g_have_rcved_len ctx1" using f(2) less.prems(3) by simp
      show ?thesis
        by (rule trans [OF proc_again.simps])
          (simp only: t(1) mc f(1) le Option.bind.bind_lunit option.case prod.case if_False)
    qed
    show ?thesis
    proof (cases "serve cfg (strip l) (view ctx)")
      case None
      then show ?thesis using f(3) step s(3) by simp
    next
      case (Some v)
      let ?d = "strip s'"
      obtain ctx2 where c2: "take_line cfg p ctx1 = Some ctx2" "view ctx2 = v" "stored ?d ctx2"
        using f(3) Some blank_LF [OF at(3)] by auto
      obtain g' where g': "s' = g' @ ?d" "set g' \<subseteq> {LF}" using strip_split by blast
      have h: "g_have_rcved_len ctx2 = length ?d" using c2(3) by (auto simp: stored_def)
      have w: "wf_stream ?d" using at(3) g' wf_LF by metis
      have lines: "serve_lines cfg (fst (to_lines s')) = serve_lines cfg (fst (to_lines ?d))"
        "\<And>c. pending (snd (to_lines ?d)) c \<Longrightarrow> pending (snd (to_lines s')) c"
        using serve_LF [OF g'(2), of cfg ?d] pending_LF [OF g'(2), of ?d] g'(1) by auto
      show ?thesis
      proof (cases "?d = []")
        case True
        have "pending (snd (to_lines ?d)) (drop_buffer ctx2)" unfolding True pending_def by auto
        then have "pending (snd (to_lines s)) (drop_buffer ctx2)" using lines(2) s(3) by simp
        moreover have "proc_again cfg fifo_empty off n ctx = Some (drop_buffer ctx2)"
          unfolding step c2(1) Option.bind.bind_lunit h True by simp
        moreover have "serve_lines cfg (fst (to_lines s)) (view ctx) = Some v"
          unfolding s(3) fst_conv serve_lines.simps Some option.case lines(1) True by simp
        ultimately show ?thesis using c2(2) by simp
      next
        case False
        have len: "length ?d \<le> length s'" by (rule length_dropWhile_le)
        have q: "fifo_empty \<Longrightarrow> quiet (snd (to_lines ?d))"
        proof -
          assume fifo_empty
          then have "quiet (snd (to_lines s'))" using less.prems(6) s(3) by simp
          moreover have "snd (to_lines s') = (if fst (to_lines ?d) = [] then s' else snd (to_lines ?d))"
            using to_lines_LF [OF g'(2), of ?d] g'(1) by (auto split: list.splits)
          moreover have "\<not> quiet s'" using False by auto
          ultimately show ?thesis by (auto split: if_splits)
        qed
        have "case serve_lines cfg (fst (to_lines ?d)) (view ctx2) of
            None \<Rightarrow> proc_again cfg fifo_empty 0 (length ?d) ctx2 = None
          | Some v \<Rightarrow> \<exists>ctx1. proc_again cfg fifo_empty 0 (length ?d) ctx2 = Some ctx1 \<and> view ctx1 = v \<and> pending (snd (to_lines ?d)) ctx1"
          by (rule less.hyps [OF _ c2(3) w]) (use len s(1) less.prems(3) q in auto)
        moreover have "proc_again cfg fifo_empty off n ctx = proc_again cfg fifo_empty 0 (length ?d) ctx2"
          unfolding step c2(1) Option.bind.bind_lunit h using False by (simp del: dropWhile_eq_Nil_conv)
        moreover have "serve_lines cfg (fst (to_lines s)) (view ctx) = serve_lines cfg (fst (to_lines ?d)) (view ctx2)"
          unfolding s(3) fst_conv serve_lines.simps Some option.case lines(1) c2(2) ..
        moreover have "pending (snd (to_lines ?d)) c \<Longrightarrow> pending (snd (to_lines s)) c" for c using lines(2) s(3) by simp
        ultimately show ?thesis
          by (cases "serve_lines cfg (fst (to_lines ?d)) (view ctx2)") (simp_all only: option.case, blast)
      qed
    qed
  qed
qed

section \<open>Pieces\<close>

lemma rest_no_CR: "CR \<notin> set (snd (to_lines s))"
  by (induction s) (auto split: prod.splits list.splits)

lemma rest_subset: "set (snd (to_lines s)) \<subseteq> set s"
  by (induction s) (auto split: prod.splits list.splits)

lemma at_recv_line_lines:
  assumes "pending p ctx" "CR \<notin> set p" "c \<noteq> []" "length c \<le> 100" "length (p @ c) \<le> 3999" "wf_stream (p @ c)"
    and q: "fifo_empty \<Longrightarrow> quiet (snd (to_lines (p @ c)))" and echo: "\<not> g_Echo_mode cfg"
  shows "case serve_lines cfg (fst (to_lines (p @ c))) (view ctx) of
      None \<Rightarrow> at_recv_line cfg fifo_empty c ctx = None
    | Some v \<Rightarrow> \<exists>ctx1. at_recv_line cfg fifo_empty c ctx = Some ctx1 \<and> view ctx1 = v \<and> pending (snd (to_lines (p @ c))) ctx1"
proof -
  obtain g s where g: "p = g @ s" "set g \<subseteq> {LF}" "s = [] \<and> no_buffer ctx \<or> stored s ctx"
    using assms(1) by (auto simp: pending_def)
  let ?c1 = "ctx\<lparr>uart := at_standby_set (standby_nv cfg) (uart ctx)\<rparr>"
  have "stored s ?c1 \<or> s = [] \<and> no_buffer ?c1" using g(3) by (auto simp: stored_def no_buffer_def)
  from store_piece_stored [OF this assms(4)] assms(5) g(1) obtain ctx2 where
    c2: "store_piece c ?c1 = Some ctx2" "stored (s @ c) ctx2" "view ctx2 = view ctx" by (auto simp: view_def)
  have have_len: "g_have_rcved_len ctx = length s" using g(3) by (auto simp: stored_def no_buffer_def)
  have recv: "at_recv_line cfg fifo_empty c ctx = proc_again cfg fifo_empty (length s) (length c) ctx2"
    by (simp add: at_recv_line_def c2(1) have_len)
  have w: "wf_stream (s @ c)" using assms(6) wf_LF [OF g(2), of "s @ c"] g(1) by simp
  have qs: "quiet (snd (to_lines (s @ c)))" if fifo_empty
  proof (cases "fst (to_lines (s @ c))")
    case Nil
    then have "snd (to_lines (p @ c)) = g @ s @ c" using to_lines_LF [OF g(2), of "s @ c"] g(1) by simp
    moreover have "snd (to_lines (s @ c)) = s @ c"
      using Nil by (rule no_lines)
    ultimately show ?thesis using q [OF that] assms(3) by (auto simp: append_eq_Cons_conv)
  next
    case (Cons l ls)
    then show ?thesis using q [OF that] to_lines_LF [OF g(2), of "s @ c"] g(1) by simp
  qed
  have window: "length s + length c = length (s @ c)" "CR \<notin> set (take (length s) (s @ c))" "length (s @ c) \<le> AT_DATA_LIMIT"
    using assms(2,5) g(1) by simp_all
  have r: "case serve_lines cfg (fst (to_lines (s @ c))) (view ctx) of
      None \<Rightarrow> proc_again cfg fifo_empty (length s) (length c) ctx2 = None
    | Some v \<Rightarrow> \<exists>ctx1. proc_again cfg fifo_empty (length s) (length c) ctx2 = Some ctx1 \<and> view ctx1 = v \<and>
        pending (snd (to_lines (s @ c))) ctx1"
    unfolding c2(3) [symmetric] by (rule proc_again_lines [OF c2(2) w window(3,1,2) qs echo])
  have l: "serve_lines cfg (fst (to_lines (p @ c))) = serve_lines cfg (fst (to_lines (s @ c)))"
    "pending (snd (to_lines (s @ c))) x \<Longrightarrow> pending (snd (to_lines (p @ c))) x" for x
    using serve_LF [OF g(2), of cfg "s @ c"] pending_LF [OF g(2), of "s @ c" x] g(1) by simp_all
  show ?thesis
  proof (cases "serve_lines cfg (fst (to_lines (s @ c))) (view ctx)")
    case None
    then show ?thesis using r unfolding recv l(1) by simp
  next
    case (Some v)
    then show ?thesis using r l(2) unfolding recv l(1) by auto
  qed
qed

text \<open>
  The receiver over time: pieces, each with the answer of \<^verbatim>\<open>check_channel_fifo\<close> after it, and the moments at which
  the response of a command ends its processing (\<^verbatim>\<open>reset_ctx\<close>).
\<close>

datatype rx_input = Piece bool string | Answered

definition answer_sent :: "farps_ctx \<Rightarrow> farps_ctx" where
  "answer_sent ctx = ctx\<lparr>rcv_req_now := False\<rparr>"

fun rx :: "farps_cfg \<Rightarrow> rx_input list \<Rightarrow> farps_ctx \<Rightarrow> farps_ctx option" where
  "rx cfg [] ctx = Some ctx"
| "rx cfg (Piece e c # xs) ctx = (case at_recv_line cfg e c ctx of None \<Rightarrow> None | Some ctx1 \<Rightarrow> rx cfg xs ctx1)"
| "rx cfg (Answered # xs) ctx = rx cfg xs (answer_sent ctx)"

text \<open>The same on lines: \<open>p\<close> is the part of a line received so far.\<close>

fun line_machine :: "farps_cfg \<Rightarrow> string \<Rightarrow> rx_input list \<Rightarrow> line_view \<Rightarrow> line_view option" where
  "line_machine cfg p [] v = Some v"
| "line_machine cfg p (Piece e c # xs) v =
     (case serve_lines cfg (fst (to_lines (p @ c))) v of None \<Rightarrow> None
      | Some v1 \<Rightarrow> line_machine cfg (snd (to_lines (p @ c))) xs v1)"
| "line_machine cfg p (Answered # xs) v = line_machine cfg p xs (v\<lparr>busy := False\<rparr>)"

text \<open>
  What the host has to keep to: printable lines that begin with \<^verbatim>\<open>AT\<close> and end with a carriage return, no longer than
  the receiver can hold, and no pause in the middle of one.
\<close>

fun host_ok :: "string \<Rightarrow> rx_input list \<Rightarrow> bool" where
  "host_ok p [] = True"
| "host_ok p (Piece e c # xs) =
     (c \<noteq> [] \<and> length c \<le> 100 \<and> length (p @ c) \<le> 3999 \<and> wf_stream (p @ c) \<and> (e \<longrightarrow> quiet (snd (to_lines (p @ c)))) \<and>
      host_ok (snd (to_lines (p @ c))) xs)"
| "host_ok p (Answered # xs) = host_ok p xs"

lemma rx_lines:
  assumes "pending p ctx" "CR \<notin> set p" "host_ok p xs" "\<not> g_Echo_mode cfg"
  shows "map_option view (rx cfg xs ctx) = line_machine cfg p xs (view ctx)"
  using assms(1-3)
proof (induction xs arbitrary: p ctx)
  case Nil
  then show ?case by simp
next
  case (Cons x xs)
  show ?case
  proof (cases x)
    case Answered
    have "pending p (answer_sent ctx)" "view (answer_sent ctx) = (view ctx)\<lparr>busy := False\<rparr>"
      using Cons.prems(1) by (auto simp: pending_def answer_sent_def stored_def no_buffer_def view_def)
    then show ?thesis using Cons Answered by simp
  next
    case (Piece e c)
    have "case serve_lines cfg (fst (to_lines (p @ c))) (view ctx) of
        None \<Rightarrow> at_recv_line cfg e c ctx = None
      | Some v \<Rightarrow> \<exists>ctx1. at_recv_line cfg e c ctx = Some ctx1 \<and> view ctx1 = v \<and> pending (snd (to_lines (p @ c))) ctx1"
      using Cons.prems Piece by (intro at_recv_line_lines assms(4)) auto
    then show ?thesis using Cons.IH [of "snd (to_lines (p @ c))"] Cons.prems Piece rest_no_CR
      by (cases "serve_lines cfg (fst (to_lines (p @ c))) (view ctx)") auto
  qed
qed

text \<open>An instance: no restriction applies, nothing is pending.\<close>

definition demo_farps_cfg :: farps_cfg where
  "demo_farps_cfg = \<lparr>standby_nv = \<lparr>at_standby_delay = 0, lpm_standby_enable = 0\<rparr>, g_FOTAing_flag = False, low_vBat = False,
     g_need_offtime = False, g_Echo_mode = False, operation_ver = False\<rparr>"

definition demo_farps :: farps_ctx where
  "demo_farps = \<lparr>g_farps_rcv_mem = None, g_have_rcved_len = 0, g_rcv_buf_len = 0, rcv_req_now = False,
     uart = \<lparr>g_at_off_standby = 0, g_at_standby_timer = None, uart_processing = False, uart_error_no = AT_OK\<rparr>,
     locks = wl_boot, farps_out = []\<rparr>"

text \<open>
  C24: The receiver refines a machine on lines: for a host that keeps to the rules, what is posted to the
  control task, refused and locked is what the lines of the stream require, each at the piece that completes it, and the
  receiver stops only at AT+ASSERT.
\<close>

theorem rx_refines_line_machine:
  assumes "no_buffer ctx" "host_ok [] xs" "\<not> g_Echo_mode cfg"
  shows "map_option view (rx cfg xs ctx) = line_machine cfg [] xs (view ctx)"
  by (rule rx_lines) (use assms in \<open>auto simp: pending_def\<close>)

theorem rx_refines_line_machine_witness:
  "map_option posted (map_option view (rx demo_farps_cfg
     [Piece False ''AT+C'', Piece True (''GMR'' @ [CR]), Piece True (LF # ''ati'' @ [CR, LF]), Answered, Piece True (''at'' @ [CR])]
     demo_farps)) =
   Some [To_atctl (''AT+CGMR'' @ [CR]), Err_to_peripheral ATERR_CHANNEL_BUSY, To_atctl (''AT'' @ [CR])]"
proof -
  let ?xs = "[Piece False ''AT+C'', Piece True (''GMR'' @ [CR]), Piece True (LF # ''ati'' @ [CR, LF]), Answered, Piece True (''at'' @ [CR])]"
  have "host_ok [] ?xs"
    by (simp add: wf_stream_def at_text_def starts_AT_def peek_def is_at_char_def code_def)
  then have "map_option view (rx demo_farps_cfg ?xs demo_farps) = line_machine demo_farps_cfg [] ?xs (view demo_farps)"
    by (intro rx_refines_line_machine) (simp_all add: no_buffer_def demo_farps_def demo_farps_cfg_def)
  moreover have "map_option posted (line_machine demo_farps_cfg [] ?xs (view demo_farps)) =
      Some [To_atctl (''AT+CGMR'' @ [CR]), Err_to_peripheral ATERR_CHANNEL_BUSY, To_atctl (''AT'' @ [CR])]"
    by code_simp
  ultimately show ?thesis by simp
qed

abbreviation pieces :: "(bool \<times> string) list \<Rightarrow> rx_input list" where
  "pieces cs \<equiv> map (\<lambda>(e, c). Piece e c) cs"

lemma line_machine_pieces:
  "line_machine cfg p (pieces cs) v = serve_lines cfg (fst (to_lines (p @ concat (map snd cs)))) v" if "CR \<notin> set p"
  using that
proof (induction cs arbitrary: p v)
  case Nil
  then show ?case by (simp add: to_lines_no_CR)
next
  case (Cons x cs)
  obtain e c where x: "x = (e, c)" by (cases x)
  have "fst (to_lines (p @ c @ concat (map snd cs))) =
      fst (to_lines (p @ c)) @ fst (to_lines (snd (to_lines (p @ c)) @ concat (map snd cs)))"
    using to_lines_append [of "p @ c" "concat (map snd cs)"] by (simp split: prod.splits)
  then show ?case using Cons.IH [OF rest_no_CR] by (simp add: x serve_lines_append split: option.splits)
qed



section \<open>Outside the rules\<close>

text \<open>
  Behind superfluous carriage returns an incomplete line is executed: four of them and the two letters AT,
  with the rest of the command still to come, are posted to the control task as a command of its own.
\<close>

lemma incomplete_line_posted:
  assumes "no_buffer ctx" "\<not> g_Echo_mode cfg" "\<not> g_FOTAing_flag cfg" "\<not> low_vBat cfg" "\<not> g_need_offtime cfg" "\<not> rcv_req_now ctx"
  shows "\<exists>ctx1. at_recv_line cfg False ([CR, CR, CR, CR] @ ''AT'') ctx = Some ctx1 \<and>
    farps_out ctx1 = farps_out ctx @ [To_atctl (''AT'' @ [NUL, CR])]"
proof -
  let ?c = "[CR, CR, CR, CR] @ ''AT''" and ?c1 = "ctx\<lparr>uart := at_standby_set (standby_nv cfg) (uart ctx)\<rparr>"
  have n1: "no_buffer ?c1" "g_have_rcved_len ctx = 0" using assms(1) by (simp_all add: no_buffer_def)
  from store_piece_stored [of "[]" ?c1 ?c] n1(1) obtain c2 where
    c2: "store_piece ?c ?c1 = Some c2" "stored ?c c2" "view c2 = view ?c1" by auto
  then obtain t where t: "g_farps_rcv_mem c2 = Some ([CR, CR, CR, CR] @ ''AT'' @ NUL # t)" "g_have_rcved_len c2 = 6"
    "farps_out c2 = farps_out ctx" "\<not> rcv_req_now c2"
    using assms(6) by (auto simp: stored_def view_def)
  have r: "at_recv_line cfg False ?c ctx = proc_again cfg False 0 6 c2" unfolding at_recv_line_def n1(2) c2(1) Let_def by (simp add: numeral_eq_Suc)
  define c3 where "c3 = c2\<lparr>g_farps_rcv_mem := Some (''AT'' @ [NUL, CR] @ ''AT'' @ NUL # t), g_have_rcved_len := 2\<rparr>"
  have sx: "skip_ptr (\<lambda>c. c = CR \<or> c = LF) ([CR, CR, CR, CR] @ ''AT'' @ NUL # t) 0 = 4" by (simp add: skip_ptr_def)
  have x1: "\<not> find_xdsend_cmd ([CR, CR, CR, CR] @ ''AT'' @ NUL # t)"
    unfolding find_xdsend_cmd_def sx Let_def by (simp add: peek_def upt_rec numeral_eq_Suc)
  have d1: "atstr_is_dirty (Some 0) c2 = Some (False, None, c3)"
    unfolding atstr_is_dirty_def t(1,2) option.case Let_def
    by (simp add: first_text_def starts_AT_def clean_range_def peek_def upt_rec is_at_char_def strlen_def cstr_def
        overwrite_def memchr_def c3_def code_def numeral_eq_Suc)
  have s1: "proc_again cfg False 0 6 c2 = proc_again cfg False 0 6 c3"
    by (rule trans [OF proc_again.simps]) (use x1 d1 in \<open>simp add: t(1,2) memchr_def c3_def\<close>)
  have x3: "\<not> find_xdsend_cmd (''AT'' @ [NUL, CR] @ x)" for x
    by (simp add: find_xdsend_cmd_def skip_ptr_def peek_def upt_rec numeral_eq_Suc)
  have d3: "atstr_is_dirty (Some 3) c3 = Some (False, Some 3, c3)"
    by (simp add: atstr_is_dirty_def c3_def first_text_def starts_AT_def clean_range_def peek_def upt_rec is_at_char_def code_def
        numeral_eq_Suc)
  have fp: "first_print (''AT'' @ x) 0 4 = 0" for x by (subst first_print.simps) (simp add: peek_def code_def)
  have np: "\<not> has_prefix ''AT+XDSEND='' ''AT''" "\<not> has_prefix ''AT+FASTOFF'' ''AT''" "\<not> has_prefix ''AT+CPOF'' ''AT''"
    "at_strcasecmp (Some ''AT'') (Some ''AT+ASSERT'') \<noteq> 0"
    by (simp_all add: has_prefix_def at_strncasecmp_def at_strcasecmp_def strcase_loop.simps lower_code_def isupper_def code_def
        numeral_eq_Suc Let_def)
  let ?l = "\<lambda>c. c\<lparr>locks := set_lock_by_MCU_at (operation_ver cfg) (locks c)\<rparr>"
  have p3: "\<exists>c. single_atcmd_proc cfg 4 (?l c3) = Some (XY_OK, c) \<and>
      farps_out c = farps_out ctx @ [To_atctl (''AT'' @ [NUL, CR])] \<and>
      g_farps_rcv_mem c = Some (''AT'' @ [NUL, CR] @ ''AT'' @ NUL # t) \<and> g_have_rcved_len c = 2"
    using assms(2-5) t(3,4) np fp
    by (simp add: single_atcmd_proc_def c3_def find_first_print_char_def cstr_def conv_check_def vary_to_uppercase_def
        post_line_def report_def overwrite_def to_upper_def islower_def code_def numeral_eq_Suc)
  then obtain c where c: "single_atcmd_proc cfg 4 (?l c3) = Some (XY_OK, c)"
    "farps_out c = farps_out ctx @ [To_atctl (''AT'' @ [NUL, CR])]"
    "g_farps_rcv_mem c = Some (''AT'' @ [NUL, CR] @ ''AT'' @ NUL # t)" "g_have_rcved_len c = 2" by blast
  define c4 where "c4 = c\<lparr>g_farps_rcv_mem := Some (CR # ''AT'' @ NUL # ''AT'' @ NUL # t), g_have_rcved_len := 3\<rparr>"
  have r4: "refresh_store_atcmd 3 c = Some c4"
    by (simp add: refresh_store_atcmd_def c(3,4) refresh_end_def strlen_def cstr_def overwrite_def c4_def numeral_eq_Suc)
  have t3: "take_line cfg 3 c3 = Some c4" using assms(2) c(1) r4 by (simp add: take_line_def c3_def)
  have s3: "proc_again cfg False 0 6 c3 = proc_again cfg False 0 3 c4"
    by (rule trans [OF proc_again.simps])
      (use x3 [of "''AT'' @ NUL # t"] d3 t3 in \<open>simp add: c3_def c4_def memchr_def numeral_eq_Suc\<close>)
  define c5 where "c5 = c4\<lparr>g_farps_rcv_mem := Some (''AT'' @ [NUL, NUL] @ ''AT'' @ NUL # t), g_have_rcved_len := 2\<rparr>"
  have x4: "\<not> find_xdsend_cmd (CR # ''AT'' @ NUL # x)" for x
    by (simp add: find_xdsend_cmd_def skip_ptr_def peek_def upt_rec numeral_eq_Suc)
  have d4: "atstr_is_dirty (Some 0) c4 = Some (False, None, c5)"
    by (simp add: atstr_is_dirty_def c4_def c5_def first_text_def starts_AT_def clean_range_def peek_def upt_rec is_at_char_def
        code_def strlen_def cstr_def overwrite_def memchr_def numeral_eq_Suc)
  have s4: "proc_again cfg False 0 3 c4 = proc_again cfg False 0 3 c5"
    by (rule trans [OF proc_again.simps])
      (use x4 [of "''AT'' @ NUL # t"] d4 in \<open>simp add: c4_def c5_def memchr_def numeral_eq_Suc\<close>)
  have s5: "proc_again cfg False 0 3 c5 = Some c5"
    by (rule trans [OF proc_again.simps]) (simp add: c5_def memchr_def no_line_def numeral_eq_Suc)
  have "farps_out c5 = farps_out ctx @ [To_atctl (''AT'' @ [NUL, CR])]" using c(2) by (simp add: c5_def c4_def)
  then show ?thesis unfolding r s1 s3 s4 s5 by simp
qed

text \<open>
  A receive buffer of more than 5000 bytes without an end of line that turns out to be all zeroes is given up while
  a piece is being stored; the search for the end of line still starts where the piece would have been, beyond the new
  buffer.
\<close>

lemma pulled_down_pin_faults:
  assumes "g_farps_rcv_mem ctx = Some m" "length m = g_rcv_buf_len ctx" "g_have_rcved_len ctx < length m"
    and "5000 < length m" "all_zero m" "length m \<le> g_have_rcved_len ctx + length c" "c \<noteq> []" "length c \<le> 100"
  shows "at_recv_line cfg fifo_empty c ctx = None"
proof -
  let ?c1 = "ctx\<lparr>uart := at_standby_set (standby_nv cfg) (uart ctx)\<rparr>"
  have "store_piece c ?c1 = None \<or> (\<exists>c2 m2. store_piece c ?c1 = Some c2 \<and> g_farps_rcv_mem c2 = Some m2 \<and> length m2 = 128)"
    using assms by (auto simp: store_piece_def realloc_farps_rcv_mem_def Let_def overwrite_def zalloc_def)
  moreover have "at_recv_line cfg fifo_empty c ctx = None"
    if "store_piece c ?c1 = Some c2" "g_farps_rcv_mem c2 = Some m2" "length m2 = 128" for c2 m2
  proof -
    have "memchr m2 (g_have_rcved_len ctx) CR (length c) = None"
      using that(3) assms(4,6,7,8) by (simp add: memchr_def)
    then have "proc_again cfg fifo_empty (g_have_rcved_len ctx) (length c) c2 = None"
      using that(2) by (subst proc_again.simps) simp
    then show ?thesis using that(1) by (simp add: at_recv_line_def)
  qed
  ultimately show ?thesis by (auto simp: at_recv_line_def)
qed

lemma all_zero_zalloc: "all_zero (zalloc n)"
proof -
  have "peek (zalloc n) i = NUL" for i by (simp add: peek_def zalloc_def)
  then have "word_at (zalloc n) = (\<lambda>_. 0)" by (simp add: word_at_def code_def fun_eq_iff)
  then show ?thesis by (simp add: all_zero_def)
qed

end
