(* ===== verification/At_Ctl.thy ===== *)
theory At_Ctl
  imports Passthrough At_Api
begin

text \<open>
  The AT control task and the contexts it works on (\<^verbatim>\<open>SYSAPP/at_ctrl/src/at_ctl.c\<close>, \<^verbatim>\<open>at_context.c\<close>, and the
  writers of \<^verbatim>\<open>at_farps_channel.c\<close>, \<^verbatim>\<open>at_nearps_channel.c\<close>). Every source of commands and replies has a
  context; contexts point at each other while a command is on its way, may be copied for the main task and may be freed,
  so they live in a store and are named by addresses. The two message queues are lists. What leaves the tasks is a list
  of events. \<open>None\<close> is a failed assertion or the use of a freed context.
\<close>

section \<open>Contexts\<close>

datatype handle_result = AT_END | AT_FORWARD | AT_ASYN

type_synonym handler = "string option \<Rightarrow> handle_result \<times> string option"
type_synonym addr = nat

record at_context =
  fd :: nat
  far_ps :: bool
  processing :: bool
  send_req_now :: bool
  rcv_req_now :: bool
  retrans_count :: nat
  at_cmd_prefix :: string
  at_param :: "string option"
  at_proc :: "handler option"
  fwd_ctx :: "addr option"
  error_no :: int

abbreviation NEARPS_DSP_FD :: nat where "NEARPS_DSP_FD \<equiv> 1"
abbreviation NEARPS_USER_FD :: nat where "NEARPS_USER_FD \<equiv> 2"
abbreviation FARPS_UART_FD :: nat where "FARPS_UART_FD \<equiv> 3"
abbreviation FARPS_BLE_FD :: nat where "FARPS_BLE_FD \<equiv> 4"
abbreviation PS_SYS_MAX :: nat where "PS_SYS_MAX \<equiv> 6"
abbreviation FARPS_USER_MIN :: nat where "FARPS_USER_MIN \<equiv> 8"
abbreviation FARPS_USER_PROXY :: nat where "FARPS_USER_PROXY \<equiv> 8"
abbreviation FARPS_USER_MAX :: nat where "FARPS_USER_MAX \<equiv> 12"
abbreviation RETRANS_MAX_NUM :: nat where "RETRANS_MAX_NUM \<equiv> 40"

abbreviation user_fd :: "nat \<Rightarrow> bool" where
  "user_fd f \<equiv> FARPS_USER_MIN \<le> f \<and> f \<le> FARPS_USER_MAX"

text \<open>The contexts of the protocol stack, the port and the user's replies exist from the start.\<close>

abbreviation nearps_ctx :: addr where "nearps_ctx \<equiv> 0"
abbreviation uart_ctx :: addr where "uart_ctx \<equiv> 1"
abbreviation user_rsp_ctx :: addr where "user_rsp_ctx \<equiv> 2"

definition blank_context :: "nat \<Rightarrow> bool \<Rightarrow> at_context" where
  "blank_context f far = \<lparr>fd = f, far_ps = far, processing = False, send_req_now = False, rcv_req_now = False,
     retrans_count = 0, at_cmd_prefix = [], at_param = None, at_proc = None, fwd_ctx = None, error_no = 0\<rparr>"

datatype at_msg_id = AT_MSG_RCV_STR_FROM_FARPS | AT_MSG_RCV_STR_FROM_NEARPS | AT_MSG_OTHER

record at_msg =
  msg_ctx :: "addr option"
  msg_id :: at_msg_id
  msg_data :: string

record at_proxy_data =
  proxy_ctx :: addr
  proxy_msg_id :: at_msg_id
  at_req_type_of :: at_req_type
  proxy_text :: string

datatype ctl_event =
  Port_write string | Shm_send string | Atc_send string | App_rsp nat string | Inform string string | Xdsend string

record ctl_state =
  store :: "addr \<Rightarrow> at_context option"
  next_addr :: addr
  g_at_context_dict :: "addr list"
  at_msg_q :: "at_msg list"
  proxy_q :: "at_proxy_data list"
  g_atctl_req_type :: at_req_type
  g_req_type :: at_req_type
  port_standby :: standby_state
  passthr :: passthr_state
  ctl_out :: "ctl_event list"

text \<open>The NV settings, the build switches that matter, and the command tables.\<close>

record ctl_cfg =
  cmee_mode :: nat
  user_care :: bool
  close_urc :: bool
  off_debug :: bool
  dsp_is_loaded :: bool
  telecom_ver :: bool
  mobile_ver :: bool
  mqtt :: bool
  g_at_basic_req :: "(string \<times> handler) list"
  g_sysapp_req_serv :: "(string \<times> handler) list"
  info_prefixes :: "string list"

definition put_event :: "ctl_event \<Rightarrow> ctl_state \<Rightarrow> ctl_state" where
  "put_event e st = st\<lparr>ctl_out := ctl_out st @ [e]\<rparr>"

definition upd_ctx :: "addr \<Rightarrow> (at_context \<Rightarrow> at_context) \<Rightarrow> ctl_state \<Rightarrow> ctl_state option" where
  "upd_ctx a f st =
     (case store st a of None \<Rightarrow> None | Some c \<Rightarrow> Some (st\<lparr>store := (store st)(a \<mapsto> f c)\<rparr>))"

definition reset_context :: "at_context \<Rightarrow> at_context" where
  "reset_context c = c\<lparr>at_cmd_prefix := [], at_proc := None, fwd_ctx := None, send_req_now := False, rcv_req_now := False,
     retrans_count := 0\<rparr>"

definition reset_ctx :: "addr \<Rightarrow> ctl_state \<Rightarrow> ctl_state option" where
  "reset_ctx a st = upd_ctx a reset_context st"

text \<open>The dictionary is a linked list; a node whose context was freed cannot be passed.\<close>

fun find_fd :: "(addr \<Rightarrow> at_context option) \<Rightarrow> nat \<Rightarrow> addr list \<Rightarrow> addr option option" where
  "find_fd s f [] = Some None"
| "find_fd s f (a # as) =
     (case s a of None \<Rightarrow> None | Some c \<Rightarrow> if fd c = f then Some (Some a) else find_fd s f as)"

definition fd_in_range :: "nat \<Rightarrow> bool" where
  "fd_in_range f \<longleftrightarrow> f < PS_SYS_MAX \<or> user_fd f"

definition search_at_context :: "nat \<Rightarrow> ctl_state \<Rightarrow> addr option option" where
  "search_at_context f st = do {
     xy_assert (g_at_context_dict st \<noteq> [] \<and> fd_in_range f);
     find_fd (store st) f (g_at_context_dict st)
   }"

text \<open>Of a list of nodes the loop of \<open>register_at_context\<close> looks at all but the last.\<close>

definition register_at_context :: "addr \<Rightarrow> ctl_state \<Rightarrow> (xy_ret \<times> ctl_state) option" where
  "register_at_context a st =
     (case store st a of
        None \<Rightarrow> None
      | Some c \<Rightarrow>
          (case g_at_context_dict st of
             [] \<Rightarrow> Some (XY_OK, st\<lparr>g_at_context_dict := [a]\<rparr>)
           | d # ds \<Rightarrow> do {
               first \<leftarrow> find_fd (store st) (fd c) [d];
               found \<leftarrow> (if first \<noteq> None then Some first else find_fd (store st) (fd c) (butlast (d # ds)));
               if found \<noteq> None then Some (XY_ERR, st)
               else Some (XY_OK, st\<lparr>g_at_context_dict := g_at_context_dict st @ [a]\<rparr>)
             }))"

text \<open>The first node has no predecessor, which the removal does not allow for.\<close>

definition deregister_at_context :: "nat \<Rightarrow> ctl_state \<Rightarrow> (xy_ret \<times> ctl_state) option" where
  "deregister_at_context f st = do {
     xy_assert (g_at_context_dict st \<noteq> [] \<and> fd_in_range f);
     found \<leftarrow> find_fd (store st) f (g_at_context_dict st);
     case found of
       None \<Rightarrow> Some (XY_ERR, st)
     | Some a \<Rightarrow> if a = hd (g_at_context_dict st) then None
                 else Some (XY_OK, st\<lparr>g_at_context_dict := remove1 a (g_at_context_dict st)\<rparr>)
   }"

definition new_context :: "at_context \<Rightarrow> ctl_state \<Rightarrow> addr \<times> ctl_state" where
  "new_context c st = (next_addr st, st\<lparr>store := (store st)(next_addr st \<mapsto> c), next_addr := next_addr st + 1\<rparr>)"

definition free_context :: "addr \<Rightarrow> ctl_state \<Rightarrow> ctl_state" where
  "free_context a st = st\<lparr>store := (store st)(a := None)\<rparr>"

definition add_user_context :: "nat \<Rightarrow> ctl_state \<Rightarrow> (addr \<times> ctl_state) option" where
  "add_user_context f st =
     (let (a, st1) = new_context (blank_context f True) st in do {
        (r, st2) \<leftarrow> register_at_context a st1;
        xy_assert (r \<noteq> XY_ERR);
        Some (a, st2)
      })"

fun first_free_fd :: "nat list \<Rightarrow> ctl_state \<Rightarrow> nat option option" where
  "first_free_fd [] st = Some None"
| "first_free_fd (f # fs) st = do {
     found \<leftarrow> search_at_context f st;
     if found = None then Some (Some f) else first_free_fd fs st
   }"

definition get_avail_atctx_4_user :: "bool \<Rightarrow> ctl_state \<Rightarrow> (addr option \<times> ctl_state) option" where
  "get_avail_atctx_4_user from_proxy st = do {
     f \<leftarrow> first_free_fd (if from_proxy then [FARPS_USER_PROXY] else [FARPS_USER_PROXY + 1..<FARPS_USER_MAX + 1]) st;
     case f of
       None \<Rightarrow> Some (None, st)
     | Some n \<Rightarrow> map_option (\<lambda>(a, st1). (Some a, st1)) (add_user_context n st)
   }"

fun none_processing :: "(addr \<Rightarrow> at_context option) \<Rightarrow> addr list \<Rightarrow> bool option" where
  "none_processing s [] = Some True"
| "none_processing s (a # as) =
     (case s a of None \<Rightarrow> None | Some c \<Rightarrow> if processing c then Some False else none_processing s as)"

definition at_deepsleep_Check :: "ctl_state \<Rightarrow> bool option" where
  "at_deepsleep_Check st =
     (if g_at_context_dict st = [] then None else none_processing (store st) (g_at_context_dict st))"

section \<open>Error texts\<close>

fun err_name :: "at_err \<Rightarrow> string option" where
  "err_name ATERR_XY_ERR = Some ''ATERR_XY_ERR''"
| "err_name ATERR_PARAM_INVALID = Some ''ATERR_PARAM_INVALID''"
| "err_name ATERR_NOT_ALLOWED = Some ''ATERR_NOT_ALLOWED''"
| "err_name ATERR_DROP_MORE = Some ''ATERR_DROP_MORE''"
| "err_name ATERR_DOING_FOTA = Some ''ATERR_DOING_FOTA''"
| "err_name ATERR_MORE_PARAM = Some ''ATERR_MORE_PARAM''"
| "err_name ATERR_WAIT_RSP_TIMEOUT = Some ''ATERR_WAIT_RSP_TIMEOUT''"
| "err_name ATERR_CHANNEL_BUSY = Some ''ATERR_CHANNEL_BUSY''"
| "err_name ATERR_DSP_NOT_RUN = Some ''ATERR_DSP_NOT_RUN''"
| "err_name ATERR_NOT_NET_CONNECT = Some ''ATERR_NOT_NET_CONNECT''"
| "err_name ATERR_NEED_OFFTIME = Some ''ATERR_NEED_OFFTIME''"
| "err_name ATERR_CONN_NOT_CONNECTED = Some ''ATERR_CONN_NOT_CONNECTED''"
| "err_name ATERR_INVALID_PREFIX = Some ''ATERR_INVALID_PREFIX''"
| "err_name _ = None"

definition at_err_build_info :: "ctl_cfg \<Rightarrow> at_err \<Rightarrow> string option" where
  "at_err_build_info cfg e =
     (if e = AT_OK then None
      else if cmee_mode cfg = 0 then Some ([CR, LF] @ ''ERROR'' @ [CR, LF])
      else if cmee_mode cfg = 1 then Some ([CR, LF] @ ''+CME ERROR: '' @ show_dec (get_at_err_num (err_number e)) @ [CR, LF])
      else map_option (\<lambda>n. [CR, LF] @ ''+CME ERROR: '' @ n @ [CR, LF]) (err_name e))"

definition result_text :: "ctl_cfg \<Rightarrow> string \<Rightarrow> bool" where
  "result_text cfg s = fst (is_result_at (cmee_mode cfg) (user_care cfg) False s)"

text \<open>What the search for a result leaves in the buffer of a result, and what is in the buffer of the caller after a write.\<close>

definition result_rewritten :: "ctl_cfg \<Rightarrow> string \<Rightarrow> string" where
  "result_rewritten cfg s = (if is_ok_at s then s else rsp_err_text (cmee_mode cfg) s)"

definition buffer_after :: "ctl_cfg \<Rightarrow> at_context \<Rightarrow> string \<Rightarrow> string" where
  "buffer_after cfg c s = (if far_ps c \<and> \<not> user_fd (fd c) then result_rewritten cfg s else s)"

section \<open>Reports nobody wants\<close>

definition urc_cannot_drop :: "ctl_cfg \<Rightarrow> string list" where
  "urc_cannot_drop cfg =
     [''REBOOTING'', ''+POWERON:'', ''+POWERDOWN:'', ''+NPSMR:'']
     @ (if telecom_ver cfg then [''+QLWEVTIND:'', ''+QREGSWT:'', ''+NSMI:'', ''+NNMI'', ''+QLWULDATASTATUS:'', ''+QDTLSSTAT:''] else [])
     @ (if mobile_ver cfg then [''+MIPLDISCOVER:'', ''+MIPLOBSERVE:'', ''+MIPLREAD:'', ''+MIPLWRITE:'', ''+MIPLEXECUTE:'',
          ''+MIPLPARAMETER:'', ''+MIPLEVENT:'', ''+QLANOTIFY:'', ''+QLAURC:'', ''+QLARDRSP:'', ''+QLAEXERSP:'', ''+QLAWRRSP:'',
          ''+QLAOBSRSP:'', ''+QLAUPDATE:'', ''+QLAREG:'', ''+QLADEREG:'', ''+QLACONFIG:'', ''+QLACFG:'', ''+QLAADDOBJ:'',
          ''+QLARD:'', ''+QLASTATUS:'', ''+QLARECOVER:''] else [])
     @ [''+NSONMI:'', ''+NSOCL:'']
     @ (if mqtt cfg then [''+MQCONNACK:'', ''+MQPUBACK:'', ''+MQSUBACK:'', ''+MQUNSUBACK:'', ''+MQPUB:'', ''+MQPUBREC:'',
          ''+MQPUBREL:'', ''+MQPUBCOMP:'', ''+MQDISCON:'', ''+QMTOPEN:'', ''+QMTCLOSE:'', ''+QMTCONN:'', ''+QMTDISC:'', ''+QMTSUB:'',
          ''+QMTUNS:'', ''+QMTPUB:'', ''+QMTSTAT:'', ''+QMTRECV:''] else [])"

definition urc_can_drop :: "ctl_cfg \<Rightarrow> string \<Rightarrow> bool" where
  "urc_can_drop cfg buf = (\<forall>u \<in> set (urc_cannot_drop cfg). \<not> starts_nocase buf u)"

text \<open>The RF test mode is off; the user's hook of the repository drops reports of the attachment.\<close>

definition drop_unused_urc_hook :: "string \<Rightarrow> bool" where
  "drop_unused_urc_hook buf = (at_strstr buf ''+CGEV:'' \<noteq> None)"

definition drop_unused_urc :: "ctl_cfg \<Rightarrow> string \<Rightarrow> bool" where
  "drop_unused_urc cfg s =
     (let buf = dropWhile (\<lambda>c. c = CR \<or> c = LF) s in
      if close_urc cfg then urc_can_drop cfg buf
      else drop_unused_urc_hook buf \<or> starts_nocase buf ''+TCPACK:'' \<or> off_debug cfg \<and> starts_nocase buf ''+DBGINFO:'')"

section \<open>Writing\<close>

definition send_msg_2_atctl :: "at_msg_id \<Rightarrow> string \<Rightarrow> nat \<Rightarrow> ctl_state \<Rightarrow> (at_err \<times> ctl_state) option" where
  "send_msg_2_atctl mid buf f st =
     (if mid = AT_MSG_OTHER then Some (ATERR_NOT_ALLOWED, st)
      else do {
        ctx \<leftarrow> search_at_context f st;
        Some (AT_OK, st\<lparr>at_msg_q := at_msg_q st @ [\<lparr>msg_ctx = ctx, msg_id = mid, msg_data = buf\<rparr>]\<rparr>)
      })"

definition report_to_ctl :: "at_msg_id \<Rightarrow> string \<Rightarrow> nat \<Rightarrow> ctl_state \<Rightarrow> ctl_state option" where
  "report_to_ctl mid buf f st = map_option snd (send_msg_2_atctl mid buf f st)"

text \<open>
  Only the context of the UART has a writer. A result ends the processing of the command and frees the context for the
  next one.
\<close>

definition finish_cmd :: "ctl_cfg \<Rightarrow> addr \<Rightarrow> nat \<Rightarrow> string \<Rightarrow> ctl_state \<Rightarrow> ctl_state option" where
  "finish_cmd cfg a f buf st = do {
     let n = snd (is_result_at (cmee_mode cfg) (user_care cfg) True buf);
     st1 \<leftarrow> upd_ctx a (\<lambda>c. reset_context
               (c\<lparr>processing := False, error_no := (if n = Some 0 then error_no c else case n of Some e \<Rightarrow> e | None \<Rightarrow> -1)\<rparr>)) st;
     Some (if f = FARPS_UART_FD \<and> n = Some 0 then st1\<lparr>port_standby := at_standby_clear (port_standby st1)\<rparr> else st1)
   }"

definition write_port :: "nat \<Rightarrow> string \<Rightarrow> ctl_state \<Rightarrow> ctl_state" where
  "write_port f buf st = (if f = FARPS_UART_FD then put_event (Port_write buf) st else st)"

definition fwd_prefix :: "at_context \<Rightarrow> ctl_state \<Rightarrow> string option option" where
  "fwd_prefix c st =
     (case fwd_ctx c of
        None \<Rightarrow> Some None
      | Some b \<Rightarrow> (case store st b of None \<Rightarrow> None | Some d \<Rightarrow> Some (Some (at_cmd_prefix d))))"

definition at_farps_fd_write :: "ctl_cfg \<Rightarrow> nat \<Rightarrow> string \<Rightarrow> ctl_state \<Rightarrow> ctl_state option" where
  "at_farps_fd_write cfg f buf st = do {
     found \<leftarrow> search_at_context f st;
     a \<leftarrow> found;
     c \<leftarrow> store st a;
     if result_text cfg buf then map_option (write_port f (result_rewritten cfg buf)) (finish_cmd cfg a f buf st)
     else do {
       p \<leftarrow> fwd_prefix c st;
       if (case p of None \<Rightarrow> True | Some s \<Rightarrow> find_sub s buf = None) \<and> drop_unused_urc cfg buf then Some st
       else Some (write_port f buf st)
     }
   }"

definition dsp_at_list :: "string list" where
  "dsp_at_list = [''AT+LOGW'', ''AT+PSINFO='', ''AT+NV'', ''AT+PINGXY'', ''AT+PINGSTOPXY'', ''AT+FLASH'', ''AT+NUESTATS=DSPMEM'',
     ''AT+NUESTATS=DSPSTACK'', ''AT+NUESTATS=DSPSIZE'', ''AT+ASSERTCP'', ''AT+PHY='', ''AT+TEST='', ''AT+RF='', ''AT+RDNV'',
     ''AT+RFNV='', ''AT+LOG='', ''AT+QSCLK='']"

definition is_softap_DSP_cmd :: "string \<Rightarrow> bool" where
  "is_softap_DSP_cmd buf = (\<exists>c \<in> set dsp_at_list. starts_nocase buf c)"

text \<open>\<open>shm_ok\<close> is the result of \<^verbatim>\<open>shm_zero_copy\<close>.\<close>

definition at_nearps_fd_write :: "ctl_cfg \<Rightarrow> bool \<Rightarrow> string \<Rightarrow> ctl_state \<Rightarrow> ctl_state option" where
  "at_nearps_fd_write cfg shm_ok buf st =
     (if shm_ok then Some (put_event (Shm_send buf) st)
      else do {
        e \<leftarrow> at_err_build_info cfg ATERR_DSP_NOT_RUN;
        report_to_ctl AT_MSG_RCV_STR_FROM_NEARPS e NEARPS_DSP_FD st
      })"

definition at_write_by_ctx :: "ctl_cfg \<Rightarrow> bool \<Rightarrow> addr \<Rightarrow> string \<Rightarrow> ctl_state \<Rightarrow> ctl_state option" where
  "at_write_by_ctx cfg shm_ok a buf st = do {
     xy_assert (buf \<noteq> []);
     c \<leftarrow> store st a;
     if \<not> far_ps c then
       if fd c = NEARPS_DSP_FD then
         if \<not> dsp_is_loaded cfg then do {
           e \<leftarrow> at_err_build_info cfg ATERR_DSP_NOT_RUN;
           report_to_ctl AT_MSG_RCV_STR_FROM_NEARPS e NEARPS_DSP_FD st
         }
         else if is_softap_DSP_cmd buf then at_nearps_fd_write cfg shm_ok buf st
         else Some (put_event (Atc_send buf) st)
       else Some st
     else if user_fd (fd c) then Some (put_event (App_rsp (fd c) buf) st)
     else at_farps_fd_write cfg (fd c) buf st
   }"

definition send_at_err_to_context :: "ctl_cfg \<Rightarrow> bool \<Rightarrow> at_err \<Rightarrow> addr \<Rightarrow> ctl_state \<Rightarrow> ctl_state option" where
  "send_at_err_to_context cfg shm_ok e a st = do {
     s \<leftarrow> at_err_build_info cfg e;
     at_write_by_ctx cfg shm_ok a s st
   }"

definition send_at_err_to_periperal :: "ctl_cfg \<Rightarrow> at_err \<Rightarrow> addr \<Rightarrow> ctl_state \<Rightarrow> ctl_state option" where
  "send_at_err_to_periperal cfg e a st = do {
     c \<leftarrow> store st a;
     if fd c \<noteq> FARPS_UART_FD \<and> fd c \<noteq> FARPS_BLE_FD then Some st
     else do {
       xy_assert (fd c = FARPS_UART_FD);
       s \<leftarrow> at_err_build_info cfg e;
       st1 \<leftarrow> upd_ctx a (error_no_update (\<lambda>_. err_number e)) st;
       Some (put_event (Port_write s) st1)
     }
   }"

definition at_rsp_info_broadcast :: "ctl_cfg \<Rightarrow> bool \<Rightarrow> string \<Rightarrow> ctl_state \<Rightarrow> ctl_state option" where
  "at_rsp_info_broadcast cfg shm_ok buf st = at_write_by_ctx cfg shm_ok uart_ctx buf st"

section \<open>Commands on their way out\<close>

text \<open>
  To the protocol stack. In the main task the message carries a copy of the context, so the links are
  set in the registered one.
\<close>

definition link_contexts :: "bool \<Rightarrow> addr \<Rightarrow> addr \<Rightarrow> ctl_state \<Rightarrow> ctl_state option" where
  "link_contexts in_proxy near a st = do {
     st1 \<leftarrow> upd_ctx near (send_req_now_update (\<lambda>_. True)) st;
     st2 \<leftarrow> upd_ctx a (fwd_ctx_update (\<lambda>_. Some near)) st1;
     if in_proxy then do {
       c \<leftarrow> store st2 a;
       found \<leftarrow> search_at_context (fd c) st2;
       t \<leftarrow> found;
       st3 \<leftarrow> upd_ctx near (fwd_ctx_update (\<lambda>_. Some t)) st2;
       upd_ctx t (fwd_ctx_update (\<lambda>_. Some near)) st3
     }
     else upd_ctx near (fwd_ctx_update (\<lambda>_. Some a)) st2
   }"

definition forward_req_at_proc :: "ctl_cfg \<Rightarrow> bool \<Rightarrow> bool \<Rightarrow> addr \<Rightarrow> at_msg_id \<Rightarrow> string \<Rightarrow> ctl_state \<Rightarrow> ctl_state option" where
  "forward_req_at_proc cfg shm_ok in_proxy a mid data st = do {
     found \<leftarrow> search_at_context NEARPS_DSP_FD st;
     near \<leftarrow> found;
     n \<leftarrow> store st near;
     c \<leftarrow> store st a;
     if send_req_now n \<and> \<not> is_critical_req data then
       if RETRANS_MAX_NUM \<le> retrans_count c then do {
         st1 \<leftarrow> send_at_err_to_periperal cfg ATERR_CHANNEL_BUSY a st;
         reset_ctx a st1
       }
       else do {
         st1 \<leftarrow> upd_ctx a (retrans_count_update Suc) st;
         report_to_ctl mid data (fd c) st1
       }
     else do {
       pi \<leftarrow> at_get_prefix_and_param (cmee_mode cfg) (data @ [NUL]) 0 False (g_atctl_req_type st);
       st1 \<leftarrow> upd_ctx near (at_cmd_prefix_update (\<lambda>_. pi_prefix pi)) st;
       let st2 = st1\<lparr>g_atctl_req_type := pi_type pi\<rparr>;
       if pi_prefix pi = [] then send_at_err_to_context cfg shm_ok ATERR_INVALID_PREFIX a st2
       else do {
         st3 \<leftarrow> link_contexts in_proxy near a st2;
         at_write_by_ctx cfg shm_ok near data st3
       }
     }
   }"

text \<open>To the main task, with a copy of the context.\<close>

definition to_proxy :: "addr \<Rightarrow> at_context \<Rightarrow> handler \<Rightarrow> at_msg_id \<Rightarrow> string \<Rightarrow> ctl_state \<Rightarrow> ctl_state option" where
  "to_proxy a c h mid data st = do {
     st1 \<leftarrow> upd_ctx a (at_proc_update (\<lambda>_. Some h)) st;
     let (b, st2) = new_context (c\<lparr>at_proc := Some h\<rparr>) st1;
     Some (st2\<lparr>proxy_q := proxy_q st2 @
       [\<lparr>proxy_ctx = b, proxy_msg_id = mid, at_req_type_of = g_atctl_req_type st2, proxy_text = data\<rparr>]\<rparr>)
   }"

definition find_handler :: "string \<Rightarrow> (string \<times> handler) list \<Rightarrow> handler option" where
  "find_handler prefix tbl = map_option snd (find (\<lambda>(p, _). at_strcasecmp (Some prefix) (Some p) = 0) tbl)"

definition text_from :: "string \<Rightarrow> nat \<Rightarrow> string" where
  "text_from s p = takeWhile (\<lambda>c. c \<noteq> NUL) (drop p s)"

definition proc_from_farps :: "ctl_cfg \<Rightarrow> bool \<Rightarrow> at_msg \<Rightarrow> ctl_state \<Rightarrow> ctl_state option" where
  "proc_from_farps cfg shm_ok msg st =
     (if starts_nocase (msg_data msg) ''AT+XDSEND='' then Some (put_event (Xdsend (msg_data msg)) st)
      else do {
        a \<leftarrow> msg_ctx msg;
        xy_assert (msg_id msg = AT_MSG_RCV_STR_FROM_FARPS);
        pi \<leftarrow> at_get_prefix_and_param (cmee_mode cfg) (msg_data msg @ [NUL]) 0 True (g_atctl_req_type st);
        st1 \<leftarrow> upd_ctx a (\<lambda>c. c\<lparr>at_cmd_prefix := pi_prefix pi,
                 at_param := map_option (text_from (msg_data msg)) (pi_param pi)\<rparr>) st;
        let st2 = st1\<lparr>g_atctl_req_type := pi_type pi\<rparr>;
        c \<leftarrow> store st2 a;
        if pi_prefix pi = [] then do {
          st3 \<leftarrow> upd_ctx a (at_param_update (\<lambda>_. None)) st2;
          send_at_err_to_context cfg shm_ok ATERR_INVALID_PREFIX a st3
        }
        else if fd c = FARPS_USER_PROXY then forward_req_at_proc cfg shm_ok False a (msg_id msg) (msg_data msg) st2
        else
          (case find_handler (pi_prefix pi) (g_at_basic_req cfg) of
             Some h \<Rightarrow> to_proxy a c h (msg_id msg) (msg_data msg) st2
           | None \<Rightarrow>
               (case find_handler (pi_prefix pi) (g_sysapp_req_serv cfg) of
                  Some h \<Rightarrow> to_proxy a c h (msg_id msg) (msg_data msg) st2
                | None \<Rightarrow> forward_req_at_proc cfg shm_ok False a (msg_id msg) (msg_data msg) st2))
      })"

text \<open>The main task runs the handler.\<close>

definition proc_at_proxy_req :: "ctl_cfg \<Rightarrow> bool \<Rightarrow> at_proxy_data \<Rightarrow> ctl_state \<Rightarrow> ctl_state option" where
  "proc_at_proxy_req cfg shm_ok d st = do {
     let st1 = st\<lparr>g_req_type := at_req_type_of d\<rparr>;
     c \<leftarrow> store st1 (proxy_ctx d);
     st2 \<leftarrow> (case at_proc c of
        None \<Rightarrow> send_at_err_to_periperal cfg ATERR_NOT_ALLOWED (proxy_ctx d) st1
      | Some proc \<Rightarrow>
          (let (res, rsp) = proc (at_param c) in
           case res of
             AT_FORWARD \<Rightarrow> forward_req_at_proc cfg shm_ok True (proxy_ctx d) (proxy_msg_id d) (proxy_text d) st1
           | AT_ASYN \<Rightarrow> Some st1
           | AT_END \<Rightarrow> at_write_by_ctx cfg shm_ok (proxy_ctx d) (case rsp of None \<Rightarrow> at_ok_build | Some s \<Rightarrow> s) st1));
     Some (free_context (proxy_ctx d) st2)
   }"

section \<open>Replies on their way back\<close>

definition specail_chr_list :: "string list" where
  "specail_chr_list = [''+RFVER:'', ''+IMEI:'', ''+SN:'', ''+MAXPOW:'', ''+DVGALMT:'', ''+VBAT:'', ''+Status:'', ''+Result:'',
     ''+RXSYNC:'', ''+GTSensor:'', ''+TSensor:'', ''+RXTEST:'', ''+GRFCAL:'', ''+CIMEI:'', ''+GRFBAK:'', ''+Signal power:'']"

definition specail_rsp_proc :: "string \<Rightarrow> string \<Rightarrow> string" where
  "specail_rsp_proc prefix data =
     (if prefix = [] \<or> \<not> starts_nocase prefix ''+RF'' \<and> \<not> starts_nocase prefix ''+NUESTATS'' then data
      else
        let msg = dropWhile (\<lambda>c. c = CR \<or> c = LF) data in
        if \<forall>p \<in> set specail_chr_list. \<not> starts_nocase msg p then data
        else if starts_nocase msg ''+Signal power'' then [CR, LF] @ ''+NUESTATS:'' @ msg
        else [CR, LF] @ ''+RF:'' @ (case at_strstr2 data '':'' of None \<Rightarrow> [] | Some p \<Rightarrow> drop p data))"

definition at_info_proc :: "ctl_cfg \<Rightarrow> string \<Rightarrow> string \<Rightarrow> ctl_state \<Rightarrow> ctl_state" where
  "at_info_proc cfg prefix param st =
     fold (\<lambda>p. put_event (Inform p param)) (filter (\<lambda>p. at_strcasecmp (Some p) (Some prefix) = 0) (info_prefixes cfg)) st"

text \<open>
  The reply to a short message, whose text follows the prompt. Writing a result may change the text of the
  message, which is returned with the state.
\<close>

definition sms_reply :: "ctl_cfg \<Rightarrow> bool \<Rightarrow> addr \<Rightarrow> string \<Rightarrow> ctl_state \<Rightarrow> (string \<times> ctl_state) option" where
  "sms_reply cfg shm_ok f data st = do {
     d \<leftarrow> store st f;
     st1 \<leftarrow> at_write_by_ctx cfg shm_ok f data st;
     let data1 = buffer_after cfg d data;
     if at_strstr data1 ''> '' \<noteq> None
     then map_option (\<lambda>p. (data1, st1\<lparr>passthr := p\<rparr>))
            (xy_enterPassthroughMode PASSTHR_SMS 0 (Some rcvd_passthr_stream_proc) (passthr st1))
     else if result_text cfg data1 then Some (data1, st1\<lparr>passthr := xy_exitPassthroughMode (passthr st1)\<rparr>)
     else Some (data1, st1)
   }"

text \<open>Whom a reply or report is for.\<close>

definition route_reply ::
    "ctl_cfg \<Rightarrow> bool \<Rightarrow> at_context \<Rightarrow> addr \<Rightarrow> string \<Rightarrow> string \<Rightarrow> string \<Rightarrow> ctl_state \<Rightarrow> (string \<times> ctl_state) option" where
  "route_reply cfg shm_ok c a prefix data data_temp st =
     (if \<not> result_text cfg data \<and> prefix \<noteq> [] \<and>
         (at_cmd_prefix c = [] \<or> \<not> starts_nocase prefix (at_cmd_prefix c))
      then map_option (Pair data) (at_rsp_info_broadcast cfg shm_ok data st)
      else
        (case fwd_ctx c of
           Some f \<Rightarrow> do {
             d \<leftarrow> store st f;
             if user_fd (fd d) then map_option (Pair data) (at_write_by_ctx cfg shm_ok f data_temp st)
             else map_option (Pair (buffer_after cfg d data)) (at_write_by_ctx cfg shm_ok f data st)
           }
         | None \<Rightarrow>
             if result_text cfg data
             then (if fd c = FARPS_UART_FD
                   then map_option (Pair (buffer_after cfg c data)) (at_write_by_ctx cfg shm_ok a data st)
                   else Some (data, st))
             else map_option (Pair data) (at_rsp_info_broadcast cfg shm_ok data st)))"

definition end_reply :: "ctl_cfg \<Rightarrow> bool \<Rightarrow> bool \<Rightarrow> at_msg_id \<Rightarrow> addr \<Rightarrow> string \<Rightarrow> ctl_state \<Rightarrow> ctl_state option" where
  "end_reply cfg shm_ok is_rlt mid a data st =
     (if is_rlt \<and> mid = AT_MSG_RCV_STR_FROM_NEARPS then do {
        c \<leftarrow> store st a;
        if fd c = NEARPS_DSP_FD
        then (if snd (at_is_rsp_err (cmee_mode cfg) True data) \<noteq> Some (err_number ATERR_CHANNEL_BUSY) then reset_ctx a st else Some st)
        else if fd c = NEARPS_USER_FD then at_write_by_ctx cfg shm_ok a data st
        else Some st
      }
      else Some st)"

definition proc_from_nearps :: "ctl_cfg \<Rightarrow> bool \<Rightarrow> at_msg \<Rightarrow> ctl_state \<Rightarrow> ctl_state option" where
  "proc_from_nearps cfg shm_ok msg st = do {
     a \<leftarrow> msg_ctx msg;
     c \<leftarrow> store st a;
     let data = msg_data msg;
     let data_temp = specail_rsp_proc (at_cmd_prefix c) data;
     pi \<leftarrow> at_get_prefix_and_param (cmee_mode cfg) (data_temp @ [NUL]) 0 False (g_atctl_req_type st);
     let st0 = st\<lparr>g_atctl_req_type := pi_type pi\<rparr>;
     let st1 = (case pi_param pi of None \<Rightarrow> st0 | Some p \<Rightarrow> at_info_proc cfg (pi_prefix pi) (text_from data_temp p) st0);
     (data2, st2) \<leftarrow> (case fwd_ctx c of
        Some f \<Rightarrow> if at_cmd_prefix c \<noteq> [] \<and> at_check_sms_fun (at_cmd_prefix c) then sms_reply cfg shm_ok f data st1
                  else route_reply cfg shm_ok c a (pi_prefix pi) data data_temp st1
      | None \<Rightarrow> route_reply cfg shm_ok c a (pi_prefix pi) data data_temp st1);
     end_reply cfg shm_ok (result_text cfg data) (msg_id msg) a data2 st2
   }"

section \<open>The tasks\<close>

text \<open>One message of each queue; \<open>at_rcv_from_nearps\<close> is the protocol stack's way in.\<close>

definition at_ctl :: "ctl_cfg \<Rightarrow> bool \<Rightarrow> ctl_state \<Rightarrow> ctl_state option" where
  "at_ctl cfg shm_ok st =
     (case at_msg_q st of
        [] \<Rightarrow> Some st
      | m # q \<Rightarrow>
          (case msg_id m of
             AT_MSG_RCV_STR_FROM_FARPS \<Rightarrow> proc_from_farps cfg shm_ok m (st\<lparr>at_msg_q := q\<rparr>)
           | AT_MSG_RCV_STR_FROM_NEARPS \<Rightarrow> proc_from_nearps cfg shm_ok m (st\<lparr>at_msg_q := q\<rparr>)
           | AT_MSG_OTHER \<Rightarrow> Some (st\<lparr>at_msg_q := q\<rparr>)))"

definition proxy_task :: "ctl_cfg \<Rightarrow> bool \<Rightarrow> ctl_state \<Rightarrow> ctl_state option" where
  "proxy_task cfg shm_ok st =
     (case proxy_q st of [] \<Rightarrow> Some st | d # q \<Rightarrow> proc_at_proxy_req cfg shm_ok d (st\<lparr>proxy_q := q\<rparr>))"

definition at_rcv_from_nearps :: "string \<Rightarrow> ctl_state \<Rightarrow> ctl_state option" where
  "at_rcv_from_nearps buf st = do {
     xy_assert (buf \<noteq> []);
     report_to_ctl AT_MSG_RCV_STR_FROM_NEARPS buf NEARPS_DSP_FD st
   }"

definition send_rsp_str_to_ext :: "string \<Rightarrow> ctl_state \<Rightarrow> ctl_state option" where
  "send_rsp_str_to_ext data st = report_to_ctl AT_MSG_RCV_STR_FROM_NEARPS data NEARPS_USER_FD st"

definition send_asyn_rsp_to_ext :: "string \<Rightarrow> ctl_state \<Rightarrow> ctl_state option" where
  "send_asyn_rsp_to_ext data st = report_to_ctl AT_MSG_RCV_STR_FROM_NEARPS data FARPS_UART_FD st"

definition send_urc_to_ext :: "ctl_cfg \<Rightarrow> bool \<Rightarrow> string \<Rightarrow> ctl_state \<Rightarrow> ctl_state option" where
  "send_urc_to_ext cfg shm_ok data st = at_rsp_info_broadcast cfg shm_ok data st"

definition init_at_context :: "ctl_state \<Rightarrow> ctl_state option" where
  "init_at_context st = do {
     (r, st1) \<leftarrow> register_at_context nearps_ctx (st\<lparr>store := (store st)(nearps_ctx \<mapsto> blank_context NEARPS_DSP_FD False)\<rparr>);
     (r, st2) \<leftarrow> register_at_context uart_ctx (st1\<lparr>store := (store st1)(uart_ctx \<mapsto> blank_context FARPS_UART_FD True)\<rparr>);
     (r, st3) \<leftarrow> register_at_context user_rsp_ctx (st2\<lparr>store := (store st2)(user_rsp_ctx \<mapsto> blank_context NEARPS_USER_FD False)\<rparr>);
     Some st3
   }"

section \<open>Commands of the firmware itself\<close>

text \<open>
  \<^verbatim>\<open>at_ReqAndRsp_to_ps\<close> in three parts: the request is posted under a context of its own; its timer may expire;
  in the end the context is removed and freed.
\<close>

definition start_user_req :: "bool \<Rightarrow> string \<Rightarrow> ctl_state \<Rightarrow> (addr \<times> ctl_state) option" where
  "start_user_req from_proxy req_at st = do {
     (found, st1) \<leftarrow> get_avail_atctx_4_user from_proxy st;
     a \<leftarrow> found;
     c \<leftarrow> store st1 a;
     (r, st2) \<leftarrow> send_msg_2_atctl AT_MSG_RCV_STR_FROM_FARPS req_at (fd c) st1;
     xy_assert (r = AT_OK);
     Some (a, st2)
   }"

definition wait_nearps_rsp_timeout_proc :: "ctl_cfg \<Rightarrow> addr \<Rightarrow> ctl_state \<Rightarrow> ctl_state option" where
  "wait_nearps_rsp_timeout_proc cfg a st = do {
     c \<leftarrow> store st a;
     found \<leftarrow> search_at_context NEARPS_DSP_FD st;
     st1 \<leftarrow> (case found of
        None \<Rightarrow> Some st
      | Some near \<Rightarrow> do {
          n \<leftarrow> store st near;
          if fwd_ctx n \<noteq> None then reset_ctx near st else Some st
        });
     s \<leftarrow> at_err_build_info cfg ATERR_WAIT_RSP_TIMEOUT;
     Some (put_event (App_rsp (fd c) s) st1)
   }"

definition end_user_req :: "addr \<Rightarrow> ctl_state \<Rightarrow> ctl_state option" where
  "end_user_req a st = do {
     c \<leftarrow> store st a;
     (r, st1) \<leftarrow> deregister_at_context (fd c) st;
     Some (free_context a st1)
   }"

end
