(* ===== verification/At_Ctl_Spec.thy ===== *)
theory At_Ctl_Spec
  imports At_Ctl Passthrough_Quit At_Params_Spec
begin

text \<open>
  What the AT control task (\<^verbatim>\<open>at_ctl.c\<close>) promises to the sources of commands, and where it does not keep it.
\<close>

section \<open>Public error numbers\<close>

text \<open>What is left in the buffer after the search for a result is never a number of the firmware's own.\<close>

lemma find_sub_prefix:
  "find_sub pat xs = Some h \<Longrightarrow> take (h + length pat) ys = take (h + length pat) xs \<Longrightarrow> find_sub pat ys = Some h"
proof (induction pat xs arbitrary: h ys rule: find_sub.induct)
  case (1 pat)
  then show ?case by (cases ys) (auto split: if_splits)
next
  case (2 pat x xs)
  show ?case
  proof (cases "take (length pat) (x # xs) = pat")
    case True
    then have h: "h = 0" using 2(2) by simp
    then have "take (length pat) ys = pat" using 2(3) True by simp
    then show ?thesis using h by (cases ys) auto
  next
    case False
    then obtain k where k: "find_sub pat xs = Some k" "h = Suc k" using 2(2) by auto
    have p: "pat \<noteq> []" using False by auto
    then obtain y ys' where ys: "ys = y # ys'" using 2(3) k(2) by (cases ys) auto
    have t: "take (k + length pat) ys' = take (k + length pat) xs" "y = x" using 2(3) k(2) ys by auto
    have "take (length pat) (x # xs) = take (length pat) ys"
      using arg_cong [OF 2(3), of "take (length pat)"] by (simp only: take_take min_absorb1 [OF le_add2])
    then have "take (length pat) (y # ys') \<noteq> pat" using False ys by simp
    then show ?thesis using "2.IH" [OF False k(1) t(1)] k(2) ys by simp
  qed
qed

lemma rsp_err_Some:
  assumes "snd (at_is_rsp_err cm True s) = Some n"
  obtains h where "at_strstr (dropWhile (\<lambda>c. c = CR \<or> c = LF) s) ''ERROR'' = Some h"
    "rsp_err_number (dropWhile (\<lambda>c. c = CR \<or> c = LF) s) (h + 5) = Some n"
  using assms by (auto simp: at_is_rsp_err_def Let_def split: if_splits option.splits)

lemma public_numbers: "8000 \<le> n \<Longrightarrow> n \<le> 8013 \<Longrightarrow> get_at_err_num n \<in> {3, 25, 30, 50, 60, 126, 301, 302, 303, 308}"
proof -
  assume "8000 \<le> n" "n \<le> 8013"
  then have "n = 8000 \<or> n = 8001 \<or> n = 8002 \<or> n = 8003 \<or> n = 8004 \<or> n = 8005 \<or> n = 8006 \<or> n = 8007 \<or> n = 8008 \<or>
    n = 8009 \<or> n = 8010 \<or> n = 8011 \<or> n = 8012 \<or> n = 8013" by presburger
  then show ?thesis by (auto simp: get_at_err_num_def at_error_num_table_def)
qed

lemma public_number:
  assumes "snd (at_is_rsp_err cm True (rsp_err_text cm s)) = Some m"
  shows "m < 8000 \<or> 8013 < m"
proof (cases "snd (at_is_rsp_err cm True s)")
  case None
  then show ?thesis using assms by (simp add: rsp_err_text_def)
next
  case (Some n)
  show ?thesis
  proof (cases "n < 8000 \<or> 8013 < n")
    case True
    then show ?thesis using assms Some by (simp add: rsp_err_text_def)
  next
    case False
    let ?nl = "\<lambda>c. c = CR \<or> c = LF" and ?k = "get_at_err_num n"
    define str where "str = dropWhile ?nl s"
    obtain h where h: "at_strstr str ''ERROR'' = Some h" "rsp_err_number str (h + 5) = Some n"
      using rsp_err_Some [OF Some] by (auto simp: str_def)
    define nf where "nf = skip_spaces (drop (h + 6) str)"
    define sp where "sp = takeWhile (\<lambda>c. c = SPACE) (drop (h + 6) str)"
    have len: "h + 5 < length str" using h(2) by (auto simp: rsp_err_number_def split: if_splits)
    define pre where "pre = takeWhile ?nl s @ take (h + 6) str @ sp"
    have str: "str = take (h + 6) str @ sp @ nf" by (simp add: nf_def sp_def)
    define str' where "str' = take (h + 6) str @ sp @ show_dec ?k @ [CR, LF]"
    have s: "s = takeWhile ?nl s @ str" by (simp add: str_def)
    have t: "rsp_err_text cm s = takeWhile ?nl s @ str'"
    proof -
      have "s = pre @ nf" using s str by (simp add: pre_def)
      then have "take (length s - length nf) s = pre" by simp
      moreover have "rsp_err_text cm s = take (length s - length nf) s @ show_dec ?k @ [CR, LF]"
        unfolding rsp_err_text_def Some option.case Let_def str_def [symmetric] h(1) option.sel nf_def if_not_P [OF False] ..
      ultimately show ?thesis by (simp only: str'_def pre_def append_assoc)
    qed
    have ne: "str \<noteq> []" using len by auto
    have "\<not> ?nl (hd str)" using hd_dropWhile [of ?nl s] ne unfolding str_def by blast
    moreover have "hd str' = hd str" "str' \<noteq> []" using ne by (simp_all add: str'_def hd_append)
    ultimately have d: "dropWhile ?nl (rsp_err_text cm s) = str'"
      unfolding t by (subst dropWhile_append2) (blast dest: set_takeWhileD, simp only: dropWhile_hd not_False_eq_True)
    have "at_strstr str' ''ERROR'' = Some h"
    proof -
      have "take (h + length ''ERROR'') (take (h + 6) str) = take (h + length ''ERROR'') str" by (simp add: min_def)
      moreover have "h + length ''ERROR'' \<le> length (take (h + 6) str)" using len by simp
      ultimately have "take (h + length ''ERROR'') str' = take (h + length ''ERROR'') str"
        unfolding str'_def by (metis take_append diff_is_0_eq take_0 append_Nil2)
      from find_sub_prefix [OF h(1) [unfolded at_strstr_def] this] show ?thesis unfolding at_strstr_def .
    qed
    with rsp_err_Some [OF assms, unfolded d] have m: "rsp_err_number str' (h + 5) = Some m" by auto
    have k: "?k \<in> {3, 25, 30, 50, 60, 126, 301, 302, 303, 308}" using public_numbers False by simp
    have dr: "drop (h + 6) str' = sp @ show_dec ?k @ [CR, LF]" using len by (simp add: str'_def)
    have sk: "skip_spaces (drop (h + 6) str') = show_dec ?k @ [CR, LF]"
    proof -
      have "skip_spaces (sp @ show_dec ?k @ [CR, LF]) = skip_spaces (show_dec ?k @ [CR, LF])"
        unfolding sp_def by (rule dropWhile_append2) (blast dest: set_takeWhileD)
      then show ?thesis using dr skip_spaces_show_dec by (simp only:)
    qed
    have "takeWhile (\<lambda>c. c \<noteq> CR) (show_dec ?k @ [CR, LF]) = show_dec ?k"
      using show_dec_clean(3) [of ?k] by (subst takeWhile_append2) auto
    moreover have "h + 5 + 1 = h + 6" by simp
    ultimately have "m = strtol10 (show_dec ?k)"
      using m unfolding rsp_err_number_def Let_def by (simp only: sk split: if_splits) simp_all
    moreover have "strtol10 (show_dec ?k) = ?k" using k strtol10_show_dec [of ?k] by (auto simp: long_min_def long_max_def)
    ultimately show ?thesis using k by auto
  qed
qed

section \<open>Contexts in their places\<close>

text \<open>The three permanent contexts come first in the dictionary; others belong to requests of the firmware.\<close>

definition placed :: "ctl_state \<Rightarrow> bool" where
  "placed st \<longleftrightarrow> (\<exists>us. g_at_context_dict st = [nearps_ctx, uart_ctx, user_rsp_ctx] @ us) \<and>
     (\<exists>n. store st nearps_ctx = Some n \<and> fd n = NEARPS_DSP_FD \<and> \<not> far_ps n) \<and>
     (\<exists>u. store st uart_ctx = Some u \<and> fd u = FARPS_UART_FD \<and> far_ps u) \<and>
     (\<exists>r. store st user_rsp_ctx = Some r \<and> fd r = NEARPS_USER_FD \<and> \<not> far_ps r)"

lemma placed_search:
  assumes "placed st"
  shows "search_at_context NEARPS_DSP_FD st = Some (Some nearps_ctx)"
    and "search_at_context FARPS_UART_FD st = Some (Some uart_ctx)"
    and "search_at_context NEARPS_USER_FD st = Some (Some user_rsp_ctx)"
  using assms by (auto simp: placed_def search_at_context_def fd_in_range_def)

lemma upd_ctx_Some: "store st a = Some c \<Longrightarrow> upd_ctx a f st = Some (st\<lparr>store := (store st)(a \<mapsto> f c)\<rparr>)"
  by (simp add: upd_ctx_def)

definition same_place :: "(at_context \<Rightarrow> at_context) \<Rightarrow> bool" where
  "same_place f \<longleftrightarrow> (\<forall>c. fd (f c) = fd c \<and> far_ps (f c) = far_ps c)"

lemma same_place_upd [simp]:
  "same_place (send_req_now_update g1)" "same_place (fwd_ctx_update g2)" "same_place (at_cmd_prefix_update g3)"
  "same_place (at_param_update g4)" "same_place (at_proc_update g5)" "same_place (retrans_count_update g6)"
  "same_place (error_no_update g7)" "same_place reset_context"
  by (simp_all add: same_place_def reset_context_def)

lemma placed_upd: "placed st \<Longrightarrow> same_place f \<Longrightarrow> upd_ctx a f st = Some st1 \<Longrightarrow> placed st1"
  by (auto simp: placed_def upd_ctx_def same_place_def split: option.splits)

section \<open>A command and its replies\<close>

text \<open>
  A line of the port that no handler of the firmware claims goes to the protocol stack, with the prefix its replies
  are recognised by.
\<close>

definition plain_line :: "ctl_cfg \<Rightarrow> string \<Rightarrow> string \<Rightarrow> bool" where
  "plain_line cfg pre l \<longleftrightarrow>
     \<not> starts_nocase l ''AT+XDSEND='' \<and> \<not> is_softap_DSP_cmd l \<and> l \<noteq> [] \<and> pre \<noteq> [] \<and> \<not> at_check_sms_fun pre \<and>
     (\<forall>t. \<exists>pi. at_get_prefix_and_param (cmee_mode cfg) (l @ [NUL]) 0 True t = Some pi \<and> pi_prefix pi \<noteq> [] \<and>
        find_handler (pi_prefix pi) (g_at_basic_req cfg) = None \<and> find_handler (pi_prefix pi) (g_sysapp_req_serv cfg) = None \<and>
        (\<exists>pj. at_get_prefix_and_param (cmee_mode cfg) (l @ [NUL]) 0 False (pi_type pi) = Some pj \<and> pi_prefix pj = pre))"

definition line_from_port :: "string \<Rightarrow> ctl_state \<Rightarrow> ctl_state option" where
  "line_from_port l st = report_to_ctl AT_MSG_RCV_STR_FROM_FARPS l FARPS_UART_FD st"

definition quiet_ctl :: "ctl_state \<Rightarrow> bool" where
  "quiet_ctl st \<longleftrightarrow> placed st \<and> at_msg_q st = [] \<and>
     (\<forall>n. store st nearps_ctx = Some n \<longrightarrow> \<not> send_req_now n \<and> fwd_ctx n = None)"

text \<open>After the command is sent, the contexts of the stack and of the port point at each other.\<close>

definition awaiting :: "string \<Rightarrow> ctl_state \<Rightarrow> bool" where
  "awaiting pre st \<longleftrightarrow> placed st \<and> at_msg_q st = [] \<and>
     (\<exists>n u. store st nearps_ctx = Some n \<and> send_req_now n \<and> fwd_ctx n = Some uart_ctx \<and> at_cmd_prefix n = pre \<and>
        store st uart_ctx = Some u \<and> fwd_ctx u = Some nearps_ctx)"

lemma line_forwarded:
  assumes "quiet_ctl st" "plain_line cfg pre l" "dsp_is_loaded cfg"
  shows "\<exists>st1. Option.bind (line_from_port l st) (at_ctl cfg shm_ok) = Some st1 \<and> awaiting pre st1 \<and>
    ctl_out st1 = ctl_out st @ [Atc_send l]"
proof -
  obtain pi pj where p: "\<not> starts_nocase l ''AT+XDSEND=''" "\<not> is_softap_DSP_cmd l" "l \<noteq> []" "pre \<noteq> []"
    "at_get_prefix_and_param (cmee_mode cfg) (l @ [NUL]) 0 True (g_atctl_req_type st) = Some pi" "pi_prefix pi \<noteq> []"
    "find_handler (pi_prefix pi) (g_at_basic_req cfg) = None" "find_handler (pi_prefix pi) (g_sysapp_req_serv cfg) = None"
    "at_get_prefix_and_param (cmee_mode cfg) (l @ [NUL]) 0 False (pi_type pi) = Some pj" "pi_prefix pj = pre"
    using assms(2) unfolding plain_line_def by blast
  obtain us n u r where s: "g_at_context_dict st = [nearps_ctx, uart_ctx, user_rsp_ctx] @ us"
    "store st nearps_ctx = Some n" "fd n = NEARPS_DSP_FD" "\<not> far_ps n" "\<not> send_req_now n"
    "store st uart_ctx = Some u" "fd u = FARPS_UART_FD" "far_ps u"
    "store st user_rsp_ctx = Some r" "fd r = NEARPS_USER_FD" "\<not> far_ps r" "at_msg_q st = []"
    using assms(1) by (auto simp: quiet_ctl_def placed_def)
  have pl: "placed st" using assms(1) by (simp add: quiet_ctl_def)
  have m: "line_from_port l st = Some (st\<lparr>at_msg_q := [\<lparr>msg_ctx = Some uart_ctx, msg_id = AT_MSG_RCV_STR_FROM_FARPS, msg_data = l\<rparr>]\<rparr>)"
    unfolding line_from_port_def report_to_ctl_def send_msg_2_atctl_def placed_search(2) [OF pl] using s(12) by simp
  show ?thesis unfolding m Option.bind.bind_lunit at_ctl_def
    using p s assms(3)
    by (simp add: proc_from_farps_def upd_ctx_def forward_req_at_proc_def search_at_context_def fd_in_range_def
        link_contexts_def at_write_by_ctx_def put_event_def awaiting_def placed_def)
qed

text \<open>What the stack sends: reports that carry the prefix of the command, and in the end a result.\<close>

definition parses :: "ctl_cfg \<Rightarrow> string \<Rightarrow> string \<Rightarrow> (prefix_info \<Rightarrow> bool) \<Rightarrow> bool" where
  "parses cfg pre m Q \<longleftrightarrow>
     (\<forall>t. \<exists>pi. at_get_prefix_and_param (cmee_mode cfg) (specail_rsp_proc pre m @ [NUL]) 0 False t = Some pi \<and> Q pi)"

definition info_reply :: "ctl_cfg \<Rightarrow> string \<Rightarrow> string \<Rightarrow> bool" where
  "info_reply cfg pre m \<longleftrightarrow> m \<noteq> [] \<and> \<not> result_text cfg m \<and> find_sub pre m \<noteq> None \<and>
     parses cfg pre m (\<lambda>pi. pi_param pi = None \<or> (\<forall>q \<in> set (info_prefixes cfg). at_strcasecmp (Some q) (Some (pi_prefix pi)) \<noteq> 0))"

definition final_reply :: "ctl_cfg \<Rightarrow> string \<Rightarrow> string \<Rightarrow> bool" where
  "final_reply cfg pre r \<longleftrightarrow> r \<noteq> [] \<and> result_text cfg r \<and>
     (is_ok_at r \<longrightarrow> snd (at_is_rsp_err (cmee_mode cfg) True r) \<noteq> Some (err_number ATERR_CHANNEL_BUSY)) \<and>
     parses cfg pre r (\<lambda>pi. pi_param pi = None)"

definition reply_step :: "ctl_cfg \<Rightarrow> bool \<Rightarrow> string \<Rightarrow> ctl_state \<Rightarrow> ctl_state option" where
  "reply_step cfg shm_ok r st = Option.bind (at_rcv_from_nearps r st) (at_ctl cfg shm_ok)"

fun reply_steps :: "ctl_cfg \<Rightarrow> bool \<Rightarrow> string list \<Rightarrow> ctl_state \<Rightarrow> ctl_state option" where
  "reply_steps cfg shm_ok [] st = Some st"
| "reply_steps cfg shm_ok (r # rs) st = (case reply_step cfg shm_ok r st of None \<Rightarrow> None | Some st1 \<Rightarrow> reply_steps cfg shm_ok rs st1)"

lemma reply_steps_append: "reply_steps cfg shm_ok (xs @ ys) st =
   (case reply_steps cfg shm_ok xs st of None \<Rightarrow> None | Some st1 \<Rightarrow> reply_steps cfg shm_ok ys st1)"
  by (induction xs arbitrary: st) (auto split: option.splits)

lemma reply_posted:
  assumes "placed st" "at_msg_q st = []" "r \<noteq> []"
  shows "reply_step cfg shm_ok r st =
    proc_from_nearps cfg shm_ok \<lparr>msg_ctx = Some nearps_ctx, msg_id = AT_MSG_RCV_STR_FROM_NEARPS, msg_data = r\<rparr> st"
proof -
  have "at_rcv_from_nearps r st = Some (st\<lparr>at_msg_q := [\<lparr>msg_ctx = Some nearps_ctx, msg_id = AT_MSG_RCV_STR_FROM_NEARPS, msg_data = r\<rparr>]\<rparr>)"
    unfolding at_rcv_from_nearps_def report_to_ctl_def send_msg_2_atctl_def placed_search(1) [OF assms(1)] using assms(2,3) by simp
  moreover have "st\<lparr>at_msg_q := []\<rparr> = st" using assms(2) by simp
  ultimately show ?thesis unfolding reply_step_def by (simp add: at_ctl_def)
qed

lemma awaiting_unfold:
  assumes "awaiting pre st"
  obtains us n u q where "g_at_context_dict st = [nearps_ctx, uart_ctx, user_rsp_ctx] @ us"
    "store st nearps_ctx = Some n" "fd n = NEARPS_DSP_FD" "\<not> far_ps n" "fwd_ctx n = Some uart_ctx" "send_req_now n" "at_cmd_prefix n = pre"
    "store st uart_ctx = Some u" "fd u = FARPS_UART_FD" "far_ps u" "fwd_ctx u = Some nearps_ctx"
    "store st user_rsp_ctx = Some q" "fd q = NEARPS_USER_FD" "\<not> far_ps q" "at_msg_q st = []"
  using assms unfolding awaiting_def placed_def by auto

lemma no_inform:
  assumes "pi_param pi = None \<or> (\<forall>q \<in> set (info_prefixes cfg). at_strcasecmp (Some q) (Some (pi_prefix pi)) \<noteq> 0)"
  shows "(case pi_param pi of None \<Rightarrow> st | Some p \<Rightarrow> at_info_proc cfg (pi_prefix pi) (g p) st) = st"
proof (cases "pi_param pi")
  case (Some p)
  then have "filter (\<lambda>p. at_strcasecmp (Some p) (Some (pi_prefix pi)) = 0) (info_prefixes cfg) = []"
    using assms by (simp add: filter_empty_conv)
  then show ?thesis using Some by (simp add: at_info_proc_def)
qed simp

lemma reply_routed:
  assumes "store st nearps_ctx = Some n" "\<not> at_check_sms_fun (at_cmd_prefix n)"
    "at_get_prefix_and_param (cmee_mode cfg) (specail_rsp_proc (at_cmd_prefix n) m @ [NUL]) 0 False (g_atctl_req_type st) = Some pi"
    "pi_param pi = None \<or> (\<forall>q \<in> set (info_prefixes cfg). at_strcasecmp (Some q) (Some (pi_prefix pi)) \<noteq> 0)"
  shows "proc_from_nearps cfg shm_ok \<lparr>msg_ctx = Some nearps_ctx, msg_id = AT_MSG_RCV_STR_FROM_NEARPS, msg_data = m\<rparr> st =
    Option.bind (route_reply cfg shm_ok n nearps_ctx (pi_prefix pi) m (specail_rsp_proc (at_cmd_prefix n) m)
        (st\<lparr>g_atctl_req_type := pi_type pi\<rparr>))
      (\<lambda>(m1, st1). end_reply cfg shm_ok (result_text cfg m) AT_MSG_RCV_STR_FROM_NEARPS nearps_ctx m1 st1)"
  using assms(1-3) unfolding proc_from_nearps_def Let_def
  by (simp add: no_inform [OF assms(4)] split: option.split)

lemma info_delivered:
  assumes "awaiting pre st" "info_reply cfg pre m" "\<not> at_check_sms_fun pre"
  shows "\<exists>st1. reply_step cfg shm_ok m st = Some st1 \<and> awaiting pre st1 \<and> ctl_out st1 = ctl_out st @ [Port_write m]"
proof -
  obtain us n u q where s: "g_at_context_dict st = [nearps_ctx, uart_ctx, user_rsp_ctx] @ us"
    "store st nearps_ctx = Some n" "fd n = NEARPS_DSP_FD" "\<not> far_ps n" "fwd_ctx n = Some uart_ctx" "send_req_now n" "at_cmd_prefix n = pre"
    "store st uart_ctx = Some u" "fd u = FARPS_UART_FD" "far_ps u" "fwd_ctx u = Some nearps_ctx"
    "store st user_rsp_ctx = Some q" "fd q = NEARPS_USER_FD" "\<not> far_ps q" "at_msg_q st = []"
    using awaiting_unfold [OF assms(1)] by blast
  have pl: "placed st" using assms(1) by (simp add: awaiting_def)
  obtain pi where pi: "at_get_prefix_and_param (cmee_mode cfg) (specail_rsp_proc pre m @ [NUL]) 0 False (g_atctl_req_type st) = Some pi"
    "pi_param pi = None \<or> (\<forall>q \<in> set (info_prefixes cfg). at_strcasecmp (Some q) (Some (pi_prefix pi)) \<noteq> 0)"
    using assms(2) unfolding info_reply_def parses_def by blast
  have sms: "\<not> at_check_sms_fun (at_cmd_prefix n)" using assms(3) s(7) by simp
  note pi' = pi(1) [folded s(7)]
  obtain k where m: "m \<noteq> []" "\<not> result_text cfg m" "find_sub pre m = Some k" using assms(2) by (auto simp: info_reply_def)
  show ?thesis unfolding reply_posted [OF pl s(15) m(1)] reply_routed [OF s(2) sms pi' pi(2)]
    using m s
    by (simp add: route_reply_def end_reply_def at_rsp_info_broadcast_def at_write_by_ctx_def at_farps_fd_write_def
        search_at_context_def fd_in_range_def fwd_prefix_def write_port_def put_event_def awaiting_def placed_def)
qed

lemma rewritten_not_busy:
  "final_reply cfg pre r \<Longrightarrow>
     snd (at_is_rsp_err (cmee_mode cfg) True (result_rewritten cfg r)) \<noteq> Some (err_number ATERR_CHANNEL_BUSY)"
  using public_number [of "cmee_mode cfg" r] by (auto simp: result_rewritten_def final_reply_def)

lemma result_delivered:
  assumes "awaiting pre st" "final_reply cfg pre r" "\<not> at_check_sms_fun pre"
  shows "\<exists>st1. reply_step cfg shm_ok r st = Some st1 \<and> quiet_ctl st1 \<and> ctl_out st1 = ctl_out st @ [Port_write (result_rewritten cfg r)] \<and>
    (\<forall>u. store st1 uart_ctx = Some u \<longrightarrow> \<not> processing u \<and> \<not> rcv_req_now u \<and> fwd_ctx u = None)"
proof -
  obtain us n u q where s: "g_at_context_dict st = [nearps_ctx, uart_ctx, user_rsp_ctx] @ us"
    "store st nearps_ctx = Some n" "fd n = NEARPS_DSP_FD" "\<not> far_ps n" "fwd_ctx n = Some uart_ctx" "send_req_now n" "at_cmd_prefix n = pre"
    "store st uart_ctx = Some u" "fd u = FARPS_UART_FD" "far_ps u" "fwd_ctx u = Some nearps_ctx"
    "store st user_rsp_ctx = Some q" "fd q = NEARPS_USER_FD" "\<not> far_ps q" "at_msg_q st = []"
    using awaiting_unfold [OF assms(1)] by blast
  have pl: "placed st" using assms(1) by (simp add: awaiting_def)
  have f: "r \<noteq> []" "result_text cfg r" using assms(2) by (auto simp: final_reply_def)
  have e: "snd (at_is_rsp_err (cmee_mode cfg) True (result_rewritten cfg r)) \<noteq> Some (err_number ATERR_CHANNEL_BUSY)"
    using rewritten_not_busy [OF assms(2)] .
  obtain pi where pi: "at_get_prefix_and_param (cmee_mode cfg) (specail_rsp_proc pre r @ [NUL]) 0 False (g_atctl_req_type st) = Some pi"
    "pi_param pi = None"
    using assms(2) unfolding final_reply_def parses_def by blast
  show ?thesis unfolding reply_posted [OF pl s(15) f(1)] proc_from_nearps_def
    using f e s pi assms(3)
    by (simp add: route_reply_def end_reply_def buffer_after_def upd_ctx_def search_at_context_def fd_in_range_def
        at_write_by_ctx_def at_farps_fd_write_def finish_cmd_def write_port_def put_event_def quiet_ctl_def placed_def
        reset_ctx_def reset_context_def Let_def split: option.splits)
qed

lemma infos_delivered:
  assumes "awaiting pre st" "\<forall>m \<in> set ms. info_reply cfg pre m" "\<not> at_check_sms_fun pre"
  shows "\<exists>st1. reply_steps cfg shm_ok ms st = Some st1 \<and> awaiting pre st1 \<and> ctl_out st1 = ctl_out st @ map Port_write ms"
  using assms(1,2)
proof (induction ms arbitrary: st)
  case Nil
  then show ?case by simp
next
  case (Cons m ms)
  then obtain st1 where st1: "reply_step cfg shm_ok m st = Some st1" "awaiting pre st1" "ctl_out st1 = ctl_out st @ [Port_write m]"
    using info_delivered [OF _ _ assms(3)] by (meson list.set_intros(1))
  then show ?case using Cons.IH [OF st1(2)] Cons.prems by auto
qed

text \<open>
  C26: A command of the port that the protocol stack handles makes the round trip: it is sent to the stack once,
  every report that carries its prefix and the final result are written to the port, in order, an error number of the
  firmware's own as its public number, and afterwards nobody waits for anybody.
\<close>

theorem command_round_trip:
  assumes "quiet_ctl st" "plain_line cfg pre l" "dsp_is_loaded cfg" "\<forall>m \<in> set ms. info_reply cfg pre m" "final_reply cfg pre r"
  shows "\<exists>st1 st2. Option.bind (line_from_port l st) (at_ctl cfg shm_ok) = Some st1 \<and>
    reply_steps cfg shm_ok (ms @ [r]) st1 = Some st2 \<and> quiet_ctl st2 \<and>
    ctl_out st2 = ctl_out st @ [Atc_send l] @ map Port_write (ms @ [result_rewritten cfg r])"
proof -
  have sms: "\<not> at_check_sms_fun pre" using assms(2) by (simp add: plain_line_def)
  obtain st1 where st1: "Option.bind (line_from_port l st) (at_ctl cfg shm_ok) = Some st1" "awaiting pre st1"
    "ctl_out st1 = ctl_out st @ [Atc_send l]" using line_forwarded [OF assms(1-3)] by blast
  obtain st2 where st2: "reply_steps cfg shm_ok ms st1 = Some st2" "awaiting pre st2" "ctl_out st2 = ctl_out st1 @ map Port_write ms"
    using infos_delivered [OF st1(2) assms(4) sms] by blast
  obtain st3 where st3: "reply_step cfg shm_ok r st2 = Some st3" "quiet_ctl st3" "ctl_out st3 = ctl_out st2 @ [Port_write (result_rewritten cfg r)]"
    using result_delivered [OF st2(2) assms(5) sms] by blast
  have "reply_steps cfg shm_ok (ms @ [r]) st1 = Some st3" using st2(1) st3(1) by (simp add: reply_steps_append)
  then show ?thesis using st1 st2(3) st3(2,3) by auto
qed

text \<open>An instance: the state after initialisation, and the query of the signal quality.\<close>

definition demo_ctl_cfg :: ctl_cfg where
  "demo_ctl_cfg = \<lparr>cmee_mode = 1, user_care = False, close_urc = False, off_debug = False, dsp_is_loaded = True, telecom_ver = False,
     mobile_ver = False, mqtt = False, g_at_basic_req = [(''AT+WORKLOCK'', \<lambda>_. (AT_END, None))], g_sysapp_req_serv = [],
     info_prefixes = [''+FORCEDL:'', ''+TCPACK:'']\<rparr>"

definition blank_ctl :: ctl_state where
  "blank_ctl = \<lparr>store = (\<lambda>_. None), next_addr = 3, g_at_context_dict = [], at_msg_q = [], proxy_q = [],
     g_atctl_req_type = AT_CMD_REQ, g_req_type = AT_CMD_REQ,
     port_standby = \<lparr>g_at_off_standby = 0, g_at_standby_timer = None, uart_processing = False, uart_error_no = AT_OK\<rparr>,
     passthr = demo_passthr, ctl_out = []\<rparr>"

definition demo_ctl :: ctl_state where
  "demo_ctl = the (init_at_context blank_ctl)"

lemma demo_ctl:
  "demo_ctl = blank_ctl\<lparr>store := [nearps_ctx \<mapsto> blank_context NEARPS_DSP_FD False, uart_ctx \<mapsto> blank_context FARPS_UART_FD True,
     user_rsp_ctx \<mapsto> blank_context NEARPS_USER_FD False], g_at_context_dict := [nearps_ctx, uart_ctx, user_rsp_ctx]\<rparr>"
  by (simp add: demo_ctl_def init_at_context_def register_at_context_def blank_ctl_def blank_context_def)

lemma demo_quiet: "quiet_ctl demo_ctl"
  unfolding demo_ctl by (simp add: quiet_ctl_def placed_def blank_context_def blank_ctl_def)

abbreviation csq :: string where "csq \<equiv> ''AT+CSQ'' @ [CR]"
abbreviation csq_info :: string where "csq_info \<equiv> [CR, LF] @ ''+CSQ:20,99'' @ [CR, LF]"

lemma csq_prefix:
  "at_get_prefix_and_param 1 (csq @ [NUL]) 0 True t = Some \<lparr>pi_param = Some 6, pi_prefix = ''AT+CSQ'', pi_type = AT_CMD_ACTIVE\<rparr>"
  "at_get_prefix_and_param 1 (csq @ [NUL]) 0 False t = Some \<lparr>pi_param = Some 6, pi_prefix = ''+CSQ'', pi_type = t\<rparr>"
  by (cases t; code_simp)+

lemma reply_prefix:
  "at_get_prefix_and_param 1 (at_ok_build @ [NUL]) 0 False t = Some \<lparr>pi_param = None, pi_prefix = [], pi_type = t\<rparr>"
  "at_get_prefix_and_param 1 (csq_info @ [NUL]) 0 False t = Some \<lparr>pi_param = Some 7, pi_prefix = ''+CSQ:'', pi_type = t\<rparr>"
  by (cases t; code_simp)+

lemma csq_plain: "plain_line demo_ctl_cfg ''+CSQ'' csq" "\<not> is_critical_req csq"
proof -
  have "\<not> starts_nocase csq ''AT+XDSEND=''" "\<not> is_softap_DSP_cmd csq" "\<not> at_check_sms_fun ''+CSQ''" "\<not> is_critical_req csq"
    "at_strcasecmp (Some ''AT+CSQ'') (Some ''AT+WORKLOCK'') \<noteq> 0"
    by code_simp+
  then show "plain_line demo_ctl_cfg ''+CSQ'' csq" "\<not> is_critical_req csq"
    using csq_prefix by (simp_all add: plain_line_def demo_ctl_cfg_def find_handler_def)
qed

lemma ok_build: "is_ok_at at_ok_build" "at_is_rsp_err 1 True at_ok_build = (False, None)"
  by code_simp+

lemma ok_final: "pre = [] \<or> pre = ''+CSQ'' \<Longrightarrow> final_reply demo_ctl_cfg pre at_ok_build"
proof -
  assume p: "pre = [] \<or> pre = ''+CSQ''"
  have "specail_rsp_proc [] at_ok_build = at_ok_build" "specail_rsp_proc ''+CSQ'' at_ok_build = at_ok_build"
    "fst (is_result_at 1 False False at_ok_build)" "snd (at_is_rsp_err 1 True at_ok_build) \<noteq> Some (err_number ATERR_CHANNEL_BUSY)"
    "at_ok_build \<noteq> []"
    by code_simp+
  then show ?thesis using p reply_prefix(1) by (auto simp: final_reply_def parses_def result_text_def demo_ctl_cfg_def)
qed

lemma csq_info: "info_reply demo_ctl_cfg ''+CSQ'' csq_info"
proof -
  have "specail_rsp_proc ''+CSQ'' csq_info = csq_info" "\<not> fst (is_result_at 1 False False csq_info)"
    "find_sub ''+CSQ'' csq_info \<noteq> None" "at_strcasecmp (Some ''+FORCEDL:'') (Some ''+CSQ:'') \<noteq> 0"
    "at_strcasecmp (Some ''+TCPACK:'') (Some ''+CSQ:'') \<noteq> 0"
    by code_simp+
  then show ?thesis using reply_prefix(2) by (simp add: info_reply_def parses_def result_text_def demo_ctl_cfg_def)
qed

theorem command_round_trip_witness:
  "\<exists>st1 st2. Option.bind (line_from_port csq demo_ctl) (at_ctl demo_ctl_cfg True) = Some st1 \<and>
    reply_steps demo_ctl_cfg True [csq_info, at_ok_build] st1 = Some st2 \<and>
    ctl_out st2 = [Atc_send csq, Port_write csq_info, Port_write at_ok_build]"
proof -
  have "dsp_is_loaded demo_ctl_cfg" "ctl_out demo_ctl = []" by (simp_all add: demo_ctl_cfg_def demo_ctl blank_ctl_def)
  moreover have "result_rewritten demo_ctl_cfg at_ok_build = at_ok_build" using ok_build by (simp add: result_rewritten_def)
  ultimately show ?thesis
    using command_round_trip [OF demo_quiet csq_plain(1), of "[csq_info]" at_ok_build True] csq_info ok_final by auto
qed

section \<open>When the stack is busy\<close>

lemma find_fd_cong: "(\<And>x. map_option fd (s x) = map_option fd (s' x)) \<Longrightarrow> find_fd s f as = find_fd s' f as"
proof (induction as)
  case Nil
  then show ?case by simp
next
  case (Cons a as)
  then show ?case using Cons.prems [of a] by (cases "s a"; cases "s' a") auto
qed

lemma search_upd:
  assumes "upd_ctx a g st = Some st1" "same_place g"
  shows "search_at_context f st1 = search_at_context f st" "store st1 = (store st)(a \<mapsto> g (the (store st a)))"
    "st1 = st\<lparr>store := store st1\<rparr>" "store st a \<noteq> None"
proof -
  obtain c where c: "store st a = Some c" "st1 = st\<lparr>store := (store st)(a \<mapsto> g c)\<rparr>"
    using assms(1) by (auto simp: upd_ctx_def split: option.splits)
  have "find_fd ((store st)(a \<mapsto> g c)) f x = find_fd (store st) f x" for x
    using c(1) assms(2) by (intro find_fd_cong) (auto simp: same_place_def)
  then show "search_at_context f st1 = search_at_context f st" using c(2) by (simp add: search_at_context_def)
  show "store st1 = (store st)(a \<mapsto> g (the (store st a)))" "st1 = st\<lparr>store := store st1\<rparr>" "store st a \<noteq> None" using c by simp_all
qed

text \<open>A command waits in the queue while the stack is busy with another.\<close>

definition kept_waiting :: "addr \<Rightarrow> string \<Rightarrow> nat \<Rightarrow> ctl_state \<Rightarrow> bool" where
  "kept_waiting a l k st \<longleftrightarrow> placed st \<and> at_msg_q st = [\<lparr>msg_ctx = Some a, msg_id = AT_MSG_RCV_STR_FROM_FARPS, msg_data = l\<rparr>] \<and>
     (\<exists>n. store st nearps_ctx = Some n \<and> send_req_now n) \<and> a \<noteq> nearps_ctx \<and>
     (\<exists>c. store st a = Some c \<and> retrans_count c = k \<and> search_at_context (fd c) st = Some (Some a))"

text \<open>The first part of \<open>proc_from_farps\<close>, up to the decision that the stack has to do it.\<close>

lemma farps_to_stack:
  assumes "kept_waiting a l k st" "plain_line cfg pre l"
  shows "\<exists>st1 c. at_ctl cfg shm_ok st = forward_req_at_proc cfg shm_ok False a AT_MSG_RCV_STR_FROM_FARPS l st1 \<and> placed st1 \<and>
    at_msg_q st1 = [] \<and> store st1 nearps_ctx = store st nearps_ctx \<and> ctl_out st1 = ctl_out st \<and>
    store st1 a = Some c \<and> retrans_count c = k \<and> fd c = fd (the (store st a)) \<and> (\<forall>f. search_at_context f st1 = search_at_context f st)"
proof -
  obtain pi where p: "\<not> starts_nocase l ''AT+XDSEND=''"
    "at_get_prefix_and_param (cmee_mode cfg) (l @ [NUL]) 0 True (g_atctl_req_type st) = Some pi" "pi_prefix pi \<noteq> []"
    "find_handler (pi_prefix pi) (g_at_basic_req cfg) = None" "find_handler (pi_prefix pi) (g_sysapp_req_serv cfg) = None"
    using assms(2) unfolding plain_line_def by blast
  obtain c where c: "placed st" "at_msg_q st = [\<lparr>msg_ctx = Some a, msg_id = AT_MSG_RCV_STR_FROM_FARPS, msg_data = l\<rparr>]"
    "a \<noteq> nearps_ctx" "store st a = Some c" "retrans_count c = k" using assms(1) by (auto simp: kept_waiting_def)
  let ?g = "\<lambda>c. c\<lparr>at_cmd_prefix := pi_prefix pi, at_param := map_option (text_from l) (pi_param pi)\<rparr>"
  let ?st0 = "st\<lparr>at_msg_q := []\<rparr>"
  have g: "same_place ?g" by (simp add: same_place_def)
  obtain st1 where st1: "upd_ctx a ?g ?st0 = Some st1" using c(4) by (simp add: upd_ctx_def)
  have pl0: "placed ?st0" using c(1) by (simp add: placed_def)
  let ?st2 = "st1\<lparr>g_atctl_req_type := pi_type pi\<rparr>"
  have s1: "store st1 = (store st)(a \<mapsto> ?g c)" using search_upd(2) [OF st1 g] c(4) by simp
  have f: "at_msg_q st1 = []" "ctl_out st1 = ctl_out st"
    using st1 c(4) by (auto simp: upd_ctx_def)
  have e: "at_ctl cfg shm_ok st = forward_req_at_proc cfg shm_ok False a AT_MSG_RCV_STR_FROM_FARPS l ?st2"
    using p c(2) st1 s1 by (simp add: at_ctl_def proc_from_farps_def Let_def)
  have pl: "placed ?st2" using placed_upd [OF pl0 g st1] by (simp add: placed_def)
  have srch: "search_at_context f ?st2 = search_at_context f st" for f
    using search_upd(1) [OF st1 g, of f] by (simp add: search_at_context_def)
  show ?thesis
    by (rule exI [of _ ?st2], rule exI [of _ "?g c"]) (use e pl srch s1 f c(3,4,5) in \<open>simp add: fun_upd_def\<close>)
qed

lemma busy_retry:
  assumes "kept_waiting a l k st" "plain_line cfg pre l" "\<not> is_critical_req l" "k < RETRANS_MAX_NUM"
  shows "\<exists>st1. at_ctl cfg shm_ok st = Some st1 \<and> kept_waiting a l (Suc k) st1 \<and> ctl_out st1 = ctl_out st \<and>
    map_option fd (store st1 a) = map_option fd (store st a)"
proof -
  obtain n c0 where n: "store st nearps_ctx = Some n" "send_req_now n" "a \<noteq> nearps_ctx" "store st a = Some c0"
    "search_at_context (fd c0) st = Some (Some a)"
    using assms(1) by (auto simp: kept_waiting_def)
  obtain st1 c where st1: "at_ctl cfg shm_ok st = forward_req_at_proc cfg shm_ok False a AT_MSG_RCV_STR_FROM_FARPS l st1"
    "placed st1" "at_msg_q st1 = []" "store st1 nearps_ctx = Some n" "ctl_out st1 = ctl_out st" "store st1 a = Some c"
    "retrans_count c = k" "fd c = fd c0" "\<And>f. search_at_context f st1 = search_at_context f st"
    using farps_to_stack [OF assms(1,2), of shm_ok] n(1,4) by auto
  obtain st2 where st2: "upd_ctx a (retrans_count_update Suc) st1 = Some st2" using st1(6) by (simp add: upd_ctx_def)
  note u = search_upd [OF st2 same_place_upd(6)]
  have pl: "placed st2" using placed_upd [OF st1(2) same_place_upd(6) st2] .
  have q: "at_msg_q st2 = []" "ctl_out st2 = ctl_out st" using st2 st1(3,5,6) by (auto simp: upd_ctx_def)
  let ?st3 = "st2\<lparr>at_msg_q := [\<lparr>msg_ctx = Some a, msg_id = AT_MSG_RCV_STR_FROM_FARPS, msg_data = l\<rparr>]\<rparr>"
  have rep: "report_to_ctl AT_MSG_RCV_STR_FROM_FARPS l (fd c) st2 = Some ?st3"
    unfolding report_to_ctl_def send_msg_2_atctl_def u(1) st1(8,9) n(5) using q(1) by simp
  have e: "at_ctl cfg shm_ok st = Some ?st3"
    unfolding st1(1) forward_req_at_proc_def placed_search(1) [OF st1(2)] using assms(3,4) st1(4,6,7) n(2) st2 rep by simp
  have "search_at_context f ?st3 = search_at_context f st" for f
    using u(1) [of f] st1(9) [of f] by (simp add: search_at_context_def)
  moreover have "placed ?st3" using pl by (simp add: placed_def)
  moreover have "store ?st3 = (store st1)(a \<mapsto> c\<lparr>retrans_count := Suc k\<rparr>)" using u(2) st1(6,7) by (cases c) simp
  ultimately have "kept_waiting a l (Suc k) ?st3" unfolding kept_waiting_def using n st1(4,8) by simp
  moreover have "map_option fd (store ?st3 a) = map_option fd (store st a)"
    using u(2) st1(6,8) n(4) by simp
  ultimately show ?thesis using e q(2) by (intro exI [of _ ?st3]) simp
qed

definition busy_text :: "ctl_cfg \<Rightarrow> string" where
  "busy_text cfg = the (at_err_build_info cfg ATERR_CHANNEL_BUSY)"

lemma busy_text: "at_err_build_info cfg ATERR_CHANNEL_BUSY = Some (busy_text cfg)"
  by (simp add: busy_text_def at_err_build_info_def)

text \<open>After the last attempt only the port is told.\<close>

lemma busy_end:
  assumes "kept_waiting a l RETRANS_MAX_NUM st" "plain_line cfg pre l" "\<not> is_critical_req l"
    "\<forall>c. store st a = Some c \<longrightarrow> fd c = FARPS_UART_FD \<or> user_fd (fd c)"
  shows "\<exists>st1. at_ctl cfg shm_ok st = Some st1 \<and> placed st1 \<and> at_msg_q st1 = [] \<and>
    ctl_out st1 = ctl_out st @ (if fd (the (store st a)) = FARPS_UART_FD then [Port_write (busy_text cfg)] else [])"
proof -
  obtain n c0 where n: "store st nearps_ctx = Some n" "send_req_now n" "a \<noteq> nearps_ctx" "store st a = Some c0"
    using assms(1) by (auto simp: kept_waiting_def)
  obtain st1 c where st1: "at_ctl cfg shm_ok st = forward_req_at_proc cfg shm_ok False a AT_MSG_RCV_STR_FROM_FARPS l st1"
    "placed st1" "at_msg_q st1 = []" "store st1 nearps_ctx = Some n" "ctl_out st1 = ctl_out st" "store st1 a = Some c"
    "retrans_count c = RETRANS_MAX_NUM" "fd c = fd c0"
    using farps_to_stack [OF assms(1,2), of shm_ok] n(1,4) by auto
  have e: "at_ctl cfg shm_ok st = Option.bind (send_at_err_to_periperal cfg ATERR_CHANNEL_BUSY a st1) (reset_ctx a)"
    unfolding st1(1) forward_req_at_proc_def placed_search(1) [OF st1(2)] using assms(3) st1(4,6,7) n(2) by simp
  show ?thesis
  proof (cases "fd c = FARPS_UART_FD")
    case True
    let ?g = "error_no_update (\<lambda>_. err_number ATERR_CHANNEL_BUSY)"
    obtain st2 where st2: "upd_ctx a ?g st1 = Some st2" using st1(6) by (simp add: upd_ctx_def)
    have pl2: "placed st2" using placed_upd [OF st1(2) same_place_upd(7) st2] .
    have q: "at_msg_q st2 = []" "ctl_out st2 = ctl_out st" "store st2 a = Some (?g c)"
      using st2 st1(3,5,6) by (auto simp: upd_ctx_def)
    let ?st3 = "put_event (Port_write (busy_text cfg)) st2"
    have pl3: "placed ?st3" using pl2 by (simp add: placed_def put_event_def)
    have s: "send_at_err_to_periperal cfg ATERR_CHANNEL_BUSY a st1 = Some ?st3"
      unfolding send_at_err_to_periperal_def using st1(6) True st2 busy_text by simp
    obtain st4 where st4: "reset_ctx a ?st3 = Some st4" using q(3) by (simp add: reset_ctx_def upd_ctx_def put_event_def)
    have "placed st4" using placed_upd [OF pl3 same_place_upd(8) st4 [unfolded reset_ctx_def]] .
    moreover have "at_msg_q st4 = []" "ctl_out st4 = ctl_out st @ [Port_write (busy_text cfg)]"
      using st4 q by (auto simp: reset_ctx_def upd_ctx_def put_event_def split: option.splits)
    ultimately show ?thesis using e s st4 True st1(8) n(4) by simp
  next
    case False
    then have "user_fd (fd c)" using assms(4) n(4) st1(8) by simp
    then have s: "send_at_err_to_periperal cfg ATERR_CHANNEL_BUSY a st1 = Some st1"
      unfolding send_at_err_to_periperal_def using st1(6) by simp
    obtain st4 where st4: "reset_ctx a st1 = Some st4" using st1(6) by (simp add: reset_ctx_def upd_ctx_def)
    have "placed st4" using placed_upd [OF st1(2) same_place_upd(8) st4 [unfolded reset_ctx_def]] .
    moreover have "at_msg_q st4 = []" "ctl_out st4 = ctl_out st"
      using st4 st1(3,5) by (auto simp: reset_ctx_def upd_ctx_def split: option.splits)
    ultimately show ?thesis using e s st4 False st1(8) n(4) by simp
  qed
qed

fun ctl_run :: "ctl_cfg \<Rightarrow> bool \<Rightarrow> nat \<Rightarrow> ctl_state \<Rightarrow> ctl_state option" where
  "ctl_run cfg shm_ok 0 st = Some st"
| "ctl_run cfg shm_ok (Suc k) st = (case at_ctl cfg shm_ok st of None \<Rightarrow> None | Some st1 \<Rightarrow> ctl_run cfg shm_ok k st1)"

lemma busy_run:
  assumes "kept_waiting a l k st" "plain_line cfg pre l" "\<not> is_critical_req l" "k \<le> RETRANS_MAX_NUM"
    "\<forall>c. store st a = Some c \<longrightarrow> fd c = FARPS_UART_FD \<or> user_fd (fd c)" "d = RETRANS_MAX_NUM - k"
  shows "(\<forall>j \<le> d. \<exists>st1. ctl_run cfg shm_ok j st = Some st1 \<and> ctl_out st1 = ctl_out st) \<and>
    (\<exists>st1. ctl_run cfg shm_ok (Suc d) st = Some st1 \<and> at_msg_q st1 = [] \<and>
      ctl_out st1 = ctl_out st @ (if fd (the (store st a)) = FARPS_UART_FD then [Port_write (busy_text cfg)] else []))"
  using assms(1,4-6)
proof (induction d arbitrary: k st)
  case 0
  then have k: "k = RETRANS_MAX_NUM" by simp
  have "kept_waiting a l RETRANS_MAX_NUM st" using 0(1) k by simp
  from busy_end [OF this assms(2,3) 0(3), of shm_ok] show ?case by auto
next
  case (Suc d)
  have k: "k < RETRANS_MAX_NUM" using Suc.prems(4) by simp
  obtain st1 where st1: "at_ctl cfg shm_ok st = Some st1" "kept_waiting a l (Suc k) st1" "ctl_out st1 = ctl_out st"
    "map_option fd (store st1 a) = map_option fd (store st a)"
    using busy_retry [OF Suc.prems(1) assms(2,3) k, of shm_ok] by blast
  obtain c c1 where c: "store st a = Some c" "store st1 a = Some c1" using Suc.prems(1) st1(2) by (auto simp: kept_waiting_def)
  have f: "fd c1 = fd c" using st1(4) c by simp
  have d: "d = RETRANS_MAX_NUM - Suc k" using Suc.prems(4) by simp
  have "\<forall>c. store st1 a = Some c \<longrightarrow> fd c = FARPS_UART_FD \<or> user_fd (fd c)" using Suc.prems(3) c f by simp
  from Suc.IH [OF st1(2) Suc_leI [OF k] this d]
  have ih: "\<forall>j \<le> d. \<exists>st2. ctl_run cfg shm_ok j st1 = Some st2 \<and> ctl_out st2 = ctl_out st"
    "\<exists>st2. ctl_run cfg shm_ok (Suc d) st1 = Some st2 \<and> at_msg_q st2 = [] \<and>
      ctl_out st2 = ctl_out st @ (if fd c = FARPS_UART_FD then [Port_write (busy_text cfg)] else [])"
    using st1(3) c f by auto
  have "\<exists>st2. ctl_run cfg shm_ok j st = Some st2 \<and> ctl_out st2 = ctl_out st" if "j \<le> Suc d" for j
    using ih(1) st1(1) that by (cases j) auto
  moreover have "ctl_run cfg shm_ok (Suc (Suc d)) st = ctl_run cfg shm_ok (Suc d) st1" using st1(1) by simp
  ultimately show ?case using ih(2) c(1) by simp
qed

text \<open>The stack is busy; the line of the port, or that of a request of the firmware, is in the queue.\<close>

definition demo_busy :: "addr \<Rightarrow> ctl_state" where
  "demo_busy a = demo_ctl\<lparr>
     store := (store demo_ctl)(nearps_ctx \<mapsto> (blank_context NEARPS_DSP_FD False)\<lparr>send_req_now := True, fwd_ctx := Some uart_ctx\<rparr>,
                3 \<mapsto> blank_context 9 True),
     g_at_context_dict := [nearps_ctx, uart_ctx, user_rsp_ctx, 3],
     at_msg_q := [\<lparr>msg_ctx = Some a, msg_id = AT_MSG_RCV_STR_FROM_FARPS, msg_data = csq\<rparr>]\<rparr>"

lemma demo_busy: "a = uart_ctx \<or> a = 3 \<Longrightarrow> kept_waiting a csq 0 (demo_busy a)"
  by (auto simp: kept_waiting_def demo_busy_def demo_ctl placed_def blank_context_def search_at_context_def fd_in_range_def)

text \<open>
  C27: While the protocol stack is busy with another command, an ordinary command of the port is tried 41 times,
  with nothing sent in the meantime, and then refused with the busy error.
\<close>

theorem busy_refused_after_41:
  assumes "kept_waiting uart_ctx l 0 st" "plain_line cfg pre l" "\<not> is_critical_req l"
  shows "(\<forall>j \<le> 40. \<exists>st1. ctl_run cfg shm_ok j st = Some st1 \<and> ctl_out st1 = ctl_out st) \<and>
    (\<exists>st1. ctl_run cfg shm_ok 41 st = Some st1 \<and> at_msg_q st1 = [] \<and> ctl_out st1 = ctl_out st @ [Port_write (busy_text cfg)])"
proof -
  have f: "\<forall>c. store st uart_ctx = Some c \<longrightarrow> fd c = FARPS_UART_FD \<or> user_fd (fd c)"
    "fd (the (store st uart_ctx)) = FARPS_UART_FD"
    using assms(1) by (auto simp: kept_waiting_def placed_def)
  have "ctl_run cfg shm_ok 41 st = ctl_run cfg shm_ok (Suc 40) st" by (simp only: eval_nat_numeral)
  then show ?thesis using busy_run [OF assms _ f(1), of 40 shm_ok] f(2) by simp
qed

theorem busy_refused_after_41_witness:
  "\<exists>st1. ctl_run demo_ctl_cfg True 41 (demo_busy uart_ctx) = Some st1 \<and> ctl_out st1 = [Port_write (busy_text demo_ctl_cfg)]"
proof -
  have "ctl_out (demo_busy uart_ctx) = []" by (simp add: demo_busy_def demo_ctl blank_ctl_def)
  then show ?thesis using busy_refused_after_41 [OF demo_busy csq_plain, of True] by auto
qed

text \<open>
  A command of the firmware itself is given up just the same, but nobody is told: whoever waits for its
  result waits until the timer of the request expires.
\<close>

lemma user_busy_unanswered:
  assumes "kept_waiting a l 0 st" "plain_line cfg pre l" "\<not> is_critical_req l" "\<forall>c. store st a = Some c \<longrightarrow> user_fd (fd c)"
  shows "\<exists>st1. ctl_run cfg shm_ok 41 st = Some st1 \<and> at_msg_q st1 = [] \<and> ctl_out st1 = ctl_out st"
proof -
  have f: "fd (the (store st a)) \<noteq> FARPS_UART_FD" using assms(1,4) by (auto simp: kept_waiting_def)
  have "ctl_run cfg shm_ok 41 st = ctl_run cfg shm_ok (Suc 40) st" by (simp only: eval_nat_numeral)
  then show ?thesis using busy_run [OF assms(1-3), of 40 shm_ok] assms(4) f by simp
qed

section \<open>When a request times out\<close>

lemma timeout_effect:
  assumes "placed st" "store st a = Some c" "a \<noteq> nearps_ctx"
  shows "\<exists>st1. wait_nearps_rsp_timeout_proc cfg a st = Some st1 \<and> placed st1 \<and> at_msg_q st1 = at_msg_q st \<and>
    (\<forall>x. x \<noteq> nearps_ctx \<longrightarrow> store st1 x = store st x) \<and>
    (\<forall>n. store st nearps_ctx = Some n \<longrightarrow> store st1 nearps_ctx = Some (if fwd_ctx n \<noteq> None then reset_context n else n)) \<and>
    (\<exists>e. ctl_out st1 = ctl_out st @ [App_rsp (fd c) e]) \<and> g_at_context_dict st1 = g_at_context_dict st"
proof -
  obtain n where n: "store st nearps_ctx = Some n" using assms(1) by (auto simp: placed_def)
  have "at_err_build_info cfg ATERR_WAIT_RSP_TIMEOUT \<noteq> None" by (simp add: at_err_build_info_def)
  then obtain e where e: "at_err_build_info cfg ATERR_WAIT_RSP_TIMEOUT = Some e" by blast
  let ?st1 = "if fwd_ctx n \<noteq> None then st\<lparr>store := (store st)(nearps_ctx \<mapsto> reset_context n)\<rparr> else st"
  have t: "wait_nearps_rsp_timeout_proc cfg a st = Some (put_event (App_rsp (fd c) e) ?st1)"
    unfolding wait_nearps_rsp_timeout_proc_def placed_search(1) [OF assms(1)]
    using assms(2) n e by (simp add: reset_ctx_def upd_ctx_def)
  have "placed ?st1"
    using placed_upd [OF assms(1) same_place_upd(8), of nearps_ctx] assms(1) n by (auto simp: upd_ctx_def)
  then have "placed (put_event (App_rsp (fd c) e) ?st1)" by (simp add: placed_def put_event_def)
  then show ?thesis using t n by (intro exI [of _ "put_event (App_rsp (fd c) e) ?st1"]) (simp add: put_event_def)
qed

lemma end_user_req_effect:
  assumes "placed st" "store st a = Some c" "a \<noteq> nearps_ctx" "user_fd (fd c)" "search_at_context (fd c) st = Some (Some a)"
  shows "end_user_req a st = Some (free_context a (st\<lparr>g_at_context_dict := remove1 a (g_at_context_dict st)\<rparr>))"
proof -
  obtain us where "g_at_context_dict st = [nearps_ctx, uart_ctx, user_rsp_ctx] @ us" using assms(1) by (auto simp: placed_def)
  then show ?thesis using assms(2-5) by (simp add: end_user_req_def deregister_at_context_def search_at_context_def fd_in_range_def)
qed

lemma search_after_timeout:
  assumes "placed st" "store st a = Some c" "a \<noteq> nearps_ctx" "search_at_context f st = Some r"
    "wait_nearps_rsp_timeout_proc cfg a st = Some st1"
  shows "search_at_context f st1 = Some r"
proof -
  obtain n where n: "store st nearps_ctx = Some n" using assms(1) by (auto simp: placed_def)
  have st1: "\<forall>x. x \<noteq> nearps_ctx \<longrightarrow> store st1 x = store st x" "g_at_context_dict st1 = g_at_context_dict st"
    "store st1 nearps_ctx = Some (if fwd_ctx n \<noteq> None then reset_context n else n)"
    using timeout_effect [OF assms(1-3), of cfg] assms(5) n by auto
  have "map_option fd (store st1 x) = map_option fd (store st x)" for x
    using st1(1,3) n by (cases "x = nearps_ctx") (auto simp: reset_context_def)
  then show ?thesis using assms(4) find_fd_cong [of "store st1" "store st"] by (simp add: search_at_context_def st1(2))
qed

text \<open>
  C28: A request that times out while its command waits for a busy stack is freed, but the command is still in
  the queue: the control task goes on to use the freed context.
\<close>

theorem timed_out_context_used:
  assumes "kept_waiting a l k st" "plain_line cfg pre l" "\<not> is_critical_req l" "k < 40"
    "\<forall>c. store st a = Some c \<longrightarrow> user_fd (fd c)"
  shows "\<exists>st1 st2 st3. at_ctl cfg shm_ok st = Some st1 \<and> wait_nearps_rsp_timeout_proc cfg a st1 = Some st2 \<and>
    end_user_req a st2 = Some st3 \<and> at_ctl cfg shm_ok st3 = None"
proof -
  obtain st1 where st1: "at_ctl cfg shm_ok st = Some st1" "kept_waiting a l (Suc k) st1" "ctl_out st1 = ctl_out st"
    "map_option fd (store st1 a) = map_option fd (store st a)"
    using busy_retry [OF assms(1-4), of shm_ok] by blast
  obtain c where c: "placed st1" "store st1 a = Some c" "search_at_context (fd c) st1 = Some (Some a)" "a \<noteq> nearps_ctx"
    "at_msg_q st1 = [\<lparr>msg_ctx = Some a, msg_id = AT_MSG_RCV_STR_FROM_FARPS, msg_data = l\<rparr>]"
    using st1(2) by (auto simp: kept_waiting_def)
  obtain st2 where st2: "wait_nearps_rsp_timeout_proc cfg a st1 = Some st2" "placed st2" "at_msg_q st2 = at_msg_q st1"
    "store st2 a = Some c"
    using timeout_effect [OF c(1,2,4), of cfg] c(2,4) by auto
  have f: "search_at_context (fd c) st2 = Some (Some a)" using search_after_timeout [OF c(1,2,4,3) st2(1)] .
  have "fd c = fd (the (store st a))" "store st a \<noteq> None" using st1(2,4) c(2) assms(1) by (auto simp: kept_waiting_def)
  then have u: "user_fd (fd c)" using assms(5) by auto
  let ?st3 = "free_context a (st2\<lparr>g_at_context_dict := remove1 a (g_at_context_dict st2)\<rparr>)"
  have e: "end_user_req a st2 = Some ?st3" using end_user_req_effect [OF st2(2,4) c(4) u f] .
  have "upd_ctx a g (?st3\<lparr>at_msg_q := []\<rparr>) = None" for g by (simp add: upd_ctx_def free_context_def)
  moreover have "at_msg_q ?st3 = [\<lparr>msg_ctx = Some a, msg_id = AT_MSG_RCV_STR_FROM_FARPS, msg_data = l\<rparr>]"
    using st2(3) c(5) by (simp add: free_context_def)
  moreover have "\<not> starts_nocase l ''AT+XDSEND=''" using assms(2) by (simp add: plain_line_def)
  ultimately have "at_ctl cfg shm_ok ?st3 = None"
    by (simp add: at_ctl_def proc_from_farps_def split: option.split bind_splits)
  then show ?thesis using st1(1) st2(1) e by blast
qed

theorem timed_out_context_used_witness:
  "\<exists>st1 st2 st3. at_ctl demo_ctl_cfg True (demo_busy 3) = Some st1 \<and> wait_nearps_rsp_timeout_proc demo_ctl_cfg 3 st1 = Some st2 \<and>
    end_user_req 3 st2 = Some st3 \<and> at_ctl demo_ctl_cfg True st3 = None"
  by (rule timed_out_context_used [OF demo_busy csq_plain]) (simp_all add: demo_busy_def demo_ctl blank_context_def)

text \<open>
  C29: The timer of one request takes the stack away from whoever is using it: when the result of a command of the
  port arrives after some other request has timed out, it is dropped, and the port stays busy.
\<close>

theorem timeout_loses_result:
  assumes "awaiting pre st" "store st a = Some c" "a \<noteq> nearps_ctx" "final_reply cfg [] r"
    "snd (at_is_rsp_err (cmee_mode cfg) True r) \<noteq> Some (err_number ATERR_CHANNEL_BUSY)"
  shows "\<exists>st1 st2. wait_nearps_rsp_timeout_proc cfg a st = Some st1 \<and> reply_step cfg shm_ok r st1 = Some st2 \<and>
    ctl_out st2 = ctl_out st1 \<and> store st2 uart_ctx = store st uart_ctx"
proof -
  obtain n where n: "store st nearps_ctx = Some n" "fwd_ctx n = Some uart_ctx" "at_msg_q st = []" "placed st" "fd n = NEARPS_DSP_FD"
    using assms(1) by (auto simp: awaiting_def placed_def)
  obtain st1 where st1: "wait_nearps_rsp_timeout_proc cfg a st = Some st1" "placed st1" "at_msg_q st1 = []"
    "store st1 nearps_ctx = Some (reset_context n)" "store st1 uart_ctx = store st uart_ctx"
    using timeout_effect [OF n(4) assms(2,3), of cfg] n by auto
  have f: "r \<noteq> []" "result_text cfg r" "snd (at_is_rsp_err (cmee_mode cfg) True r) \<noteq> Some (err_number ATERR_CHANNEL_BUSY)"
    using assms(4,5) by (auto simp: final_reply_def)
  obtain pi where pi: "at_get_prefix_and_param (cmee_mode cfg) (specail_rsp_proc [] r @ [NUL]) 0 False (g_atctl_req_type st1) = Some pi"
    "pi_param pi = None"
    using assms(4) unfolding final_reply_def parses_def by blast
  have p: "at_cmd_prefix (reset_context n) = []" "fwd_ctx (reset_context n) = None" "fd (reset_context n) = NEARPS_DSP_FD"
    using n(5) by (simp_all add: reset_context_def)
  have "\<exists>st2. reply_step cfg shm_ok r st1 = Some st2 \<and> ctl_out st2 = ctl_out st1 \<and> store st2 uart_ctx = store st1 uart_ctx"
    unfolding reply_posted [OF st1(2,3) f(1)] proc_from_nearps_def Let_def
    using st1(4) p pi f(2,3) by (simp add: route_reply_def end_reply_def reset_ctx_def upd_ctx_def)
  then show ?thesis using st1(1,5) by auto
qed

theorem timeout_loses_result_witness:
  "\<exists>st1 st2. wait_nearps_rsp_timeout_proc demo_ctl_cfg 3 (demo_busy 3\<lparr>at_msg_q := [],
       store := (store (demo_busy 3))(uart_ctx \<mapsto> (blank_context FARPS_UART_FD True)\<lparr>fwd_ctx := Some nearps_ctx\<rparr>)\<rparr>) = Some st1 \<and>
     reply_step demo_ctl_cfg True at_ok_build st1 = Some st2 \<and> ctl_out st2 = ctl_out st1"
proof -
  let ?s = "demo_busy 3\<lparr>at_msg_q := [], store := (store (demo_busy 3))(uart_ctx \<mapsto> (blank_context FARPS_UART_FD True)\<lparr>fwd_ctx := Some nearps_ctx\<rparr>)\<rparr>"
  have "awaiting [] ?s" "store ?s 3 = Some (blank_context 9 True)"
    by (simp_all add: awaiting_def placed_def demo_busy_def demo_ctl blank_context_def)
  from timeout_loses_result [OF this _ ok_final, of True] ok_build(2) show ?thesis by (auto simp: demo_ctl_cfg_def)
qed

end
