(* ===== verification/At_Socket.thy ===== *)
theory At_Socket
  imports At_Params At_Api XY_Utils
begin

text \<open>
  The sockets of the AT commands (\<^verbatim>\<open>APPLIB/at_socket/src/at_socket_context.c\<close>, the receiver thread of
  \<^verbatim>\<open>at_socket_rcv.c\<close>): the table of contexts, the list of packets whose delivery is not known yet, and what is
  received. Contexts are allocated, entered in the table, pointed at by other tasks and freed, so they live under
  addresses; \<open>None\<close> is a failed assertion, the use of NULL or of a freed context, or an access outside an array. The
  answers of lwIP are arguments. What leaves the component is a list of events, in order.
\<close>

section \<open>State\<close>

abbreviation SOCK_NUM :: nat where "SOCK_NUM \<equiv> 5"
abbreviation SEQUENCE_MAX :: nat where "SEQUENCE_MAX \<equiv> 255"
abbreviation AT_SOCKET_MAX_DATA_LEN :: nat where "AT_SOCKET_MAX_DATA_LEN \<equiv> 1024"

abbreviation SEND_STATUS_UNUSED :: int where "SEND_STATUS_UNUSED \<equiv> -1"
abbreviation SEND_STATUS_FAILED :: int where "SEND_STATUS_FAILED \<equiv> 0"
abbreviation SEND_STATUS_SUCCESS :: int where "SEND_STATUS_SUCCESS \<equiv> 1"
abbreviation SEND_STATUS_SENDING :: int where "SEND_STATUS_SENDING \<equiv> 2"

abbreviation ASCII_STRING :: nat where "ASCII_STRING \<equiv> 0"
abbreviation HEX_ASCII_STRING :: nat where "HEX_ASCII_STRING \<equiv> 1"

type_synonym sock_addr = nat

text \<open>\<^verbatim>\<open>net_type\<close> is 1 for UDP and 0 for TCP. \<^verbatim>\<open>xy_zalloc\<close> makes every state of a sequence number 0, which means failed.\<close>

record socket_context =
  sock_id :: nat
  af_type :: nat
  is_deact :: bool
  sock_quit :: bool
  sock_fd :: nat
  firt_recv :: bool
  recv_ctl :: int
  net_type :: nat
  remote_port :: u16
  local_port :: u16
  sended_size :: u32
  remote_ip :: "string option"
  rcv_list :: "(u8 list \<times> string \<times> u16) list"
  acked :: u32
  local_port_ori :: u16
  zero_flag :: bool
  accessmode :: nat
  cid :: nat
  sock_state :: nat
  sequence_state :: "int list"

definition zero_socket :: socket_context where
  "zero_socket = \<lparr>sock_id = 0, af_type = 0, is_deact = False, sock_quit = False, sock_fd = 0, firt_recv = False, recv_ctl = 0,
     net_type = 0, remote_port = 0, local_port = 0, sended_size = 0, remote_ip = None, rcv_list = [], acked = 0,
     local_port_ori = 0, zero_flag = False, accessmode = 0, cid = 0, sock_state = 0,
     sequence_state = replicate SEQUENCE_MAX 0\<rparr>"

record sock_sn_node =
  per_sn :: u32
  data_len :: u32
  node_id :: nat
  node_seq :: nat
  node_type :: nat

datatype sock_event =
  Sock_Close nat | Sock_Tx nat "u8 list" nat int int | Rsp_Ext string | Urc_Ext string | Uart_All string | Remote_At string
| Save_Format nat | Enter_Passthr u16 u32 | Leave_Passthr xy_ret

text \<open>
  \<open>passthr_param\<close> is the argument of the transparent mode, \<open>passthr_sock_q\<close> the queue of its sender task, \<open>open_tasks\<close> are the
  tasks that are opening a socket, with the slot each has chosen.
\<close>

record sockets =
  ctxs :: "sock_addr \<Rightarrow> socket_context option"
  next_ctx :: sock_addr
  sock_ctx :: "sock_addr option list"
  sn_info :: "sock_sn_node list"
  at_rcv_thread :: bool
  g_data_send_mode :: nat
  g_data_recv_mode :: nat
  g_remoteat_isenable :: bool
  g_Remote_AT_Rsp :: "string option"
  transmission_flag :: bool
  passthr_param :: "sock_addr option"
  passthr_sock_q :: "(nat \<times> sock_addr \<times> string) list option"
  open_tasks :: "(sock_addr \<times> nat option) list"
  sock_out :: "sock_event list"

definition sock_emit :: "sock_event \<Rightarrow> sockets \<Rightarrow> sockets" where
  "sock_emit e st = st\<lparr>sock_out := sock_out st @ [e]\<rparr>"

definition upd_sock :: "sock_addr \<Rightarrow> (socket_context \<Rightarrow> socket_context) \<Rightarrow> sockets \<Rightarrow> sockets option" where
  "upd_sock a f st = (case ctxs st a of None \<Rightarrow> None | Some c \<Rightarrow> Some (st\<lparr>ctxs := (ctxs st)(a \<mapsto> f c)\<rparr>))"

text \<open>The context in a slot; reading through an empty slot, or outside the table, fails.\<close>

definition slot_addr :: "nat \<Rightarrow> sockets \<Rightarrow> sock_addr option" where
  "slot_addr i st = (if i < length (sock_ctx st) then sock_ctx st ! i else None)"

definition slot_get :: "nat \<Rightarrow> sockets \<Rightarrow> socket_context option" where
  "slot_get i st = Option.bind (slot_addr i st) (ctxs st)"

definition slot_upd :: "nat \<Rightarrow> (socket_context \<Rightarrow> socket_context) \<Rightarrow> sockets \<Rightarrow> sockets option" where
  "slot_upd i f st = Option.bind (slot_addr i st) (\<lambda>a. upd_sock a f st)"

definition byte_char :: "u8 \<Rightarrow> char" where
  "byte_char b = char_of (unat b)"

definition char_byte :: "char \<Rightarrow> u8" where
  "char_byte c = of_nat (code c)"

definition c_str :: "string \<Rightarrow> string" where
  "c_str s = takeWhile (\<lambda>c. c \<noteq> NUL) s"

section \<open>The table\<close>

text \<open>The first slot whose context has a property; a slot may hold no context, but not a freed one.\<close>

fun find_slot :: "(sock_addr \<Rightarrow> socket_context option) \<Rightarrow> (socket_context \<Rightarrow> bool) \<Rightarrow> sock_addr option list \<Rightarrow> nat option option" where
  "find_slot s P [] = Some None"
| "find_slot s P (None # as) = map_option (map_option Suc) (find_slot s P as)"
| "find_slot s P (Some a # as) =
     (case s a of
        None \<Rightarrow> None
      | Some c \<Rightarrow> if P c then Some (Some 0) else map_option (map_option Suc) (find_slot s P as))"

definition find_sock_ctx_id_by_sock_id :: "nat \<Rightarrow> sockets \<Rightarrow> nat option option" where
  "find_sock_ctx_id_by_sock_id n st = find_slot (ctxs st) (\<lambda>c. sock_id c = n) (sock_ctx st)"

definition find_sock_ctx_id_by_sock_fd :: "nat \<Rightarrow> sockets \<Rightarrow> nat option option" where
  "find_sock_ctx_id_by_sock_fd n st = find_slot (ctxs st) (\<lambda>c. sock_fd c = n) (sock_ctx st)"

definition set_socket_sequence_default_state :: "nat \<Rightarrow> sockets \<Rightarrow> sockets" where
  "set_socket_sequence_default_state n st =
     st\<lparr>ctxs := (\<lambda>a. map_option (\<lambda>c. if Some a \<in> set (sock_ctx st) \<and> sock_id c = n
                  then c\<lparr>sequence_state := replicate SEQUENCE_MAX SEND_STATUS_UNUSED\<rparr> else c) (ctxs st a))\<rparr>"

fun free_slot :: "sock_addr option list \<Rightarrow> nat option" where
  "free_slot [] = None"
| "free_slot (None # as) = Some 0"
| "free_slot (Some a # as) = map_option Suc (free_slot as)"

definition get_free_sock_id :: "sockets \<Rightarrow> nat option" where
  "get_free_sock_id st = free_slot (sock_ctx st)"

definition is_all_socket_exit :: "sockets \<Rightarrow> bool" where
  "is_all_socket_exit st = (\<forall>x \<in> set (sock_ctx st). x = None)"

text \<open>Is a new socket in conflict with an open one? An address is compared, and must be there, only when it is asked for.\<close>

definition check_socket_valid :: "nat \<Rightarrow> u16 \<Rightarrow> string option \<Rightarrow> u16 \<Rightarrow> bool \<Rightarrow> sockets \<Rightarrow> xy_ret option" where
  "check_socket_valid nt rport rip lport flag st = do {
     found \<leftarrow> find_slot (ctxs st)
            (if flag then (\<lambda>c. net_type c = nt \<and> remote_port c = rport \<and> (rip = None \<or> remote_ip c = None \<or> remote_ip c = rip))
             else (\<lambda>c. net_type c = nt \<and> local_port c = lport \<and> lport \<noteq> 0)) (sock_ctx st);
     case found of
       None \<Rightarrow> Some XY_OK
     | Some i \<Rightarrow> do {
         c \<leftarrow> slot_get i st;
         xy_assert (\<not> flag \<or> rip \<noteq> None \<and> remote_ip c \<noteq> None);
         Some XY_ERR
       }
   }"

definition netif_down_close_socket :: "sockets \<Rightarrow> sockets" where
  "netif_down_close_socket st =
     st\<lparr>ctxs := (\<lambda>a. map_option (\<lambda>c. if Some a \<in> set (sock_ctx st) then c\<lparr>is_deact := True\<rparr> else c) (ctxs st a))\<rparr>"

section \<open>Packets under way\<close>

definition add_sninfo_node :: "nat \<Rightarrow> u32 \<Rightarrow> nat \<Rightarrow> u32 \<Rightarrow> sockets \<Rightarrow> sockets option" where
  "add_sninfo_node n len seq pre_sn st = do {
     found \<leftarrow> find_sock_ctx_id_by_sock_id n st;
     i \<leftarrow> found;
     c \<leftarrow> slot_get i st;
     Some (st\<lparr>sn_info := sn_info st @
       [\<lparr>per_sn = pre_sn, data_len = len, node_id = n, node_seq = seq, node_type = net_type c\<rparr>]\<rparr>)
   }"

text \<open>The first node with a property is taken out of the list.\<close>

definition del_sninfo_node :: "nat \<Rightarrow> nat \<Rightarrow> sockets \<Rightarrow> sockets" where
  "del_sninfo_node n seq st =
     st\<lparr>sn_info :=
       (case find (\<lambda>x. node_id x = n \<and> node_seq x = seq) (sn_info st) of
          None \<Rightarrow> sn_info st
        | Some x \<Rightarrow> remove1 x (sn_info st))\<rparr>"

definition find_match_udp_node :: "nat \<Rightarrow> nat \<Rightarrow> sockets \<Rightarrow> bool" where
  "find_match_udp_node n seq st = (\<exists>x \<in> set (sn_info st). node_type x = 1 \<and> node_id x = n \<and> node_seq x = seq)"

text \<open>An acknowledgement belongs to the packet whose end it is; the length is added to what is acknowledged.\<close>

definition acks_node :: "nat \<Rightarrow> u32 \<Rightarrow> sock_sn_node \<Rightarrow> bool" where
  "acks_node n ack x \<longleftrightarrow> node_type x = 0 \<and> node_id x = n \<and> ack - per_sn x = data_len x"

definition find_match_tcp_node :: "nat \<Rightarrow> u32 \<Rightarrow> sockets \<Rightarrow> (nat option \<times> sockets) option" where
  "find_match_tcp_node n ack st =
     (case find (acks_node n ack) (sn_info st) of
        None \<Rightarrow> Some (None, st)
      | Some x \<Rightarrow> do {
          found \<leftarrow> find_sock_ctx_id_by_sock_id n st;
          i \<leftarrow> found;
          st1 \<leftarrow> slot_upd i (\<lambda>c. c\<lparr>acked := acked c + data_len x\<rparr>) st;
          Some (Some (node_seq x), st1)
        })"

definition check_same_sequence :: "nat \<Rightarrow> nat \<Rightarrow> sockets \<Rightarrow> bool option" where
  "check_same_sequence n seq st = do {
     found \<leftarrow> find_sock_ctx_id_by_sock_id n st;
     case found of
       None \<Rightarrow> Some False
     | Some i \<Rightarrow> do {
         c \<leftarrow> slot_get i st;
         Some (seq \<noteq> 0 \<and> (\<exists>x \<in> set (sn_info st). node_type x = net_type c \<and> node_id x = n \<and> node_seq x = seq))
       }
   }"

definition set_sequence :: "nat \<Rightarrow> int \<Rightarrow> socket_context \<Rightarrow> socket_context" where
  "set_sequence seq v c = c\<lparr>sequence_state := (sequence_state c)[seq - 1 := v]\<rparr>"

text \<open>
  All packets of a socket that is closed have failed. Their state is set in the context whose slot has the number
  of the socket.
\<close>

fun del_nodes :: "nat \<Rightarrow> sock_sn_node list \<Rightarrow> sockets \<Rightarrow> (sock_sn_node list \<times> sockets) option" where
  "del_nodes n [] st = Some ([], st)"
| "del_nodes n (x # xs) st =
     (if node_id x = n then do {
        xy_assert (0 < node_seq x \<and> node_seq x \<le> SEQUENCE_MAX);
        st1 \<leftarrow> slot_upd n (set_sequence (node_seq x) SEND_STATUS_FAILED) st;
        del_nodes n xs (sock_emit (Rsp_Ext ([CR, LF] @ ''SEND FAIL'' @ [CR, LF])) st1)
      }
      else map_option (\<lambda>(ys, st1). (x # ys, st1)) (del_nodes n xs st))"

definition del_allsnnode_by_socketid :: "nat \<Rightarrow> sockets \<Rightarrow> sockets option" where
  "del_allsnnode_by_socketid n st = map_option (\<lambda>(xs, st1). st1\<lparr>sn_info := xs\<rparr>) (del_nodes n (sn_info st) st)"

section \<open>Closing\<close>

definition at_report_socket_state :: "nat \<Rightarrow> nat \<Rightarrow> sockets \<Rightarrow> sockets" where
  "at_report_socket_state n nt st =
     (if nt = 1 then st
      else sock_emit (Rsp_Ext ([CR, LF] @ ''+QIURC: '' @ [QUOTE] @ ''closed'' @ [QUOTE] @ '','' @ show_dec (int n) @ [CR, LF])) st)"

definition del_socket_ctx_by_index :: "nat \<Rightarrow> bool \<Rightarrow> sockets \<Rightarrow> (xy_ret \<times> sockets) option" where
  "del_socket_ctx_by_index i report st =
     (case slot_addr i st of
        None \<Rightarrow> Some (XY_ERR, st)
      | Some a \<Rightarrow> do {
          c \<leftarrow> ctxs st a;
          st1 \<leftarrow> del_allsnnode_by_socketid (sock_id c) (sock_emit (Sock_Close (sock_fd c)) st);
          let st2 = st1\<lparr>ctxs := (ctxs st1)(a := None), sock_ctx := (sock_ctx st1)[i := None]\<rparr>;
          Some (XY_OK, if report then at_report_socket_state (sock_id c) (net_type c) st2 else st2)
        })"

section \<open>What the network reports\<close>

definition tcp_ack :: "int \<Rightarrow> u32 \<Rightarrow> sockets \<Rightarrow> sockets option" where
  "tcp_ack conn_socket ack st = do {
     found \<leftarrow> find_slot (ctxs st) (\<lambda>c. int (sock_fd c) = conn_socket) (sock_ctx st);
     case found of
       None \<Rightarrow> Some st
     | Some i \<Rightarrow> do {
         c \<leftarrow> slot_get i st;
         (hit, st1) \<leftarrow> find_match_tcp_node (sock_id c) ack st;
         case hit of
           None \<Rightarrow> Some st1
         | Some seq \<Rightarrow> do {
             xy_assert (0 < seq \<and> seq \<le> SEQUENCE_MAX);
             st2 \<leftarrow> slot_upd i (set_sequence seq SEND_STATUS_SUCCESS) st1;
             Some (sock_emit (Rsp_Ext ([CR, LF] @ ''SEND OK'' @ [CR, LF])) (del_sninfo_node (sock_id c) seq st2))
           }
       }
   }"

definition at_TCPACK_info :: "memory \<Rightarrow> nat \<Rightarrow> sockets \<Rightarrow> sockets option" where
  "at_TCPACK_info m at_buf st =
     (case at_parse_param ''%d,%d'' m at_buf of
        None \<Rightarrow> None
      | Some (r, ap, m') \<Rightarrow>
          if r \<noteq> AT_OK then Some st
          else tcp_ack (int_dest ap 0 (-1)) (word_of_int (int_dest ap 1 0)) st)"

definition urc_UDPSN_Callback :: "u16 \<Rightarrow> int \<Rightarrow> sockets \<Rightarrow> sockets option" where
  "urc_UDPSN_Callback usIpSn ucStatus st = do {
     let socket_fd = unat (drop_bit 8 (usIpSn AND 0xFF00));
     let seq_num = unat (usIpSn AND 0x00FF);
     found \<leftarrow> find_sock_ctx_id_by_sock_fd socket_fd st;
     case found of
       None \<Rightarrow> Some st
     | Some i \<Rightarrow>
         if seq_num > SEQUENCE_MAX \<or> seq_num = 0 then Some st
         else do {
           c \<leftarrow> slot_get i st;
           if \<not> find_match_udp_node (sock_id c) seq_num st then Some st
           else do {
             st1 \<leftarrow> slot_upd i (set_sequence seq_num ucStatus) st;
             Some (sock_emit (Rsp_Ext ([CR, LF] @ (if ucStatus = 1 then ''SEND OK'' else ''SEND FAIL'') @ [CR, LF]))
                    (del_sninfo_node (sock_id c) seq_num st1))
           }
         }
   }"

section \<open>Receiving\<close>

text \<open>\<^verbatim>\<open>at_write_all_to_uart\<close>; \<open>close_urc\<close> is the NV setting that silences reports.\<close>

definition at_write_all_to_uart :: "bool \<Rightarrow> string \<Rightarrow> sockets \<Rightarrow> sockets" where
  "at_write_all_to_uart close_urc s st = (if close_urc then st else sock_emit (Uart_All s) st)"

text \<open>
  Commands in the data: a packet with the magic word switches them on for the next one. \<open>run_at\<close> is
  \<^verbatim>\<open>at_ReqAndRsp_to_ps\<close>.
\<close>

definition xy_Remote_AT_Req :: "(string \<Rightarrow> int \<times> string) \<Rightarrow> string \<Rightarrow> sockets \<Rightarrow> bool \<times> sockets" where
  "xy_Remote_AT_Req run_at req_at st =
     (let s = c_str req_at in
      if at_strstr s ''AT+'' = None then (False, st\<lparr>g_remoteat_isenable := False\<rparr>)
      else if \<not> g_remoteat_isenable st then
        if at_strstr s ''AT+REMOTECTL'' \<noteq> None then (True, st\<lparr>g_remoteat_isenable := True\<rparr>) else (False, st)
      else
        let new_at_req = takeWhile is_at_char s @ [CR, LF];
            (ret, rsp) = run_at new_at_req;
            st1 = sock_emit (Remote_At new_at_req) st
        in if ret = 0 then (True, st1\<lparr>g_Remote_AT_Rsp := Some rsp\<rparr>)
           else (False, st1\<lparr>g_Remote_AT_Rsp := Some (''AT_ERROR:'' @ show_dec ret)\<rparr>))"

datatype recv_answer = Recv_error bool | Recv_data "u8 list" bool

text \<open>One slot of the receiver thread: \<open>Recv_error True\<close> is a time-out, the flag of \<open>Recv_data\<close> says that the sender has an IPv4 address.\<close>

definition rcv_report :: "nat \<Rightarrow> u8 list \<Rightarrow> string" where
  "rcv_report n data =
     [CR, LF] @ ''+QIURC: '' @ [QUOTE] @ ''recv'' @ [QUOTE] @ '','' @ show_dec (int n) @ '','' @ show_dec (int (length data)) @ '','' @ [QUOTE]"

definition rcv_data :: "bool \<Rightarrow> (string \<Rightarrow> int \<times> string) \<Rightarrow> nat \<Rightarrow> u8 list \<Rightarrow> bool \<Rightarrow> sockets \<Rightarrow> sockets option" where
  "rcv_data close_urc run_at i data inet st = do {
     c \<leftarrow> slot_get i st;
     if data = [] \<or> \<not> inet \<or> recv_ctl c = 0 then Some st
     else
       let (hit, st1) = xy_Remote_AT_Req run_at (map byte_char data) st in
       if hit \<or> accessmode c \<noteq> 1 then Some st1
       else if g_data_recv_mode st1 = ASCII_STRING
       then Some (at_write_all_to_uart close_urc (rcv_report (sock_id c) data @ map byte_char data @ [QUOTE, CR, LF]) st1)
       else if g_data_recv_mode st1 = HEX_ASCII_STRING then do {
         (k, text) \<leftarrow> bytes2hexstr data (int (2 * length data + 1));
         Some (sock_emit (Rsp_Ext (rcv_report (sock_id c) data @ cstr text 0 @ [QUOTE, CR, LF])) st1)
       }
       else Some st1
   }"

definition rcv_slot :: "bool \<Rightarrow> (string \<Rightarrow> int \<times> string) \<Rightarrow> (nat \<Rightarrow> bool) \<Rightarrow> (nat \<Rightarrow> bool) \<Rightarrow> (nat \<Rightarrow> recv_answer) \<Rightarrow>
    nat \<Rightarrow> sockets \<Rightarrow> sockets option" where
  "rcv_slot close_urc run_at except readable answer i st =
     (case slot_addr i st of
        None \<Rightarrow> Some st
      | Some a \<Rightarrow> do {
          c \<leftarrow> ctxs st a;
          if except (sock_fd c) then map_option snd (del_socket_ctx_by_index i True st)
          else if \<not> readable (sock_fd c) then Some st
          else
            (case answer (sock_fd c) of
               Recv_error would_block \<Rightarrow>
                 if would_block then Some st else map_option snd (del_socket_ctx_by_index i True st)
             | Recv_data data inet \<Rightarrow> rcv_data close_urc run_at i data inet st)
        })"

fun rcv_slots :: "bool \<Rightarrow> (string \<Rightarrow> int \<times> string) \<Rightarrow> (nat \<Rightarrow> bool) \<Rightarrow> (nat \<Rightarrow> bool) \<Rightarrow> (nat \<Rightarrow> recv_answer) \<Rightarrow>
    nat list \<Rightarrow> sockets \<Rightarrow> sockets option" where
  "rcv_slots close_urc run_at except readable answer [] st = Some st"
| "rcv_slots close_urc run_at except readable answer (i # is) st =
     Option.bind (rcv_slot close_urc run_at except readable answer i st) (rcv_slots close_urc run_at except readable answer is)"

text \<open>Before it waits, the thread removes the sockets that are to be closed.\<close>

definition scan_slot :: "bool \<Rightarrow> nat \<Rightarrow> sockets \<Rightarrow> sockets option" where
  "scan_slot close_urc i st =
     (case slot_addr i st of
        None \<Rightarrow> Some st
      | Some a \<Rightarrow> do {
          c \<leftarrow> ctxs st a;
          if sock_quit c then do {
            (r, st1) \<leftarrow> del_socket_ctx_by_index i False st;
            Some (at_write_all_to_uart close_urc ([CR, LF] @ ''CLOSE OK'' @ [CR, LF]) st1)
          }
          else if is_deact c then map_option snd (del_socket_ctx_by_index i True st)
          else Some st
        })"

fun scan_slots :: "bool \<Rightarrow> nat list \<Rightarrow> sockets \<Rightarrow> sockets option" where
  "scan_slots close_urc [] st = Some st"
| "scan_slots close_urc (i # is) st = Option.bind (scan_slot close_urc i st) (scan_slots close_urc is)"

datatype select_answer = Select_error bool | Select_timeout | Select_ready "nat \<Rightarrow> bool" "nat \<Rightarrow> bool" "nat \<Rightarrow> recv_answer"

text \<open>One round of the thread, which ends when no socket is left; \<open>Select_error True\<close> is \<^verbatim>\<open>EBADF\<close>.\<close>

definition at_sock_recv_thread :: "bool \<Rightarrow> (string \<Rightarrow> int \<times> string) \<Rightarrow> select_answer \<Rightarrow> sockets \<Rightarrow> sockets option" where
  "at_sock_recv_thread close_urc run_at ans st = do {
     st1 \<leftarrow> scan_slots close_urc [0..<SOCK_NUM] st;
     if is_all_socket_exit st1 then Some (st1\<lparr>at_rcv_thread := False\<rparr>)
     else
       (case ans of
          Select_error ebadf \<Rightarrow> if ebadf then None else Some st1
        | Select_timeout \<Rightarrow> Some st1
        | Select_ready except readable answer \<Rightarrow> rcv_slots close_urc run_at except readable answer [0..<SOCK_NUM] st1)
   }"

end
