(* ===== verification/At_Socket_Cmd.thy ===== *)
theory At_Socket_Cmd
  imports At_Socket At_Com
begin

text \<open>
  The \<^verbatim>\<open>AT+QI...\<close> commands on sockets (\<^verbatim>\<open>at_socket_bc26.c\<close>): opening in a task of its own, sending, transparent
  sending, closing and the queries. A handler returns its response and the new state; no response stands for the
  \<^verbatim>\<open>OK\<close> that the dispatcher then sends, or for one that follows later. The recovery of sockets after deep sleep is
  taken to be over when a command arrives, and no remote command is under way.
\<close>

section \<open>Parameters and responses\<close>

text \<open>
  What is read into a variable of one byte or a string. A number in hexadecimal is stored with four bytes, which in a
  one-byte variable overwrites its neighbours.
\<close>

definition byte_dest :: "slot list \<Rightarrow> nat \<Rightarrow> nat \<Rightarrow> nat option" where
  "byte_dest ap i dflt =
     (if i < length ap then (case ap ! i of Byte b \<Rightarrow> Some (unat b) | Long _ \<Rightarrow> None | _ \<Rightarrow> Some dflt) else Some dflt)"

definition short_dest :: "slot list \<Rightarrow> nat \<Rightarrow> u16 \<Rightarrow> u16 option" where
  "short_dest ap i dflt =
     (if i < length ap then (case ap ! i of Short w \<Rightarrow> Some w | Long _ \<Rightarrow> None | _ \<Rightarrow> Some dflt) else Some dflt)"

definition text_dest :: "slot list \<Rightarrow> nat \<Rightarrow> string" where
  "text_dest ap i = (if i < length ap then (case ap ! i of Text s \<Rightarrow> s | Bytes s \<Rightarrow> s | _ \<Rightarrow> []) else [])"

definition bc26_err :: at_rsp where
  "bc26_err = Rsp ([CR, LF] @ ''ERROR'' @ [CR, LF])"

abbreviation quoted :: "string \<Rightarrow> string" where
  "quoted s \<equiv> QUOTE # s @ [QUOTE]"

definition ok_tail :: string where
  "ok_tail = [CR, LF, CR, LF] @ ''OK'' @ [CR, LF]"

definition snprint :: "nat \<Rightarrow> string \<Rightarrow> string" where
  "snprint n s = take (n - 1) s"

text \<open>
  \<^verbatim>\<open>snprintf(p + strlen(p), limit, ...)\<close> on a block of \<open>block\<close> bytes that holds \<open>buf\<close>: at most \<open>limit\<close> bytes are
  written, with the NUL, wherever the block ends.
\<close>

definition append_print :: "nat \<Rightarrow> nat \<Rightarrow> string \<Rightarrow> string \<Rightarrow> string option" where
  "append_print block limit buf s =
     (let t = snprint limit s in if length buf + length t + 1 \<le> block then Some (buf @ t) else None)"

section \<open>Opening\<close>

definition at_QICFG_req :: "at_req_type \<Rightarrow> memory \<Rightarrow> nat \<Rightarrow> sockets \<Rightarrow> (at_rsp \<times> sockets) option" where
  "at_QICFG_req g_req_type m at_buf st =
     (case g_req_type of
        AT_CMD_REQ \<Rightarrow> do {
          (r, ap, m') \<leftarrow> at_parse_param ''%12s,%1d[0-1],%1d[0-1]'' m at_buf;
          if r \<noteq> AT_OK then Some (bc26_err, st)
          else do {
            send_mode \<leftarrow> byte_dest ap 1 0xFF;
            recv_mode \<leftarrow> byte_dest ap 2 0xFF;
            if text_dest ap 0 \<noteq> ''dataformat'' then Some (bc26_err, st)
            else if send_mode = 0xFF \<and> recv_mode = 0xFF
            then Some (Rsp ([CR, LF] @ ''+QICFG: '' @ quoted ''dataformat'' @ '','' @ show_dec (int (g_data_send_mode st)) @ '','' @
                         show_dec (int (g_data_recv_mode st)) @ ok_tail), st)
            else
              let st1 = (if send_mode \<noteq> 0xFF then st\<lparr>g_data_send_mode := send_mode\<rparr> else st);
                  st2 = (if recv_mode \<noteq> 0xFF then st1\<lparr>g_data_recv_mode := recv_mode\<rparr> else st1)
              in Some (No_rsp, sock_emit (Save_Format (g_data_send_mode st2 + 2 * g_data_recv_mode st2)) st2)
          }
        }
      | AT_CMD_TEST \<Rightarrow> Some (Rsp ([CR, LF] @ ''+QICFG: '' @ quoted ''dataformat'' @ '',(0,1),(0,1)'' @ ok_tail), st)
      | _ \<Rightarrow> Some (bc26_err, st))"

definition alloc_sock :: "socket_context \<Rightarrow> sockets \<Rightarrow> sock_addr \<times> sockets" where
  "alloc_sock c st = (next_ctx st, st\<lparr>ctxs := (ctxs st)(next_ctx st \<mapsto> c), next_ctx := next_ctx st + 1\<rparr>)"

definition free_sock :: "sock_addr \<Rightarrow> sockets \<Rightarrow> sockets" where
  "free_sock a st = st\<lparr>ctxs := (ctxs st)(a := None)\<rparr>"

text \<open>\<open>tcpip_ok\<close> is the answer of \<^verbatim>\<open>xy_wait_tcpip_ok\<close>, \<open>working_cid\<close> the global.\<close>

definition open_socket :: "nat \<Rightarrow> nat \<Rightarrow> nat \<Rightarrow> nat \<Rightarrow> string \<Rightarrow> u16 \<Rightarrow> u16 \<Rightarrow> sockets \<Rightarrow> sockets" where
  "open_socket working_cid socket_id nt access_mode host rport lport st =
     (let c = zero_socket\<lparr>net_type := nt, sock_id := socket_id, accessmode := access_mode, cid := working_cid, remote_port := rport,
                local_port := lport, local_port_ori := lport, recv_ctl := 1, remote_ip := Some host\<rparr>;
          (a, st1) = alloc_sock c st;
          st2 = set_socket_sequence_default_state socket_id st1
      in st2\<lparr>open_tasks := open_tasks st2 @ [(a, None)]\<rparr>)"

definition at_QIOPEN_req :: "bool \<Rightarrow> nat \<Rightarrow> at_req_type \<Rightarrow> memory \<Rightarrow> nat \<Rightarrow> sockets \<Rightarrow> (at_rsp \<times> sockets) option" where
  "at_QIOPEN_req tcpip_ok working_cid g_req_type m at_buf st =
     (case g_req_type of
        AT_CMD_REQ \<Rightarrow>
          if \<not> tcpip_ok then Some (bc26_err, st)
          else do {
            (r, ap, m') \<leftarrow> at_parse_param ''%1d(0-0),%1d(0-4),%8s,%150s,%2d(0-65535),%2d[0-65535],%1d[1-1]'' m at_buf;
            if r \<noteq> AT_OK then Some (bc26_err, st)
            else do {
              socket_id \<leftarrow> byte_dest ap 1 0;
              rport \<leftarrow> short_dest ap 4 0;
              lport \<leftarrow> short_dest ap 5 0;
              access_mode \<leftarrow> byte_dest ap 6 1;
              let service_type = text_dest ap 2;
              let host = text_dest ap 3;
              used \<leftarrow> find_sock_ctx_id_by_sock_id socket_id st;
              if take 3 service_type \<noteq> ''TCP'' \<and> take 3 service_type \<noteq> ''UDP'' then Some (bc26_err, st)
              else if host = [] \<or> get_free_sock_id st = None \<or> used \<noteq> None then Some (bc26_err, st)
              else Some (No_rsp, open_socket working_cid socket_id (if take 3 service_type = ''TCP'' then 0 else 1) access_mode host
                                   rport lport st)
            }
          }
      | AT_CMD_TEST \<Rightarrow>
          Some (Rsp ([CR, LF] @ ''+QIOPEN: (0-11),(0-4),'' @ quoted ''TCP/UDP'' @ '',<host>,<remote_port>,<local_port>,(0-1)'' @ ok_tail), st)
      | _ \<Rightarrow> Some (bc26_err, st))"

text \<open>
  The opening task chooses its slot when it starts and fills it when the network has answered, which may be long
  after. The answers are the family of the address, the descriptor, the success of \<^verbatim>\<open>bind\<close>, the local port, and the
  success of \<^verbatim>\<open>connect\<close>.
\<close>

record open_answer =
  oa_family :: "nat option"
  oa_socket :: "nat option"
  oa_bind :: bool
  oa_port :: "u16 option"
  oa_connect :: bool

abbreviation AF_INET6 :: nat where "AF_INET6 \<equiv> 10"
abbreviation NET_OP_OK :: int where "NET_OP_OK \<equiv> 0"
abbreviation NET_SOCK_CREATE_ERR :: int where "NET_SOCK_CREATE_ERR \<equiv> 554"
abbreviation NET_SOCK_BIND_ERR :: int where "NET_SOCK_BIND_ERR \<equiv> 556"
abbreviation NET_SOCK_CONNECT_ERR :: int where "NET_SOCK_CONNECT_ERR \<equiv> 566"
abbreviation NET_OP_NOT_ALLOW :: int where "NET_OP_NOT_ALLOW \<equiv> 572"

definition open_report :: "nat \<Rightarrow> int \<Rightarrow> sock_event" where
  "open_report n ret = Urc_Ext ([CR, LF] @ ''+QIOPEN: '' @ show_dec (int n) @ '','' @ show_dec ret @ [CR, LF])"

definition open_failed :: "sock_addr \<Rightarrow> int \<Rightarrow> sockets \<Rightarrow> sockets option" where
  "open_failed a ret st = do {
     c \<leftarrow> ctxs st a;
     Some (free_sock a (sock_emit (open_report (sock_id c) ret) st))
   }"

definition open_start :: "sock_addr \<Rightarrow> sockets \<Rightarrow> sockets option" where
  "open_start a st =
     (let rest = remove1 (a, None) (open_tasks st) in
      case get_free_sock_id st of
        None \<Rightarrow> open_failed a NET_OP_NOT_ALLOW (st\<lparr>open_tasks := rest\<rparr>)
      | Some i \<Rightarrow> Some (st\<lparr>open_tasks := rest @ [(a, Some i)]\<rparr>))"

definition open_finish :: "open_answer \<Rightarrow> sock_addr \<Rightarrow> nat \<Rightarrow> sockets \<Rightarrow> sockets option" where
  "open_finish ans a ctx_id st0 =
     (let st = st0\<lparr>open_tasks := remove1 (a, Some ctx_id) (open_tasks st0)\<rparr> in
      case oa_family ans of
        None \<Rightarrow> open_failed a NET_SOCK_CREATE_ERR st
      | Some fam \<Rightarrow> do {
          st1 \<leftarrow> upd_sock a (af_type_update (\<lambda>_. if fam = AF_INET6 then 1 else 0)) st;
          case oa_socket ans of
            None \<Rightarrow> open_failed a NET_SOCK_CREATE_ERR st1
          | Some f \<Rightarrow> do {
              st2 \<leftarrow> upd_sock a (sock_fd_update (\<lambda>_. f mod 256)) st1;
              if \<not> oa_bind ans then open_failed a NET_SOCK_BIND_ERR (sock_emit (Sock_Close f) st2)
              else do {
                st3 \<leftarrow> upd_sock a (case oa_port ans of None \<Rightarrow> (\<lambda>c. c) | Some p \<Rightarrow> local_port_update (\<lambda>_. p)) st2;
                if \<not> oa_connect ans then open_failed a NET_SOCK_CONNECT_ERR (sock_emit (Sock_Close f) st3)
                else do {
                  st4 \<leftarrow> upd_sock a (sock_state_update (\<lambda>_. 2)) st3;
                  c \<leftarrow> ctxs st4 a;
                  Some (sock_emit (open_report (sock_id c) NET_OP_OK)
                    (st4\<lparr>sock_ctx := (sock_ctx st4)[ctx_id := Some a], at_rcv_thread := True\<rparr>))
                }
              }
            }
        })"

text \<open>The task when nothing happens in between.\<close>

definition bc26_socket_open_task :: "open_answer \<Rightarrow> sock_addr \<Rightarrow> sockets \<Rightarrow> sockets option" where
  "bc26_socket_open_task ans a st = do {
     st1 \<leftarrow> open_start a st;
     case get_free_sock_id st of None \<Rightarrow> Some st1 | Some i \<Rightarrow> open_finish ans a i st1
   }"

section \<open>Closing\<close>

text \<open>The receiver thread closes the socket when it sees the mark.\<close>

definition close_request :: "nat \<Rightarrow> sockets \<Rightarrow> (at_rsp \<times> sockets) option" where
  "close_request n st = do {
     found \<leftarrow> find_sock_ctx_id_by_sock_id n st;
     case found of
       None \<Rightarrow> Some (Rsp ([CR, LF] @ ''OK'' @ [CR, LF, CR, LF] @ ''CLOSE OK'' @ [CR, LF]), st)
     | Some i \<Rightarrow> map_option (Pair No_rsp) (slot_upd i (\<lambda>c. c\<lparr>sock_quit := True, sock_state := 3\<rparr>) st)
   }"

definition at_QICLOSE_req :: "at_req_type \<Rightarrow> memory \<Rightarrow> nat \<Rightarrow> sockets \<Rightarrow> (at_rsp \<times> sockets) option" where
  "at_QICLOSE_req g_req_type m at_buf st =
     (case g_req_type of
        AT_CMD_REQ \<Rightarrow> do {
          (r, ap, m') \<leftarrow> at_parse_param ''%1d(0-4)'' m at_buf;
          if r \<noteq> AT_OK then Some (bc26_err, st)
          else Option.bind (byte_dest ap 0 0) (\<lambda>n. close_request n st)
        }
      | AT_CMD_TEST \<Rightarrow> Some (Rsp ([CR, LF] @ ''+QICLOSE: (0-4)'' @ ok_tail), st)
      | _ \<Rightarrow> Some (bc26_err, st))"

section \<open>Sending\<close>

fun free_sequence :: "int list \<Rightarrow> nat option" where
  "free_sequence [] = None"
| "free_sequence (s # ss) = (if s \<noteq> SEND_STATUS_SENDING then Some 1 else map_option Suc (free_sequence ss))"

definition bc26_get_free_sequence :: "nat \<Rightarrow> sockets \<Rightarrow> nat option option" where
  "bc26_get_free_sequence i st = map_option (\<lambda>c. free_sequence (take 255 (sequence_state c))) (slot_get i st)"

text \<open>The bytes of the text in the mode of sending, or \<open>None\<close> when it is refused.\<close>

definition send_bytes :: "nat \<Rightarrow> string \<Rightarrow> nat \<Rightarrow> u8 list option option" where
  "send_bytes mode data len =
     (if mode = HEX_ASCII_STRING then
        if length (c_str data) \<noteq> len * 2 then Some None
        else if len = 0 then Some (Some [])
        else map_option (\<lambda>(r, bs). if r = -1 then None else Some bs) (hexstr2bytes (data @ [NUL]) 0 (int (len * 2)) (int len))
      else if length (c_str data) \<noteq> len then Some None
      else Some (Some (map char_byte (take len data))))"

text \<open>\<open>pre_sn\<close> is the answer of \<^verbatim>\<open>ioctl(FIOREADSN)\<close>, \<open>ret\<close> that of \<^verbatim>\<open>send2\<close>.\<close>

definition bc26_socket_send_data :: "u32 \<Rightarrow> int \<Rightarrow> string \<Rightarrow> nat \<Rightarrow> int \<Rightarrow> sock_addr \<Rightarrow> sockets \<Rightarrow> (xy_ret \<times> sockets) option" where
  "bc26_socket_send_data pre_sn ret data len rai_flag a st = do {
     st1 \<leftarrow> upd_sock a (zero_flag_update (\<lambda>_. False)) st;
     c \<leftarrow> ctxs st1 a;
     found \<leftarrow> find_sock_ctx_id_by_sock_id (sock_id c) st1;
     case found of
       None \<Rightarrow> Some (XY_ERR, st1)
     | Some i \<Rightarrow> do {
         free \<leftarrow> bc26_get_free_sequence i st1;
         case free of
           None \<Rightarrow> Some (XY_ERR, st1)
         | Some seq \<Rightarrow>
             if net_type c = 0 \<and> len = 0 then map_option (Pair XY_OK) (upd_sock a (zero_flag_update (\<lambda>_. True)) st1)
             else do {
               bytes \<leftarrow> send_bytes (g_data_send_mode st1) data len;
               case bytes of
                 None \<Rightarrow> Some (XY_ERR, st1)
               | Some bs \<Rightarrow>
                   let st2 = sock_emit (Sock_Tx (sock_fd c) bs seq rai_flag ret) st1 in
                   if ret < 0 then map_option (Pair XY_ERR) (upd_sock a (set_sequence seq SEND_STATUS_FAILED) st2)
                   else do {
                     st3 \<leftarrow> upd_sock a (\<lambda>c. c\<lparr>sended_size := sended_size c + word_of_int ret\<rparr>) st2;
                     st4 \<leftarrow> add_sninfo_node (sock_id c) (word_of_int ret) seq (if net_type c = 0 then pre_sn else 0) st3;
                     map_option (Pair XY_OK) (upd_sock a (set_sequence seq SEND_STATUS_SENDING) st4)
                   }
             }
       }
   }"

text \<open>The transparent mode hands its data to a task of its own, which sends them and leaves the mode.\<close>

definition passthr_socket_data_proc :: "string \<Rightarrow> nat \<Rightarrow> sock_addr \<Rightarrow> sockets \<Rightarrow> (xy_ret \<times> sockets) option" where
  "passthr_socket_data_proc data len param st = do {
     q \<leftarrow> passthr_sock_q st;
     c \<leftarrow> ctxs st param;
     if net_type c = 0 \<and> len = 0 then map_option (Pair XY_OK) (upd_sock param (zero_flag_update (\<lambda>_. True)) st)
     else if g_data_send_mode st = HEX_ASCII_STRING \<and> len mod 2 \<noteq> 0 then Some (XY_ERR, st)
     else
       let n = (if g_data_send_mode st = HEX_ASCII_STRING then len div 2 else len)
       in Some (XY_OK, st\<lparr>passthr_sock_q := Some (q @ [(n, param, take len data)])\<rparr>)
   }"

definition passthr_socket_send_proc :: "u32 \<Rightarrow> int \<Rightarrow> sockets \<Rightarrow> sockets option" where
  "passthr_socket_send_proc pre_sn ret st =
     (case passthr_sock_q st of
        Some ((n, a, data) # q) \<Rightarrow>
          map_option (\<lambda>(r, st1). sock_emit (Leave_Passthr r) st1)
            (bc26_socket_send_data pre_sn ret data n 0 a (st\<lparr>passthr_sock_q := Some q\<rparr>))
      | _ \<Rightarrow> Some st)"

definition passthrough_socket_init :: "sockets \<Rightarrow> sockets" where
  "passthrough_socket_init st = (case passthr_sock_q st of None \<Rightarrow> st\<lparr>passthr_sock_q := Some []\<rparr> | Some _ \<Rightarrow> st)"

definition enter_socket_passthr :: "u16 \<Rightarrow> u32 \<Rightarrow> sock_addr \<Rightarrow> sockets \<Rightarrow> sockets" where
  "enter_socket_passthr rlen mlen a st =
     sock_emit (Urc_Ext ([CR, LF] @ ''>''))
       (sock_emit (Enter_Passthr rlen mlen) ((passthrough_socket_init st)\<lparr>passthr_param := Some a\<rparr>))"

text \<open>
  The parameters of \<^verbatim>\<open>AT+QISEND\<close>: \<open>None\<close> is a refusal. In the text mode the data may hold any characters, so they are taken
  out of the line first.
\<close>

record qisend =
  qs_id :: int
  qs_len :: int
  qs_data :: string
  qs_rai :: int
  qs_line :: memory

definition qisend_text :: "memory \<Rightarrow> nat \<Rightarrow> sockets \<Rightarrow> (qisend option \<times> sockets) option" where
  "qisend_text m at_buf st = do {
     (r, ap, m1) \<leftarrow> at_parse_param ''%d(0-4),%d[0-1024]'' m at_buf;
     let n = int_dest ap 0 (-1);
     let len = int_dest ap 1 (-1);
     if r \<noteq> AT_OK then Some (None, st)
     else if 0 < len \<and> at_strnchr (cstr m1 at_buf) COMMA 2 \<noteq> None then do {
       (mode, data, m2) \<leftarrow> get_ascii_data True '',,%s,'' m1 at_buf (nat len);
       if mode \<noteq> AT_OK \<and> mode \<noteq> AT_JSON then Some (None, st\<lparr>transmission_flag := False\<rparr>)
       else do {
         (r3, ap3, m3) \<leftarrow> at_parse_param '',,,%d[0-2]'' m2 at_buf;
         if r3 \<noteq> AT_OK \<and> mode = AT_OK then Some (None, st\<lparr>transmission_flag := True\<rparr>)
         else Some (Some \<lparr>qs_id = n, qs_len = len, qs_data = data, qs_rai = int_dest ap3 0 0, qs_line = m3\<rparr>,
                    st\<lparr>transmission_flag := False\<rparr>)
       }
     }
     else Some (Some \<lparr>qs_id = n, qs_len = len, qs_data = [], qs_rai = 0, qs_line = m1\<rparr>, st)
   }"

definition qisend_params :: "memory \<Rightarrow> nat \<Rightarrow> sockets \<Rightarrow> (qisend option \<times> sockets) option" where
  "qisend_params m at_buf st =
     (if g_data_send_mode st = ASCII_STRING then qisend_text m at_buf st
      else if g_data_send_mode st = HEX_ASCII_STRING then do {
        (r, ap, m1) \<leftarrow> at_parse_param ''%d(0-4),%d[0-512],%s,%d[0-2]'' m at_buf;
        Some (if r \<noteq> AT_OK then None
              else Some \<lparr>qs_id = int_dest ap 0 (-1), qs_len = int_dest ap 1 (-1), qs_data = text_dest ap 2,
                         qs_rai = int_dest ap 3 0, qs_line = m1\<rparr>, st)
      }
      else Some (Some \<lparr>qs_id = -1, qs_len = -1, qs_data = [], qs_rai = 0, qs_line = m\<rparr>, st))"

definition qisend_run :: "u32 \<Rightarrow> int \<Rightarrow> nat \<Rightarrow> qisend \<Rightarrow> sock_addr \<Rightarrow> sockets \<Rightarrow> (at_rsp \<times> sockets) option" where
  "qisend_run pre_sn ret at_buf q a st =
     (let no_data = (at_strnchr (cstr (qs_line q) at_buf) COMMA 2 = None) in
      if qs_len q < 0 then Some (No_rsp, enter_socket_passthr 0 1024 a st)
      else if qs_len q = 0 \<and> no_data then do {
        c \<leftarrow> ctxs st a;
        let counts = (\<lambda>x y z. Rsp (snprint 32 ([CR, LF] @ ''+QISEND: '' @ show_dec (sint x) @ '','' @ show_dec (sint y) @ '','' @ show_dec (sint z) @ ok_tail)));
        Some (if net_type c = 0 then counts (sended_size c) (acked c) (sended_size c - acked c)
              else if net_type c = 1 then counts (sended_size c) (0 :: u32) (sended_size c)
              else No_rsp, st)
      }
      else if 0 < qs_len q \<and> no_data
      then Some (No_rsp, enter_socket_passthr
             (word_of_int (if g_data_send_mode st = HEX_ASCII_STRING then qs_len q * 2 else qs_len q)) 0 a st)
      else do {
        (r, st1) \<leftarrow> bc26_socket_send_data pre_sn ret (qs_data q) (nat (qs_len q)) (qs_rai q) a st;
        if r = XY_ERR then Some (bc26_err, st1)
        else do {
          c \<leftarrow> ctxs st1 a;
          if zero_flag c
          then map_option (Pair (Rsp ([CR, LF] @ ''OK'' @ [CR, LF, CR, LF] @ ''SEND OK'' @ [CR, LF])))
                 (upd_sock a (zero_flag_update (\<lambda>_. False)) st1)
          else Some (No_rsp, st1)
        }
      })"

definition at_QISEND_req :: "u32 \<Rightarrow> int \<Rightarrow> at_req_type \<Rightarrow> memory \<Rightarrow> nat \<Rightarrow> sockets \<Rightarrow> (at_rsp \<times> sockets) option" where
  "at_QISEND_req pre_sn ret g_req_type m at_buf st =
     (case g_req_type of
        AT_CMD_REQ \<Rightarrow> do {
          (params, st1) \<leftarrow> qisend_params m at_buf st;
          case params of
            None \<Rightarrow> Some (bc26_err, st1)
          | Some q \<Rightarrow> do {
              found \<leftarrow> find_slot (ctxs st1) (\<lambda>c. int (sock_id c) = qs_id q) (sock_ctx st1);
              case found of
                None \<Rightarrow> Some (bc26_err, st1)
              | Some i \<Rightarrow> do {
                  a \<leftarrow> slot_addr i st1;
                  qisend_run pre_sn ret at_buf q a st1
                }
            }
        }
      | AT_CMD_TEST \<Rightarrow> Some (Rsp ([CR, LF] @ ''+QISEND: (0-4),(1-1024),<data>,<rai_mode>'' @ ok_tail), st)
      | _ \<Rightarrow> Some (bc26_err, st))"

section \<open>The state of the sockets\<close>

definition qistate_line :: "nat \<Rightarrow> bool \<Rightarrow> socket_context \<Rightarrow> string option" where
  "qistate_line n with_port c = do {
     ip \<leftarrow> remote_ip c;
     Some ([CR, LF] @ ''+QISTATE: '' @ show_dec (int n) @ '','' @ quoted (if net_type c = 0 then ''TCP'' else ''UDP'') @ '','' @ quoted ip @
       '','' @ show_dec (uint (remote_port c)) @ (if with_port then '','' @ show_dec (uint (local_port_ori c)) else []) @ '','' @
       show_dec (int (sock_state c)) @ '','' @ show_dec (int (cid c)) @ '','' @ show_dec (int (accessmode c)))
   }"

fun qistate_lines :: "nat \<Rightarrow> bool \<Rightarrow> string \<Rightarrow> nat list \<Rightarrow> sockets \<Rightarrow> string \<Rightarrow> string option" where
  "qistate_lines block with_port tail [] st buf = Some buf"
| "qistate_lines block with_port tail (n # ns) st buf = do {
     found \<leftarrow> find_sock_ctx_id_by_sock_id n st;
     buf1 \<leftarrow> (case found of
        None \<Rightarrow> Some buf
      | Some i \<Rightarrow> do {
          c \<leftarrow> slot_get i st;
          line \<leftarrow> qistate_line n with_port c;
          append_print block block buf (line @ tail)
        });
     qistate_lines block with_port tail ns st buf1
   }"

definition at_QISTATE_req :: "at_req_type \<Rightarrow> memory \<Rightarrow> nat \<Rightarrow> sockets \<Rightarrow> (at_rsp \<times> sockets) option" where
  "at_QISTATE_req g_req_type m at_buf st =
     (case g_req_type of
        AT_CMD_REQ \<Rightarrow> do {
          (r, ap, m1) \<leftarrow> at_parse_param ''%1d(0-1)'' m at_buf;
          if r \<noteq> AT_OK then Some (bc26_err, st)
          else do {
            query_type \<leftarrow> byte_dest ap 0 0;
            if query_type = 0 then do {
              (r2, ap2, m2) \<leftarrow> at_parse_param '',%d(0-0)'' m1 at_buf;
              if r2 \<noteq> AT_OK then Some (bc26_err, st)
              else do {
                lines \<leftarrow> qistate_lines 320 False [] [0..<SOCK_NUM] st [];
                text \<leftarrow> append_print 320 320 lines ok_tail;
                Some (Rsp text, st)
              }
            }
            else do {
              (r2, ap2, m2) \<leftarrow> at_parse_param '',%d(0-4)'' m1 at_buf;
              if r2 \<noteq> AT_OK then Some (bc26_err, st)
              else do {
                let n = int_dest ap2 0 0;
                found \<leftarrow> find_slot (ctxs st) (\<lambda>c. int (sock_id c) = n) (sock_ctx st);
                case found of
                  None \<Rightarrow> Some (bc26_err, st)
                | Some i \<Rightarrow> do {
                    c \<leftarrow> slot_get i st;
                    line \<leftarrow> qistate_line (nat n) True c;
                    text1 \<leftarrow> append_print 96 96 [] line;
                    text2 \<leftarrow> append_print 96 96 text1 ok_tail;
                    Some (Rsp text2, st)
                  }
              }
            }
          }
        }
      | AT_CMD_TEST \<Rightarrow> Some (Rsp ([CR, LF] @ ''+QISTATE: (0,1),(0-4)'' @ ok_tail), st)
      | AT_CMD_QUERY \<Rightarrow> do {
          lines \<leftarrow> qistate_lines 320 True [CR, LF] [0..<SOCK_NUM] st [];
          text \<leftarrow> append_print 320 320 lines ([CR, LF] @ ''OK'' @ [CR, LF]);
          Some (Rsp text, st)
        }
      | _ \<Rightarrow> Some (bc26_err, st))"

end
