(* ===== verification/At_Socket_Spec.thy ===== *)
theory At_Socket_Spec
  imports At_Socket_Cmd
begin

text \<open>
  What keeps the sockets of the AT commands in order. \<open>table_ok\<close> is the well-formedness of the table and the heap of
  contexts, \<open>books_ok\<close> that of the list of packets under way; every operation of a host that gives each socket the
  number of its slot succeeds and keeps both, and every packet gets exactly one verdict. The rest of the theory is
  what happens otherwise.
\<close>

section \<open>Well-formed tables\<close>

definition ctx_ok :: "nat \<Rightarrow> socket_context \<Rightarrow> bool" where
  "ctx_ok i c \<longleftrightarrow> sock_id c = i \<and> length (sequence_state c) = SEQUENCE_MAX"

text \<open>Each slot holds nothing or a context that is allocated and carries the number of the slot; new addresses are new.\<close>

definition table_ok :: "sockets \<Rightarrow> bool" where
  "table_ok st \<longleftrightarrow>
     length (sock_ctx st) = SOCK_NUM \<and>
     (\<forall>i a. slot_addr i st = Some a \<longrightarrow> (\<exists>c. ctxs st a = Some c \<and> ctx_ok i c)) \<and>
     (\<forall>a. ctxs st a \<noteq> None \<longrightarrow> a < next_ctx st)"

lemma table_okD:
  assumes "table_ok st" and "slot_addr i st = Some a"
  shows "\<exists>c. ctxs st a = Some c \<and> slot_get i st = Some c \<and> ctx_ok i c"
proof -
  from assms(1) have "\<forall>i a. slot_addr i st = Some a \<longrightarrow> (\<exists>c. ctxs st a = Some c \<and> ctx_ok i c)"
    unfolding table_ok_def by blast
  with assms(2) show ?thesis by (auto simp: slot_get_def)
qed

lemma slot_getE:
  assumes "table_ok st" and "slot_get i st = Some c"
  obtains a where "slot_addr i st = Some a" and "ctxs st a = Some c" and "ctx_ok i c" and "i < SOCK_NUM"
proof -
  from assms(2) obtain a where a: "slot_addr i st = Some a" and c: "ctxs st a = Some c"
    unfolding slot_get_def by (auto simp: bind_eq_Some_conv)
  have "ctx_ok i c" using table_okD [OF assms(1) a] c by auto
  moreover have "i < SOCK_NUM" using a assms(1) unfolding slot_addr_def table_ok_def by (auto split: if_splits)
  ultimately show thesis using that a c by blast
qed

lemma slot_addr_inj:
  assumes "table_ok st" and "slot_addr i st = Some a" and "slot_addr j st = Some a"
  shows "i = j"
  using table_okD [OF assms(1,2)] table_okD [OF assms(1,3)] by (auto simp: ctx_ok_def)

lemma slot_empty_iff: "table_ok st \<Longrightarrow> slot_get i st = None \<longleftrightarrow> slot_addr i st = None"
  using table_okD [of st i] by (cases "slot_addr i st") (auto simp: slot_get_def)

lemma slot_addr_cong [simp]:
  "slot_addr i (st\<lparr>ctxs := s\<rparr>) = slot_addr i st"
  "slot_addr i (st\<lparr>sn_info := xs\<rparr>) = slot_addr i st"
  "slot_addr i (st\<lparr>sock_out := es\<rparr>) = slot_addr i st"
  "slot_addr i (sock_emit e st) = slot_addr i st"
  by (simp_all add: slot_addr_def sock_emit_def)

lemma sock_emit_fields [simp]:
  "ctxs (sock_emit e st) = ctxs st" "sock_ctx (sock_emit e st) = sock_ctx st"
  "next_ctx (sock_emit e st) = next_ctx st" "sn_info (sock_emit e st) = sn_info st"
  "sock_out (sock_emit e st) = sock_out st @ [e]"
  by (simp_all add: sock_emit_def)

text \<open>An update of the context in a slot succeeds and is seen through this slot alone.\<close>

definition upd_at :: "nat \<Rightarrow> socket_context \<Rightarrow> sockets \<Rightarrow> sockets" where
  "upd_at i c st = st\<lparr>ctxs := (ctxs st)(the (slot_addr i st) \<mapsto> c)\<rparr>"

lemma upd_at_fields [simp]:
  "sock_ctx (upd_at i c st) = sock_ctx st" "next_ctx (upd_at i c st) = next_ctx st"
  "sn_info (upd_at i c st) = sn_info st" "sock_out (upd_at i c st) = sock_out st"
  "slot_addr j (upd_at i c st) = slot_addr j st"
  "g_data_send_mode (upd_at i c st) = g_data_send_mode st"
  by (simp_all add: upd_at_def slot_addr_def)

lemma upd_at_get:
  assumes "table_ok st" and "slot_get i st = Some c0"
  shows "slot_get j (upd_at i c st) = (if j = i then Some c else slot_get j st)"
proof -
  obtain a where a: "slot_addr i st = Some a" using assms by (auto elim: slot_getE)
  show ?thesis
  proof (cases "slot_addr j st")
    case None
    then show ?thesis using a by (auto simp: slot_get_def upd_at_def)
  next
    case (Some b)
    then have "b = a \<longleftrightarrow> j = i" using slot_addr_inj [OF assms(1)] a by auto
    then show ?thesis using Some a by (auto simp: slot_get_def upd_at_def)
  qed
qed

lemma upd_at_ok:
  assumes "table_ok st" and "slot_get i st = Some c0" and "ctx_ok i c"
  shows "table_ok (upd_at i c st)"
proof -
  obtain a where a: "slot_addr i st = Some a" "ctxs st a = Some c0" using assms by (auto elim: slot_getE)
  have "\<exists>d. ctxs (upd_at i c st) b = Some d \<and> ctx_ok j d" if b: "slot_addr j st = Some b" for j b
  proof (cases "b = a")
    case True
    then show ?thesis using slot_addr_inj [OF assms(1) b] a assms(3) by (simp add: upd_at_def)
  next
    case False
    then show ?thesis using table_okD [OF assms(1) b] a by (auto simp: upd_at_def)
  qed
  moreover have "length (sock_ctx st) = SOCK_NUM" and "\<forall>b. ctxs st b \<noteq> None \<longrightarrow> b < next_ctx st"
    using assms(1) unfolding table_ok_def by blast+
  moreover have "ctxs (upd_at i c st) b \<noteq> None \<longleftrightarrow> ctxs st b \<noteq> None" for b
    using a by (simp add: upd_at_def)
  ultimately show ?thesis unfolding table_ok_def by simp
qed

lemma slot_upd_eq:
  assumes "table_ok st" and "slot_get i st = Some c"
  shows "slot_upd i f st = Some (upd_at i (f c) st)"
  using assms by (auto simp: slot_upd_def upd_sock_def upd_at_def elim!: slot_getE)

lemma upd_sock_eq:
  assumes "slot_addr i st = Some a" and "slot_get i st = Some c"
  shows "upd_sock a f st = Some (upd_at i (f c) st)"
  using assms by (simp add: slot_get_def upd_sock_def upd_at_def)

section \<open>Searching the table\<close>

lemma find_slot_Some:
  assumes "\<forall>i < length as. \<forall>a. as ! i = Some a \<longrightarrow> s a \<noteq> None"
  shows "\<exists>r. find_slot s P as = Some r \<and>
    (case r of
       None \<Rightarrow> \<forall>i < length as. \<forall>a. as ! i = Some a \<longrightarrow> \<not> P (the (s a))
     | Some i \<Rightarrow> i < length as \<and> (\<exists>a. as ! i = Some a \<and> P (the (s a))))"
  using assms
proof (induction as)
  case Nil
  then show ?case by simp
next
  case (Cons x as)
  have "\<forall>i < length as. \<forall>a. as ! i = Some a \<longrightarrow> s a \<noteq> None" using Cons.prems by auto
  from Cons.IH [OF this] obtain r where r: "find_slot s P as = Some r"
    and found: "case r of None \<Rightarrow> \<forall>i < length as. \<forall>a. as ! i = Some a \<longrightarrow> \<not> P (the (s a))
      | Some i \<Rightarrow> i < length as \<and> (\<exists>a. as ! i = Some a \<and> P (the (s a)))" by blast
  have x: "x = Some a \<Longrightarrow> s a \<noteq> None" for a using Cons.prems by (metis length_Cons nth_Cons_0 zero_less_Suc)
  have tail: "\<exists>r. map_option (map_option Suc) (find_slot s P as) = Some r \<and>
      (case r of None \<Rightarrow> \<forall>i < length (x # as). \<forall>a. (x # as) ! i = Some a \<longrightarrow> \<not> P (the (s a))
        | Some i \<Rightarrow> i < length (x # as) \<and> (\<exists>a. (x # as) ! i = Some a \<and> P (the (s a))))"
    if "\<forall>a. x = Some a \<longrightarrow> \<not> P (the (s a))"
    using r found that by (auto simp: nth_Cons split: option.splits nat.splits)
  show ?case
  proof (cases x)
    case None
    then show ?thesis using tail by simp
  next
    case (Some a)
    then obtain c where "s a = Some c" using x by auto
    then show ?thesis using tail Some by (cases "P c") auto
  qed
qed

lemma find_ctx_cases:
  assumes "table_ok st"
  obtains (none) "find_slot (ctxs st) P (sock_ctx st) = Some None" and "\<And>i c. slot_get i st = Some c \<Longrightarrow> \<not> P c"
  | (some) i c where "find_slot (ctxs st) P (sock_ctx st) = Some (Some i)" and "slot_get i st = Some c" and "P c"
proof -
  have alloc: "\<forall>i < length (sock_ctx st). \<forall>a. sock_ctx st ! i = Some a \<longrightarrow> ctxs st a \<noteq> None"
  proof (intro allI impI)
    fix i a assume "i < length (sock_ctx st)" and "sock_ctx st ! i = Some a"
    then have "slot_addr i st = Some a" by (simp add: slot_addr_def)
    then show "ctxs st a \<noteq> None" using table_okD [OF assms] by auto
  qed
  from find_slot_Some [OF this, of P] obtain r where r: "find_slot (ctxs st) P (sock_ctx st) = Some r"
    and found: "case r of
         None \<Rightarrow> \<forall>i < length (sock_ctx st). \<forall>a. sock_ctx st ! i = Some a \<longrightarrow> \<not> P (the (ctxs st a))
       | Some i \<Rightarrow> i < length (sock_ctx st) \<and> (\<exists>a. sock_ctx st ! i = Some a \<and> P (the (ctxs st a)))" by blast
  show thesis
  proof (cases r)
    case None
    then show thesis using r found none
      by (force simp: slot_get_def slot_addr_def bind_eq_Some_conv split: if_splits)
  next
    case (Some i)
    then obtain a where "i < length (sock_ctx st)" "sock_ctx st ! i = Some a" "P (the (ctxs st a))" using found by auto
    moreover obtain c where "ctxs st a = Some c" using alloc calculation by auto
    ultimately show thesis using r Some some [of i c] by (simp add: slot_get_def slot_addr_def)
  qed
qed

lemma find_by_id:
  assumes "table_ok st"
  shows "find_sock_ctx_id_by_sock_id n st = Some (if slot_get n st = None then None else Some n)"
  using assms
proof (cases rule: find_ctx_cases [where P = "\<lambda>c. sock_id c = n"])
  case none
  have "slot_get n st = None"
  proof (rule ccontr)
    assume "slot_get n st \<noteq> None"
    then obtain c where c: "slot_get n st = Some c" by auto
    then have "sock_id c = n" using slot_getE [OF assms c] by (auto simp: ctx_ok_def)
    then show False using none(2) c by blast
  qed
  then show ?thesis using none by (simp add: find_sock_ctx_id_by_sock_id_def)
next
  case (some i c)
  then have "i = n" using slot_getE [OF assms some(2)] by (auto simp: ctx_ok_def)
  then show ?thesis using some by (simp add: find_sock_ctx_id_by_sock_id_def)
qed

section \<open>Packets under way\<close>

definition sn_key :: "sock_sn_node \<Rightarrow> nat \<times> nat" where
  "sn_key x = (node_id x, node_seq x)"

definition sending :: "sockets \<Rightarrow> nat \<Rightarrow> nat \<Rightarrow> bool" where
  "sending st i k \<longleftrightarrow>
     (\<exists>c. slot_get i st = Some c \<and> 0 < k \<and> k \<le> SEQUENCE_MAX \<and> sequence_state c ! (k - 1) = SEND_STATUS_SENDING)"

text \<open>No two packets share a number, and a number is in the list exactly while its state is that of sending.\<close>

definition books_ok :: "sockets \<Rightarrow> bool" where
  "books_ok st \<longleftrightarrow> distinct (map sn_key (sn_info st)) \<and>
     (\<forall>i k. (i, k) \<in> sn_key ` set (sn_info st) \<longleftrightarrow> sending st i k)"

lemma books_okD:
  assumes "books_ok st" and "x \<in> set (sn_info st)"
  shows "sending st (node_id x) (node_seq x)"
  using assms unfolding books_ok_def by (metis image_eqI sn_key_def)

definition send_ok_text :: string where
  "send_ok_text = [CR, LF] @ ''SEND OK'' @ [CR, LF]"

definition send_fail_text :: string where
  "send_fail_text = [CR, LF] @ ''SEND FAIL'' @ [CR, LF]"

fun is_verdict :: "sock_event \<Rightarrow> bool" where
  "is_verdict (Rsp_Ext s) = (s = send_ok_text \<or> s = send_fail_text)"
| "is_verdict e = False"

text \<open>The packets that the network has taken over.\<close>

fun is_accepted :: "sock_event \<Rightarrow> bool" where
  "is_accepted (Sock_Tx f bs k rai ret) = (0 \<le> ret)"
| "is_accepted e = False"

definition verdicts :: "sock_event list \<Rightarrow> nat" where
  "verdicts es = length (filter is_verdict es)"

definition packets_accepted :: "sock_event list \<Rightarrow> nat" where
  "packets_accepted es = length (filter is_accepted es)"

lemma counts_append [simp]:
  "verdicts (es @ fs) = verdicts es + verdicts fs"
  "packets_accepted (es @ fs) = packets_accepted es + packets_accepted fs"
  by (simp_all add: verdicts_def packets_accepted_def)

definition balanced :: "sockets \<Rightarrow> bool" where
  "balanced st \<longleftrightarrow> verdicts (sock_out st) + length (sn_info st) = packets_accepted (sock_out st)"

definition conforms :: "sockets \<Rightarrow> bool" where
  "conforms st \<longleftrightarrow> table_ok st \<and> books_ok st \<and> balanced st"

lemma conformsI [intro?]: "table_ok st \<Longrightarrow> books_ok st \<Longrightarrow> balanced st \<Longrightarrow> conforms st"
  by (simp add: conforms_def)

lemma conformsD [dest]:
  assumes "conforms st"
  shows "table_ok st" and "books_ok st" and "balanced st"
  using assms by (simp_all add: conforms_def)

text \<open>
  Operations that keep the table, the numbers and states of the contexts and the list, and say nothing on a packet.
\<close>

definition same_books :: "socket_context \<Rightarrow> socket_context \<Rightarrow> bool" where
  "same_books c c' \<longleftrightarrow> sock_id c' = sock_id c \<and> sequence_state c' = sequence_state c"

definition quiet :: "sockets \<Rightarrow> sockets \<Rightarrow> bool" where
  "quiet st st' \<longleftrightarrow> (\<forall>a. rel_option same_books (ctxs st a) (ctxs st' a)) \<and> next_ctx st \<le> next_ctx st' \<and>
     sock_ctx st' = sock_ctx st \<and> sn_info st' = sn_info st \<and>
     verdicts (sock_out st') = verdicts (sock_out st) \<and> packets_accepted (sock_out st') = packets_accepted (sock_out st)"

lemma same_books_refl [simp]: "same_books c c" "rel_option same_books x x"
  by (auto simp: same_books_def option.rel_refl)

lemma quiet_slots:
  assumes "quiet st st'"
  shows "slot_addr i st' = slot_addr i st" and "rel_option same_books (slot_get i st) (slot_get i st')"
proof -
  show addr: "slot_addr i st' = slot_addr i st" using assms by (simp add: quiet_def slot_addr_def)
  show "rel_option same_books (slot_get i st) (slot_get i st')"
    using assms addr by (cases "slot_addr i st") (simp_all add: quiet_def slot_get_def)
qed

lemma quiet_sending:
  assumes "quiet st st'"
  shows "sending st' i k \<longleftrightarrow> sending st i k"
  using quiet_slots(2) [OF assms, of i] by (cases "slot_get i st"; cases "slot_get i st'") (auto simp: sending_def same_books_def)

lemma quiet_conforms:
  assumes "quiet st st'" and "conforms st"
  shows "conforms st'"
proof
  have t: "table_ok st" using assms(2) by (simp add: conforms_def)
  have rel: "rel_option same_books (ctxs st a) (ctxs st' a)" for a using assms(1) by (simp add: quiet_def)
  have "\<exists>c. ctxs st' a = Some c \<and> ctx_ok i c" if a: "slot_addr i st = Some a" for i a
    using table_okD [OF t a] rel [of a] by (auto simp: option_rel_Some1 same_books_def ctx_ok_def)
  moreover have "a < next_ctx st'" if "ctxs st' a \<noteq> None" for a
  proof -
    have "ctxs st a \<noteq> None" using rel [of a] that by (cases "ctxs st a") auto
    then have "a < next_ctx st" using t unfolding table_ok_def by blast
    also have "\<dots> \<le> next_ctx st'" using assms(1) by (simp add: quiet_def)
    finally show ?thesis .
  qed
  moreover have "length (sock_ctx st') = SOCK_NUM" using assms(1) t by (simp add: quiet_def table_ok_def)
  ultimately show "table_ok st'" unfolding table_ok_def quiet_slots(1) [OF assms(1)] by blast
  have "sn_info st' = sn_info st" using assms(1) by (simp add: quiet_def)
  then show "books_ok st'" using assms by (simp add: conforms_def books_ok_def quiet_sending)
  show "balanced st'" using assms by (simp add: conforms_def balanced_def quiet_def)
qed

lemma quiet_refl [simp]: "quiet st st"
  by (simp add: quiet_def)

lemma same_books_trans: "rel_option same_books x y \<Longrightarrow> rel_option same_books y z \<Longrightarrow> rel_option same_books x z"
  by (cases x; cases y; cases z) (simp_all add: same_books_def)

lemma quiet_trans:
  assumes "quiet st st1" and "quiet st1 st2"
  shows "quiet st st2"
proof -
  have "rel_option same_books (ctxs st a) (ctxs st2 a)" for a
    using assms same_books_trans [of "ctxs st a" "ctxs st1 a" "ctxs st2 a"] unfolding quiet_def by blast
  then show ?thesis using assms unfolding quiet_def by simp
qed

lemma quiet_emit: "\<not> is_verdict e \<Longrightarrow> \<not> is_accepted e \<Longrightarrow> quiet st (sock_emit e st)"
  by (simp add: quiet_def verdicts_def packets_accepted_def)

lemma quiet_upd_at:
  assumes "slot_get i st = Some c" and "same_books c c'"
  shows "quiet st (upd_at i c' st)"
  using assms by (auto simp: quiet_def upd_at_def slot_get_def bind_eq_Some_conv)

section \<open>Entering a packet and taking it out\<close>

lemma sending_upd:
  assumes "table_ok st" and "slot_get i st = Some c" and "0 < q" and "q \<le> SEQUENCE_MAX"
    and "sequence_state c' = (sequence_state c)[q - 1 := v]"
  shows "sending (upd_at i c' st) j k \<longleftrightarrow> (if (j, k) = (i, q) then v = SEND_STATUS_SENDING else sending st j k)"
proof -
  have len: "length (sequence_state c) = SEQUENCE_MAX" using assms(1,2) by (auto elim: slot_getE simp: ctx_ok_def)
  show ?thesis
    using assms(2-5) len unfolding sending_def upd_at_get [OF assms(1,2)] by (auto simp: nth_list_update)
qed

lemma map_remove_found:
  "map f (case find (\<lambda>x. f x = k) xs of None \<Rightarrow> xs | Some x \<Rightarrow> remove1 x xs) = remove1 k (map f xs)"
proof (induction xs)
  case Nil
  then show ?case by simp
next
  case (Cons y ys)
  show ?case
  proof (cases "find (\<lambda>x. f x = k) ys")
    case None
    then show ?thesis using Cons.IH by auto
  next
    case (Some x)
    then have "f x = k" by (auto simp: find_Some_iff)
    then show ?thesis using Cons.IH Some by auto
  qed
qed

lemma del_sninfo_keys: "map sn_key (sn_info (del_sninfo_node n q st)) = remove1 (n, q) (map sn_key (sn_info st))"
  using map_remove_found [where f = sn_key and k = "(n, q)" and xs = "sn_info st"]
  by (simp add: del_sninfo_node_def sn_key_def cong: option.case_cong)

lemma del_sninfo_fields [simp]:
  "ctxs (del_sninfo_node n q st) = ctxs st" "sock_ctx (del_sninfo_node n q st) = sock_ctx st"
  "next_ctx (del_sninfo_node n q st) = next_ctx st" "sock_out (del_sninfo_node n q st) = sock_out st"
  "slot_addr i (del_sninfo_node n q st) = slot_addr i st" "slot_get i (del_sninfo_node n q st) = slot_get i st"
  by (simp_all add: del_sninfo_node_def slot_addr_def slot_get_def)

text \<open>A verdict on one packet: its state is set, it leaves the list, the text is sent.\<close>

definition settle :: "nat \<Rightarrow> nat \<Rightarrow> socket_context \<Rightarrow> string \<Rightarrow> sockets \<Rightarrow> sockets" where
  "settle i q c s st = sock_emit (Rsp_Ext s) (del_sninfo_node i q (upd_at i c st))"

lemma settle_conforms:
  assumes "conforms st" and "slot_get i st = Some c" and "(i, q) \<in> sn_key ` set (sn_info st)"
    and "sock_id c' = sock_id c" and "sequence_state c' = (sequence_state c)[q - 1 := v]"
    and "v \<noteq> SEND_STATUS_SENDING" and "s = send_ok_text \<or> s = send_fail_text"
  shows "conforms (settle i q c' s st)"
proof
  note ok = conformsD [OF assms(1)]
  have q: "0 < q" "q \<le> SEQUENCE_MAX" using assms(3) ok(2) unfolding books_ok_def sending_def by blast+
  have c: "ctx_ok i c" using slot_getE [OF ok(1) assms(2)] by blast
  then have c': "ctx_ok i c'" using assms(4,5) by (simp add: ctx_ok_def)
  have t: "table_ok (upd_at i c' st)" by (rule upd_at_ok [OF ok(1) assms(2) c'])
  show "table_ok (settle i q c' s st)" using t by (simp add: table_ok_def settle_def)
  have keys: "map sn_key (sn_info (settle i q c' s st)) = remove1 (i, q) (map sn_key (sn_info st))"
    by (simp add: settle_def del_sninfo_keys)
  have dist: "distinct (map sn_key (sn_info st))" using ok(2) by (simp add: books_ok_def)
  have set_keys: "sn_key ` set (sn_info (settle i q c' s st)) = sn_key ` set (sn_info st) - {(i, q)}"
    using arg_cong [OF keys, of set] dist by simp
  have snd: "sending (settle i q c' s st) j k \<longleftrightarrow> sending (upd_at i c' st) j k" for j k
    by (simp add: sending_def settle_def slot_get_def)
  show "books_ok (settle i q c' s st)"
    unfolding books_ok_def set_keys snd sending_upd [OF ok(1) assms(2) q assms(5)] keys
    using ok(2) dist assms(6) by (auto simp: books_ok_def)
  have "length (sn_info (settle i q c' s st)) = length (sn_info st) - 1"
    using arg_cong [OF keys, of length] assms(3) by (simp add: length_remove1)
  moreover have "0 < length (sn_info st)" using assms(3) by (cases "sn_info st") auto
  moreover have "verdicts (sock_out (settle i q c' s st)) = Suc (verdicts (sock_out st))"
    and "packets_accepted (sock_out (settle i q c' s st)) = packets_accepted (sock_out st)"
    using assms(7) by (auto simp: settle_def verdicts_def packets_accepted_def)
  ultimately show "balanced (settle i q c' s st)"
    using ok(3) unfolding balanced_def by linarith
qed

end
