(* ===== verification/At_Socket_Run.thy ===== *)
theory At_Socket_Run
  imports At_Socket_Spec
begin

text \<open>
  The operations of the sockets keep \<open>conforms\<close>: one lemma per operation, and then the runs of a host.
\<close>

section \<open>Reports of the network\<close>

lemma upd_at_again [simp]: "upd_at i c (upd_at i c1 st) = upd_at i c st"
  by (simp add: upd_at_def)

lemma find_sock_id: "table_ok st \<Longrightarrow> slot_get n st = Some c \<Longrightarrow> find_sock_ctx_id_by_sock_id n st = Some (Some n)"
  by (simp add: find_by_id)

lemma slot_number: "table_ok st \<Longrightarrow> slot_get i st = Some c \<Longrightarrow> sock_id c = i"
  by (auto elim: slot_getE simp: ctx_ok_def)

text \<open>An acknowledgement is ignored, or it settles one packet of the socket.\<close>

definition acked_ctx :: "sock_sn_node \<Rightarrow> socket_context \<Rightarrow> socket_context" where
  "acked_ctx x c = set_sequence (node_seq x) SEND_STATUS_SUCCESS (c\<lparr>acked := acked c + data_len x\<rparr>)"

lemma acked_ctx_fields [simp]:
  "sock_id (acked_ctx x c) = sock_id c"
  "sequence_state (acked_ctx x c) = (sequence_state c)[node_seq x - 1 := SEND_STATUS_SUCCESS]"
  by (simp_all add: acked_ctx_def set_sequence_def)

lemma tcp_ack_hit:
  assumes "conforms st" and "slot_get i st = Some c" and "find (acks_node i ack) (sn_info st) = Some x"
    and "find_slot (ctxs st) (\<lambda>c. int (sock_fd c) = conn) (sock_ctx st) = Some (Some i)"
  shows "tcp_ack conn ack st = Some (settle i (node_seq x) (acked_ctx x c) send_ok_text st)"
proof -
  note t = conformsD(1) [OF assms(1)]
  have x: "x \<in> set (sn_info st)" "node_id x = i" using assms(3) by (auto simp: find_Some_iff acks_node_def)
  then have q: "0 < node_seq x" "node_seq x \<le> SEQUENCE_MAX"
    using books_okD [OF conformsD(2) [OF assms(1)] x(1)] by (auto simp: sending_def)
  have find_node: "find_match_tcp_node i ack st = Some (Some (node_seq x), upd_at i (c\<lparr>acked := acked c + data_len x\<rparr>) st)"
    using assms(3) by (simp add: find_match_tcp_node_def find_sock_id [OF t assms(2)] slot_upd_eq [OF t assms(2)])
  have get1: "slot_get i (upd_at i (c\<lparr>acked := acked c + data_len x\<rparr>) st) = Some (c\<lparr>acked := acked c + data_len x\<rparr>)"
    by (simp add: upd_at_get [OF t assms(2)])
  have t1: "table_ok (upd_at i (c\<lparr>acked := acked c + data_len x\<rparr>) st)"
    using slot_getE [OF t assms(2)] by (intro upd_at_ok [OF t assms(2)]) (auto simp: ctx_ok_def)
  show ?thesis
    using assms(2,4) find_node q slot_number [OF t assms(2)]
    by (simp add: tcp_ack_def slot_upd_eq [OF t1 get1] settle_def acked_ctx_def send_ok_text_def)
qed

lemma tcp_ack_cases:
  assumes "conforms st"
  shows "tcp_ack conn ack st = Some st \<or>
    (\<exists>i c x. slot_get i st = Some c \<and> int (sock_fd c) = conn \<and> find (acks_node i ack) (sn_info st) = Some x \<and>
       tcp_ack conn ack st = Some (settle i (node_seq x) (acked_ctx x c) send_ok_text st))"
proof -
  note t = conformsD(1) [OF assms]
  show ?thesis
  proof (cases rule: find_ctx_cases [OF t, where P = "\<lambda>c. int (sock_fd c) = conn"])
    case 1
    then show ?thesis by (simp add: tcp_ack_def)
  next
    case (2 i c)
    show ?thesis
    proof (cases "find (acks_node i ack) (sn_info st)")
      case None
      then show ?thesis using 2(1,2) slot_number [OF t 2(2)] by (simp add: tcp_ack_def find_match_tcp_node_def)
    next
      case (Some x)
      then show ?thesis using tcp_ack_hit [OF assms 2(2) Some 2(1)] 2(2,3) by blast
    qed
  qed
qed

lemma tcp_ack_conforms:
  assumes "conforms st"
  shows "\<exists>st'. tcp_ack conn ack st = Some st' \<and> conforms st'"
  using tcp_ack_cases [OF assms, of conn ack]
proof (elim disjE exE conjE)
  assume "tcp_ack conn ack st = Some st"
  then show ?thesis using assms by simp
next
  fix i c x
  assume a: "slot_get i st = Some c" "find (acks_node i ack) (sn_info st) = Some x"
    "tcp_ack conn ack st = Some (settle i (node_seq x) (acked_ctx x c) send_ok_text st)"
  have "(i, node_seq x) \<in> sn_key ` set (sn_info st)"
    using a(2) by (force simp: find_Some_iff acks_node_def sn_key_def)
  from settle_conforms [OF assms a(1) this, of "acked_ctx x c"] show ?thesis using a(3) by auto
qed

definition report_verdict :: "int \<Rightarrow> string" where
  "report_verdict ucStatus = (if ucStatus = 1 then send_ok_text else send_fail_text)"

lemma udp_report_hit:
  assumes "conforms st" and "slot_get i st = Some c" and "find_match_udp_node i q st" and "q = unat (w AND 0x00FF)"
    and "find_slot (ctxs st) (\<lambda>c. sock_fd c = unat (drop_bit 8 (w AND 0xFF00))) (sock_ctx st) = Some (Some i)"
  shows "urc_UDPSN_Callback w ucStatus st = Some (settle i q (set_sequence q ucStatus c) (report_verdict ucStatus) st)"
proof -
  note t = conformsD(1) [OF assms(1)]
  obtain x where x: "x \<in> set (sn_info st)" "node_id x = i" "node_seq x = q" using assms(3) by (auto simp: find_match_udp_node_def)
  then have q: "0 < q" "q \<le> SEQUENCE_MAX" using books_okD [OF conformsD(2) [OF assms(1)] x(1)] by (auto simp: sending_def)
  then show ?thesis
    using assms(2,3,5) slot_number [OF t assms(2)] slot_upd_eq [OF t assms(2)] q
    by (simp add: urc_UDPSN_Callback_def assms(4) [symmetric] find_sock_ctx_id_by_sock_fd_def settle_def report_verdict_def
        send_ok_text_def send_fail_text_def)
qed

lemma udp_report_cases:
  assumes "conforms st"
  shows "urc_UDPSN_Callback w ucStatus st = Some st \<or>
    (\<exists>i c q. slot_get i st = Some c \<and> find_match_udp_node i q st \<and>
       urc_UDPSN_Callback w ucStatus st = Some (settle i q (set_sequence q ucStatus c) (report_verdict ucStatus) st))"
proof -
  note t = conformsD(1) [OF assms]
  show ?thesis
  proof (cases rule: find_ctx_cases [OF t, where P = "\<lambda>c. sock_fd c = unat (drop_bit 8 (w AND 0xFF00))"])
    case 1
    then show ?thesis by (simp add: urc_UDPSN_Callback_def find_sock_ctx_id_by_sock_fd_def)
  next
    case (2 i c)
    show ?thesis
    proof (cases "find_match_udp_node i (unat (w AND 0x00FF)) st")
      case True
      then show ?thesis using udp_report_hit [OF assms 2(2) True refl 2(1)] 2(2) by blast
    next
      case False
      then show ?thesis using 2(1,2) slot_number [OF t 2(2)]
        by (intro disjI1) (simp add: urc_UDPSN_Callback_def find_sock_ctx_id_by_sock_fd_def Let_def)
    qed
  qed
qed

lemma udp_report_conforms:
  assumes "conforms st" and "ucStatus \<noteq> SEND_STATUS_SENDING"
  shows "\<exists>st'. urc_UDPSN_Callback w ucStatus st = Some st' \<and> conforms st'"
  using udp_report_cases [OF assms(1), of w ucStatus]
proof (elim disjE exE conjE)
  assume "urc_UDPSN_Callback w ucStatus st = Some st"
  then show ?thesis using assms by simp
next
  fix i c q
  assume a: "slot_get i st = Some c" "find_match_udp_node i q st"
    "urc_UDPSN_Callback w ucStatus st = Some (settle i q (set_sequence q ucStatus c) (report_verdict ucStatus) st)"
  have "(i, q) \<in> sn_key ` set (sn_info st)" using a(2) by (force simp: find_match_udp_node_def sn_key_def)
  from settle_conforms [OF assms(1) a(1) this, of "set_sequence q ucStatus c" ucStatus] show ?thesis
    using a(3) assms(2) by (auto simp: set_sequence_def report_verdict_def)
qed

section \<open>Sending\<close>

lemma slot_get_cong [simp]:
  "slot_get i (st\<lparr>sn_info := xs\<rparr>) = slot_get i st" "slot_get i (sock_emit e st) = slot_get i st"
  by (simp_all add: slot_get_def)

lemma upd_at_commute [simp]:
  "upd_at i c (st\<lparr>sn_info := xs\<rparr>) = (upd_at i c st)\<lparr>sn_info := xs\<rparr>"
  "upd_at i c (sock_emit e st) = sock_emit e (upd_at i c st)"
  by (simp_all add: upd_at_def sock_emit_def slot_addr_def)

lemma free_sequence_Some: "free_sequence ss = Some k \<Longrightarrow> 0 < k \<and> k \<le> length ss \<and> ss ! (k - 1) \<noteq> SEND_STATUS_SENDING"
proof (induction ss arbitrary: k)
  case (Cons s ss)
  then show ?case by (fastforce simp: nth_Cons' split: if_splits)
qed simp

lemma free_sequence_None: "free_sequence ss = None \<longleftrightarrow> (\<forall>s \<in> set ss. s = SEND_STATUS_SENDING)"
  by (induction ss) auto

lemma enter_conforms:
  assumes "conforms st" and "slot_get i st = Some c" and "0 < q" and "q \<le> SEQUENCE_MAX" and "\<not> sending st i q"
    and "sn_key x = (i, q)" and "0 \<le> ret" and "sock_id c' = sock_id c"
    and "sequence_state c' = (sequence_state c)[q - 1 := SEND_STATUS_SENDING]"
  shows "conforms ((sock_emit (Sock_Tx f bs k rai ret) (upd_at i c' st))\<lparr>sn_info := sn_info st @ [x]\<rparr>)" (is "conforms ?st")
proof
  note ok = conformsD [OF assms(1)]
  have c': "ctx_ok i c'" using slot_getE [OF ok(1) assms(2)] assms(8,9) by (auto simp: ctx_ok_def)
  show "table_ok ?st" using upd_at_ok [OF ok(1) assms(2) c'] by (simp add: table_ok_def)
  have snd: "sending ?st j k \<longleftrightarrow> sending (upd_at i c' st) j k" for j k by (simp add: sending_def)
  have new: "(i, q) \<notin> sn_key ` set (sn_info st)" using ok(2) assms(5) by (simp add: books_ok_def)
  show "books_ok ?st"
    unfolding books_ok_def snd sending_upd [OF ok(1) assms(2-4) assms(9)]
    using ok(2) new assms(6) by (auto simp: books_ok_def)
  show "balanced ?st" using ok(3) assms(7) by (simp add: balanced_def verdicts_def packets_accepted_def)
qed

text \<open>A number that is not under way may take any state but that of sending.\<close>

lemma idle_state_conforms:
  assumes "conforms st" and "slot_get i st = Some c" and "0 < q" and "q \<le> SEQUENCE_MAX" and "\<not> sending st i q"
    and "sock_id c' = sock_id c" and "sequence_state c' = (sequence_state c)[q - 1 := v]" and "v \<noteq> SEND_STATUS_SENDING"
  shows "conforms (upd_at i c' st)"
proof
  note ok = conformsD [OF assms(1)]
  have c': "ctx_ok i c'" using slot_getE [OF ok(1) assms(2)] assms(6,7) by (auto simp: ctx_ok_def)
  show "table_ok (upd_at i c' st)" by (rule upd_at_ok [OF ok(1) assms(2) c'])
  have "sending (upd_at i c' st) j k = sending st j k" for j k
    using sending_upd [OF ok(1) assms(2-4) assms(7)] assms(5,8) by auto
  then show "books_ok (upd_at i c' st)" using ok(2) by (simp add: books_ok_def)
  show "balanced (upd_at i c' st)" using ok(3) by (simp add: balanced_def)
qed

lemma send_bytes_Some: "\<exists>r. send_bytes mode data len = Some r"
  by (auto simp: send_bytes_def hexstr2bytes_def Let_def split: prod.splits)

definition new_node :: "nat \<Rightarrow> socket_context \<Rightarrow> u32 \<Rightarrow> int \<Rightarrow> nat \<Rightarrow> sock_sn_node" where
  "new_node i c pre_sn ret q =
     \<lparr>per_sn = (if net_type c = 0 then pre_sn else 0), data_len = word_of_int ret, node_id = i, node_seq = q, node_type = net_type c\<rparr>"

definition sending_ctx :: "nat \<Rightarrow> int \<Rightarrow> socket_context \<Rightarrow> socket_context" where
  "sending_ctx q ret c =
     set_sequence q SEND_STATUS_SENDING (c\<lparr>sended_size := sended_size c + word_of_int ret\<rparr>)"

text \<open>The outcomes of sending, when the mark for empty TCP data has been cleared.\<close>

lemma send_data_eq:
  assumes "conforms st" and "slot_addr i st = Some a" and "slot_get i st = Some c0"
    and "c = c0\<lparr>zero_flag := False\<rparr>" and "st1 = upd_at i c st"
  shows "bc26_socket_send_data pre_sn ret data len rai a st =
    (case free_sequence (sequence_state c) of
       None \<Rightarrow> Some (XY_ERR, st1)
     | Some q \<Rightarrow>
         if net_type c = 0 \<and> len = 0 then Some (XY_OK, upd_at i (c\<lparr>zero_flag := True\<rparr>) st1)
         else
           (case the (send_bytes (g_data_send_mode st) data len) of
              None \<Rightarrow> Some (XY_ERR, st1)
            | Some bs \<Rightarrow>
                let st2 = sock_emit (Sock_Tx (sock_fd c) bs q rai ret) st1 in
                if ret < 0 then Some (XY_ERR, upd_at i (set_sequence q SEND_STATUS_FAILED c) st2)
                else Some (XY_OK, (upd_at i (sending_ctx q ret c) st2)\<lparr>sn_info := sn_info st @ [new_node i c pre_sn ret q]\<rparr>)))"
proof -
  note t = conformsD(1) [OF assms(1)]
  have id: "sock_id c = i" using slot_number [OF t assms(3)] assms(4) by simp
  have len: "length (sequence_state c) = SEQUENCE_MAX" using slot_getE [OF t assms(3)] assms(4) by (auto simp: ctx_ok_def)
  have ok: "ctx_ok i c" using id len by (simp add: ctx_ok_def)
  have t1: "table_ok st1" unfolding assms(5) by (rule upd_at_ok [OF t assms(3) ok])
  have g1: "slot_get i st1 = Some c" by (simp add: assms(5) upd_at_get [OF t assms(3)])
  have a1: "slot_addr i st1 = Some a" "ctxs st1 a = Some c" "sn_info st1 = sn_info st"
    "g_data_send_mode st1 = g_data_send_mode st"
    using assms(2) by (simp_all add: assms(5) upd_at_def)
  have clear: "upd_sock a (zero_flag_update (\<lambda>_. False)) st = Some st1"
    using upd_sock_eq [OF assms(2,3)] by (simp add: assms(4,5))
  have u1: "upd_sock a f st1 = Some (upd_at i (f c) st1)" for f by (rule upd_sock_eq [OF a1(1) g1])
  have u2: "upd_sock a f (upd_at i d st1) = Some (upd_at i (f d) st1)" for f d
    using upd_sock_eq [of i "upd_at i d st1" a d f] a1(1) upd_at_get [OF t1 g1] by simp
  have emit: "upd_sock a f (sock_emit e s) = map_option (sock_emit e) (upd_sock a f s)" for f e s
    by (cases "ctxs s a") (simp_all add: upd_sock_def sock_emit_def)
  have sn: "upd_sock a f (s\<lparr>sn_info := xs\<rparr>) = map_option (\<lambda>s. s\<lparr>sn_info := xs\<rparr>) (upd_sock a f s)" for f s xs
    by (cases "ctxs s a") (simp_all add: upd_sock_def)
  have add: "add_sninfo_node i n q p (sock_emit e (upd_at i d st1)) =
      Some ((sock_emit e (upd_at i d st1))\<lparr>sn_info := sn_info st @ [\<lparr>per_sn = p, data_len = n, node_id = i, node_seq = q, node_type = net_type d\<rparr>]\<rparr>)"
    if "ctx_ok i d" for n q p e d
  proof -
    have t2: "table_ok (sock_emit e (upd_at i d st1))" using upd_at_ok [OF t1 g1 that] by (simp add: table_ok_def)
    have g2: "slot_get i (sock_emit e (upd_at i d st1)) = Some d" by (simp add: upd_at_get [OF t1 g1])
    show ?thesis using g2 a1(3) by (simp add: add_sninfo_node_def find_sock_id [OF t2 g2])
  qed
  obtain r where r: "send_bytes (g_data_send_mode st) data len = Some r" using send_bytes_Some by blast
  show ?thesis
  proof (cases "free_sequence (sequence_state c)")
    case None
    then show ?thesis
      using clear a1 g1 id len by (simp add: bc26_socket_send_data_def find_sock_id [OF t1 g1] bc26_get_free_sequence_def)
  next
    case (Some q)
    have ok2: "ctx_ok i (c\<lparr>sended_size := n\<rparr>)" for n using ok by (simp add: ctx_ok_def)
    show ?thesis
      using Some clear a1 g1 id len r
      by (cases r) (simp_all add: bc26_socket_send_data_def find_sock_id [OF t1 g1] bc26_get_free_sequence_def u1 u2 emit sn
          add ok2 new_node_def sending_ctx_def Let_def)
  qed
qed

lemma send_conforms:
  assumes "conforms st" and "slot_addr i st = Some a"
  shows "\<exists>r st'. bc26_socket_send_data pre_sn ret data len rai a st = Some (r, st') \<and> conforms st'"
proof -
  note t = conformsD(1) [OF assms(1)]
  obtain c0 where c0: "slot_get i st = Some c0" "ctx_ok i c0" using table_okD [OF t assms(2)] by blast
  define c where "c = c0\<lparr>zero_flag := False\<rparr>"
  define st1 where "st1 = upd_at i c st"
  note eq = send_data_eq [OF assms c0(1) c_def st1_def, of pre_sn ret data len rai]
  have ok1: "conforms st1" and g1: "slot_get i st1 = Some c" and sn1: "sn_info st1 = sn_info st"
    using quiet_conforms [OF quiet_upd_at [OF c0(1)] assms(1)] upd_at_get [OF t c0(1)]
    by (simp_all add: st1_def c_def same_books_def)
  show ?thesis
  proof (cases "free_sequence (sequence_state c)")
    case None
    then show ?thesis using eq ok1 by simp
  next
    case (Some q)
    have q: "0 < q" "q \<le> SEQUENCE_MAX" "\<not> sending st1 i q"
      using free_sequence_Some [OF Some] c0(2) g1 by (auto simp: sending_def ctx_ok_def c_def)
    have zero: "conforms (upd_at i (c\<lparr>zero_flag := True\<rparr>) st1)"
      using quiet_conforms [OF quiet_upd_at [OF g1] ok1] by (simp add: same_books_def)
    have fail: "conforms (upd_at i (set_sequence q SEND_STATUS_FAILED c) (sock_emit (Sock_Tx f bs q rai ret) st1))"
      if "ret < 0" for f bs
    proof -
      have "quiet st1 (sock_emit (Sock_Tx f bs q rai ret) st1)" using that by (intro quiet_emit) simp_all
      from idle_state_conforms [OF quiet_conforms [OF this ok1]] show ?thesis
        using g1 q by (auto simp: sending_def set_sequence_def)
    qed
    have sent: "conforms ((upd_at i (sending_ctx q ret c) (sock_emit (Sock_Tx f bs q rai ret) st1))\<lparr>sn_info :=
        sn_info st @ [new_node i c pre_sn ret q]\<rparr>)" if "\<not> ret < 0" for f bs
      using enter_conforms [OF ok1 g1 q, of "new_node i c pre_sn ret q" ret "sending_ctx q ret c"] that sn1
      by (simp add: new_node_def sn_key_def sending_ctx_def set_sequence_def)
    show ?thesis
      using eq Some ok1 zero fail sent by (cases "the (send_bytes (g_data_send_mode st) data len)") (auto simp: Let_def)
  qed
qed

section \<open>Closing\<close>

text \<open>The loop over the list fails the packets of the socket and keeps the others.\<close>

lemma del_nodes_eq:
  assumes "table_ok st" and "slot_get n st = Some c"
    and "\<forall>x \<in> set xs. node_id x = n \<longrightarrow> 0 < node_seq x \<and> node_seq x \<le> SEQUENCE_MAX"
  shows "\<exists>c'. ctx_ok n c' \<and> del_nodes n xs st = Some (filter (\<lambda>x. node_id x \<noteq> n) xs,
    (upd_at n c' st)\<lparr>sock_out := sock_out st @ replicate (length (filter (\<lambda>x. node_id x = n) xs)) (Rsp_Ext send_fail_text)\<rparr>)"
  using assms
proof (induction xs arbitrary: st c)
  case Nil
  obtain a where a: "slot_addr n st = Some a" "ctxs st a = Some c" and c: "ctx_ok n c"
    using Nil(1,2) by (auto elim: slot_getE)
  have "(ctxs st)(a \<mapsto> c) = ctxs st" using a(2) by (rule fun_upd_idem)
  then have "upd_at n c st = st" using a(1) by (simp add: upd_at_def)
  then show ?case using c by (intro exI [of _ c]) simp
next
  case (Cons x xs)
  show ?case
  proof (cases "node_id x = n")
    case True
    define d where "d = set_sequence (node_seq x) SEND_STATUS_FAILED c"
    have d: "ctx_ok n d" using slot_getE [OF Cons.prems(1,2)] by (auto simp: ctx_ok_def d_def set_sequence_def)
    define st1 where "st1 = sock_emit (Rsp_Ext send_fail_text) (upd_at n d st)"
    have t1: "table_ok st1" using upd_at_ok [OF Cons.prems(1,2) d] by (simp add: st1_def table_ok_def)
    have g1: "slot_get n st1 = Some d" by (simp add: st1_def upd_at_get [OF Cons.prems(1,2)])
    from Cons.IH [OF t1 g1] Cons.prems(3) obtain c' where c': "ctx_ok n c'"
      "del_nodes n xs st1 = Some (filter (\<lambda>x. node_id x \<noteq> n) xs,
         (upd_at n c' st1)\<lparr>sock_out := sock_out st1 @ replicate (length (filter (\<lambda>x. node_id x = n) xs)) (Rsp_Ext send_fail_text)\<rparr>)"
      by auto
    have "upd_at n c' st1 = sock_emit (Rsp_Ext send_fail_text) (upd_at n c' st)" by (simp add: st1_def)
    then show ?thesis
      using True c' Cons.prems(3) slot_upd_eq [OF Cons.prems(1,2)]
      by (intro exI [of _ c']) (simp add: st1_def d_def send_fail_text_def sock_emit_def)
  next
    case False
    then show ?thesis using Cons.IH [OF Cons.prems(1,2)] Cons.prems(3) by auto
  qed
qed

definition closed_report :: "nat \<Rightarrow> sock_event" where
  "closed_report n = Rsp_Ext ([CR, LF] @ ''+QIURC: '' @ [QUOTE] @ ''closed'' @ [QUOTE] @ '','' @ show_dec (int n) @ [CR, LF])"

definition removed :: "nat \<Rightarrow> sock_addr \<Rightarrow> socket_context \<Rightarrow> bool \<Rightarrow> sockets \<Rightarrow> sockets" where
  "removed i a c report st = st\<lparr>
     ctxs := (ctxs st)(a := None), sock_ctx := (sock_ctx st)[i := None],
     sn_info := filter (\<lambda>x. node_id x \<noteq> i) (sn_info st),
     sock_out := sock_out st @ Sock_Close (sock_fd c) #
       replicate (length (filter (\<lambda>x. node_id x = i) (sn_info st))) (Rsp_Ext send_fail_text) @
       (if report \<and> net_type c \<noteq> 1 then [closed_report i] else [])\<rparr>"

lemma del_socket_eq:
  assumes "conforms st" and "slot_addr i st = Some a" and "slot_get i st = Some c"
  shows "del_socket_ctx_by_index i report st = Some (XY_OK, removed i a c report st)"
proof -
  define st0 where "st0 = sock_emit (Sock_Close (sock_fd c)) st"
  note t = conformsD(1) [OF assms(1)]
  have t0: "table_ok st0" using t by (simp add: st0_def table_ok_def)
  have g0: "slot_get i st0 = Some c" using assms(3) by (simp add: st0_def)
  have "\<forall>x \<in> set (sn_info st). node_id x = i \<longrightarrow> 0 < node_seq x \<and> node_seq x \<le> SEQUENCE_MAX"
    using books_okD [OF conformsD(2) [OF assms(1)]] by (auto simp: sending_def)
  from del_nodes_eq [OF t0 g0 this] obtain c' where
    "del_nodes i (sn_info st) st0 = Some (filter (\<lambda>x. node_id x \<noteq> i) (sn_info st),
      (upd_at i c' st0)\<lparr>sock_out := sock_out st0 @
        replicate (length (filter (\<lambda>x. node_id x = i) (sn_info st))) (Rsp_Ext send_fail_text)\<rparr>)" by blast
  then have "del_allsnnode_by_socketid i st0 = Some ((upd_at i c' st0)\<lparr>
      sock_out := sock_out st0 @ replicate (length (filter (\<lambda>x. node_id x = i) (sn_info st))) (Rsp_Ext send_fail_text),
      sn_info := filter (\<lambda>x. node_id x \<noteq> i) (sn_info st)\<rparr>)"
    by (simp add: del_allsnnode_by_socketid_def st0_def)
  moreover have "ctxs st a = Some c" using assms(2,3) by (simp add: slot_get_def)
  ultimately show ?thesis
    using assms(2) slot_number [OF t assms(3)]
    by (simp add: del_socket_ctx_by_index_def removed_def st0_def upd_at_def at_report_socket_state_def closed_report_def
        sock_emit_def Let_def)
qed

lemma removed_slots:
  assumes "table_ok st" and "slot_addr i st = Some a"
  shows "slot_addr j (removed i a c report st) = (if j = i then None else slot_addr j st)"
    and "slot_get j (removed i a c report st) = (if j = i then None else slot_get j st)"
proof -
  have i: "i < length (sock_ctx st)" using assms(2) by (simp add: slot_addr_def split: if_splits)
  show addr: "slot_addr j (removed i a c report st) = (if j = i then None else slot_addr j st)" for j
    using i by (simp add: removed_def slot_addr_def)
  show "slot_get j (removed i a c report st) = (if j = i then None else slot_get j st)"
    using slot_addr_inj [OF assms, of j] unfolding slot_get_def addr
    by (cases "slot_addr j st") (auto simp: removed_def)
qed

lemma removed_conforms:
  assumes "conforms st" and "slot_addr i st = Some a" and "slot_get i st = Some c"
  shows "conforms (removed i a c report st)"
proof
  note ok = conformsD [OF assms(1)]
  note slots = removed_slots [OF ok(1) assms(2), of _ c report]
  have "\<exists>d. ctxs (removed i a c report st) b = Some d \<and> ctx_ok j d" if "slot_addr j (removed i a c report st) = Some b" for j b
  proof -
    have j: "j \<noteq> i" "slot_addr j st = Some b" using that slots(1) by (auto split: if_splits)
    then have "b \<noteq> a" using slot_addr_inj [OF ok(1) assms(2)] by blast
    then show ?thesis using table_okD [OF ok(1) j(2)] by (auto simp: removed_def)
  qed
  moreover have "b < next_ctx st" if "ctxs (removed i a c report st) b \<noteq> None" for b
  proof -
    have "ctxs st b \<noteq> None" using that by (auto simp: removed_def split: if_splits)
    then show ?thesis using ok(1) unfolding table_ok_def by blast
  qed
  ultimately show "table_ok (removed i a c report st)"
    using ok(1) unfolding table_ok_def by (simp add: removed_def)
  have sn: "sn_info (removed i a c report st) = filter (\<lambda>x. node_id x \<noteq> i) (sn_info st)" by (simp add: removed_def)
  have snd: "sending (removed i a c report st) j k \<longleftrightarrow> j \<noteq> i \<and> sending st j k" for j k
    by (simp add: sending_def slots(2))
  have dist: "distinct (map sn_key (filter P (sn_info st)))" for P
    using ok(2) by (auto simp: books_ok_def distinct_map intro: inj_on_subset)
  have keys: "(j, k) \<in> sn_key ` set (filter (\<lambda>x. node_id x \<noteq> i) (sn_info st)) \<longleftrightarrow> j \<noteq> i \<and> (j, k) \<in> sn_key ` set (sn_info st)" for j k
    by (auto simp: sn_key_def)
  show "books_ok (removed i a c report st)"
    unfolding books_ok_def sn snd keys using dist ok(2) by (simp add: books_ok_def)
  have "length (filter (\<lambda>x. node_id x = i) (sn_info st)) + length (filter (\<lambda>x. node_id x \<noteq> i) (sn_info st)) = length (sn_info st)"
    by (rule sum_length_filter_compl)
  then show "balanced (removed i a c report st)"
    using ok(3)
    by (simp add: balanced_def removed_def verdicts_def packets_accepted_def closed_report_def send_ok_text_def send_fail_text_def
        add.assoc)
qed

text \<open>Whatever the slot holds, the removal keeps order.\<close>

lemma del_socket_conforms:
  assumes "conforms st" and "slot_addr i st = Some a"
  shows "\<exists>st'. del_socket_ctx_by_index i report st = Some (XY_OK, st') \<and> conforms st'"
proof -
  obtain c where c: "slot_get i st = Some c" using table_okD [OF conformsD(1) [OF assms(1)] assms(2)] by blast
  show ?thesis using del_socket_eq [OF assms c] removed_conforms [OF assms c] by blast
qed

section \<open>Opening\<close>

definition open_ok :: "open_answer \<Rightarrow> bool" where
  "open_ok ans \<longleftrightarrow> oa_family ans \<noteq> None \<and> oa_socket ans \<noteq> None \<and> oa_bind ans \<and> oa_connect ans"

definition opened_ctx :: "open_answer \<Rightarrow> socket_context \<Rightarrow> socket_context" where
  "opened_ctx ans c = c\<lparr>af_type := (if the (oa_family ans) = AF_INET6 then 1 else 0), sock_fd := the (oa_socket ans) mod 256,
     local_port := (case oa_port ans of None \<Rightarrow> local_port c | Some p \<Rightarrow> p), sock_state := 2\<rparr>"

text \<open>The one report of an opening task, and the descriptor that is given back.\<close>

definition open_events :: "nat \<Rightarrow> open_answer \<Rightarrow> sock_event list" where
  "open_events n ans =
     (if open_ok ans then [open_report n NET_OP_OK]
      else (case (oa_family ans, oa_socket ans) of
              (Some fam, Some f) \<Rightarrow> [Sock_Close f, open_report n (if oa_bind ans then NET_SOCK_CONNECT_ERR else NET_SOCK_BIND_ERR)]
            | _ \<Rightarrow> [open_report n NET_SOCK_CREATE_ERR]))"

lemma open_finish_eq:
  assumes "ctxs st a = Some c"
  shows "open_finish ans a i st = Some (
    let st1 = st\<lparr>open_tasks := remove1 (a, Some i) (open_tasks st), sock_out := sock_out st @ open_events (sock_id c) ans\<rparr> in
    if open_ok ans
    then st1\<lparr>ctxs := (ctxs st)(a \<mapsto> opened_ctx ans c), sock_ctx := (sock_ctx st)[i := Some a], at_rcv_thread := True\<rparr>
    else st1\<lparr>ctxs := (ctxs st)(a := None)\<rparr>)"
  using assms
  by (cases "oa_family ans"; cases "oa_socket ans"; cases "oa_port ans")
    (simp_all add: open_finish_def open_failed_def upd_sock_def free_sock_def sock_emit_def open_ok_def open_events_def
      opened_ctx_def Let_def)

lemma free_slot_Some: "free_slot as = Some i \<Longrightarrow> i < length as \<and> as ! i = None"
  by (induction as arbitrary: i rule: free_slot.induct) (auto split: nat.splits)

lemma free_slot_empty:
  assumes "table_ok st" and "get_free_sock_id st = Some n"
  shows "slot_addr n st = None" and "slot_get n st = None" and "n < SOCK_NUM"
proof -
  have "n < length (sock_ctx st)" and "sock_ctx st ! n = None"
    using free_slot_Some [of "sock_ctx st" n] assms(2) by (simp_all add: get_free_sock_id_def)
  then show "slot_addr n st = None" and "n < SOCK_NUM" and "slot_get n st = None"
    using assms(1) by (simp_all add: slot_addr_def slot_get_def table_ok_def)
qed

lemma default_state_idle:
  assumes "\<And>a c. Some a \<in> set (sock_ctx st) \<Longrightarrow> ctxs st a = Some c \<Longrightarrow> sock_id c \<noteq> n"
  shows "set_socket_sequence_default_state n st = st"
proof -
  have "map_option (\<lambda>c. if Some a \<in> set (sock_ctx st) \<and> sock_id c = n
      then c\<lparr>sequence_state := replicate SEQUENCE_MAX SEND_STATUS_UNUSED\<rparr> else c) (ctxs st a) = ctxs st a" for a
    using assms by (cases "ctxs st a") auto
  then show ?thesis by (simp add: set_socket_sequence_default_state_def)
qed

definition new_socket :: "nat \<Rightarrow> nat \<Rightarrow> nat \<Rightarrow> nat \<Rightarrow> string \<Rightarrow> u16 \<Rightarrow> u16 \<Rightarrow> socket_context" where
  "new_socket working_cid n nt mode host rport lport =
     zero_socket\<lparr>net_type := nt, sock_id := n, accessmode := mode, cid := working_cid, remote_port := rport,
       local_port := lport, local_port_ori := lport, recv_ctl := 1, remote_ip := Some host\<rparr>"

lemma new_socket_ok: "ctx_ok n (new_socket w n nt mode host rport lport)"
  by (simp add: ctx_ok_def new_socket_def zero_socket_def)

lemma open_socket_eq:
  assumes "table_ok st" and "slot_get n st = None"
  shows "open_socket w n nt mode host rport lport st =
    st\<lparr>ctxs := (ctxs st)(next_ctx st \<mapsto> new_socket w n nt mode host rport lport), next_ctx := next_ctx st + 1,
       open_tasks := open_tasks st @ [(next_ctx st, None)]\<rparr>"
proof -
  let ?c = "new_socket w n nt mode host rport lport"
  let ?st = "st\<lparr>ctxs := (ctxs st)(next_ctx st \<mapsto> ?c), next_ctx := next_ctx st + 1\<rparr>"
  have "sock_id c \<noteq> n" if in_table: "Some a \<in> set (sock_ctx ?st)" and c: "ctxs ?st a = Some c" for a c
  proof -
    obtain j where "j < length (sock_ctx st)" "sock_ctx st ! j = Some a" using in_table by (auto simp: in_set_conv_nth)
    then have j: "slot_addr j st = Some a" by (simp add: slot_addr_def)
    obtain d where d: "ctxs st a = Some d" "slot_get j st = Some d" using table_okD [OF assms(1) j] by blast
    have "a < next_ctx st" using assms(1) d(1) unfolding table_ok_def by blast
    then have "c = d" using c d(1) by simp
    then show ?thesis using d(2) slot_number [OF assms(1)] assms(2) by (metis option.distinct(1))
  qed
  then have "set_socket_sequence_default_state n ?st = ?st" by (rule default_state_idle)
  then show ?thesis by (simp add: open_socket_def alloc_sock_def new_socket_def)
qed

text \<open>Entering a context in an empty slot, at an address that was not in use.\<close>

lemma register_conforms:
  assumes "conforms st" and "slot_addr n st = None" and "n < SOCK_NUM" and "ctx_ok n c"
    and "SEND_STATUS_SENDING \<notin> set (sequence_state c)"
    and "ctxs st' = (ctxs st)(next_ctx st \<mapsto> c)" and "next_ctx st' = next_ctx st + 1"
    and "sock_ctx st' = (sock_ctx st)[n := Some (next_ctx st)]" and "sn_info st' = sn_info st"
    and "verdicts (sock_out st') = verdicts (sock_out st)" and "packets_accepted (sock_out st') = packets_accepted (sock_out st)"
  shows "conforms st'"
proof
  note ok = conformsD [OF assms(1)]
  have len: "length (sock_ctx st) = SOCK_NUM" using ok(1) by (simp add: table_ok_def)
  have addr: "slot_addr j st' = (if j = n then Some (next_ctx st) else slot_addr j st)" for j
    using assms(3) len by (simp add: slot_addr_def assms(8))
  have old: "a < next_ctx st" if "slot_addr j st = Some a" for j a
    using table_okD [OF ok(1) that] ok(1) unfolding table_ok_def by blast
  have get: "slot_get j st' = (if j = n then Some c else slot_get j st)" for j
    using old [of j] by (cases "slot_addr j st") (auto simp: slot_get_def addr assms(6))
  have "\<exists>d. ctxs st' a = Some d \<and> ctx_ok j d" if "slot_addr j st' = Some a" for j a
  proof (cases "j = n")
    case True
    then show ?thesis using that addr assms(4,6) by simp
  next
    case False
    then have a: "slot_addr j st = Some a" using that addr by simp
    then show ?thesis using table_okD [OF ok(1) a] old [OF a] by (auto simp: assms(6))
  qed
  moreover have "a < next_ctx st'" if "ctxs st' a \<noteq> None" for a
    using that ok(1) unfolding table_ok_def assms(6,7) by (metis fun_upd_apply less_Suc_eq Suc_eq_plus1)
  ultimately show "table_ok st'" using len unfolding table_ok_def by (simp add: assms(8))
  have "sequence_state c ! k \<noteq> SEND_STATUS_SENDING" if "k < SEQUENCE_MAX" for k
    using assms(4,5) that by (metis ctx_ok_def nth_mem)
  moreover have "slot_get n st = None" using assms(2) by (simp add: slot_get_def)
  ultimately have "sending st' j k \<longleftrightarrow> sending st j k" for j k
    by (cases "j = n") (auto simp: sending_def get)
  then show "books_ok st'" using ok(2) by (simp add: books_ok_def assms(9))
  show "balanced st'" using ok(3) by (simp add: balanced_def assms(9-11))
qed

lemma open_report_quiet [simp]: "\<not> is_verdict (open_report n r)" "\<not> is_accepted (open_report n r)"
  by (simp_all add: open_report_def)

lemma open_events_quiet: "verdicts (open_events n ans) = 0" "packets_accepted (open_events n ans) = 0"
  by (simp_all add: open_events_def verdicts_def packets_accepted_def split: option.split)

text \<open>A whole opening, from the command to the report.\<close>

definition open_socket_run :: "nat \<Rightarrow> nat \<Rightarrow> nat \<Rightarrow> nat \<Rightarrow> string \<Rightarrow> u16 \<Rightarrow> u16 \<Rightarrow> open_answer \<Rightarrow> sockets \<Rightarrow> sockets option" where
  "open_socket_run w n nt mode host rport lport ans st =
     bc26_socket_open_task ans (next_ctx st) (open_socket w n nt mode host rport lport st)"

lemma open_run_conforms:
  assumes "conforms st" and "get_free_sock_id st = Some n"
  shows "\<exists>st'. open_socket_run w n nt mode host rport lport ans st = Some st' \<and> conforms st'"
proof -
  note t = conformsD(1) [OF assms(1)]
  note free = free_slot_empty [OF t assms(2)]
  let ?c = "new_socket w n nt mode host rport lport"
  define st1 where "st1 = st\<lparr>ctxs := (ctxs st)(next_ctx st \<mapsto> ?c), next_ctx := next_ctx st + 1,
    open_tasks := remove1 (next_ctx st, None) (open_tasks st @ [(next_ctx st, None)]) @ [(next_ctx st, Some n)]\<rparr>"
  have run: "open_socket_run w n nt mode host rport lport ans st = open_finish ans (next_ctx st) n st1"
    using assms(2) by (simp add: open_socket_run_def bc26_socket_open_task_def open_start_def open_socket_eq [OF t free(2)]
        get_free_sock_id_def st1_def)
  have c: "ctxs st1 (next_ctx st) = Some ?c" and out: "sock_out st1 = sock_out st" by (simp_all add: st1_def)
  have idle: "ctxs st (next_ctx st) = None"
    using t unfolding table_ok_def by blast
  show ?thesis
  proof (cases "open_ok ans")
    case True
    define st' where "st' = st1\<lparr>open_tasks := remove1 (next_ctx st, Some n) (open_tasks st1),
      sock_out := sock_out st @ open_events n ans, ctxs := (ctxs st1)(next_ctx st \<mapsto> opened_ctx ans ?c),
      sock_ctx := (sock_ctx st)[n := Some (next_ctx st)], at_rcv_thread := True\<rparr>"
    have "open_finish ans (next_ctx st) n st1 = Some st'"
      using True new_socket_ok [of n] 
      by (simp add: open_finish_eq [OF c] st'_def out ctx_ok_def) (simp add: st1_def)
    moreover have "conforms st'"
    proof (rule register_conforms [OF assms(1) free(1,3), where c = "opened_ctx ans ?c"])
      show "ctx_ok n (opened_ctx ans ?c)" using new_socket_ok [of n] by (simp add: ctx_ok_def opened_ctx_def)
      show "SEND_STATUS_SENDING \<notin> set (sequence_state (opened_ctx ans ?c))"
        by (simp add: opened_ctx_def new_socket_def zero_socket_def)
    qed (simp_all add: st'_def st1_def open_events_quiet)
    ultimately show ?thesis using run by simp
  next
    case False
    define st' where "st' = st1\<lparr>open_tasks := remove1 (next_ctx st, Some n) (open_tasks st1),
      sock_out := sock_out st @ open_events n ans, ctxs := ctxs st\<rparr>"
    have "open_finish ans (next_ctx st) n st1 = Some st'"
      using False new_socket_ok [of n] fun_upd_idem [of "ctxs st" "next_ctx st", OF idle]
      by (simp add: open_finish_eq [OF c] st'_def out ctx_ok_def) (simp add: st1_def)
    moreover have "quiet st st'" by (simp add: quiet_def st'_def st1_def open_events_quiet)
    ultimately show ?thesis using run quiet_conforms [OF _ assms(1)] by simp
  qed
qed

section \<open>The receiver thread\<close>

lemma quiet_write_all: "quiet st (at_write_all_to_uart close_urc s st)"
  by (simp add: at_write_all_to_uart_def quiet_emit)

lemma quiet_fields [simp]:
  "quiet st (st\<lparr>g_remoteat_isenable := b\<rparr>)" "quiet st (st\<lparr>g_Remote_AT_Rsp := r\<rparr>)" "quiet st (st\<lparr>at_rcv_thread := b\<rparr>)"
  by (simp_all add: quiet_def)

lemma quiet_remote: "quiet st (snd (xy_Remote_AT_Req run_at s st))"
proof -
  have "quiet st ((sock_emit (Remote_At x) st)\<lparr>g_Remote_AT_Rsp := r\<rparr>)" for x r
    using quiet_emit [of "Remote_At x" st] by (rule quiet_trans) simp_all
  then show ?thesis by (simp add: xy_Remote_AT_Req_def Let_def split: prod.split)
qed

lemma rcv_report_no_verdict: "\<not> is_verdict (Rsp_Ext (rcv_report n data @ s))"
  by (simp add: rcv_report_def send_ok_text_def send_fail_text_def)

lemma rcv_data_quiet:
  assumes "slot_get i st = Some c"
  shows "\<exists>st'. rcv_data close_urc run_at i data inet st = Some st' \<and> quiet st st'"
proof -
  define st1 where "st1 = snd (xy_Remote_AT_Req run_at (map byte_char data) st)"
  have q: "quiet st st1" by (simp add: st1_def quiet_remote)
  have w: "quiet st (at_write_all_to_uart close_urc s st1)" for s by (rule quiet_trans [OF q quiet_write_all])
  have e: "quiet st (sock_emit (Rsp_Ext (rcv_report n data @ s)) st1)" for n s
    by (rule quiet_trans [OF q quiet_emit]) (simp_all add: rcv_report_no_verdict del: is_verdict.simps)
  have b: "bytes2hexstr data (int (2 * length data + 1)) = Some (2 * int (length data), concat (map hex_pair data) @ [NUL])"
    by (simp add: bytes2hexstr_def)
  obtain h where h: "xy_Remote_AT_Req run_at (map byte_char data) st = (h, st1)" by (cases "xy_Remote_AT_Req run_at (map byte_char data) st") (simp add: st1_def)
  show ?thesis using assms q w e b h by (simp add: rcv_data_def)
qed

lemma scan_slot_conforms:
  assumes "conforms st"
  shows "\<exists>st'. scan_slot close_urc i st = Some st' \<and> conforms st'"
proof (cases "slot_addr i st")
  case None
  then show ?thesis using assms by (simp add: scan_slot_def)
next
  case (Some a)
  obtain c where c: "ctxs st a = Some c" using table_okD [OF conformsD(1) [OF assms] Some] by blast
  obtain st1 where d: "del_socket_ctx_by_index i False st = Some (XY_OK, st1)" "conforms st1"
    using del_socket_conforms [OF assms Some] by blast
  obtain st2 where e: "del_socket_ctx_by_index i True st = Some (XY_OK, st2)" "conforms st2"
    using del_socket_conforms [OF assms Some] by blast
  show ?thesis using Some c d e assms quiet_conforms [OF quiet_write_all d(2)] by (simp add: scan_slot_def)
qed

lemma scan_slots_conforms: "conforms st \<Longrightarrow> \<exists>st'. scan_slots close_urc is st = Some st' \<and> conforms st'"
proof (induction "is" arbitrary: st)
  case Nil
  then show ?case by simp
next
  case (Cons i "is")
  from scan_slot_conforms [OF Cons.prems, of close_urc i] Cons.IH show ?case by fastforce
qed

lemma rcv_slot_conforms:
  assumes "conforms st"
  shows "\<exists>st'. rcv_slot close_urc run_at except readable answer i st = Some st' \<and> conforms st'"
proof (cases "slot_addr i st")
  case None
  then show ?thesis using assms by (simp add: rcv_slot_def)
next
  case (Some a)
  obtain c where c: "ctxs st a = Some c" "slot_get i st = Some c" using table_okD [OF conformsD(1) [OF assms] Some] by blast
  obtain st2 where e: "del_socket_ctx_by_index i True st = Some (XY_OK, st2)" "conforms st2"
    using del_socket_conforms [OF assms Some] by blast
  have data: "\<exists>st'. rcv_data close_urc run_at i data inet st = Some st' \<and> conforms st'" for data inet
    using rcv_data_quiet [OF c(2)] quiet_conforms [OF _ assms] by blast
  show ?thesis using Some c e assms data by (auto simp: rcv_slot_def split: recv_answer.split)
qed

lemma rcv_slots_conforms:
  "conforms st \<Longrightarrow> \<exists>st'. rcv_slots close_urc run_at except readable answer is st = Some st' \<and> conforms st'"
proof (induction "is" arbitrary: st)
  case Nil
  then show ?case by simp
next
  case (Cons i "is")
  from rcv_slot_conforms [OF Cons.prems, of close_urc run_at except readable answer i] Cons.IH show ?case by fastforce
qed

lemma thread_conforms:
  assumes "conforms st" and "ans \<noteq> Select_error True"
  shows "\<exists>st'. at_sock_recv_thread close_urc run_at ans st = Some st' \<and> conforms st'"
proof -
  obtain st1 where s: "scan_slots close_urc [0..<SOCK_NUM] st = Some st1" "conforms st1"
    using scan_slots_conforms [OF assms(1)] by blast
  have r: "\<exists>st'. rcv_slots close_urc run_at except readable answer [0..<SOCK_NUM] st1 = Some st' \<and> conforms st'" for except readable answer
    by (rule rcv_slots_conforms [OF s(2)])
  have q: "conforms (st1\<lparr>at_rcv_thread := False\<rparr>)" by (rule quiet_conforms [OF _ s(2)]) simp
  show ?thesis using s r q assms(2) by (cases ans) (auto simp: at_sock_recv_thread_def)
qed

section \<open>Runs\<close>

lemma close_request_conforms:
  assumes "conforms st"
  shows "\<exists>r st'. close_request n st = Some (r, st') \<and> conforms st'"
proof (cases "slot_get n st")
  case None
  then show ?thesis using assms conformsD(1) [OF assms] by (simp add: close_request_def find_by_id)
next
  case (Some c)
  note t = conformsD(1) [OF assms]
  have "quiet st (upd_at n (c\<lparr>sock_quit := True, sock_state := 3\<rparr>) st)"
    using Some by (rule quiet_upd_at) (simp add: same_books_def)
  then show ?thesis using Some t quiet_conforms [OF _ assms] by (simp add: close_request_def find_by_id slot_upd_eq)
qed

lemma netif_down_quiet: "quiet st (netif_down_close_socket st)"
  by (simp add: quiet_def netif_down_close_socket_def option.rel_map option.rel_refl same_books_def)

text \<open>
  What can happen: a host opens a socket, sends, asks to close; the network acknowledges, reports, goes down; the
  receiver thread makes a round.
\<close>

datatype sock_op =
  Op_Open nat nat nat nat string u16 u16 open_answer
| Op_Send nat u32 int string nat int
| Op_Ack int u32
| Op_Report u16 int
| Op_Close nat
| Op_Down
| Op_Round bool "string \<Rightarrow> int \<times> string" select_answer

definition send_socket :: "nat \<Rightarrow> u32 \<Rightarrow> int \<Rightarrow> string \<Rightarrow> nat \<Rightarrow> int \<Rightarrow> sockets \<Rightarrow> sockets option" where
  "send_socket n pre_sn ret data len rai st = do {
     found \<leftarrow> find_sock_ctx_id_by_sock_id n st;
     case found of
       None \<Rightarrow> Some st
     | Some i \<Rightarrow> do {
         a \<leftarrow> slot_addr i st;
         map_option snd (bc26_socket_send_data pre_sn ret data len rai a st)
       }
   }"

fun run_op :: "sock_op \<Rightarrow> sockets \<Rightarrow> sockets option" where
  "run_op (Op_Open w n nt mode host rport lport ans) st = open_socket_run w n nt mode host rport lport ans st"
| "run_op (Op_Send n pre_sn ret data len rai) st = send_socket n pre_sn ret data len rai st"
| "run_op (Op_Ack conn ack) st = tcp_ack conn ack st"
| "run_op (Op_Report w status) st = urc_UDPSN_Callback w status st"
| "run_op (Op_Close n) st = map_option snd (close_request n st)"
| "run_op Op_Down st = Some (netif_down_close_socket st)"
| "run_op (Op_Round close_urc run_at ans) st = at_sock_recv_thread close_urc run_at ans st"

text \<open>
  The host gives a socket the number of the slot it will get; a report of the stack says delivered or failed; \<^verbatim>\<open>select\<close>
  does not call a descriptor bad.
\<close>

fun op_allowed :: "sock_op \<Rightarrow> sockets \<Rightarrow> bool" where
  "op_allowed (Op_Open w n nt mode host rport lport ans) st = (get_free_sock_id st = Some n)"
| "op_allowed (Op_Report w status) st = (status \<noteq> SEND_STATUS_SENDING)"
| "op_allowed (Op_Round close_urc run_at ans) st = (case ans of Select_error True \<Rightarrow> False | _ \<Rightarrow> True)"
| "op_allowed _ st = True"

definition init_sockets :: sockets where
  "init_sockets = \<lparr>ctxs = (\<lambda>a. None), next_ctx = 0, sock_ctx = replicate SOCK_NUM None, sn_info = [], at_rcv_thread = False,
     g_data_send_mode = ASCII_STRING, g_data_recv_mode = ASCII_STRING, g_remoteat_isenable = False, g_Remote_AT_Rsp = None,
     transmission_flag = False, passthr_param = None, passthr_sock_q = None, open_tasks = [], sock_out = []\<rparr>"

inductive sock_reach :: "sockets \<Rightarrow> bool" where
  start: "sock_reach init_sockets"
| step: "sock_reach st \<Longrightarrow> op_allowed op st \<Longrightarrow> run_op op st = Some st' \<Longrightarrow> sock_reach st'"

lemma send_socket_conforms:
  assumes "conforms st"
  shows "\<exists>st'. send_socket n pre_sn ret data len rai st = Some st' \<and> conforms st'"
proof (cases "slot_get n st")
  case None
  then show ?thesis using assms conformsD(1) [OF assms] by (simp add: send_socket_def find_by_id)
next
  case (Some c)
  note t = conformsD(1) [OF assms]
  obtain a where a: "slot_addr n st = Some a" using Some t by (auto elim: slot_getE)
  from send_conforms [OF assms a, of pre_sn ret data len rai] show ?thesis
    using Some a t by (auto simp: send_socket_def find_by_id)
qed

lemma run_op_conforms:
  assumes "conforms st" and "op_allowed op st"
  shows "\<exists>st'. run_op op st = Some st' \<and> conforms st'"
proof (cases op)
  case (Op_Close n)
  then show ?thesis using close_request_conforms [OF assms(1), of n] by auto
next
  case (Op_Round close_urc run_at ans)
  moreover have "ans \<noteq> Select_error True" using assms(2) Op_Round by auto
  ultimately show ?thesis using thread_conforms [OF assms(1)] by simp
qed (use assms open_run_conforms send_socket_conforms tcp_ack_conforms udp_report_conforms
      quiet_conforms [OF netif_down_quiet] in simp_all)

lemma init_conforms: "conforms init_sockets"
  by (simp add: conforms_def table_ok_def books_ok_def balanced_def sending_def slot_get_def slot_addr_def init_sockets_def
      verdicts_def packets_accepted_def)

lemma reach_conforms: "sock_reach st \<Longrightarrow> conforms st"
proof (induction rule: sock_reach.induct)
  case start
  then show ?case by (rule init_conforms)
next
  case (step st op st')
  then show ?case using run_op_conforms [of st op] by auto
qed

end
