(* ===== verification/At_Socket_Props.thy ===== *)
theory At_Socket_Props
  imports At_Socket_Run
begin

text \<open>
  The properties of the sockets of the AT commands, and the situations in which the code loses track of a packet, of a
  socket or of the memory of a context.
\<close>

section \<open>Order\<close>


definition demo_open :: "nat \<Rightarrow> nat \<Rightarrow> sock_op" where
  "demo_open n nt = Op_Open 0 n nt 1 ''1.2.3.4'' 80 0
     \<lparr>oa_family = Some 2, oa_socket = Some (n + 1), oa_bind = True, oa_port = Some 50000, oa_connect = True\<rparr>"


text \<open>Two packets of ten bytes on one socket.\<close>

definition demo_two_packets :: "sockets option" where
  "demo_two_packets = do {
     st1 \<leftarrow> run_op (demo_open 0 0) init_sockets;
     st2 \<leftarrow> run_op (Op_Send 0 100 10 ''0123456789'' 10 0) st1;
     run_op (Op_Send 0 110 10 ''abcdefghij'' 10 0) st2
   }"

definition demo_node :: sock_sn_node where
  "demo_node = \<lparr>per_sn = 100, data_len = 10, node_id = 0, node_seq = 1, node_type = 0\<rparr>"

lemma demo_two_packets_nodes:
  "map_option sn_info demo_two_packets =
     Some [demo_node, \<lparr>per_sn = 110, data_len = 10, node_id = 0, node_seq = 2, node_type = 0\<rparr>]"
  by code_simp

lemma demo_two_packets_slot: "map_option (slot_addr 0) demo_two_packets = Some (Some 0)"
  by code_simp

lemma demo_two_packets_reach: "\<exists>st. demo_two_packets = Some st \<and> sock_reach st"
proof -
  have ok: "\<exists>st'. run_op op st = Some st' \<and> sock_reach st'" if "sock_reach st" "op_allowed op st" for op st
    using run_op_conforms [OF reach_conforms [OF that(1)] that(2)] sock_reach.step [OF that] by blast
  obtain st1 where 1: "run_op (demo_open 0 0) init_sockets = Some st1" "sock_reach st1"
    using ok [OF sock_reach.start, of "demo_open 0 0"]
    by (auto simp: demo_open_def get_free_sock_id_def init_sockets_def numeral_eq_Suc)
  obtain st2 where 2: "run_op (Op_Send 0 100 10 ''0123456789'' 10 0) st1 = Some st2" "sock_reach st2"
    using ok [OF 1(2), of "Op_Send 0 100 10 ''0123456789'' 10 0"] by auto
  obtain st3 where 3: "run_op (Op_Send 0 110 10 ''abcdefghij'' 10 0) st2 = Some st3" "sock_reach st3"
    using ok [OF 2(2), of "Op_Send 0 110 10 ''abcdefghij'' 10 0"] by auto
  show ?thesis using 1 2 3 by (simp add: demo_two_packets_def del: run_op.simps)
qed

lemma demo_two_packets_conforms: "\<exists>st. demo_two_packets = Some st \<and> conforms st"
  using demo_two_packets_reach reach_conforms by blast



section \<open>Acknowledgements of several packets\<close>

lemma settle_keeps:
  assumes "conforms st" and "x \<in> set (sn_info st)" and "sn_key x \<noteq> (i, q)"
  shows "x \<in> set (sn_info (settle i q c s st))"
proof -
  have "x \<in> set (remove1 y (sn_info st))" if "sn_key y = (i, q)" for y
    using assms(2,3) that by (metis in_set_remove1)
  then show ?thesis
    using assms(2) unfolding settle_def del_sninfo_node_def sn_key_def
    by (auto split: option.split simp: find_Some_iff)
qed

text \<open>The acknowledgements of a socket, in order.\<close>

fun tcp_acks :: "int \<Rightarrow> u32 list \<Rightarrow> sockets \<Rightarrow> sockets option" where
  "tcp_acks conn [] st = Some st"
| "tcp_acks conn (ack # acks) st = Option.bind (tcp_ack conn ack st) (tcp_acks conn acks)"

lemma tcp_ack_keeps:
  assumes "conforms st" and "x \<in> set (sn_info st)" and "per_sn x + data_len x \<noteq> ack" and "tcp_ack conn ack st = Some st'"
  shows "x \<in> set (sn_info st')"
  using tcp_ack_cases [OF assms(1), of conn ack]
proof (elim disjE exE conjE)
  assume "tcp_ack conn ack st = Some st"
  then show ?thesis using assms by simp
next
  fix i c y
  assume y: "find (acks_node i ack) (sn_info st) = Some y"
    "tcp_ack conn ack st = Some (settle i (node_seq y) (acked_ctx y c) send_ok_text st)"
  have inj: "inj_on sn_key (set (sn_info st))" using conformsD(2) [OF assms(1)] by (simp add: books_ok_def distinct_map)
  have y_in: "y \<in> set (sn_info st)" "node_id y = i" "ack - per_sn y = data_len y"
    using y(1) by (auto simp: find_Some_iff acks_node_def)
  have "x \<noteq> y" using y_in(3) assms(3) by (auto simp: algebra_simps)
  then have "sn_key x \<noteq> sn_key y" using inj assms(2) y_in(1) by (auto dest: inj_onD)
  then have "sn_key x \<noteq> (i, node_seq y)" using y_in(2) by (simp add: sn_key_def)
  then show ?thesis using settle_keeps [OF assms(1,2)] y(2) assms(4) by simp
qed

text \<open>
  C32: A TCP packet is settled only by an acknowledgement of exactly its end. When the peer acknowledges several
  packets at once, as TCP does, the earlier ones stay in the list, whatever is acknowledged later.
\<close>

theorem skipped_ack_never_settles:
  assumes "conforms st" and "x \<in> set (sn_info st)" and "per_sn x + data_len x \<notin> set acks"
  shows "\<exists>st'. tcp_acks conn acks st = Some st' \<and> x \<in> set (sn_info st')"
  using assms
proof (induction acks arbitrary: st)
  case Nil
  then show ?case by simp
next
  case (Cons ack acks)
  obtain st1 where st1: "tcp_ack conn ack st = Some st1" "conforms st1" using tcp_ack_conforms [OF Cons.prems(1)] by blast
  have "x \<in> set (sn_info st1)" using tcp_ack_keeps [OF Cons.prems(1,2) _ st1(1)] Cons.prems(3) by simp
  then show ?case using Cons.IH [OF st1(2)] Cons.prems(3) st1(1) by simp
qed

theorem skipped_ack_never_settles_witness:
  "\<exists>st st'. demo_two_packets = Some st \<and> tcp_acks 1 [120] st = Some st' \<and> demo_node \<in> set (sn_info st')"
proof -
  obtain st where st: "demo_two_packets = Some st" "conforms st" using demo_two_packets_conforms by blast
  have "demo_node \<in> set (sn_info st)" using demo_two_packets_nodes unfolding st(1) by simp
  from skipped_ack_never_settles [OF st(2) this, of "[120]" 1] show ?thesis
    using st(1) by (auto simp: demo_node_def)
qed

section \<open>Sockets whose number is not that of their slot\<close>

lemma del_nodes_empty_slot:
  assumes "slot_addr n st = None" and "x \<in> set xs" and "node_id x = n"
  shows "del_nodes n xs st = None"
  using assms
proof (induction xs)
  case (Cons y ys)
  show ?case
  proof (cases "node_id y = n")
    case True
    then show ?thesis using Cons.prems(1) by (simp add: slot_upd_def Option.bind_eq_None_conv)
  next
    case False
    then show ?thesis using Cons by auto
  qed
qed simp

text \<open>
  C33: Closing a socket whose number is that of an empty slot, with a packet under way, goes through the NULL pointer
  of that slot: the failed packets are marked in the context of the slot with the number of the socket.
\<close>

theorem close_misnumbered_faults:
  assumes "slot_addr i st = Some a" and "ctxs st a = Some c" and "slot_addr (sock_id c) st = None"
    and "x \<in> set (sn_info st)" and "node_id x = sock_id c"
  shows "del_socket_ctx_by_index i report st = None"
  using assms(1,2) del_nodes_empty_slot [OF _ assms(4,5), of "sock_emit (Sock_Close (sock_fd c)) st"] assms(3)
  by (simp add: del_socket_ctx_by_index_def del_allsnnode_by_socketid_def)

text \<open>The first socket of a host has the number 3, and a packet under way.\<close>

definition demo_misnumbered :: "sockets option" where
  "demo_misnumbered = do {
     st1 \<leftarrow> run_op (demo_open 3 1) init_sockets;
     run_op (Op_Send 3 0 3 ''abc'' 3 0) st1
   }"

lemma demo_misnumbered_state:
  "map_option (\<lambda>st. (map (slot_addr 0) [st], map (slot_addr 3) [st], map_option sock_id (ctxs st 0), map node_id (sn_info st))) demo_misnumbered =
     Some ([Some 0], [None], Some 3, [3])"
  by code_simp

theorem close_misnumbered_faults_witness:
  "\<exists>st. demo_misnumbered = Some st \<and> del_socket_ctx_by_index 0 False st = None"
proof -
  obtain st where st: "demo_misnumbered = Some st" using demo_misnumbered_state by auto
  then have a: "slot_addr 0 st = Some 0" "slot_addr 3 st = None" "map_option sock_id (ctxs st 0) = Some 3" "map node_id (sn_info st) = [3]"
    using demo_misnumbered_state unfolding st by simp_all
  obtain c where c: "ctxs st 0 = Some c" "sock_id c = 3" using a(3) by auto
  obtain x where x: "x \<in> set (sn_info st)" "node_id x = 3" using a(4) by (cases "sn_info st") auto
  show ?thesis using st close_misnumbered_faults [OF a(1) c(1), of x False] a(2) c(2) x by auto
qed

section \<open>Two openings at a time\<close>

text \<open>Both tasks choose their slot before the first has its connection.\<close>

definition open_race :: "open_answer \<Rightarrow> open_answer \<Rightarrow> sock_addr \<Rightarrow> sock_addr \<Rightarrow> sockets \<Rightarrow> sockets option" where
  "open_race ans1 ans2 a b st = do {
     n \<leftarrow> get_free_sock_id st;
     st1 \<leftarrow> open_start a st;
     st2 \<leftarrow> open_start b st1;
     st3 \<leftarrow> open_finish ans1 a n st2;
     open_finish ans2 b n st3
   }"

text \<open>
  C34: Two openings at a time choose the same slot, and the socket that is connected first is lost: its context is in
  no slot, so it can be neither used nor closed, although the host was told that it is open.
\<close>

theorem concurrent_opens_lose_socket:
  assumes "get_free_sock_id st = Some n" and "open_ok ans1" and "open_ok ans2"
    and "ctxs st a = Some c" and "ctxs st b = Some d" and "a \<noteq> b" and "Some a \<notin> set (sock_ctx st)"
    and "open_race ans1 ans2 a b st = Some st'"
  shows "slot_addr n st' = Some b \<and> ctxs st' a \<noteq> None \<and> Some a \<notin> set (sock_ctx st')"
proof -
  have n: "n < length (sock_ctx st)" using free_slot_Some assms(1) by (auto simp: get_free_sock_id_def)
  define st2 where "st2 = st\<lparr>open_tasks := remove1 (b, None) (remove1 (a, None) (open_tasks st) @ [(a, Some n)]) @ [(b, Some n)]\<rparr>"
  have start: "Option.bind (open_start a st) (open_start b) = Some st2"
    using assms(1) by (simp add: open_start_def get_free_sock_id_def st2_def Let_def)
  have c2: "ctxs st2 a = Some c" and d2: "ctxs st2 b = Some d" using assms(4,5) by (simp_all add: st2_def)
  define st3 where "st3 = the (open_finish ans1 a n st2)"
  have st3: "open_finish ans1 a n st2 = Some st3" "ctxs st3 = (ctxs st2)(a \<mapsto> opened_ctx ans1 c)"
    "sock_ctx st3 = (sock_ctx st)[n := Some a]"
    using assms(2) by (simp_all add: st3_def open_finish_eq [OF c2] Let_def) (simp add: st2_def)
  have d3: "ctxs st3 b = Some d" using st3(2) d2 assms(6) by simp
  obtain st1 where "open_start a st = Some st1" "open_start b st1 = Some st2" using start by (auto simp: bind_eq_Some_conv)
  then have race: "open_finish ans2 b n st3 = Some st'" using assms(1,8) st3(1) by (simp add: open_race_def)
  then have "st' = the (open_finish ans2 b n st3)" by simp
  then have st': "ctxs st' = (ctxs st3)(b \<mapsto> opened_ctx ans2 d)" "sock_ctx st' = (sock_ctx st)[n := Some b]"
    using assms(3) st3(3) by (simp_all add: open_finish_eq [OF d3] Let_def)
  have "Some a \<notin> set ((sock_ctx st)[n := Some b])" using set_update_subset_insert [of "sock_ctx st" n "Some b"] assms(6,7) by auto
  then show ?thesis using st' st3(2) assms(6) n by (simp add: slot_addr_def)
qed

definition demo_answer :: "nat \<Rightarrow> open_answer" where
  "demo_answer f = \<lparr>oa_family = Some 2, oa_socket = Some f, oa_bind = True, oa_port = Some 50000, oa_connect = True\<rparr>"

definition demo_two_opens :: sockets where
  "demo_two_opens = open_socket 0 1 0 1 ''1.2.3.4'' 80 0 (open_socket 0 0 0 1 ''1.2.3.4'' 80 0 init_sockets)"

lemma demo_two_opens_state:
  "get_free_sock_id demo_two_opens = Some 0" "sock_ctx demo_two_opens = replicate 5 None"
  "map_option sock_id (ctxs demo_two_opens 0) = Some 0" "map_option sock_id (ctxs demo_two_opens 1) = Some 1"
  "map_option (slot_addr 0) (open_race (demo_answer 1) (demo_answer 2) 0 1 demo_two_opens) = Some (Some 1)"
  by code_simp+

theorem concurrent_opens_lose_socket_witness:
  "\<exists>st'. open_race (demo_answer 1) (demo_answer 2) 0 1 demo_two_opens = Some st' \<and>
     slot_addr 0 st' = Some 1 \<and> ctxs st' 0 \<noteq> None \<and> Some 0 \<notin> set (sock_ctx st')"
proof -
  obtain st' where st': "open_race (demo_answer 1) (demo_answer 2) 0 1 demo_two_opens = Some st'"
    using demo_two_opens_state(5) by auto
  obtain c d where "ctxs demo_two_opens 0 = Some c" "ctxs demo_two_opens 1 = Some d"
    using demo_two_opens_state(3,4) by auto
  from concurrent_opens_lose_socket [OF demo_two_opens_state(1) _ _ this _ _ st'] show ?thesis
    using st' demo_two_opens_state(2) by (simp add: open_ok_def demo_answer_def)
qed

section \<open>Contexts that are still pointed at\<close>

text \<open>
  The transparent mode of a socket keeps the address of its context; when the receiver thread closes the socket, the next
  data of the mode are handed to a context that is no more.
\<close>

text \<open>
  C35: The transparent mode of a socket outlives the socket: after the receiver thread has closed it, the argument of
  the mode points at the freed context, and the next data of the host use it.
\<close>

theorem passthr_uses_freed_context:
  assumes "conforms st" and "slot_addr i st = Some a"
    and "del_socket_ctx_by_index i report (enter_socket_passthr rlen mlen a st) = Some (r, st')"
  shows "passthr_param st' = Some a \<and> passthr_socket_data_proc data len a st' = None"
proof -
  let ?st = "enter_socket_passthr rlen mlen a st"
  have q: "quiet st ?st"
    by (auto simp: quiet_def enter_socket_passthr_def passthrough_socket_init_def sock_emit_def verdicts_def
        packets_accepted_def split: option.split)
  have ok: "conforms ?st" by (rule quiet_conforms [OF q assms(1)])
  have a: "slot_addr i ?st = Some a" using quiet_slots(1) [OF q] assms(2) by simp
  obtain c where c: "slot_get i ?st = Some c" using table_okD [OF conformsD(1) [OF ok] a] by blast
  have st': "st' = removed i a c report ?st" using del_socket_eq [OF ok a c] assms(3) by simp
  have "ctxs st' a = None" and "passthr_param st' = Some a"
    by (simp_all add: st' removed_def enter_socket_passthr_def sock_emit_def)
  then show ?thesis by (cases "passthr_sock_q st'") (simp_all add: passthr_socket_data_proc_def)
qed

theorem passthr_uses_freed_context_witness:
  "\<exists>st st'. demo_two_packets = Some st \<and> del_socket_ctx_by_index 0 True (enter_socket_passthr 0 1024 0 st) = Some (XY_OK, st') \<and>
     passthr_param st' = Some 0 \<and> passthr_socket_data_proc ''x'' 1 0 st' = None"
proof -
  obtain st where st: "demo_two_packets = Some st" "conforms st" using demo_two_packets_conforms by blast
  have a: "slot_addr 0 st = Some 0" using demo_two_packets_slot unfolding st(1) by simp
  have "map_option fst (Option.bind demo_two_packets (\<lambda>st. del_socket_ctx_by_index 0 True (enter_socket_passthr 0 1024 0 st))) = Some XY_OK"
    by code_simp
  then obtain st' where st': "del_socket_ctx_by_index 0 True (enter_socket_passthr 0 1024 0 st) = Some (XY_OK, st')"
    unfolding st(1) by auto
  from passthr_uses_freed_context [OF st(2) a st', of "''x''" 1] show ?thesis using st(1) st' by blast
qed

section \<open>Data in hexadecimal\<close>

lemma hex_tab_not_NUL: "k < 16 \<Longrightarrow> hex_tab ! k \<noteq> NUL"
proof -
  have "list_all (\<lambda>k. hex_tab ! k \<noteq> NUL) [0..<16]" by code_simp
  then show "k < 16 \<Longrightarrow> ?thesis" by (simp add: list_all_iff)
qed

lemma hex_pair_not_NUL: "NUL \<notin> set (hex_pair b)"
proof -
  have "unat (drop_bit 4 b) < 16" "unat (b AND 0x0F) < 16" by (rule unat_nibbles)+
  then show ?thesis using hex_tab_not_NUL unfolding hex_pair_def by fastforce
qed

lemma c_str_hex: "c_str (concat (map hex_pair bs)) = concat (map hex_pair bs)"
  using hex_pair_not_NUL by (auto simp: c_str_def takeWhile_eq_all_conv)

lemma send_bytes_hex:
  assumes "bs \<noteq> []"
  shows "send_bytes HEX_ASCII_STRING (concat (map hex_pair bs)) (length bs) = Some (Some bs)"
proof -
  have "bytes2hexstr bs (int (2 * length bs + 1)) = Some (2 * int (length bs), concat (map hex_pair bs) @ [NUL])"
    by (simp add: bytes2hexstr_def)
  with hexstr_roundtrip [of bs "2 * length bs + 1"]
  have "hexstr2bytes (concat (map hex_pair bs) @ [NUL]) 0 (2 * int (length bs)) (int (length bs)) = Some (int (length bs), bs)"
    by auto
  then show ?thesis using assms by (simp add: send_bytes_def c_str_hex mult.commute)
qed


section \<open>The counts of a socket\<close>

text \<open>
  The query of the counts of a TCP socket is answered with its OK exactly as long as the three numbers have at
  most ten digits in all.
\<close>

lemma qisend_counts_answered:
  assumes "qs_len q = 0" and "at_strnchr (cstr (qs_line q) at_buf) COMMA 2 = None"
    and "ctxs st a = Some c" and "net_type c = 0"
  shows "\<exists>s. qisend_run pre_sn ret at_buf q a st = Some (Rsp s, st) \<and>
    (drop (length s - 8) s = ok_tail \<longleftrightarrow>
       length (show_dec (sint (sended_size c))) + length (show_dec (sint (acked c))) +
         length (show_dec (sint (sended_size c - acked c))) \<le> 10)"
proof -
  let ?x = "show_dec (sint (sended_size c))" and ?y = "show_dec (sint (acked c))" and ?z = "show_dec (sint (sended_size c - acked c))"
  define hdr where "hdr = [CR, LF] @ ''+QISEND: ''"
  define nums where "nums = ?x @ '','' @ ?y @ '','' @ ?z"
  define p where "p = hdr @ nums"
  have hdr: "length hdr = 11" by (simp add: hdr_def)
  have tail: "length ok_tail = 8" "ok_tail ! 0 = CR" by (simp_all add: ok_tail_def)
  have len: "length p = 13 + length ?x + length ?y + length ?z" by (simp add: p_def nums_def hdr)
  have run: "qisend_run pre_sn ret at_buf q a st = Some (Rsp (take 31 (p @ ok_tail)), st)"
    using assms by (simp add: qisend_run_def snprint_def p_def nums_def hdr_def)
  have "drop (length (take 31 (p @ ok_tail)) - 8) (take 31 (p @ ok_tail)) = ok_tail \<longleftrightarrow> length p \<le> 23"
  proof (cases "length p \<le> 23")
    case True
    then show ?thesis using tail(1) by simp
  next
    case False
    define s where "s = take 31 (p @ ok_tail)"
    have "s ! 23 = p ! 23" using False by (simp add: s_def nth_append)
    moreover have "p ! 23 = nums ! 12" by (simp add: p_def nth_append hdr)
    moreover have "nums ! 12 \<in> set nums" using False hdr by (simp add: p_def)
    moreover have "CR \<notin> set nums" by (simp add: nums_def show_dec_clean)
    ultimately have "s ! 23 \<noteq> CR" by metis
    moreover have "length s = 31" using False tail(1) by (simp add: s_def)
    ultimately have "drop (length s - 8) s ! 0 \<noteq> ok_tail ! 0" using tail(2) by simp
    then show ?thesis using False unfolding s_def by metis
  qed
  then show ?thesis using run len by auto
qed

definition demo_hex :: "sockets option" where
  "demo_hex = map_option (\<lambda>st. st\<lparr>g_data_send_mode := HEX_ASCII_STRING, g_data_recv_mode := HEX_ASCII_STRING\<rparr>)
     (run_op (demo_open 0 1) init_sockets)"

lemma demo_hex_state: "\<exists>st c. demo_hex = Some st \<and> conforms st \<and> slot_addr 0 st = Some 0 \<and> slot_get 0 st = Some c \<and>
  g_data_send_mode st = 1 \<and> g_data_recv_mode st = 1 \<and> free_sequence (sequence_state c) = Some 1 \<and> recv_ctl c = 1 \<and> accessmode c = 1"
proof -
  obtain st0 where 1: "run_op (demo_open 0 1) init_sockets = Some st0" "conforms st0"
    using run_op_conforms [OF init_conforms, of "demo_open 0 1"]
    by (auto simp: demo_open_def get_free_sock_id_def init_sockets_def numeral_eq_Suc)
  define st where "st = st0\<lparr>g_data_send_mode := 1, g_data_recv_mode := 1\<rparr>"
  have st: "demo_hex = Some st" using 1(1) by (simp add: demo_hex_def st_def del: run_op.simps)
  have "quiet st0 st" by (simp add: quiet_def st_def)
  then have "conforms st" using 1(2) by (rule quiet_conforms)
  moreover have "map_option (\<lambda>st. (slot_addr 0 st, map_option (\<lambda>c. (free_sequence (sequence_state c), recv_ctl c, accessmode c)) (slot_get 0 st))) demo_hex =
      Some (Some 0, Some (Some 1, 1, 1))" by code_simp
  ultimately have "\<exists>c. conforms st \<and> slot_addr 0 st = Some 0 \<and> slot_get 0 st = Some c \<and> free_sequence (sequence_state c) = Some 1 \<and>
      recv_ctl c = 1 \<and> accessmode c = 1" unfolding st by (auto simp del: One_nat_def)
  moreover have "g_data_send_mode st = 1" "g_data_recv_mode st = 1" by (simp_all add: st_def)
  ultimately show ?thesis using st by blast
qed


end
