(* ===== verification/Shm_Msg.thy ===== *)
theory Shm_Msg
  imports Ipc_Msg
begin

text \<open>
  Messages between the cores (\<^verbatim>\<open>SYSAPP/shm_msg\<close>, and the address translation and \<^verbatim>\<open>xy_MemFree\<close> of \<^verbatim>\<open>xy_mem.c\<close>):
  writing to a channel with retries, messages that carry only the address of their data, requests that wait for
  an answer, and the task that serves the channel. Memory is that of the rings, addresses are words; the answers of the allocator
  are arguments. \<open>None\<close> is a failed assertion. What leaves the component is a list of events.
\<close>

section \<open>Addresses\<close>

abbreviation FLASH_BASE :: u32 where "FLASH_BASE \<equiv> 0x27000000"
abbreviation FLASH_LENGTH :: u32 where "FLASH_LENGTH \<equiv> 0x200000"
abbreviation FLASH_M3_DSP_OFFSET :: u32 where "FLASH_M3_DSP_OFFSET \<equiv> 0x2A000000"
abbreviation SRAM_BASE :: u32 where "SRAM_BASE \<equiv> 0x20000000"
abbreviation SRAM_LENGTH :: u32 where "SRAM_LENGTH \<equiv> 0x60000"
abbreviation SRAM_M3_DSP_OFFSET :: u32 where "SRAM_M3_DSP_OFFSET \<equiv> 0x30000000"
abbreviation BACKUP_MEM_BASE :: u32 where "BACKUP_MEM_BASE \<equiv> 0x24000000"
abbreviation BACKUP_MEM_SIZE :: u32 where "BACKUP_MEM_SIZE \<equiv> 4076"
abbreviation BACKUP_MEM_OFFSET :: u32 where "BACKUP_MEM_OFFSET \<equiv> 0x2C100000"
abbreviation AES_START :: u32 where "AES_START \<equiv> 0x26000000"
abbreviation AES_LENGTH :: u32 where "AES_LENGTH \<equiv> 0x20000"
abbreviation AES_OFFSET :: u32 where "AES_OFFSET \<equiv> 0x5A020000"
abbreviation DSP_HEAP_DRAM_START :: u32 where "DSP_HEAP_DRAM_START \<equiv> 0x3FFC0000"
abbreviation DSP_HEAP_DRAM_LEN :: u32 where "DSP_HEAP_DRAM_LEN \<equiv> 0x13800"
abbreviation ARM_RAM_HEAP2_BASE :: u32 where "ARM_RAM_HEAP2_BASE \<equiv> 0x2000C000"
abbreviation ARM_RAM_HEAP2_LEN :: u32 where "ARM_RAM_HEAP2_LEN \<equiv> 0xDF00"

definition get_Dsp_Addr_from_ARM :: "u32 \<Rightarrow> u32" where
  "get_Dsp_Addr_from_ARM addr =
     (if FLASH_BASE \<le> addr \<and> addr < FLASH_BASE + FLASH_LENGTH then addr + FLASH_M3_DSP_OFFSET
      else if SRAM_BASE \<le> addr \<and> addr < SRAM_BASE + SRAM_LENGTH then addr + SRAM_M3_DSP_OFFSET
      else if BACKUP_MEM_BASE \<le> addr \<and> addr < BACKUP_MEM_BASE + BACKUP_MEM_SIZE then addr + BACKUP_MEM_OFFSET
      else if AES_START \<le> addr \<and> addr < AES_START + AES_LENGTH then addr + AES_OFFSET
      else addr)"

definition get_ARM_Addr_from_Dsp :: "u32 \<Rightarrow> u32" where
  "get_ARM_Addr_from_Dsp addr =
     (if FLASH_BASE + FLASH_M3_DSP_OFFSET \<le> addr \<and> addr < FLASH_BASE + FLASH_M3_DSP_OFFSET + FLASH_LENGTH
      then addr - FLASH_M3_DSP_OFFSET
      else if SRAM_BASE + SRAM_M3_DSP_OFFSET \<le> addr \<and> addr < SRAM_BASE + SRAM_M3_DSP_OFFSET + SRAM_LENGTH
      then addr - SRAM_M3_DSP_OFFSET
      else if BACKUP_MEM_BASE + BACKUP_MEM_OFFSET \<le> addr \<and> addr < BACKUP_MEM_BASE + BACKUP_MEM_OFFSET + BACKUP_MEM_SIZE
      then addr - BACKUP_MEM_OFFSET
      else if AES_START + AES_OFFSET \<le> addr \<and> addr < AES_START + AES_OFFSET + AES_LENGTH then addr - AES_OFFSET
      else addr)"

definition is_SRAM_addr :: "u32 \<Rightarrow> bool" where
  "is_SRAM_addr addr \<longleftrightarrow> SRAM_BASE \<le> addr \<and> addr \<le> SRAM_BASE + SRAM_LENGTH"

section \<open>State\<close>

text \<open>The kinds of messages, numbered as in \<^verbatim>\<open>ICM_flag\<close>.\<close>

abbreviation ICM_LPM :: u32 where "ICM_LPM \<equiv> 1"
abbreviation ICM_AT :: u32 where "ICM_AT \<equiv> 2"
abbreviation ICM_FREE :: u32 where "ICM_FREE \<equiv> 3"
abbreviation ICM_SHMMEM_ALLOC :: u32 where "ICM_SHMMEM_ALLOC \<equiv> 5"
abbreviation ICM_SHMMEM_GIVE :: u32 where "ICM_SHMMEM_GIVE \<equiv> 6"
abbreviation ICM_IPDATA :: u32 where "ICM_IPDATA \<equiv> 7"
abbreviation ICM_SOCKPROXY :: u32 where "ICM_SOCKPROXY \<equiv> 8"
abbreviation ICM_SMARTCARDPROXY :: u32 where "ICM_SMARTCARDPROXY \<equiv> 9"
abbreviation ICM_WIRESHARKDATA :: u32 where "ICM_WIRESHARKDATA \<equiv> 10"
abbreviation ICM_FLASHWRT_NOTICE :: u32 where "ICM_FLASHWRT_NOTICE \<equiv> 13"
abbreviation ICM_XINYI_SHM_MSG :: u32 where "ICM_XINYI_SHM_MSG \<equiv> 14"
abbreviation ICM_PS_SHM_MSG :: u32 where "ICM_PS_SHM_MSG \<equiv> 15"
abbreviation ICM_AP_LOG_PRINT :: u32 where "ICM_AP_LOG_PRINT \<equiv> 16"

abbreviation SHM_MSG_INVALID :: int where "SHM_MSG_INVALID \<equiv> -1"

text \<open>What a message is handed to; a callback and the handlers get the bytes at the address they are given.\<close>

datatype shm_event =
  Os_Free u32 | Callback int "u8 list" | Lpm_Msg "u8 list" | At_From_Dsp "u8 list" | Shmmem_Give u32
| Ip_Packet "u8 list" "u8 list" | Sock_Proxy "u8 list" | Smartcard_Proxy "u8 list" | Flashwrt_Notice | Atc_Ap "u8 list"

text \<open>
  The heap of the linker and the pool the DSP gives to the M3 core. \<open>waiting\<close> is the caller of \<^verbatim>\<open>send_shm_msg_sync\<close> that
  holds the mutex and waits for the semaphore.
\<close>

record mem_layout =
  heap_begin :: u32
  heap_size :: u32
  ext_pool :: u32
  ext_pool_len :: u32

record shm_state =
  ipc :: ipc_state
  dsp_loaded :: bool
  dropped_num :: u32
  g_flow_control_below_size :: u32
  proxy_frees :: "u8 list list"
  g_shmmsg_mux :: bool
  g_shmmsg_sem :: nat
  g_shmmsg_buf :: u32
  g_shmmsg_buf_len :: nat
  g_sync_shm_msg_id :: int
  g_shmmsg_proc_base :: "(int \<times> (u8 list \<Rightarrow> int)) list"
  shm_out :: "shm_event list"

definition shm_emit :: "shm_event \<Rightarrow> shm_state \<Rightarrow> shm_state" where
  "shm_emit e st = st\<lparr>shm_out := shm_out st @ [e]\<rparr>"

definition le32 :: "u32 \<Rightarrow> u8 list" where
  "le32 w = [ucast w, ucast (drop_bit 8 w), ucast (drop_bit 16 w), ucast (drop_bit 24 w)]"

definition of_le32 :: "u8 list \<Rightarrow> u32" where
  "of_le32 bs = (case bs of
     a # b # c # d # _ \<Rightarrow> ucast a OR push_bit 8 (ucast b) OR push_bit 16 (ucast c) OR push_bit 24 (ucast d)
   | _ \<Rightarrow> 0)"

definition load :: "u32 \<Rightarrow> nat \<Rightarrow> shm_state \<Rightarrow> u8 list" where
  "load a n st = map (\<lambda>i. ipc_ram (ipc st) (unat a + i)) [0..<n]"

definition store :: "u32 \<Rightarrow> u8 list \<Rightarrow> shm_state \<Rightarrow> shm_state" where
  "store a bs st = st\<lparr>ipc := (ipc st)\<lparr>ipc_ram := (\<lambda>x. if unat a \<le> x \<and> x < unat a + length bs then bs ! (x - unat a) else ipc_ram (ipc st) x)\<rparr>\<rparr>"

section \<open>Writing to a channel\<close>

definition is_dropped_service :: "T_IpcMsg_Msg \<Rightarrow> bool" where
  "is_dropped_service m \<longleftrightarrow> msg_flag m = ICM_IPDATA \<or> msg_flag m = ICM_WIRESHARKDATA \<or> msg_flag m = ICM_AP_LOG_PRINT"

definition is_log_service :: "T_IpcMsg_Msg \<Rightarrow> bool" where
  "is_log_service m \<longleftrightarrow> msg_flag m = ICM_AP_LOG_PRINT"

definition flow_control_service :: "T_IpcMsg_Msg \<Rightarrow> shm_state \<Rightarrow> bool" where
  "flow_control_service m st \<longleftrightarrow>
     (msg_flag m = ICM_IPDATA \<or> msg_flag m = ICM_WIRESHARKDATA) \<and>
     icpmsg_ringbuf_write_remain_size (chID m) (ipc st) \<le> g_flow_control_below_size st"

text \<open>
  The loop of attempts. \<open>env n\<close> is what the other core does before attempt \<open>n\<close>; \<open>icm\<close> says that the caller is the task
  of the channel, which hands a release over to the proxy task instead of waiting.
\<close>

function write_loop :: "(nat \<Rightarrow> ipc_state \<Rightarrow> ipc_state) \<Rightarrow> bool \<Rightarrow> T_IpcMsg_Msg \<Rightarrow> nat \<Rightarrow> shm_state \<Rightarrow> (xy_ret \<times> shm_state) option" where
  "write_loop env icm m send_num st =
     (case IpcMsg_Write m (env send_num (ipc st)) of
        None \<Rightarrow> None
      | Some (r, s) \<Rightarrow>
          let st1 = st\<lparr>ipc := s\<rparr> in
          if 0 \<le> sint r then Some (XY_OK, st1)
          else if is_dropped_service m then Some (XY_ERR, st1\<lparr>dropped_num := dropped_num st1 + 1\<rparr>)
          else if icm \<and> msg_flag m = ICM_FREE
          then Some (XY_OK, st1\<lparr>proxy_frees := proxy_frees st1 @ [map (buf m) [0..<4]]\<rparr>)
          else
            let n = (if is_log_service m then send_num else send_num + 1) in
            if n > 200 then None else write_loop env icm m n st1)"
  by pat_completeness auto
termination
  by (relation "measure (\<lambda>(env, icm, m, n, st). 201 - n)") (auto simp: is_log_service_def is_dropped_service_def)

declare write_loop.simps [simp del]

definition mk_msg :: "u8 list \<Rightarrow> u32 \<Rightarrow> nat \<Rightarrow> T_IpcMsg_Msg" where
  "mk_msg bs msg_type ch = \<lparr>chID = ch, msg_flag = msg_type, buf = (\<lambda>i. if i < length bs then bs ! i else 0), msg_len = of_nat (length bs)\<rparr>"

definition shmmsg_write_channel :: "(nat \<Rightarrow> ipc_state \<Rightarrow> ipc_state) \<Rightarrow> bool \<Rightarrow> u8 list \<Rightarrow> u32 \<Rightarrow> nat \<Rightarrow> shm_state \<Rightarrow> (xy_ret \<times> shm_state) option" where
  "shmmsg_write_channel env icm bs msg_type ch st = do {
     xy_assert (bs \<noteq> [] \<and> ch < IpcMsg_Channel_MAX);
     if \<not> dsp_loaded st then Some (XY_ERR, st)
     else if flow_control_service (mk_msg bs msg_type ch) st then Some (XY_ERR, st\<lparr>dropped_num := dropped_num st + 1\<rparr>)
     else write_loop env icm (mk_msg bs msg_type ch) 0 st
   }"

definition shm_msg_write :: "(nat \<Rightarrow> ipc_state \<Rightarrow> ipc_state) \<Rightarrow> bool \<Rightarrow> u8 list \<Rightarrow> u32 \<Rightarrow> shm_state \<Rightarrow> (xy_ret \<times> shm_state) option" where
  "shm_msg_write env icm bs msg_type st = shmmsg_write_channel env icm bs msg_type IpcMsg_Normal st"

section \<open>Messages that carry an address\<close>

definition in_closed :: "u32 \<Rightarrow> u32 \<Rightarrow> u32 \<Rightarrow> bool" where
  "in_closed a b n \<longleftrightarrow> b \<le> a \<and> a \<le> b + n"

definition xy_MemFree :: "mem_layout \<Rightarrow> (nat \<Rightarrow> ipc_state \<Rightarrow> ipc_state) \<Rightarrow> bool \<Rightarrow> u32 \<Rightarrow> shm_state \<Rightarrow> shm_state option" where
  "xy_MemFree ml env icm mem st =
     (if in_closed mem DSP_HEAP_DRAM_START DSP_HEAP_DRAM_LEN \<or>
         in_closed mem (get_ARM_Addr_from_Dsp (ext_pool ml)) (ext_pool_len ml)
      then map_option snd (shm_msg_write env icm (le32 (get_Dsp_Addr_from_ARM mem)) ICM_FREE st)
      else if in_closed mem (heap_begin ml) (heap_size ml) \<or> in_closed mem ARM_RAM_HEAP2_BASE ARM_RAM_HEAP2_LEN
      then Some (shm_emit (Os_Free mem) st)
      else None)"

text \<open>Data in the heap of the DSP is copied, with a NUL, and released there; other data is used where it is.\<close>

definition zero_cp_transfer :: "mem_layout \<Rightarrow> (nat \<Rightarrow> ipc_state \<Rightarrow> ipc_state) \<Rightarrow> u32 \<Rightarrow> u32 \<Rightarrow> nat \<Rightarrow> shm_state \<Rightarrow> (u32 \<times> shm_state) option" where
  "zero_cp_transfer ml env fresh p len st =
     (if in_closed p DSP_HEAP_DRAM_START DSP_HEAP_DRAM_LEN
      then map_option (Pair fresh) (xy_MemFree ml env True p (store fresh (load p len st @ [0]) st))
      else Some (get_ARM_Addr_from_Dsp p, st))"

definition shm_zero_copy :: "(nat \<Rightarrow> ipc_state \<Rightarrow> ipc_state) \<Rightarrow> u32 \<Rightarrow> nat \<Rightarrow> u32 \<Rightarrow> shm_state \<Rightarrow> (xy_ret \<times> shm_state) option" where
  "shm_zero_copy env p len msg_type st = do {
     xy_assert (p \<noteq> 0 \<and> SRAM_BASE \<le> p \<and> p \<le> SRAM_BASE + 0x60000);
     shm_msg_write env False (le32 (of_nat len) @ le32 (get_Dsp_Addr_from_ARM p)) msg_type st
   }"

definition send_ps_shm_msg :: "(nat \<Rightarrow> ipc_state \<Rightarrow> ipc_state) \<Rightarrow> u32 \<Rightarrow> u8 list \<Rightarrow> shm_state \<Rightarrow> (xy_ret \<times> shm_state) option" where
  "send_ps_shm_msg env fresh bs st = shm_zero_copy env fresh (length bs) ICM_PS_SHM_MSG (store fresh bs st)"

definition shmmem_malloc_msg_process :: "(nat \<Rightarrow> ipc_state \<Rightarrow> ipc_state) \<Rightarrow> u32 \<Rightarrow> shm_state \<Rightarrow> shm_state option" where
  "shmmem_malloc_msg_process env fresh st =
     map_option snd (shm_msg_write env True (le32 (get_Dsp_Addr_from_ARM fresh)) ICM_SHMMEM_GIVE st)"

section \<open>Requests\<close>

text \<open>A message is its number, a length and the address of its data, 0 when there is none.\<close>

definition shm_msg_bytes :: "int \<Rightarrow> nat \<Rightarrow> u32 \<Rightarrow> u8 list" where
  "shm_msg_bytes msg_id len p = le32 (word_of_int msg_id) @ le32 (of_nat len) @ le32 p"

definition put_param :: "u32 \<Rightarrow> u8 list option \<Rightarrow> shm_state \<Rightarrow> u32 \<times> shm_state" where
  "put_param fresh msg st = (case msg of None \<Rightarrow> (0, st) | Some bs \<Rightarrow> (fresh, store fresh bs st))"

definition free_param :: "mem_layout \<Rightarrow> (nat \<Rightarrow> ipc_state \<Rightarrow> ipc_state) \<Rightarrow> u32 \<Rightarrow> shm_state \<Rightarrow> shm_state option" where
  "free_param ml env p st = (if p = 0 then Some st else xy_MemFree ml env False p st)"

definition send_shm_msg :: "mem_layout \<Rightarrow> (nat \<Rightarrow> ipc_state \<Rightarrow> ipc_state) \<Rightarrow> u32 \<Rightarrow> int \<Rightarrow> u8 list option \<Rightarrow> nat \<Rightarrow> shm_state \<Rightarrow>
    (xy_ret \<times> shm_state) option" where
  "send_shm_msg ml env fresh msg_id msg len st = do {
     let (p, st1) = put_param fresh msg st;
     (r, st2) \<leftarrow> shm_msg_write env False (shm_msg_bytes msg_id len (get_Dsp_Addr_from_ARM p)) ICM_XINYI_SHM_MSG st1;
     if r \<noteq> XY_OK then map_option (Pair XY_ERR) (free_param ml env p st2) else Some (XY_OK, st2)
   }"

text \<open>
  \<^verbatim>\<open>send_shm_msg_sync\<close> up to the wait for the answer, and from there on. The first part may end at once, or not
  begin while another caller holds the mutex; the second part needs the semaphore.
\<close>

datatype sync_step = Sync_Done xy_ret | Sync_Blocked | Sync_Waits

definition sync_start :: "mem_layout \<Rightarrow> (nat \<Rightarrow> ipc_state \<Rightarrow> ipc_state) \<Rightarrow> u32 \<Rightarrow> int \<Rightarrow> u8 list option \<Rightarrow> nat \<Rightarrow> shm_state \<Rightarrow>
    (sync_step \<times> shm_state) option" where
  "sync_start ml env fresh msg_id msg len st =
     (if \<not> dsp_loaded st then Some (Sync_Done XY_ERR, st)
      else if g_shmmsg_mux st then Some (Sync_Blocked, st)
      else do {
        let (p, st1) = put_param fresh msg (st\<lparr>g_shmmsg_mux := True\<rparr>);
        (r, st2) \<leftarrow> shm_msg_write env False (shm_msg_bytes msg_id len (get_Dsp_Addr_from_ARM p)) ICM_XINYI_SHM_MSG
                      (st1\<lparr>g_sync_shm_msg_id := msg_id\<rparr>);
        if r \<noteq> XY_OK then do {
          st3 \<leftarrow> free_param ml env p st2;
          Some (Sync_Done XY_ERR, st3\<lparr>g_sync_shm_msg_id := SHM_MSG_INVALID, g_shmmsg_mux := False\<rparr>)
        }
        else Some (Sync_Waits, st2)
      })"

definition sync_finish :: "mem_layout \<Rightarrow> (nat \<Rightarrow> ipc_state \<Rightarrow> ipc_state) \<Rightarrow> nat \<Rightarrow> shm_state \<Rightarrow> (u8 list \<times> shm_state) option option" where
  "sync_finish ml env rsp_buf_len st =
     (if g_shmmsg_sem st = 0 then Some None
      else do {
        xy_assert (\<not> rsp_buf_len < g_shmmsg_buf_len st);
        let st1 = st\<lparr>g_shmmsg_sem := g_shmmsg_sem st - 1, g_sync_shm_msg_id := SHM_MSG_INVALID\<rparr>;
        let rsp = load (g_shmmsg_buf st) (g_shmmsg_buf_len st) st;
        st2 \<leftarrow> free_param ml env (g_shmmsg_buf st) st1;
        Some (Some (rsp, st2\<lparr>g_shmmsg_buf := 0, g_shmmsg_buf_len := 0, g_shmmsg_mux := False\<rparr>))
      })"

fun find_proc :: "int \<Rightarrow> (int \<times> (u8 list \<Rightarrow> int)) list \<Rightarrow> (u8 list \<Rightarrow> int) option" where
  "find_proc n [] = None"
| "find_proc n ((k, f) # fs) = (if k = n then Some f else find_proc n fs)"

definition regist_rcved_msg_callback :: "int \<Rightarrow> (u8 list \<Rightarrow> int) \<Rightarrow> shm_state \<Rightarrow> shm_state" where
  "regist_rcved_msg_callback msg_id f st = st\<lparr>g_shmmsg_proc_base := g_shmmsg_proc_base st @ [(msg_id, f)]\<rparr>"

definition rcv_shm_msg_process :: "mem_layout \<Rightarrow> (nat \<Rightarrow> ipc_state \<Rightarrow> ipc_state) \<Rightarrow> u32 \<Rightarrow> u8 list \<Rightarrow> shm_state \<Rightarrow> (int \<times> shm_state) option" where
  "rcv_shm_msg_process ml env fresh rcv_buf st = do {
     let msg_id = sint (of_le32 rcv_buf);
     let len = unat (of_le32 (drop 4 rcv_buf));
     (p, st1) \<leftarrow> zero_cp_transfer ml env fresh (of_le32 (drop 8 rcv_buf)) len st;
     if g_sync_shm_msg_id st1 = msg_id then do {
       xy_assert (is_SRAM_addr p);
       Some (0, st1\<lparr>g_shmmsg_buf := p, g_shmmsg_buf_len := len, g_shmmsg_sem := g_shmmsg_sem st1 + 1\<rparr>)
     }
     else
       (let free = (\<lambda>r s. if p = 0 then Some (r, s) else map_option (Pair r) (xy_MemFree ml env True p s)) in
        case find_proc msg_id (g_shmmsg_proc_base st1) of
          None \<Rightarrow> free 0 st1
        | Some f \<Rightarrow> free (f (load p len st1)) (shm_emit (Callback msg_id (load p len st1)) st1))
   }"

section \<open>The task of the channel\<close>

text \<open>
  One message: its kind and its bytes. \<open>g_shmmem\<close> is the request of the M3 core for memory of the DSP, which is not used.
\<close>

definition zero_copied :: "mem_layout \<Rightarrow> (nat \<Rightarrow> ipc_state \<Rightarrow> ipc_state) \<Rightarrow> u32 \<Rightarrow> u8 list \<Rightarrow> shm_state \<Rightarrow> (u32 \<times> u8 list \<times> shm_state) option" where
  "zero_copied ml env fresh bs st = do {
     let len = unat (of_le32 bs);
     (p, st1) \<leftarrow> zero_cp_transfer ml env fresh (of_le32 (drop 4 bs)) len st;
     Some (p, load p len st1, st1)
   }"

text \<open>A packet comes with \<^verbatim>\<open>struct ipdata_info\<close>, whose last fields are the length, of two bytes, and the address.\<close>

definition ip_received :: "mem_layout \<Rightarrow> (nat \<Rightarrow> ipc_state \<Rightarrow> ipc_state) \<Rightarrow> u32 \<Rightarrow> u8 list \<Rightarrow> shm_state \<Rightarrow> shm_state option" where
  "ip_received ml env fresh bs st = do {
     let len = unat (bs ! 6) + 256 * unat (bs ! 7);
     (p, st1) \<leftarrow> zero_cp_transfer ml env fresh (of_le32 (drop 8 bs)) len st;
     Some (shm_emit (Ip_Packet (take 6 bs) (load p len st1)) st1)
   }"

definition icm_dispatch :: "mem_layout \<Rightarrow> (nat \<Rightarrow> ipc_state \<Rightarrow> ipc_state) \<Rightarrow> u32 \<Rightarrow> u32 \<Rightarrow> u8 list \<Rightarrow> shm_state \<Rightarrow> shm_state option" where
  "icm_dispatch ml env fresh flag bs st =
     (if flag = ICM_LPM then Some (shm_emit (Lpm_Msg bs) st)
      else if flag = ICM_AT then map_option (\<lambda>(p, d, st1). shm_emit (At_From_Dsp d) st1) (zero_copied ml env fresh bs st)
      else if flag = ICM_FREE then do {
        xy_assert (length bs = 4);
        xy_MemFree ml env True (get_ARM_Addr_from_Dsp (of_le32 bs)) st
      }
      else if flag = ICM_SHMMEM_ALLOC then shmmem_malloc_msg_process env fresh st
      else if flag = ICM_SHMMEM_GIVE then Some (shm_emit (Shmmem_Give (of_le32 bs)) st)
      else if flag = ICM_IPDATA then ip_received ml env fresh bs st
      else if flag = ICM_SOCKPROXY then map_option (\<lambda>(p, d, st1). shm_emit (Sock_Proxy d) st1) (zero_copied ml env fresh bs st)
      else if flag = ICM_SMARTCARDPROXY then do {
        (p, d, st1) \<leftarrow> zero_copied ml env fresh bs st;
        xy_MemFree ml env True p (shm_emit (Smartcard_Proxy d) st1)
      }
      else if flag = ICM_FLASHWRT_NOTICE then Some (shm_emit Flashwrt_Notice st)
      else if flag = ICM_XINYI_SHM_MSG then map_option snd (rcv_shm_msg_process ml env fresh bs st)
      else if flag = ICM_PS_SHM_MSG then map_option (\<lambda>(p, d, st1). shm_emit (Atc_Ap d) st1) (zero_copied ml env fresh bs st)
      else None)"

end
