(* ===== verification/Shm_Msg_Spec.thy ===== *)
theory Shm_Msg_Spec
  imports Shm_Msg
begin

text \<open>
  What the messages between the cores promise: addresses translate back, a message that is not dropped is queued
  exactly once as soon as there is room, a request gets the answer with its number; and what an answer that comes twice
  or empty does.
\<close>

section \<open>Addresses\<close>

lemmas addr_arith = word_le_nat_alt word_less_nat_alt

text \<open>
  C39: Every address below 0x50000000, which is all the memory the M3 core has of its own, comes back unchanged from the
  translation to the other core and back.
\<close>

theorem addr_roundtrip:
  assumes "a < 0x50000000"
  shows "get_ARM_Addr_from_Dsp (get_Dsp_Addr_from_ARM a) = a"
proof -
  have a: "unat a < 0x50000000" using assms by (simp add: word_less_nat_alt)
  have add: "unat (a + c) = unat a + unat c" if "unat c < 0x80000000" for c :: u32
    using a that by (intro unat_plus_if' [THEN trans]) simp
  consider (flash) "FLASH_BASE \<le> a" "a < FLASH_BASE + FLASH_LENGTH"
    | (sram) "SRAM_BASE \<le> a" "a < SRAM_BASE + SRAM_LENGTH"
    | (backup) "BACKUP_MEM_BASE \<le> a" "a < BACKUP_MEM_BASE + BACKUP_MEM_SIZE"
    | (aes) "AES_START \<le> a" "a < AES_START + AES_LENGTH"
    | (other) "get_Dsp_Addr_from_ARM a = a"
    unfolding get_Dsp_Addr_from_ARM_def by argo
  then show ?thesis
  proof cases
    case flash
    then show ?thesis by (simp add: get_Dsp_Addr_from_ARM_def get_ARM_Addr_from_Dsp_def addr_arith add)
  next
    case sram
    then show ?thesis by (simp add: get_Dsp_Addr_from_ARM_def get_ARM_Addr_from_Dsp_def addr_arith add)
  next
    case backup
    then show ?thesis by (simp add: get_Dsp_Addr_from_ARM_def get_ARM_Addr_from_Dsp_def addr_arith add)
  next
    case aes
    then show ?thesis by (simp add: get_Dsp_Addr_from_ARM_def get_ARM_Addr_from_Dsp_def addr_arith add)
  next
    case other
    then show ?thesis using a by (simp add: get_ARM_Addr_from_Dsp_def addr_arith)
  qed
qed

theorem addr_roundtrip_witness: "get_ARM_Addr_from_Dsp (get_Dsp_Addr_from_ARM 0x2001C000) = 0x2001C000"
  by (rule addr_roundtrip) simp

section \<open>Writing\<close>

text \<open>The other core only takes messages from the ring.\<close>

definition only_reads :: "(nat \<Rightarrow> ipc_state \<Rightarrow> ipc_state) \<Rightarrow> bool" where
  "only_reads env \<longleftrightarrow> (\<forall>n s q. sender_ok 1 s \<longrightarrow> send_queue 1 s = Some q \<longrightarrow>
     sender_ok 1 (env n s) \<and> (\<exists>k. send_queue 1 (env n s) = Some (drop k q)))"

text \<open>Before attempt \<open>n\<close> it has made room.\<close>

definition makes_room :: "(nat \<Rightarrow> ipc_state \<Rightarrow> ipc_state) \<Rightarrow> nat \<Rightarrow> T_IpcMsg_Msg \<Rightarrow> bool" where
  "makes_room env n m \<longleftrightarrow> (\<forall>s. sender_ok 1 s \<longrightarrow> Is_Ringbuf_ChFreeSpace (RingBuf_send (g_IpcMsg_ChInfo (env n s) ! 1)) (frame_size (msg_len m)))"

definition must_arrive :: "bool \<Rightarrow> T_IpcMsg_Msg \<Rightarrow> bool" where
  "must_arrive icm m \<longleftrightarrow> \<not> is_dropped_service m \<and> \<not> (icm \<and> msg_flag m = ICM_FREE)"

definition queued :: "(u16 \<times> u8 list) list \<Rightarrow> T_IpcMsg_Msg \<Rightarrow> shm_state \<Rightarrow> shm_state \<Rightarrow> bool" where
  "queued q m st st' \<longleftrightarrow> st' = st\<lparr>ipc := ipc st'\<rparr> \<and> sender_ok 1 (ipc st') \<and> (\<exists>k. send_queue 1 (ipc st') = Some (drop k q @ [msg_view m]))"

lemma sint_len:
  assumes "msg_ok m"
  shows "0 \<le> sint (msg_len m)"
proof -
  have "unat (msg_len m) < 65536" using assms by (simp add: msg_ok_def)
  then have "uint (msg_len m) < 2147483648" unfolding uint_nat by linarith
  moreover have "- (2 ^ 31) \<le> uint (msg_len m)" by (rule order_trans [of _ 0]) simp_all
  ultimately have "signed_take_bit 31 (uint (msg_len m)) = uint (msg_len m)" by (intro signed_take_bit_int_eq_self) simp_all
  then show ?thesis by (simp add: sint_uint)
qed

lemma attempt:
  assumes "only_reads env" and "sender_ok 1 (ipc st)" and "send_queue 1 (ipc st) = Some q" and "msg_ok m" and "chID m = 1"
  obtains (written) s where "write_loop env icm m n st = Some (XY_OK, st\<lparr>ipc := s\<rparr>)" and "queued q m st (st\<lparr>ipc := s\<rparr>)"
  | (full) s k where "IpcMsg_Write m (env n (ipc st)) = Some (-1, s)" and "sender_ok 1 s" and "send_queue 1 s = Some (drop k q)"
      and "\<not> Is_Ringbuf_ChFreeSpace (RingBuf_send (g_IpcMsg_ChInfo (env n (ipc st)) ! 1)) (frame_size (msg_len m))"
proof -
  obtain k where e: "sender_ok 1 (env n (ipc st))" "send_queue 1 (env n (ipc st)) = Some (drop k q)"
    using assms(1-3) unfolding only_reads_def by blast
  let ?free = "Is_Ringbuf_ChFreeSpace (RingBuf_send (g_IpcMsg_ChInfo (env n (ipc st)) ! 1)) (frame_size (msg_len m))"
  obtain s where s: "IpcMsg_Write m (env n (ipc st)) = Some (if ?free then msg_len m else -1, s)" "sender_ok 1 s"
    "send_queue 1 s = Some (if ?free then drop k q @ [msg_view m] else drop k q)"
    using IpcMsg_Write_cases [OF e(1) assms(5,4) e(2)] by blast
  show thesis
  proof (cases ?free)
    case True
    have "write_loop env icm m n st = Some (XY_OK, st\<lparr>ipc := s\<rparr>)"
      using s(1) True sint_len [OF assms(4)] by (simp add: write_loop.simps)
    moreover have "queued q m st (st\<lparr>ipc := s\<rparr>)" using s(2,3) True by (auto simp: queued_def)
    ultimately show thesis by (rule written)
  next
    case False
    then show thesis using full [of s k] s by simp
  qed
qed

lemma write_loop_full:
  assumes "IpcMsg_Write m (env n (ipc st)) = Some (-1, s)" and "must_arrive icm m"
  shows "write_loop env icm m n st = (if n + 1 > 200 then None else write_loop env icm m (n + 1) (st\<lparr>ipc := s\<rparr>))"
  using assms by (subst write_loop.simps) (auto simp: must_arrive_def is_log_service_def is_dropped_service_def)

lemma write_loop_delivers:
  assumes "only_reads env" and "msg_ok m" and "chID m = 1" and "must_arrive icm m" and "makes_room env r m" and "r \<le> 200"
  shows "sender_ok 1 (ipc st) \<Longrightarrow> send_queue 1 (ipc st) = Some q \<Longrightarrow> n \<le> r \<Longrightarrow>
    \<exists>s. write_loop env icm m n st = Some (XY_OK, st\<lparr>ipc := s\<rparr>) \<and> queued q m st (st\<lparr>ipc := s\<rparr>)"
proof (induction "r - n" arbitrary: n st q)
  case 0
  then have "n = r" by simp
  with 0 show ?case
    by (cases rule: attempt [OF assms(1) 0(2,3) assms(2,3), of icm n]) (use assms(5) 0(2) in \<open>auto simp: makes_room_def\<close>)
next
  case (Suc d)
  show ?case
  proof (cases rule: attempt [OF assms(1) Suc(3,4) assms(2,3), of icm n])
    case (1 s)
    then show ?thesis by blast
  next
    case full: (2 s k)
    have n: "n + 1 \<le> r" using Suc(2) by simp
    have "\<exists>s'. write_loop env icm m (n + 1) (st\<lparr>ipc := s\<rparr>) = Some (XY_OK, st\<lparr>ipc := s\<rparr>\<lparr>ipc := s'\<rparr>) \<and>
        queued (drop k q) m (st\<lparr>ipc := s\<rparr>) (st\<lparr>ipc := s\<rparr>\<lparr>ipc := s'\<rparr>)"
      using Suc(1) [of "n + 1" "st\<lparr>ipc := s\<rparr>" "drop k q"] Suc(2) full(2,3) n by simp
    then show ?thesis
      using write_loop_full [of m env n st s icm] full(1) assms(4) n assms(6) by (auto simp: queued_def)
  qed
qed

text \<open>A log record is dropped at the first attempt that finds no room.\<close>

lemma log_dropped_at_once:
  assumes "IpcMsg_Write m (env n (ipc st)) = Some (-1, s)" and "is_log_service m"
  shows "write_loop env icm m n st = Some (XY_ERR, st\<lparr>ipc := s, dropped_num := dropped_num st + 1\<rparr>)"
  using assms by (simp add: write_loop.simps is_log_service_def is_dropped_service_def)

definition demo_free :: "u8 list" where
  "demo_free = [0, 0, 1, 0x20]"

lemma mk_msg_facts:
  assumes "bs \<noteq> []" and "length bs < 2 ^ 16" and "ch = IpcMsg_Normal"
  shows "chID (mk_msg bs ty ch) = 1" and "msg_ok (mk_msg bs ty ch)" and "msg_view (mk_msg bs ty ch) = (ucast ty, bs)"
    and "msg_flag (mk_msg bs ty ch) = ty" and "msg_len (mk_msg bs ty ch) = of_nat (length bs)"
  using assms by (auto simp: mk_msg_def IpcMsg_Normal_def msg_ok_def msg_view_def unat_u32_of_nat intro!: nth_equalityI)

lemma shm_write_arrives:
  assumes "only_reads env" and "sender_ok 1 (ipc st)" and "send_queue 1 (ipc st) = Some q" and "dsp_loaded st"
    and "bs \<noteq> []" and "length bs < 2 ^ 16" and "must_arrive icm (mk_msg bs ty 1)"
    and "r \<le> 200" and "makes_room env r (mk_msg bs ty 1)"
  shows "\<exists>k s. shm_msg_write env icm bs ty st = Some (XY_OK, st\<lparr>ipc := s\<rparr>) \<and> sender_ok 1 s \<and>
    send_queue 1 s = Some (drop k q @ [(ucast ty, bs)])"
proof -
  note m = mk_msg_facts [OF assms(5,6), of 1 ty, unfolded IpcMsg_Normal_def, OF refl]
  obtain s where s: "write_loop env icm (mk_msg bs ty 1) 0 st = Some (XY_OK, st\<lparr>ipc := s\<rparr>)"
    "queued q (mk_msg bs ty 1) st (st\<lparr>ipc := s\<rparr>)"
    using write_loop_delivers [OF assms(1) m(2,1) assms(7,9,8,2,3), of 0] by auto
  have "\<not> flow_control_service (mk_msg bs ty 1) st"
    using assms(7) m(4) by (auto simp: must_arrive_def is_dropped_service_def flow_control_service_def)
  then have "shm_msg_write env icm bs ty st = Some (XY_OK, st\<lparr>ipc := s\<rparr>)"
    using s(1) assms(4,5) by (simp add: shm_msg_write_def shmmsg_write_channel_def IpcMsg_Normal_def IpcMsg_Channel_MAX_def)
  then show ?thesis using s(2) m(3) by (auto simp: queued_def)
qed

text \<open>
  C38: A message that may not be dropped is queued exactly once, behind what the other core has not yet read, as soon
  as the other core has made room before one of the 201 attempts; everything else stays as it is. Otherwise the chip
  is stopped.
\<close>

theorem shm_write_delivers:
  assumes "only_reads env" and "sender_ok 1 (ipc st)" and "send_queue 1 (ipc st) = Some q" and "dsp_loaded st"
    and "bs \<noteq> []" and "length bs < 2 ^ 16" and "must_arrive icm (mk_msg bs ty 1)"
    and "r \<le> 200" and "makes_room env r (mk_msg bs ty 1)"
  shows "\<exists>k s. shm_msg_write env icm bs ty st = Some (XY_OK, st\<lparr>ipc := s\<rparr>) \<and> sender_ok 1 s \<and>
    send_queue 1 s = Some (drop k q @ [(ucast ty, bs)])"
  using assms by (rule shm_write_arrives)

definition shm_ready :: shm_state where
  "shm_ready = \<lparr>ipc = ipc_ready, dsp_loaded = True, dropped_num = 0, g_flow_control_below_size = 256, proxy_frees = [],
     g_shmmsg_mux = False, g_shmmsg_sem = 0, g_shmmsg_buf = 0, g_shmmsg_buf_len = 0, g_sync_shm_msg_id = -1,
     g_shmmsg_proc_base = [], shm_out = []\<rparr>"

text \<open>A core that empties the ring: the two positions are set to the beginning.\<close>

definition reads_all :: "nat \<Rightarrow> ipc_state \<Rightarrow> ipc_state" where
  "reads_all n s = (if sender_ok 1 s then ipc_ready else s)"

lemma reads_all_ok: "only_reads reads_all" "bs \<noteq> [] \<Longrightarrow> length bs \<le> 16 \<Longrightarrow> makes_room reads_all 0 (mk_msg bs ty 1)"
proof -
  have "send_queue 1 ipc_ready = Some (drop (length q) q)" for q :: "(u16 \<times> u8 list) list" using ipc_ready_ok by simp
  then show "only_reads reads_all" using ipc_ready_ok unfolding only_reads_def reads_all_def by auto
  have "Is_Ringbuf_ChFreeSpace (RingBuf_send (g_IpcMsg_ChInfo ipc_ready ! 1)) (frame_size (of_nat n))" if "n \<in> set [1..<17]" for n
  proof -
    have "frame_size (of_nat n) = 32"
    proof -
      have "list_all (\<lambda>n. frame_size (of_nat n) = 32) [1..<17]" by code_simp
      then show ?thesis using that by (simp only: list_all_iff)
    qed
    then show ?thesis by (simp add: ipc_ready_send Is_Ringbuf_ChFreeSpace_def)
  qed
  then show "bs \<noteq> [] \<Longrightarrow> length bs \<le> 16 \<Longrightarrow> makes_room reads_all 0 (mk_msg bs ty 1)"
    unfolding makes_room_def reads_all_def by (simp add: mk_msg_def Suc_le_eq)
qed

theorem shm_write_delivers_witness:
  "\<exists>k s. shm_msg_write reads_all False demo_free ICM_FREE shm_ready = Some (XY_OK, shm_ready\<lparr>ipc := s\<rparr>) \<and> sender_ok 1 s \<and>
    send_queue 1 s = Some (drop k [] @ [(3, demo_free)])"
proof -
  have "must_arrive False (mk_msg demo_free ICM_FREE 1)" by (simp add: must_arrive_def is_dropped_service_def mk_msg_def)
  moreover have "sender_ok 1 (ipc shm_ready)" "send_queue 1 (ipc shm_ready) = Some []" "dsp_loaded shm_ready"
    using ipc_ready_ok by (simp_all add: shm_ready_def)
  ultimately show ?thesis
    using shm_write_delivers [of reads_all shm_ready "[]" demo_free False ICM_FREE 0] reads_all_ok by (simp add: demo_free_def)
qed

section \<open>Requests\<close>

text \<open>What a request and its answer go by.\<close>

definition regs :: "shm_state \<Rightarrow> bool \<times> nat \<times> u32 \<times> nat \<times> int" where
  "regs st = (g_shmmsg_mux st, g_shmmsg_sem st, g_shmmsg_buf st, g_shmmsg_buf_len st, g_sync_shm_msg_id st)"

lemma regs_cong [simp]:
  "regs (st\<lparr>ipc := s\<rparr>) = regs st" "regs (shm_emit e st) = regs st" "regs (store a bs st) = regs st"
  "regs (st\<lparr>dropped_num := n\<rparr>) = regs st" "regs (st\<lparr>proxy_frees := xs\<rparr>) = regs st"
  by (simp_all add: regs_def shm_emit_def store_def)

lemma write_loop_regs: "write_loop env icm m n st = Some (r, st') \<Longrightarrow> regs st' = regs st"
proof (induction env icm m n st rule: write_loop.induct)
  case (1 env icm m n st)
  from "1.prems" show ?case
    by (subst (asm) write_loop.simps)
      (auto simp: Let_def split: option.splits prod.splits if_splits dest!: "1.IH" [OF _ refl refl])
qed

lemma shm_msg_write_regs:
  assumes "shm_msg_write env icm bs ty st = Some (r, st')"
  shows "regs st' = regs st"
  using assms by (auto simp: shm_msg_write_def shmmsg_write_channel_def bind_eq_Some_conv split: if_splits dest: write_loop_regs)

lemma xy_MemFree_regs: "xy_MemFree ml env icm a st = Some st' \<Longrightarrow> regs st' = regs st"
  by (auto simp: xy_MemFree_def split: if_splits dest: shm_msg_write_regs)

lemma free_param_regs: "free_param ml env a st = Some st' \<Longrightarrow> regs st' = regs st"
  by (auto simp: free_param_def split: if_splits dest: xy_MemFree_regs)

lemma zero_cp_transfer_regs:
  "zero_cp_transfer ml env f p len st = Some (a, st') \<Longrightarrow> regs st' = regs st"
  "zero_cp_transfer ml env f p len st = Some (a, st') \<Longrightarrow>
     a = (if in_closed p DSP_HEAP_DRAM_START DSP_HEAP_DRAM_LEN then f else get_ARM_Addr_from_Dsp p)"
  by (auto simp: zero_cp_transfer_def split: if_splits dest!: xy_MemFree_regs)

definition msg_id_of :: "u8 list \<Rightarrow> int" where
  "msg_id_of bs = sint (of_le32 bs)"

lemma rcv_other:
  assumes "rcv_shm_msg_process ml env f bs st = Some (r, st')" and "msg_id_of bs \<noteq> g_sync_shm_msg_id st"
  shows "regs st' = regs st"
proof -
  obtain p st1 where p: "zero_cp_transfer ml env f (of_le32 (drop 8 bs)) (unat (of_le32 (drop 4 bs))) st = Some (p, st1)"
    using assms(1) by (auto simp: rcv_shm_msg_process_def bind_eq_Some_conv Let_def)
  have q: "regs st1 = regs st" by (rule zero_cp_transfer_regs(1) [OF p])
  then have "g_sync_shm_msg_id st1 \<noteq> msg_id_of bs" using assms(2) by (simp add: regs_def)
  then show ?thesis
    using assms(1) p q
    by (auto simp: rcv_shm_msg_process_def msg_id_of_def Let_def split: option.splits if_splits dest!: xy_MemFree_regs)
qed

text \<open>Messages one after the other, each with the address its data is copied to.\<close>

fun deliver :: "mem_layout \<Rightarrow> (nat \<Rightarrow> ipc_state \<Rightarrow> ipc_state) \<Rightarrow> (u32 \<times> u8 list) list \<Rightarrow> shm_state \<Rightarrow> shm_state option" where
  "deliver ml env [] st = Some st"
| "deliver ml env ((f, bs) # ms) st = Option.bind (rcv_shm_msg_process ml env f bs st) (\<lambda>(r, st1). deliver ml env ms st1)"

lemma deliver_other:
  "deliver ml env ms st = Some st' \<Longrightarrow> \<forall>(f, bs) \<in> set ms. msg_id_of bs \<noteq> g_sync_shm_msg_id st \<Longrightarrow> regs st' = regs st"
proof (induction ms arbitrary: st)
  case Nil
  then show ?case by simp
next
  case (Cons fb ms)
  obtain f bs where fb: "fb = (f, bs)" by (cases fb)
  obtain r st1 where st1: "rcv_shm_msg_process ml env f bs st = Some (r, st1)" "deliver ml env ms st1 = Some st'"
    using Cons.prems(1) by (auto simp: fb bind_eq_Some_conv)
  have "regs st1 = regs st" using rcv_other [OF st1(1)] Cons.prems(2) by (simp add: fb)
  moreover have "g_sync_shm_msg_id st1 = g_sync_shm_msg_id st" using calculation by (simp add: regs_def)
  ultimately show ?case using Cons.IH [OF st1(2)] Cons.prems(2) by simp
qed

lemma le32_inverse: "of_le32 (le32 w @ bs) = w"
proof -
  have "ucast (ucast w :: u8) OR push_bit 8 (ucast (ucast (drop_bit 8 w) :: u8)) OR
      push_bit 16 (ucast (ucast (drop_bit 16 w) :: u8)) OR push_bit 24 (ucast (ucast (drop_bit 24 w) :: u8)) = (w :: u32)"
  proof (rule bit_word_eqI)
    fix n assume "n < LENGTH(32)"
    then consider "n < 8" | "8 \<le> n" "n < 16" | "16 \<le> n" "n < 24" | "24 \<le> n" "n < 32" by fastforce
    then show "bit (ucast (ucast w :: u8) OR push_bit 8 (ucast (ucast (drop_bit 8 w) :: u8)) OR
      push_bit 16 (ucast (ucast (drop_bit 16 w) :: u8)) OR push_bit 24 (ucast (ucast (drop_bit 24 w) :: u8)) :: u32) n \<longleftrightarrow> bit w n"
      by cases (auto simp: bit_simps)
  qed
  then show ?thesis by (simp add: of_le32_def le32_def)
qed

lemma length_le32 [simp]: "length (le32 w) = 4"
  by (simp add: le32_def)

lemma shm_msg_fields:
  assumes "- (2 ^ 31) \<le> m" and "m < 2 ^ 31" and "n < 2 ^ 32"
  shows "msg_id_of (shm_msg_bytes m n p) = m" and "unat (of_le32 (drop 4 (shm_msg_bytes m n p))) = n"
    and "of_le32 (drop 8 (shm_msg_bytes m n p)) = p"
proof -
  have "signed_take_bit 31 m = m" by (rule signed_take_bit_int_eq_self [OF assms(1,2)])
  then have "sint (word_of_int m :: u32) = m" by (simp add: signed_of_int)
  then show "msg_id_of (shm_msg_bytes m n p) = m" by (simp add: msg_id_of_def shm_msg_bytes_def le32_inverse)
  show "unat (of_le32 (drop 4 (shm_msg_bytes m n p))) = n"
    using assms(3) by (simp add: shm_msg_bytes_def le32_inverse unat_of_nat)
  have "drop 8 (le32 a @ le32 b @ le32 p) = le32 p" for a b by simp
  then show "of_le32 (drop 8 (shm_msg_bytes m n p)) = p" using le32_inverse [of p "[]"] by (simp add: shm_msg_bytes_def)
qed

lemma rcv_answer:
  assumes "rcv_shm_msg_process ml env f bs st = Some (r, st')" and "msg_id_of bs = g_sync_shm_msg_id st"
  shows "regs st' = (g_shmmsg_mux st, g_shmmsg_sem st + 1,
      if in_closed (of_le32 (drop 8 bs)) DSP_HEAP_DRAM_START DSP_HEAP_DRAM_LEN then f else get_ARM_Addr_from_Dsp (of_le32 (drop 8 bs)),
      unat (of_le32 (drop 4 bs)), g_sync_shm_msg_id st)"
proof -
  obtain p st1 where p: "zero_cp_transfer ml env f (of_le32 (drop 8 bs)) (unat (of_le32 (drop 4 bs))) st = Some (p, st1)"
    using assms(1) by (auto simp: rcv_shm_msg_process_def bind_eq_Some_conv Let_def)
  note q = zero_cp_transfer_regs [OF p]
  then have "g_sync_shm_msg_id st1 = msg_id_of bs" using assms(2) by (simp add: regs_def)
  then have "st' = st1\<lparr>g_shmmsg_buf := p, g_shmmsg_buf_len := unat (of_le32 (drop 4 bs)), g_shmmsg_sem := g_shmmsg_sem st1 + 1\<rparr>"
    using assms(1) p by (auto simp: rcv_shm_msg_process_def msg_id_of_def bind_eq_Some_conv Let_def)
  then show ?thesis using q by (simp add: regs_def)
qed

lemma sync_start_regs:
  assumes "sync_start ml env f m msg len st = Some (Sync_Waits, st')"
  shows "regs st' = (True, g_shmmsg_sem st, g_shmmsg_buf st, g_shmmsg_buf_len st, m)"
proof -
  obtain p st1 where p: "put_param f msg (st\<lparr>g_shmmsg_mux := True\<rparr>) = (p, st1)" by (cases "put_param f msg (st\<lparr>g_shmmsg_mux := True\<rparr>)")
  then have q: "regs st1 = regs (st\<lparr>g_shmmsg_mux := True\<rparr>)" by (auto simp: put_param_def split: option.splits)
  obtain r where "shm_msg_write env False (shm_msg_bytes m len (get_Dsp_Addr_from_ARM p)) ICM_XINYI_SHM_MSG (st1\<lparr>g_sync_shm_msg_id := m\<rparr>) = Some (r, st')"
    using assms p by (auto simp: sync_start_def bind_eq_Some_conv split: if_splits)
  from shm_msg_write_regs [OF this] show ?thesis using q by (simp add: regs_def)
qed

text \<open>No request is under way.\<close>

definition idle :: "shm_state \<Rightarrow> bool" where
  "idle st \<longleftrightarrow> regs st = (False, 0, 0, 0, SHM_MSG_INVALID)"

definition demo_ml :: mem_layout where
  "demo_ml = \<lparr>heap_begin = 0x2001D000, heap_size = 0x43000, ext_pool = 0, ext_pool_len = 0\<rparr>"

lemma zero_cp_transfer_mapped:
  "zero_cp_transfer ml env f 0 n st = Some (0, st)" "zero_cp_transfer ml env f 0x50020000 n st = Some (0x20020000, st)"
  by (simp_all add: zero_cp_transfer_def in_closed_def get_ARM_Addr_from_Dsp_def addr_arith)

text \<open>A message without data that nobody has asked for.\<close>

lemma rcv_unknown:
  assumes "g_shmmsg_proc_base st = []" and "g_sync_shm_msg_id st \<noteq> 7"
  shows "rcv_shm_msg_process ml env f (shm_msg_bytes 7 0 0) st = Some (0, st)"
  using shm_msg_fields [of 7 0 0] assms by (simp add: rcv_shm_msg_process_def msg_id_of_def zero_cp_transfer_mapped Let_def)

lemma rcv_demo_answer:
  assumes "g_sync_shm_msg_id st = 5"
  shows "rcv_shm_msg_process ml env f (shm_msg_bytes 5 2 0x50020000) st = Some (0,
    st\<lparr>g_shmmsg_buf := 0x20020000, g_shmmsg_buf_len := 2, g_shmmsg_sem := g_shmmsg_sem st + 1\<rparr>)"
  using shm_msg_fields [of 5 2 "0x50020000"] assms
  by (simp add: rcv_shm_msg_process_def msg_id_of_def zero_cp_transfer_mapped is_SRAM_addr_def addr_arith Let_def)

lemma free_demo: "free_param demo_ml env 0x20020000 st = Some (shm_emit (Os_Free 0x20020000) st)"
  by (simp add: free_param_def xy_MemFree_def in_closed_def demo_ml_def get_ARM_Addr_from_Dsp_def addr_arith)

lemma sync_start_demo:
  assumes "\<not> g_shmmsg_mux st" and "sender_ok 1 (ipc st)" and "send_queue 1 (ipc st) = Some q" and "dsp_loaded st"
  shows "\<exists>s. sync_start demo_ml reads_all 0 m None 0 st = Some (Sync_Waits, st\<lparr>g_shmmsg_mux := True, g_sync_shm_msg_id := m, ipc := s\<rparr>) \<and>
    sender_ok 1 s \<and> (\<exists>q. send_queue 1 s = Some q)"
proof -
  have "must_arrive False (mk_msg (shm_msg_bytes m 0 0) ICM_XINYI_SHM_MSG 1)"
    by (simp add: must_arrive_def is_dropped_service_def mk_msg_def)
  moreover have "length (shm_msg_bytes m 0 0) = 12" "shm_msg_bytes m 0 0 \<noteq> []" by (simp_all add: shm_msg_bytes_def le32_def)
  ultimately obtain k s where "shm_msg_write reads_all False (shm_msg_bytes m 0 0) ICM_XINYI_SHM_MSG
      (st\<lparr>g_shmmsg_mux := True, g_sync_shm_msg_id := m\<rparr>) = Some (XY_OK, st\<lparr>g_shmmsg_mux := True, g_sync_shm_msg_id := m, ipc := s\<rparr>)"
    "sender_ok 1 s" "send_queue 1 s = Some (drop k q @ [(ucast ICM_XINYI_SHM_MSG, shm_msg_bytes m 0 0)])"
    using shm_write_arrives [of reads_all "st\<lparr>g_shmmsg_mux := True, g_sync_shm_msg_id := m\<rparr>" q "shm_msg_bytes m 0 0" False ICM_XINYI_SHM_MSG 0]
      reads_all_ok(1) reads_all_ok(2) [of "shm_msg_bytes m 0 0" ICM_XINYI_SHM_MSG] assms(2-4) by (auto simp del: One_nat_def)
  then show ?thesis
    using assms(1,4) by (auto simp: sync_start_def put_param_def get_Dsp_Addr_from_ARM_def addr_arith)
qed

lemma shm_ready_idle: "idle shm_ready" "sender_ok 1 (ipc shm_ready)" "send_queue 1 (ipc shm_ready) = Some []" "dsp_loaded shm_ready"
  "g_shmmsg_proc_base shm_ready = []"
  using ipc_ready_ok by (simp_all add: shm_ready_def idle_def regs_def)



text \<open>
  C40: When the other core answers twice before the caller is woken, the second answer counts for the next request,
  of whatever number: that request returns at once, without data, and its own answer is later taken for a message.
\<close>

theorem second_answer_ends_next_request:
  assumes "g_sync_shm_msg_id st1 = m" and "g_shmmsg_sem st1 = 0"
    and "rcv_shm_msg_process ml env f1 bs1 st1 = Some (r1, st2)" and "msg_id_of bs1 = m"
    and "rcv_shm_msg_process ml env f2 bs2 st2 = Some (r2, st3)" and "msg_id_of bs2 = m"
    and "sync_finish ml env rsp_len st3 = Some (Some (rsp, st4))"
    and "sync_start ml env f m2 msg len st4 = Some (Sync_Waits, st5)"
  shows "\<exists>st6. sync_finish ml env rsp_len2 st5 = Some (Some ([], st6))"
proof -
  have 2: "g_shmmsg_sem st2 = 1" "g_sync_shm_msg_id st2 = m"
    using rcv_answer [OF assms(3)] assms(1,2,4) by (simp_all add: regs_def)
  have 3: "g_shmmsg_sem st3 = 2" using rcv_answer [OF assms(5)] assms(6) 2 by (simp add: regs_def)
  obtain s where s: "free_param ml env (g_shmmsg_buf st3) (st3\<lparr>g_shmmsg_sem := 1, g_sync_shm_msg_id := SHM_MSG_INVALID\<rparr>) = Some s"
    "st4 = s\<lparr>g_shmmsg_buf := 0, g_shmmsg_buf_len := 0, g_shmmsg_mux := False\<rparr>"
    using assms(7) 3 by (auto simp: sync_finish_def bind_eq_Some_conv Let_def)
  have "g_shmmsg_sem st4 = 1" "g_shmmsg_buf st4 = 0" "g_shmmsg_buf_len st4 = 0"
    using free_param_regs [OF s(1)] s(2) by (simp_all add: regs_def)
  then have "g_shmmsg_sem st5 = 1" "g_shmmsg_buf st5 = 0" "g_shmmsg_buf_len st5 = 0"
    using sync_start_regs [OF assms(8)] by (simp_all add: regs_def)
  then show ?thesis by (simp add: sync_finish_def free_param_def load_def)
qed

theorem second_answer_ends_next_request_witness:
  "\<exists>st4 st5 st6. sync_start demo_ml reads_all 0 6 None 0 st4 = Some (Sync_Waits, st5) \<and>
     sync_finish demo_ml reads_all 2 st5 = Some (Some ([], st6))"
proof -
  define st1 where "st1 = shm_ready\<lparr>g_shmmsg_mux := True, g_sync_shm_msg_id := 5\<rparr>"
  have 1: "g_sync_shm_msg_id st1 = 5" "g_shmmsg_sem st1 = 0" by (simp_all add: st1_def shm_ready_def)
  define st2 where "st2 = st1\<lparr>g_shmmsg_buf := 0x20020000, g_shmmsg_buf_len := 2, g_shmmsg_sem := 1\<rparr>"
  define st3 where "st3 = st1\<lparr>g_shmmsg_buf := 0x20020000, g_shmmsg_buf_len := 2, g_shmmsg_sem := 2\<rparr>"
  have 2: "rcv_shm_msg_process demo_ml reads_all 0 (shm_msg_bytes 5 2 0x50020000) st1 = Some (0, st2)"
    using rcv_demo_answer [OF 1(1)] 1 by (simp add: st2_def)
  have 3: "rcv_shm_msg_process demo_ml reads_all 0 (shm_msg_bytes 5 2 0x50020000) st2 = Some (0, st3)"
    using rcv_demo_answer [of st2] 1 by (simp add: st2_def st3_def)
  define st4 where "st4 = (shm_emit (Os_Free 0x20020000) (st3\<lparr>g_shmmsg_sem := 1, g_sync_shm_msg_id := -1\<rparr>))\<lparr>
    g_shmmsg_buf := 0, g_shmmsg_buf_len := 0, g_shmmsg_mux := False\<rparr>"
  have 4: "sync_finish demo_ml reads_all 2 st3 = Some (Some (load 0x20020000 2 st3, st4))"
    by (simp add: sync_finish_def st3_def st4_def free_demo Let_def)
  have "\<not> g_shmmsg_mux st4" "sender_ok 1 (ipc st4)" "send_queue 1 (ipc st4) = Some []" "dsp_loaded st4"
    using shm_ready_idle(2-4) by (simp_all add: st4_def st3_def st1_def shm_emit_def)
  then obtain st5 where 5: "sync_start demo_ml reads_all 0 6 None 0 st4 = Some (Sync_Waits, st5)"
    using sync_start_demo by blast
  have "msg_id_of (shm_msg_bytes 5 2 0x50020000) = 5" by (rule shm_msg_fields) simp_all
  then show ?thesis using second_answer_ends_next_request [OF 1 2 _ 3 _ 4 5] 5 by blast
qed

text \<open>
  An answer without data, which carries the address NULL, stops the chip: the address is checked to lie in the SRAM before
  the length is looked at, although the requester has a branch for an empty answer.
\<close>

lemma empty_answer_faults:
  assumes "g_sync_shm_msg_id st = m" and "- (2 ^ 31) \<le> m" and "m < 2 ^ 31"
  shows "rcv_shm_msg_process ml env f (shm_msg_bytes m 0 0) st = None"
proof -
  note fields = shm_msg_fields [OF assms(2,3), of 0 0]
  have "zero_cp_transfer ml env f 0 0 st = Some (0, st)"
    by (simp add: zero_cp_transfer_def in_closed_def get_ARM_Addr_from_Dsp_def addr_arith)
  then show ?thesis
    using fields assms(1) by (simp add: rcv_shm_msg_process_def msg_id_of_def is_SRAM_addr_def addr_arith Let_def)
qed

end
