(* ===== verification/Spec2Isabelle.thy ===== *)
theory Spec2Isabelle
  imports At_Params_Spec At_Com At_Api Ipc_Msg Rtc_Api Work_Lock Ftl_Crash Atc_Check_Spec Atc_Time
    Passthrough_Run At_Farps_Spec At_Ctl_Spec At_Socket_Props Shm_Msg_Spec
begin

text \<open>
  A verification library for the XY1100 NB-IoT firmware (\<^verbatim>\<open>src/xinyi\<close>), the application-core
  (ARM Cortex-M3) side of a two-core chip.

  The program. A host (an external MCU or the user's own task) sends AT command lines. The AT
  layer (\<^verbatim>\<open>SYSAPP/at_ctrl\<close>) recognises them, splits off prefix and parameters and calls the handler
  of the command; replies travel back as text. Commands for the protocol stack, and everything
  else the two cores exchange, go through ring buffers in shared memory (\<^verbatim>\<open>DRIVERS/IpcMsg\<close>). Time is
  kept by the always-on RTC block: the firmware converts between its calendar registers and
  milliseconds, keeps a list of timers and programs the one hardware alarm for the earliest
  (\<^verbatim>\<open>SYSAPP/rtc_tmr\<close>, \<^verbatim>\<open>DRIVERS/driverlib/src/utc.c\<close>). Work locks (\<^verbatim>\<open>SYSAPP/at_cmd/src/at_worklock.c\<close>)
  decide when the chip may go to deep sleep, from which an RTC alarm wakes it. Settings that must survive
  a loss of power are kept in a wear-levelling store in flash (\<^verbatim>\<open>SYSAPP/flash\<close>).

  The theories, in the order they build on each other:

  \<^item> \<open>XY_Prelude\<close>: integer types, return codes, \<open>xy_assert\<close>, collections of facts, generic lemmas.
  \<^item> \<open>C_Library\<close>: memory as a list of characters, C strings, \<^verbatim>\<open>strchr\<close>, \<^verbatim>\<open>strtol\<close>, decimal printing.
  \<^item> \<open>At_Utils\<close>: \<^verbatim>\<open>at_utils.c\<close> (comparison, search, hexadecimal numbers, reply recognition, escapes).
  \<^item> \<open>At_Values\<close>: one format item and one parameter value (\<^verbatim>\<open>get_val_limit\<close>, \<^verbatim>\<open>parase_type_val*\<close>).
  \<^item> \<open>At_Params\<close>: the four scanners of \<^verbatim>\<open>at_com.c\<close> and their entry points of \<^verbatim>\<open>at_api.c\<close> on the command
    buffer, which they cut with NULs and must put back; the locale \<open>line_scanner\<close> proves this once
    for every value parser that leaves the buffer alone.
  \<^item> \<open>At_Params_Spec\<close>: the specification of the scanner on fields, the refinement, and what follows
    for printed numbers, quoted text and bounded numbers.
  \<^item> \<open>At_Com\<close>, \<open>At_Api\<close>: command prefix and type, the standby counter; replies and raw text parameters.
  \<^item> \<open>Ipc_Ringbuf\<close>, \<open>Ipc_Msg\<close>: the byte ring of \<^verbatim>\<open>ipcmsg_ringbuf.c\<close> and the message channels of
    \<^verbatim>\<open>ipcmsg_drv.c\<close>; the abstract state is a queue of messages, the locale \<open>fifo_channel\<close> is its contract.
  \<^item> \<open>Rtc_Calendar\<close>, \<open>Utc_Regs\<close>, \<open>Rtc_Timer\<close>, \<open>Rtc_Api\<close>: calendar arithmetic, the digit registers of
    the clock and the alarm, the timer list, the wall clock and the user's timer interface.
  \<^item> \<open>Work_Lock\<close>: the lock counters, the delay lock and its timer, \<^verbatim>\<open>AT+WORKLOCK\<close>.
  \<^item> \<open>XY_Utils\<close>: \<^verbatim>\<open>xy_utils.c\<close> (checksum, hexadecimal text, byte swap, random numbers).
  \<^item> \<open>Nor_Flash\<close>, \<open>Ftl_Store\<close>: the flash device with the driver layer of \<^verbatim>\<open>flash_adapt.c\<close>, and the store of
    \<^verbatim>\<open>xy_flash.c\<close>. \<open>Ftl_Safety\<close> relates it to its abstract state, the bytes of the current record, and
    \<open>Ftl_Crash\<close> says what loss of power, damaged pages and a low battery do to it.
  \<^item> \<open>Atc_Check\<close>, \<open>Atc_Check_Spec\<close>, \<open>Atc_Time\<close>: the adapter to the protocol stack (\<^verbatim>\<open>atc_ps_com.c\<close>): its readers of
    command parameters, and the conversion of network time to local time.

  \<^item> \<open>Passthrough\<close>: transparent transmission (\<^verbatim>\<open>xy_passthrough.c\<close>, \<^verbatim>\<open>at_passthrough.c\<close>);
    \<open>Passthrough_Quit\<close> is about the quit symbol, \<open>Passthrough_Spec\<close> about what the services are given,
    \<open>Passthrough_Run\<close> about runs of receiver, task and commands.
  \<^item> \<open>At_Farps\<close>: how lines are put together from what the UART delivers (\<^verbatim>\<open>at_farps_channel.c\<close>);
    \<open>At_Farps_Lines\<close> is about one line, \<open>At_Farps_Spec\<close> about streams: the receiver refines a machine on lines.
  \<^item> \<open>At_Ctl\<close>: the AT control task (\<^verbatim>\<open>at_ctl.c\<close>), the contexts it works on (\<^verbatim>\<open>at_context.c\<close>), the writers to the port
    and the protocol stack, and the requests of the firmware itself (\<^verbatim>\<open>at_api.c\<close>). Contexts point at each other and may
    be freed, so they live in a store under addresses. The handlers of the commands are parameters.
    \<open>At_Ctl_Spec\<close> is about commands on their way, a busy stack and requests that time out.
  \<^item> \<open>At_Socket\<close>: the contexts of the sockets, the packets whose delivery is not known yet, the reports of the network and
    the receiver thread (\<^verbatim>\<open>at_socket_context.c\<close>, \<^verbatim>\<open>at_socket_rcv.c\<close>); \<open>At_Socket_Cmd\<close>: the \<^verbatim>\<open>AT+QI\<close> commands
    (\<^verbatim>\<open>at_socket_bc26.c\<close>). What lwIP answers is an argument. \<open>At_Socket_Spec\<close> defines when a table and its list of packets
    are in order, \<open>At_Socket_Run\<close> shows operation by operation that they stay so, and \<open>At_Socket_Props\<close> holds the
    properties and what happens to a host or network that does not keep to the rules.
  \<^item> \<open>Shm_Msg\<close>: messages between the cores above the rings (\<^verbatim>\<open>SYSAPP/shm_msg\<close>, the addresses and \<^verbatim>\<open>xy_MemFree\<close> of
    \<^verbatim>\<open>xy_mem.c\<close>): writing with retries, data passed by address, requests that wait for an answer, the task of the channel;
    what the other core does between two attempts is an argument. \<open>Shm_Msg_Spec\<close> is about delivery and answers.

  Conventions. Integers of the C code are words of their width; \<^verbatim>\<open>int\<close> and \<^verbatim>\<open>long\<close> have 32 bits.
  Counters that only count calls are exact integers. A pointer into a buffer is an index into its
  memory; a string handed over by address is its characters up to the NUL. \<open>None\<close> is a failed
  \<^verbatim>\<open>xy_assert\<close>, a dereferenced NULL, or an access the C language leaves undefined. Loops are recursive
  functions with a termination proof; of the first components only \<open>rtc_event_proc\<close>, whose callbacks may add timers, takes
  fuel, and one more than the number of due timers is shown to be enough. The build modelled is
  the one that \<^verbatim>\<open>feature.mk\<close> selects: \<^verbatim>\<open>VER_QUCTL260\<close> (\<^verbatim>\<open>ATMG_FORMAT\<close>) on, the other Quectel variants, Tencent and BLE off,
  \<^verbatim>\<open>INTERCORE_DEBUG\<close> off, no RTC slots for the other core. Run-time settings (the NV flags, \<^verbatim>\<open>cmee_mode\<close>, the clock calibration) are arguments.
  Mutexes and critical sections that one function takes and releases are left out, except the
  write mutex of a channel, whose release on every path is part of the refinement. The UTC driver is
  modelled from its source, though the build links the ROM copy of the same functions. What the other
  core does with a flash message is a parameter; where a theorem needs it to erase and program the
  sector it was asked to (\<open>dsp_flash_ok\<close>), it says so. The search for the current page takes fuel: one more than
  the number of sectors is shown to be enough while the battery is good, and no amount when it is low.

  What is shown. The receiver of the AT port serves the lines of the stream, whatever pieces they arrive in, for
  a host that keeps to the rules; two theorems show what breaks outside them. A command for the protocol stack is
  sent once and its replies reach the port in order; a busy stack is tried 41 times; three theorems show what goes wrong for
  the requests of the firmware. The scanners restore the buffer and compute the field-wise specification; lists of
  numbers round-trip. The rings deliver every accepted message in order, stay inside their memory
  and refine a queue. The calendar conversions are exact up to a proved limit and inverse to each other; the registers
  return what was put in; no timer is overslept and expiry processing ends with nothing due. The
  work locks keep their invariant in every reachable state, and sleep is permitted exactly by the
  release of the last lock. Reads and writes of the flash store refine an abstract record, and a loss of
  power during a write leaves the old or the new one; three theorems show where the store loses data or
  hangs. The parameter readers of the protocol-stack adapter are exact within the figures they are given
  and bounded in what they store, local time is right but for two moments at the end of a year, and
  theorems show both exceptions. Transparent transmission delivers exactly the bytes asked for, or the whole
  stream up to the quit symbol, however the UART cuts it; theorems show which pieces defeat the search for the symbol
  and what surplus data does. The sockets never fault and settle every packet exactly once for a host that numbers its
  sockets by their slots and opens them one after the other; theorems show what other hosts, cumulative
  acknowledgements and closing under the transparent mode do. A message between the cores is queued once as soon as
  there is room, addresses translate back and forth, and a request gets its own answer unless the other core answers twice.

  Not modelled: the \<^verbatim>\<open>AT+NSO\<close> socket commands and the backup of UDP sockets over deep sleep, interrupt handlers, the creation of tasks and queues, the handlers of most AT commands, DMA and
  register sequences of the drivers, the diagnostic log, system start, the network clients and all vendored
  code (FreeRTOS, lwIP, mbedTLS, littlefs, wakaama, cJSON); the protocol stack is a binary.
\<close>

end
